(* ===== verification/Prelude.thy ===== *)
theory Prelude
  imports Complex_Main
begin

text \<open>
  Shared vocabulary of the development: results of fallible code, the \<open>for ... of\<close> loop whose
  body may throw, look-ups and updates of table rows by key, and the hint collections the
  component theories fill (\<open>js_bounds\<close>, \<open>row_simps\<close>, \<open>frame\<close>).
\<close>

named_theorems js_bounds "error bounds of binary64 arithmetic"
named_theorems row_simps "look-up and update of table rows"
named_theorems frame "tables an operation leaves alone"

section \<open>Results\<close>

text \<open>
  A JavaScript function that may throw is a function into a sum: \<open>Inl\<close> is the thrown error,
  \<open>Inr\<close> the returned value. \<open>rbind\<close> is the sequencing of \<open>await\<close>ed calls: the first error
  leaves the block.
\<close>

fun rbind :: "'e + 'a \<Rightarrow> ('a \<Rightarrow> 'e + 'b) \<Rightarrow> 'e + 'b" where
  "rbind (Inl e) f = Inl e"
| "rbind (Inr x) f = f x"

lemma rbind_Inr_iff [simp]:
  "rbind m f = Inr y \<longleftrightarrow> (\<exists>x. m = Inr x \<and> f x = Inr y)"
  by (cases m) auto

lemma rbind_Inl_iff:
  "rbind m f = Inl e \<longleftrightarrow> m = Inl e \<or> (\<exists>x. m = Inr x \<and> f x = Inl e)"
  by (cases m) auto

lemma rbind_cong [fundef_cong]:
  "m = m' \<Longrightarrow> (\<And>x. m' = Inr x \<Longrightarrow> f x = g x) \<Longrightarrow> rbind m f = rbind m' g"
  by (cases m') auto

lemma rbind_assoc: "rbind (rbind m f) g = rbind m (\<lambda>x. rbind (f x) g)"
  by (cases m) auto

section \<open>Loops over rows\<close>

text \<open>\<open>for (const x of xs) { ... }\<close> with a body that changes the state or throws.\<close>

fun for_each :: "('a \<Rightarrow> 's \<Rightarrow> 'e + 's) \<Rightarrow> 'a list \<Rightarrow> 's \<Rightarrow> 'e + 's" where
  "for_each f [] s = Inr s"
| "for_each f (x # xs) s = rbind (f x s) (for_each f xs)"

lemma for_each_append:
  "for_each f (xs @ ys) s = rbind (for_each f xs s) (for_each f ys)"
proof (induction xs arbitrary: s)
  case Nil
  show ?case by simp
next
  case (Cons x xs)
  then show ?case by (cases "f x s") auto
qed

lemma for_each_invariant:
  assumes "for_each f xs s = Inr s'" and "P s"
    and "\<And>x t t'. x \<in> set xs \<Longrightarrow> P t \<Longrightarrow> f x t = Inr t' \<Longrightarrow> P t'"
  shows "P s'"
  using assms
proof (induction xs arbitrary: s)
  case Nil
  then show ?case by simp
next
  case (Cons x xs)
  from Cons.prems(1) obtain t where t: "f x s = Inr t" "for_each f xs t = Inr s'"
    by auto
  from Cons.prems(3)[OF _ Cons.prems(2) t(1)] have "P t" by simp
  then show ?case
    by (rule Cons.IH[OF t(2)]) (rule Cons.prems(3), auto)
qed

lemma for_each_frame:
  assumes "for_each f xs s = Inr s'"
    and "\<And>x t t'. x \<in> set xs \<Longrightarrow> f x t = Inr t' \<Longrightarrow> g t' = g t"
  shows "g s' = g s"
  using assms(1)
  by (rule for_each_invariant[where P = "\<lambda>t. g t = g s"]) (use assms(2) in auto)

lemma for_each_map: "for_each f (map g xs) s = for_each (\<lambda>x. f (g x)) xs s"
proof (induction xs arbitrary: s)
  case Nil
  show ?case by simp
next
  case (Cons x xs)
  then show ?case by (cases "f (g x) s") auto
qed

section \<open>Rows of a table\<close>

text \<open>
  A table is the list of its rows. \<open>WHERE id = $1\<close> finds a row by its key, and
  \<open>UPDATE ... WHERE ...\<close> rewrites the rows that match.
\<close>

definition find_row :: "('r \<Rightarrow> 'k) \<Rightarrow> 'k \<Rightarrow> 'r list \<Rightarrow> 'r option" where
  "find_row key k rows = List.find (\<lambda>r. key r = k) rows"

definition map_where :: "('r \<Rightarrow> bool) \<Rightarrow> ('r \<Rightarrow> 'r) \<Rightarrow> 'r list \<Rightarrow> 'r list" where
  "map_where P f rows = map (\<lambda>r. if P r then f r else r) rows"

lemma find_row_Some:
  "find_row key k rows = Some r \<Longrightarrow> r \<in> set rows \<and> key r = k"
  by (auto simp: find_row_def find_Some_iff)

lemma find_row_None_iff:
  "find_row key k rows = None \<longleftrightarrow> k \<notin> key ` set rows"
  by (auto simp: find_row_def find_None_iff)

lemma find_row_Nil [simp]: "find_row key k [] = None"
  by (simp add: find_row_def)

lemma find_row_Cons [simp]:
  "find_row key k (r # rows) = (if key r = k then Some r else find_row key k rows)"
  by (simp add: find_row_def)

lemma find_row_distinct:
  "distinct (map key rows) \<Longrightarrow> r \<in> set rows \<Longrightarrow> find_row key (key r) rows = Some r"
  by (induction rows) auto

lemma find_row_append:
  "find_row key k (xs @ ys) =
     (case find_row key k xs of None \<Rightarrow> find_row key k ys | Some r \<Rightarrow> Some r)"
  by (induction xs) auto

lemma map_where_Nil [simp]: "map_where P f [] = []"
  by (simp add: map_where_def)

lemma map_where_Cons [simp]:
  "map_where P f (r # rows) = (if P r then f r else r) # map_where P f rows"
  by (simp add: map_where_def)

lemma length_map_where [simp]: "length (map_where P f rows) = length rows"
  by (simp add: map_where_def)

lemma map_where_append [simp]:
  "map_where P f (xs @ ys) = map_where P f xs @ map_where P f ys"
  by (simp add: map_where_def)

lemma map_map_where:
  "(\<And>r. P r \<Longrightarrow> key (f r) = key r) \<Longrightarrow> map key (map_where P f rows) = map key rows"
  by (simp add: map_where_def)

lemma map_where_id: "(\<And>r. r \<in> set rows \<Longrightarrow> P r \<Longrightarrow> f r = r) \<Longrightarrow> map_where P f rows = rows"
  by (induction rows) auto

lemma find_row_map_where:
  assumes "\<And>r. P r \<Longrightarrow> key (f r) = key r"
  shows "find_row key k (map_where P f rows) =
           map_option (\<lambda>r. if P r then f r else r) (find_row key k rows)"
  using assms by (induction rows) auto

lemma set_map_where:
  "set (map_where P f rows) = (\<lambda>r. if P r then f r else r) ` set rows"
  by (simp add: map_where_def)

lemma sum_list_filter_append [simp]:
  "sum_list (map f (filter P (xs @ ys))) =
     sum_list (map f (filter P xs)) + sum_list (map f (filter P ys))"
  by simp

lemma sum_list_zero_iff:
  "(\<And>x. x \<in> set xs \<Longrightarrow> f x = (0::'a::comm_monoid_add)) \<Longrightarrow> sum_list (map f xs) = 0"
  by (induction xs) auto

lemma set_sort_key_mem: "x \<in> set (sort_key f xs) \<longleftrightarrow> x \<in> set xs"
  by simp

end
