(* ===== verification/JsNumber.thy ===== *)
theory JsNumber
  imports Prelude "HOL-Library.Log_Nat"
begin

text \<open>
  Numbers. JavaScript computes with IEEE binary64 values, PostgreSQL stores exact decimals of a
  fixed scale. A number of either kind is a rational here. \<open>fl\<close> rounds a rational to the nearest
  double (ties to even), so an arithmetic operator of the code is \<open>fl\<close> of the exact result and
  \<open>Number(text)\<close> of a decimal text is \<open>fl\<close> of the decimal. \<open>js_text\<close> is the decimal that
  \<open>Number.prototype.toString\<close> prints, which is what the driver sends to the database, and
  \<open>round_dec\<close> is the rounding of a DECIMAL column (half away from zero).

  The exponent of \<open>fl\<close> is unbounded: the values of the program come from DECIMAL(10,2) and
  DECIMAL(10,3) columns and their sums, products and differences, which neither overflow
  binary64 nor reach its subnormal range.
\<close>

type_synonym jsnum = rat
type_synonym decimal = rat

section \<open>Rounding to binary64\<close>

definition pow2 :: "int \<Rightarrow> rat" where
  "pow2 e = (if 0 \<le> e then 2 ^ nat e else 1 / 2 ^ nat (- e))"

text \<open>\<open>ilog2 x\<close> is the exponent \<open>e\<close> with \<open>2^e \<le> x < 2^(e+1)\<close>, for positive \<open>x\<close>.\<close>

definition ilog2 :: "rat \<Rightarrow> int" where
  "ilog2 x = (let (a, b) = quotient_of x; e = bitlen a - bitlen b
              in if x < pow2 e then e - 1 else e)"

definition round_half_even :: "rat \<Rightarrow> int" where
  "round_half_even x =
     (let f = \<lfloor>x\<rfloor>; d = x - of_int f
      in if d < 1 / 2 then f else if 1 / 2 < d then f + 1 else if even f then f else f + 1)"

definition fl :: "rat \<Rightarrow> jsnum" where
  "fl x = (if x = 0 then 0
           else let u = pow2 (ilog2 \<bar>x\<bar> - 52) in of_int (round_half_even (x / u)) * u)"

definition js_add :: "jsnum \<Rightarrow> jsnum \<Rightarrow> jsnum" where "js_add x y = fl (x + y)"
definition js_sub :: "jsnum \<Rightarrow> jsnum \<Rightarrow> jsnum" where "js_sub x y = fl (x - y)"
definition js_mul :: "jsnum \<Rightarrow> jsnum \<Rightarrow> jsnum" where "js_mul x y = fl (x * y)"

text \<open>\<open>Number(text)\<close> and \<open>parseFloat(text)\<close> for the text of a DECIMAL column.\<close>

definition js_number :: "decimal \<Rightarrow> jsnum" where "js_number x = fl x"

section \<open>Number.prototype.toString\<close>

text \<open>\<open>ilog10 x\<close> is the exponent \<open>n\<close> with \<open>10^n \<le> x < 10^(n+1)\<close>, for positive \<open>x\<close>.\<close>

definition ilog10 :: "rat \<Rightarrow> int" where
  "ilog10 x = (if 1 \<le> x then int (floorlog 10 (nat \<lfloor>x\<rfloor>)) - 1
               else - int (floorlog 10 (nat (\<lceil>1 / x\<rceil> - 1))))"

definition pow10 :: "int \<Rightarrow> rat" where
  "pow10 e = (if 0 \<le> e then 10 ^ nat e else 1 / 10 ^ nat (- e))"

text \<open>
  The decimals of \<open>k\<close> significant digits next to \<open>x\<close> that read back as \<open>x\<close>; of two, the closer.
\<close>

definition digits_candidate :: "rat \<Rightarrow> int \<Rightarrow> rat option" where
  "digits_candidate x k =
     (let u = pow10 (ilog10 \<bar>x\<bar> + 1 - k); lo = of_int \<lfloor>x / u\<rfloor> * u; hi = lo + u
      in if fl lo = x then (if fl hi = x \<and> hi - x < x - lo then Some hi else Some lo)
         else if fl hi = x then Some hi else None)"

fun shortest_from :: "rat \<Rightarrow> int \<Rightarrow> nat \<Rightarrow> rat" where
  "shortest_from x k 0 = x"
| "shortest_from x k (Suc n) =
     (case digits_candidate x k of Some y \<Rightarrow> y | None \<Rightarrow> shortest_from x (k + 1) n)"

definition js_text :: "jsnum \<Rightarrow> decimal" where
  "js_text x = (if x = 0 then 0 else shortest_from x 1 17)"

section \<open>DECIMAL columns\<close>

definition round_dec :: "nat \<Rightarrow> rat \<Rightarrow> decimal" where
  "round_dec s x = sgn x * (of_int \<lfloor>\<bar>x\<bar> * 10 ^ s + 1 / 2\<rfloor> / 10 ^ s)"

definition dec_fits :: "nat \<Rightarrow> nat \<Rightarrow> decimal \<Rightarrow> bool" where
  "dec_fits p s x \<longleftrightarrow> \<bar>x\<bar> < 10 ^ (p - s)"

text \<open>Multiples of \<open>10 ^ (- s)\<close>: the values a column of scale \<open>s\<close> can hold.\<close>

definition on_grid :: "nat \<Rightarrow> rat \<Rightarrow> bool" where
  "on_grid s x \<longleftrightarrow> x * 10 ^ s \<in> \<int>"

section \<open>Powers and logarithms\<close>

lemma pow2_powi: "pow2 e = 2 powi e"
  by (auto simp: pow2_def power_int_def inverse_eq_divide power_one_over)

lemma pow2_pos [simp]: "0 < pow2 e"
  by (simp add: pow2_def)

lemma pow2_nonneg [simp]: "0 \<le> pow2 e" and pow2_neq_0 [simp]: "pow2 e \<noteq> 0"
  using pow2_pos[of e] by linarith+

lemma pow2_add: "pow2 (a + b) = pow2 a * pow2 b"
  by (simp add: pow2_powi power_int_add)

lemma pow2_neg: "pow2 (- a) = 1 / pow2 a"
  by (simp add: pow2_powi power_int_minus inverse_eq_divide)

lemma pow2_of_nat [simp]: "pow2 (int n) = 2 ^ n"
  by (simp add: pow2_def)

lemma bitlen_pos_bounds:
  assumes "0 < a"
  shows "pow2 (bitlen a - 1) \<le> of_int a" and "of_int a < pow2 (bitlen a)"
proof -
  from assms have ge: "1 \<le> bitlen a"
    using bitlen_eq_zero_iff[of a] bitlen_nonneg[of a] by linarith
  from bitlen_bounds[OF assms] have b: "2 ^ nat (bitlen a - 1) \<le> a" "a < 2 ^ nat (bitlen a)"
    by auto
  from b(1) have "(of_int (2 ^ nat (bitlen a - 1)) :: rat) \<le> of_int a" by (simp only: of_int_le_iff)
  with ge show "pow2 (bitlen a - 1) \<le> of_int a" by (simp add: pow2_def)
  from b(2) have "(of_int a :: rat) < of_int (2 ^ nat (bitlen a))" by (simp only: of_int_less_iff)
  with ge show "of_int a < pow2 (bitlen a)" by (simp add: pow2_def)
qed

lemma ilog2_bounds:
  assumes "0 < x"
  shows "pow2 (ilog2 x) \<le> x" and "x < pow2 (ilog2 x + 1)"
proof -
  obtain a b where q: "quotient_of x = (a, b)" by (cases "quotient_of x")
  then have x: "x = of_int a / of_int b" and b: "0 < b"
    by (simp_all add: quotient_of_div quotient_of_denom_pos)
  with assms have a: "0 < a" by (simp add: zero_less_divide_iff)
  let ?e = "bitlen a - bitlen b"
  have "pow2 (?e - 1) * of_int b \<le> pow2 (?e - 1) * pow2 (bitlen b)"
    using bitlen_pos_bounds(2)[OF b] by (intro mult_left_mono) auto
  also have "\<dots> = pow2 (bitlen a - 1)" by (simp add: pow2_add[symmetric])
  also have "\<dots> \<le> of_int a" by (rule bitlen_pos_bounds(1)[OF a])
  finally have lo: "pow2 (?e - 1) \<le> x" using b by (simp add: x pos_le_divide_eq)
  have "of_int a < pow2 (bitlen a)" by (rule bitlen_pos_bounds(2)[OF a])
  also have "\<dots> = pow2 (?e + 1) * pow2 (bitlen b - 1)" by (simp add: pow2_add[symmetric])
  also have "\<dots> \<le> pow2 (?e + 1) * of_int b"
    using bitlen_pos_bounds(1)[OF b] by (intro mult_left_mono) auto
  finally have hi: "x < pow2 (?e + 1)" using b by (simp add: x pos_divide_less_eq)
  show "pow2 (ilog2 x) \<le> x" "x < pow2 (ilog2 x + 1)"
    using lo hi by (auto simp: ilog2_def q Let_def)
qed

section \<open>The rounding error of binary64\<close>

lemma round_half_even_error: "\<bar>of_int (round_half_even x) - x\<bar> \<le> 1 / 2"
proof -
  have "of_int \<lfloor>x\<rfloor> \<le> x" "x < of_int \<lfloor>x\<rfloor> + 1"
    using floor_correct[of x] by auto
  then show ?thesis
    unfolding round_half_even_def Let_def by (simp add: abs_if) linarith
qed

lemma round_half_even_of_int [simp]: "round_half_even (of_int n) = n"
  by (simp add: round_half_even_def)

lemma fl_0 [simp]: "fl 0 = 0"
  by (simp add: fl_def)

lemma fl_error [js_bounds]: "\<bar>fl x - x\<bar> \<le> \<bar>x\<bar> / 2 ^ 53"
proof (cases "x = 0")
  case True
  then show ?thesis by simp
next
  case False
  let ?u = "pow2 (ilog2 \<bar>x\<bar> - 52)"
  have u: "?u * 2 ^ 52 \<le> \<bar>x\<bar>"
    using ilog2_bounds(1)[of "\<bar>x\<bar>"] False pow2_add[of "ilog2 \<bar>x\<bar> - 52" 52]
    by (simp add: pow2_def[of 52])
  have "\<bar>fl x - x\<bar> = \<bar>of_int (round_half_even (x / ?u)) - x / ?u\<bar> * ?u"
    using False by (simp add: fl_def Let_def abs_mult_pos left_diff_distrib)
  also have "\<dots> \<le> 1 / 2 * ?u"
    by (intro mult_right_mono round_half_even_error) simp
  finally show ?thesis using u by simp
qed

lemma fl_error_le [js_bounds]:
  assumes "\<bar>x\<bar> \<le> m"
  shows "\<bar>fl x - x\<bar> \<le> m / 2 ^ 53"
proof -
  have "\<bar>x\<bar> / 2 ^ 53 \<le> m / 2 ^ 53" by (intro divide_right_mono assms) simp
  with fl_error[of x] show ?thesis by (rule order_trans)
qed

lemma fl_pos:
  assumes "0 < x"
  shows "0 < fl x"
proof -
  have "\<bar>fl x - x\<bar> \<le> x / 2 ^ 53" using fl_error[of x] assms by simp
  moreover have "x / 2 ^ 53 < x" using assms by simp
  ultimately show ?thesis by linarith
qed

lemma fl_nonneg: "0 \<le> x \<Longrightarrow> 0 \<le> fl x"
  using fl_pos[of x] by (cases "x = 0") auto

lemma fl_minus: "fl (- x) = - fl x"
proof (cases "x = 0")
  case False
  have odd: "round_half_even (- y) = - round_half_even y" for y :: rat
  proof (cases "y \<in> \<int>")
    case True
    then obtain n where "y = of_int n" by (auto elim: Ints_cases)
    moreover have "round_half_even (- of_int n) = round_half_even (of_int (- n))" by simp
    ultimately show ?thesis by (simp only: round_half_even_of_int)
  next
    case False
    then have "\<lfloor>- y\<rfloor> = - \<lfloor>y\<rfloor> - 1"
      by (metis ceiling_altdef ceiling_def floor_of_int Ints_of_int diff_minus_eq_add
          minus_add_distrib minus_minus add.commute uminus_add_conv_diff)
    then show ?thesis
      by (auto simp: round_half_even_def Let_def)
  qed
  show ?thesis
    using False odd[of "x / pow2 (ilog2 \<bar>x\<bar> - 52)"] by (simp add: fl_def Let_def)
qed simp

text \<open>
  For evaluation: one rounding of a fraction is integer division, without normalising the
  intermediate fractions.
\<close>

definition fl_scaled :: "int \<Rightarrow> int \<Rightarrow> int \<Rightarrow> int" where
  "fl_scaled a b s =
     (let n = (if 0 \<le> s then a * 2 ^ nat s else a); d = (if 0 \<le> s then b else b * 2 ^ nat (- s));
          q = n div d; r = n mod d
      in if 2 * r < d then q else if d < 2 * r then q + 1 else if even q then q else q + 1)"

lemma round_half_even_fraction:
  assumes "0 < d"
  shows "round_half_even (of_int n / of_int d) =
    (let q = n div d; r = n mod d
     in if 2 * r < d then q else if d < 2 * r then q + 1 else if even q then q else q + 1)"
proof -
  have n: "n = n div d * d + n mod d" by simp
  have fl: "\<lfloor>of_int n / (of_int d :: rat)\<rfloor> = n div d" by (rule floor_divide_of_int_eq)
  have "(of_int n :: rat) = of_int (n div d) * of_int d + of_int (n mod d)"
    by (metis n of_int_add of_int_mult)
  with assms have "of_int n / (of_int d :: rat) - of_int (n div d) = of_int (n mod d) / of_int d"
    by (simp add: field_simps)
  with assms fl show ?thesis
    unfolding round_half_even_def Let_def
    by (simp add: divide_less_eq less_divide_eq)
qed

lemma fl_scaled_eq:
  assumes "0 < b"
  shows "fl_scaled a b s = round_half_even (of_int a / of_int b * pow2 s)"
proof (cases "0 \<le> s")
  case True
  then have "of_int a / of_int b * pow2 s = of_int (a * 2 ^ nat s) / (of_int b :: rat)"
    by (simp add: pow2_def)
  then have "round_half_even (of_int a / of_int b * pow2 s) =
      round_half_even (of_int (a * 2 ^ nat s) / of_int b)"
    by (rule arg_cong)
  with round_half_even_fraction[OF assms, of "a * 2 ^ nat s"] True show ?thesis
    by (simp only: fl_scaled_def Let_def if_True)
next
  case False
  then have "of_int a / of_int b * pow2 s = of_int a / (of_int (b * 2 ^ nat (- s)) :: rat)"
    by (simp add: pow2_def)
  then have "round_half_even (of_int a / of_int b * pow2 s) =
      round_half_even (of_int a / of_int (b * 2 ^ nat (- s)))"
    by (rule arg_cong)
  moreover from assms have "0 < b * 2 ^ nat (- s)" by simp
  ultimately show ?thesis
    using round_half_even_fraction[of "b * 2 ^ nat (- s)" a] False
    by (simp only: fl_scaled_def Let_def if_False)
qed

lemma fl_code [code]:
  "fl x = (let (a, b) = quotient_of x in
     if a = 0 then 0
     else let e = bitlen \<bar>a\<bar> - bitlen b;
              e' = (if (if 0 \<le> e then \<bar>a\<bar> < b * 2 ^ nat e else \<bar>a\<bar> * 2 ^ nat (- e) < b)
                    then e - 1 else e);
              s = 52 - e'; m = fl_scaled a b s
          in if 0 \<le> s then of_int m / of_int (2 ^ nat s) else of_int (m * 2 ^ nat (- s)))"
proof -
  obtain a b where q: "quotient_of x = (a, b)" by (cases "quotient_of x")
  then have x: "x = of_int a / of_int b" and b: "0 < b"
    by (simp_all add: quotient_of_div quotient_of_denom_pos)
  show ?thesis
  proof (cases "a = 0")
    case True
    with q x show ?thesis by simp
  next
    case False
    let ?e = "bitlen \<bar>a\<bar> - bitlen b"
    have qa: "quotient_of \<bar>x\<bar> = (\<bar>a\<bar>, b)" using q by (simp add: rat_abs_code)
    have "\<bar>x\<bar> < pow2 ?e \<longleftrightarrow>
        (if 0 \<le> ?e then \<bar>a\<bar> < b * 2 ^ nat ?e else \<bar>a\<bar> * 2 ^ nat (- ?e) < b)"
    proof (cases "0 \<le> ?e")
      case True
      have "\<bar>x\<bar> < pow2 ?e \<longleftrightarrow> (of_int \<bar>a\<bar> :: rat) < of_int (b * 2 ^ nat ?e)"
        using b True by (simp add: x pow2_def divide_less_eq mult.commute)
      then show ?thesis using True by (simp only: of_int_less_iff if_True)
    next
      case False
      have "\<bar>x\<bar> < pow2 ?e \<longleftrightarrow> (of_int (\<bar>a\<bar> * 2 ^ nat (- ?e)) :: rat) < of_int b"
        using b False by (simp add: x pow2_def field_simps)
      then show ?thesis using False by (simp only: of_int_less_iff if_False)
    qed
    then have e: "ilog2 \<bar>x\<bar> = (if (if 0 \<le> ?e then \<bar>a\<bar> < b * 2 ^ nat ?e
        else \<bar>a\<bar> * 2 ^ nat (- ?e) < b) then ?e - 1 else ?e)" (is "_ = ?e'")
      by (simp add: ilog2_def qa Let_def)
    have "fl x = of_int (round_half_even (x / pow2 (?e' - 52))) * pow2 (?e' - 52)"
      unfolding fl_def Let_def e using False b by (simp add: x)
    also have "x / pow2 (?e' - 52) = of_int a / of_int b * pow2 (52 - ?e')"
      using pow2_neg[of "52 - ?e'"] by (simp add: x)
    finally have "fl x = of_int (fl_scaled a b (52 - ?e')) * pow2 (- (52 - ?e'))"
      unfolding fl_scaled_eq[OF b] by (simp only: minus_diff_eq)
    moreover have "of_int m * pow2 (- s) =
        (if 0 \<le> s then of_int m / of_int (2 ^ nat s) else of_int (m * 2 ^ nat (- s)))" for m s
      by (simp add: pow2_def)
    ultimately show ?thesis
      unfolding q Let_def prod.case if_not_P[OF False] by (simp only:)
  qed
qed

section \<open>Texts of numbers\<close>

lemma digits_candidate_reads_back: "digits_candidate x k = Some y \<Longrightarrow> fl y = x"
  by (auto simp: digits_candidate_def Let_def split: if_splits)

lemma shortest_from_reads_back: "fl (shortest_from x k n) = x \<or> shortest_from x k n = x"
  by (induction x k n rule: shortest_from.induct)
    (auto split: option.splits dest: digits_candidate_reads_back)

lemma js_text_0 [simp]: "js_text 0 = 0"
  by (simp add: js_text_def)

lemma js_text_error [js_bounds]: "\<bar>js_text x - x\<bar> \<le> \<bar>x\<bar> / 2 ^ 52"
proof -
  let ?y = "js_text x"
  have "\<bar>?y - x\<bar> \<le> \<bar>?y\<bar> / 2 ^ 53"
  proof (cases "fl ?y = x")
    case True
    then show ?thesis using fl_error[of ?y] by (simp add: abs_minus_commute)
  next
    case False
    then have "?y = x" using shortest_from_reads_back[of x 1 17] by (auto simp: js_text_def)
    then show ?thesis by simp
  qed
  moreover have "\<bar>?y\<bar> \<le> \<bar>x\<bar> + \<bar>?y - x\<bar>" by linarith
  ultimately have "\<bar>?y - x\<bar> * (2 ^ 53 - 1) \<le> \<bar>x\<bar>" by (simp add: field_simps)
  moreover have "\<bar>?y - x\<bar> * 2 ^ 52 \<le> \<bar>?y - x\<bar> * (2 ^ 53 - 1)"
    by (intro mult_left_mono) auto
  ultimately show ?thesis by simp
qed

lemma js_text_nonneg:
  assumes "0 \<le> x"
  shows "0 \<le> js_text x"
proof -
  have "\<bar>x\<bar> / 2 ^ 52 \<le> x" using assms by simp
  with js_text_error[of x] show ?thesis by linarith
qed

section \<open>Rounding to a DECIMAL column\<close>

lemma on_grid_code [code]: "on_grid s x \<longleftrightarrow> of_int \<lfloor>x * 10 ^ s\<rfloor> = x * 10 ^ s"
  by (metis Ints_of_int Ints_cases floor_of_int on_grid_def)

lemma on_grid_0 [simp]: "on_grid s 0"
  by (simp add: on_grid_def)

lemma on_grid_add [intro]: "on_grid s x \<Longrightarrow> on_grid s y \<Longrightarrow> on_grid s (x + y)"
  by (simp add: on_grid_def distrib_right)

lemma on_grid_diff [intro]: "on_grid s x \<Longrightarrow> on_grid s y \<Longrightarrow> on_grid s (x - y)"
  by (simp add: on_grid_def left_diff_distrib)

lemma on_grid_minus [intro]: "on_grid s x \<Longrightarrow> on_grid s (- x)"
  by (simp add: on_grid_def)

lemma on_grid_sum_list: "(\<And>x. x \<in> set xs \<Longrightarrow> on_grid s (f x)) \<Longrightarrow> on_grid s (sum_list (map f xs))"
  by (induction xs) auto

lemma on_grid_E:
  assumes "on_grid s x"
  obtains k where "x = of_int k / 10 ^ s"
proof -
  from assms obtain k where "x * 10 ^ s = of_int k" by (auto simp: on_grid_def elim: Ints_cases)
  then have "x = of_int k / 10 ^ s" by (simp add: field_simps)
  with that show thesis by blast
qed

lemma on_gridI: "on_grid s (of_int k / 10 ^ s)"
  by (simp add: on_grid_def)

text \<open>Two values of a column that are close are equal; a value above \<open>- 10^(-s)\<close> is not negative.\<close>

lemma on_grid_pos_ge:
  assumes "on_grid s x" and "0 < x"
  shows "1 / 10 ^ s \<le> x"
proof -
  from assms(1) obtain k where k: "x = of_int k / 10 ^ s" by (rule on_grid_E)
  with assms(2) have "0 < k" by (simp add: zero_less_divide_iff)
  then have "1 \<le> (of_int k :: rat)" by simp
  then show ?thesis by (simp add: k divide_right_mono)
qed

lemma on_grid_nonneg:
  assumes "on_grid s x" and "- (1 / 10 ^ s) < x"
  shows "0 \<le> x"
proof (rule ccontr)
  assume "\<not> 0 \<le> x"
  with on_grid_pos_ge[of s "- x"] assms show False by auto
qed

lemma on_grid_eq:
  assumes "on_grid s x" "on_grid s y" and "\<bar>x - y\<bar> < 1 / 10 ^ s"
  shows "x = y"
proof (rule antisym)
  from assms(3) have "- (1 / 10 ^ s) < y - x" "- (1 / 10 ^ s) < x - y" by linarith+
  with assms(1,2) have "0 \<le> y - x" "0 \<le> x - y" by (blast intro: on_grid_nonneg on_grid_diff)+
  then show "x \<le> y" "y \<le> x" by simp_all
qed

lemma on_grid_round_dec [simp]: "on_grid s (round_dec s x)"
proof -
  have "sgn x \<in> {-1, 0, 1 :: rat}" by (auto simp: sgn_if)
  then show ?thesis
    unfolding round_dec_def on_grid_def by (auto simp: mult.assoc)
qed

lemma round_dec_0 [simp]: "round_dec s 0 = 0"
  by (simp add: round_dec_def)

lemma round_dec_nonneg: "0 \<le> x \<Longrightarrow> 0 \<le> round_dec s x"
  by (simp add: round_dec_def sgn_if)

lemma round_dec_minus: "round_dec s (- x) = - round_dec s x"
  by (simp add: round_dec_def sgn_if)

lemma round_dec_error: "\<bar>round_dec s x - x\<bar> \<le> 1 / 2 / 10 ^ s"
proof -
  let ?y = "\<bar>x\<bar> * 10 ^ s"
  have "\<bar>of_int \<lfloor>?y + 1 / 2\<rfloor> - ?y\<bar> \<le> 1 / 2"
    using floor_correct[of "?y + 1 / 2"] unfolding abs_le_iff by linarith
  then have "\<bar>of_int \<lfloor>?y + 1 / 2\<rfloor> - ?y\<bar> / 10 ^ s \<le> 1 / 2 / 10 ^ s"
    by (intro divide_right_mono) auto
  moreover have "\<bar>of_int \<lfloor>?y + 1 / 2\<rfloor> - ?y\<bar> / 10 ^ s = \<bar>of_int \<lfloor>?y + 1 / 2\<rfloor> / 10 ^ s - \<bar>x\<bar>\<bar>"
    by (simp add: abs_div_pos diff_divide_distrib)
  moreover have "\<bar>round_dec s x - x\<bar> = \<bar>of_int \<lfloor>?y + 1 / 2\<rfloor> / 10 ^ s - \<bar>x\<bar>\<bar>"
    by (cases x "0 :: rat" rule: linorder_cases) (auto simp: round_dec_def floor_eq_iff)
  ultimately show ?thesis by simp
qed

lemma round_dec_close:
  assumes "on_grid s g" and "\<bar>x - g\<bar> < 1 / 2 / 10 ^ s"
  shows "round_dec s x = g"
proof (rule on_grid_eq)
  have "\<bar>round_dec s x - g\<bar> \<le> \<bar>round_dec s x - x\<bar> + \<bar>x - g\<bar>" by linarith
  with round_dec_error[of s x] assms(2) show "\<bar>round_dec s x - g\<bar> < 1 / 10 ^ s" by simp
qed (use assms in simp_all)

lemma round_dec_id [simp]: "on_grid s x \<Longrightarrow> round_dec s x = x"
  by (rule round_dec_close) simp_all

lemma round_dec_add:
  assumes "on_grid s g" and "0 \<le> g" and "0 \<le> x"
  shows "round_dec s (g + x) = g + round_dec s x"
proof -
  from assms(1) obtain k where k: "g * 10 ^ s = of_int k" by (auto simp: on_grid_def elim: Ints_cases)
  have floor_shift: "\<lfloor>(g + x) * 10 ^ s + 1 / 2\<rfloor> = k + \<lfloor>x * 10 ^ s + 1 / 2\<rfloor>"
    by (simp add: distrib_right k add.assoc flip: floor_add_int)
  have pos: "round_dec s y = of_int \<lfloor>y * 10 ^ s + 1 / 2\<rfloor> / 10 ^ s" if "0 \<le> y" for y
    using that by (cases "y = 0") (simp_all add: round_dec_def floor_eq_iff)
  have "g = of_int k / 10 ^ s" using k by (simp add: field_simps)
  with assms floor_shift pos[of "g + x"] pos[of x] show ?thesis
    by (simp add: add_divide_distrib)
qed
end
