(* ===== verification/Database.thy ===== *)
theory Database
  imports JsNumber
begin

text \<open>
  The PostgreSQL database the services share: one list of rows per table, with the columns the
  code reads or writes, the constraints its migrations declare (DECIMAL ranges, foreign keys,
  NOT NULL, cascades) and the meaning of the statement forms the services use. A row order is
  part of the state: a SELECT without ORDER BY returns the rows in that order, ORDER BY is a
  stable sort of it, so a theorem about every database covers every order the server may use.

  Identifiers (UUID, serial and TEXT keys) are compared for equality only and are numbers here;
  \<open>next_uuid\<close> is the supply of \<open>gen_random_uuid()\<close> and \<open>clock\<close> what \<open>NOW()\<close> and \<open>new Date()\<close>
  read during the request, in milliseconds; \<open>tz_offset\<close> is the offset of the local time zone.
\<close>

type_synonym ident = nat
type_synonym timestamp = int

datatype doc_status = SAVED | DRAFT | POSTED | APPLIED | CANCELED

section \<open>Errors\<close>

datatype sql_error =
    NumericOverflow
  | NotNullViolation string
  | ForeignKeyViolation string
  | UniqueViolation string
  | ValueTooLong string
  | CheckViolation string
  | InvalidInput string
  | UndefinedColumn string
  | TransactionAborted

datatype doc_type = REALIZATION | BUYER_RETURN | GOODS_RECEIPT | PRICE_DOCUMENT

text \<open>One constructor for each \<open>throw new Error(...)\<close> of the sources.\<close>

datatype error =
    SqlError sql_error
  | JsTypeError
  | DocumentNotFound
  | DocumentAlreadyPosted
  | DocumentNotPosted
  | CannotEditPosted
  | CannotDeletePosted
  | GoodsAlreadySold
  | SoldBelow jsnum
  | InsufficientStock "ident + string" jsnum jsnum
  | RealizationNotFound
  | RealizationAlreadyPosted
  | OnlyPostedUnposted
  | CannotEditPostedRealization
  | CannotDeletePostedRealization
  | OrderNotFound
  | PriceTypeNotFound ident
  | ProductNotFound ident
  | CashboxNotFound
  | TransactionNotFound
  | AdminOnlyHardDelete
  | SystemLocked
  | RepostUnpostFailed doc_type ident error
  | RepostPostFailed doc_type ident error

section \<open>Rows\<close>

record product_batch =
  pb_id :: ident
  pb_productId :: ident
  pb_quantityTotal :: decimal
  pb_quantityLeft :: decimal
  pb_enterPrice :: decimal
  pb_goodsReceiptId :: "ident option"
  pb_buyerReturnId :: "ident option"
  pb_createdAt :: timestamp
  pb_updatedAt :: timestamp

record goods_receipt =
  gr_id :: ident
  gr_number :: string
  gr_docNumber :: "string option"
  gr_date :: timestamp
  gr_warehouseId :: "ident option"
  gr_providerId :: "ident option"
  gr_status :: doc_status
  gr_comment :: "string option"
  gr_createdBy :: "ident option"
  gr_paidAmount :: decimal
  gr_isDeleted :: bool
  gr_createdAt :: timestamp
  gr_updatedAt :: timestamp

record goods_receipt_item =
  gri_id :: ident
  gri_goodsReceiptId :: ident
  gri_productId :: ident
  gri_quantity :: decimal
  gri_price :: decimal
  gri_total :: decimal
  gri_sortOrder :: nat
  gri_createdAt :: timestamp

record buyer_return =
  br_id :: ident
  br_number :: string
  br_date :: timestamp
  br_counterpartyId :: ident
  br_warehouseId :: ident
  br_status :: doc_status
  br_comment :: "string option"
  br_totalAmount :: decimal
  br_profit :: decimal
  br_createdBy :: "ident option"
  br_createdAt :: timestamp
  br_updatedAt :: timestamp

record buyer_return_item =
  bri_id :: ident
  bri_buyerReturnId :: ident
  bri_productId :: ident
  bri_quantity :: decimal
  bri_price :: decimal
  bri_total :: decimal
  bri_sortOrder :: nat
  bri_createdAt :: timestamp

record buyer_return_item_batch =
  brib_id :: ident
  brib_buyerReturnItemId :: ident
  brib_productBatchId :: ident
  brib_quantity :: decimal

record supplier_return =
  sr_id :: ident
  sr_number :: string
  sr_date :: timestamp
  sr_supplierId :: "ident option"
  sr_warehouseId :: "ident option"
  sr_status :: doc_status
  sr_comment :: "string option"
  sr_totalAmount :: decimal
  sr_createdBy :: "ident option"
  sr_createdAt :: timestamp
  sr_updatedAt :: timestamp

record supplier_return_item =
  sri_id :: ident
  sri_supplierReturnId :: ident
  sri_productId :: ident
  sri_quantity :: decimal
  sri_price :: decimal
  sri_total :: decimal
  sri_sortOrder :: nat
  sri_createdAt :: timestamp

record supplier_return_item_batch =
  srib_id :: ident
  srib_supplierReturnItemId :: ident
  srib_productBatchId :: ident
  srib_quantity :: decimal
  srib_enterPrice :: decimal

record realization =
  rl_id :: ident
  rl_number :: string
  rl_date :: timestamp
  rl_counterpartyId :: "ident option"
  rl_warehouseId :: "ident option"
  rl_status :: doc_status
  rl_amount :: decimal
  rl_currency :: string
  rl_comment :: "string option"
  rl_salesType :: "string option"
  rl_orderId :: "ident option"
  rl_profit :: decimal
  rl_paidAmount :: decimal
  rl_createdBy :: "ident option"
  rl_isDeleted :: bool
  rl_createdAt :: timestamp
  rl_updatedAt :: timestamp

record realization_item =
  ri_id :: ident
  ri_realizationId :: ident
  ri_productId :: ident
  ri_quantity :: decimal
  ri_price :: decimal
  ri_total :: decimal
  ri_sortOrder :: nat
  ri_createdAt :: timestamp

record realization_item_batch =
  rib_id :: ident
  rib_realizationItemId :: ident
  rib_productBatchId :: ident
  rib_quantity :: decimal
  rib_enterPrice :: decimal

text \<open>
  An element of the JSON array \<open>Order.items\<close>; every key may be missing. Where the code tells a missing key
  from null, null is \<open>Some None\<close>.
\<close>

record order_json_item =
  oji_id :: "ident option"
  oji_productId :: "ident option"
  oji_count :: "jsnum option"
  oji_quantity :: "jsnum option option"
  oji_price :: "jsnum option"
  oji_sellPrice :: "jsnum option option"

record order =
  ord_id :: ident
  ord_userId :: ident
  ord_counterpartyId :: "ident option"
  ord_status :: string
  ord_total :: decimal
  ord_currency :: string
  ord_items :: "order_json_item list option"
  ord_comment :: "string option"
  ord_docNumber :: "string option"
  ord_warehouseId :: "ident option"
  ord_isDeleted :: bool
  ord_createdAt :: timestamp
  ord_updatedAt :: timestamp

record order_item =
  oi_id :: ident
  oi_orderId :: ident
  oi_productId :: ident
  oi_quantity :: decimal
  oi_sellPrice :: decimal
  oi_sortOrder :: nat

text \<open>
  A value of the JSON object \<open>Product.prices\<close>: a number, or the text of a DECIMAL column.
\<close>

datatype price_json = PNum jsnum | PText decimal

record product =
  prod_id :: ident
  prod_name :: string
  prod_unit :: string
  prod_category :: "string option"
  prod_prices :: "(string \<times> price_json) list option"
  prod_photos :: "string list"
  prod_inBox :: "decimal option"
  prod_barcode :: "string option"
  prod_packing :: "string option"
  prod_tara :: "string option"
  prod_deleted :: bool
  prod_updatedAt :: timestamp

record price_type =
  pt_id :: ident
  pt_name :: string
  pt_slug :: string
  pt_currency :: string
  pt_deleted :: bool
  pt_createdAt :: timestamp
  pt_updatedAt :: timestamp

record price_document =
  pd_id :: ident
  pd_date :: timestamp
  pd_status :: doc_status
  pd_targetPriceTypeId :: "ident option"
  pd_inputMethod :: string
  pd_sourcePriceTypeId :: "ident option"
  pd_markupPercentage :: "decimal option"
  pd_roundingMethod :: "string option"
  pd_roundingValue :: "decimal option"
  pd_comment :: "string option"
  pd_createdAt :: timestamp
  pd_updatedAt :: timestamp

record price_document_item =
  pdi_id :: ident
  pdi_documentId :: ident
  pdi_productId :: ident
  pdi_price :: decimal

record price_journal =
  pj_id :: ident
  pj_productId :: ident
  pj_priceTypeId :: "ident option"
  pj_oldPrice :: "decimal option"
  pj_newPrice :: decimal
  pj_effectiveDate :: timestamp
  pj_createdBy :: "ident option"
  pj_reason :: "string option"
  pj_createdAt :: timestamp

record organization =
  org_id :: ident
  org_name :: string
  org_fullDetails :: "string option"
  org_salesTypes :: "string list option"
  org_createdAt :: timestamp
  org_updatedAt :: timestamp

record warehouse =
  wh_id :: ident
  wh_name :: string
  wh_address :: "string option"
  wh_organizationId :: "ident option"
  wh_isDeleted :: bool
  wh_createdAt :: timestamp
  wh_updatedAt :: timestamp

record counterparty_group =
  cg_id :: ident
  cg_name :: string
  cg_parentId :: "ident option"
  cg_isDeleted :: bool

record counterparty =
  cp_id :: ident
  cp_name :: string
  cp_address :: "string option"
  cp_phone :: "string option"
  cp_contactPerson :: "string option"
  cp_isBuyer :: bool
  cp_isSeller :: bool
  cp_priceTypeId :: "ident option"
  cp_groupId :: "ident option"
  cp_warehouseId :: "ident option"
  cp_defaultSalesType :: "string option"
  cp_organizationId :: "ident option"
  cp_isDeleted :: bool
  cp_updatedAt :: timestamp

text \<open>A row of \<open>collection_schedule\<close>; \<open>day_of_week\<close> is a SMALLINT between 1 and 7 or NULL.\<close>

record schedule_row =
  cs_id :: ident
  cs_client_id :: "ident option"
  cs_status :: string
  cs_day_of_week :: "int option"

text \<open>\<open>usr_password\<close> is the bcrypt hash; JSON columns the code only copies are kept as their text.\<close>

type_synonym json_text = string

record user =
  usr_id :: ident
  usr_email :: string
  usr_role :: string
  usr_warehouseId :: "string option"
  usr_priceType :: "string option"
  usr_password :: string
  usr_counterpartyId :: "ident option"
  usr_organizationId :: "ident option"
  usr_preferences :: "json_text option"
  usr_permissions :: "json_text option"

record document_lock =
  dl_isLocked :: bool
  dl_lockedBy :: "ident option"
  dl_lockedAt :: "timestamp option"
  dl_reason :: "string option"

record cashbox =
  cb_id :: ident
  cb_name :: string
  cb_type :: string
  cb_currency :: string
  cb_organizationId :: "ident option"

record transaction_category =
  tc_id :: ident
  tc_name :: string
  tc_type :: string

record cash_transaction =
  ct_id :: ident
  ct_date :: timestamp
  ct_number :: string
  ct_type :: string
  ct_cashboxId :: ident
  ct_amount :: decimal
  ct_categoryId :: "ident option"
  ct_counterpartyId :: "ident option"
  ct_comment :: "string option"
  ct_createdBy :: "ident option"
  ct_isDeleted :: bool

record payment_allocation =
  pa_id :: ident
  pa_cashTransactionId :: ident
  pa_documentId :: ident
  pa_documentType :: doc_type
  pa_amount :: decimal

record sync_log =
  sl_id :: ident
  sl_userId :: ident
  sl_action :: string
  sl_recordId :: ident
  sl_createdAt :: timestamp

section \<open>The state\<close>

record db =
  ProductBatch :: "product_batch list"
  GoodsReceipt :: "goods_receipt list"
  GoodsReceiptItem :: "goods_receipt_item list"
  BuyerReturn :: "buyer_return list"
  BuyerReturnItem :: "buyer_return_item list"
  BuyerReturnItemBatch :: "buyer_return_item_batch list"
  SupplierReturn :: "supplier_return list"
  SupplierReturnItem :: "supplier_return_item list"
  SupplierReturnItemBatch :: "supplier_return_item_batch list"
  Realization :: "realization list"
  RealizationItem :: "realization_item list"
  RealizationItemBatch :: "realization_item_batch list"
  Orders :: "order list"
  OrderItem :: "order_item list"
  Product :: "product list"
  PriceType :: "price_type list"
  PriceDocument :: "price_document list"
  PriceDocumentItem :: "price_document_item list"
  PriceJournal :: "price_journal list"
  Organization :: "organization list"
  Warehouse :: "warehouse list"
  CounterpartyGroup :: "counterparty_group list"
  Counterparty :: "counterparty list"
  Users :: "user list"
  DocumentLock :: "document_lock option"
  Cashbox :: "cashbox list"
  TransactionCategory :: "transaction_category list"
  CashTransaction :: "cash_transaction list"
  PaymentAllocation :: "payment_allocation list"
  SyncLog :: "sync_log list"
  CollectionSchedule :: "schedule_row list"
  next_uuid :: ident
  clock :: timestamp
  tz_offset :: int

section \<open>Rows with the column defaults\<close>

abbreviation named_warehouse :: "ident \<Rightarrow> string \<Rightarrow> warehouse" where
  "named_warehouse i n \<equiv> \<lparr>wh_id = i, wh_name = n, wh_address = None, wh_organizationId = None,
     wh_isDeleted = False, wh_createdAt = 0, wh_updatedAt = 0\<rparr>"

abbreviation named_counterparty :: "ident \<Rightarrow> string \<Rightarrow> counterparty" where
  "named_counterparty i n \<equiv> \<lparr>cp_id = i, cp_name = n, cp_address = None, cp_phone = None,
     cp_contactPerson = None, cp_isBuyer = False, cp_isSeller = False, cp_priceTypeId = None,
     cp_groupId = None, cp_warehouseId = None, cp_defaultSalesType = None, cp_organizationId = None,
     cp_isDeleted = False, cp_updatedAt = 0\<rparr>"

abbreviation named_product :: "ident \<Rightarrow> string \<Rightarrow> string \<Rightarrow> product" where
  "named_product i n u \<equiv> \<lparr>prod_id = i, prod_name = n, prod_unit = u, prod_category = None,
     prod_prices = Some [], prod_photos = [], prod_inBox = None, prod_barcode = None,
     prod_packing = None, prod_tara = None, prod_deleted = False, prod_updatedAt = 0\<rparr>"

abbreviation named_price_type :: "ident \<Rightarrow> string \<Rightarrow> string \<Rightarrow> price_type" where
  "named_price_type i n s \<equiv> \<lparr>pt_id = i, pt_name = n, pt_slug = s, pt_currency = ''UAH'',
     pt_deleted = False, pt_createdAt = 0, pt_updatedAt = 0\<rparr>"

end
