(* ===== verification/Statements.thy ===== *)
theory Statements
  imports Database
begin

text \<open>
  The SQL statement forms: INSERT with the column constraints, UPDATE of the matching rows, DELETE
  with its cascades, the transaction bracket of \<open>client.query('BEGIN') ... COMMIT / ROLLBACK\<close>, and
  look-ups through a left join.
\<close>

section \<open>Constraints\<close>

definition first_error :: "(bool \<times> sql_error) list \<Rightarrow> error + unit" where
  "first_error cs = (case List.find (\<lambda>c. \<not> fst c) cs of
     None \<Rightarrow> Inr () | Some c \<Rightarrow> Inl (SqlError (snd c)))"

lemma first_error_Inr_iff [simp]: "first_error cs = Inr u \<longleftrightarrow> (\<forall>c \<in> set cs. fst c)"
proof -
  have "List.find (\<lambda>c. \<not> fst c) cs = None \<longleftrightarrow> (\<forall>c \<in> set cs. fst c)"
    unfolding find_None_iff by blast
  then show ?thesis by (auto simp: first_error_def split: option.splits)
qed

lemma first_error_Nil [simp]: "first_error [] = Inr ()"
  by (simp add: first_error_def)

text \<open>A nullable foreign key is NULL or the key of a row of the referenced table.\<close>

definition fk_ok :: "ident list \<Rightarrow> ident option \<Rightarrow> bool" where
  "fk_ok keys k = (case k of None \<Rightarrow> True | Some i \<Rightarrow> List.member keys i)"

lemma fk_ok_simps [simp]: "fk_ok keys None" "fk_ok keys (Some i) \<longleftrightarrow> i \<in> set keys"
  by (simp_all add: fk_ok_def)

text \<open>\<open>UPDATE t SET f WHERE P\<close>: every rewritten row must satisfy the column constraints \<open>chk\<close>.\<close>

definition update_table ::
  "('r \<Rightarrow> bool) \<Rightarrow> ('r \<Rightarrow> 'r) \<Rightarrow> ('r \<Rightarrow> (bool \<times> sql_error) list) \<Rightarrow> 'r list \<Rightarrow> error + 'r list" where
  "update_table P f chk rows =
     rbind (first_error (concat (map (\<lambda>r. if P r then chk (f r) else []) rows)))
       (\<lambda>_. Inr (map_where P f rows))"

lemma update_table_Inr_iff:
  "update_table P f chk rows = Inr rows' \<longleftrightarrow>
     rows' = map_where P f rows \<and> (\<forall>r \<in> set rows. P r \<longrightarrow> (\<forall>c \<in> set (chk (f r)). fst c))"
  by (auto simp: update_table_def split: if_splits)

section \<open>Transactions\<close>

text \<open>
  The bracket the services put around their body: COMMIT the new state, or ROLLBACK to the state at
  BEGIN and rethrow.
\<close>

definition transaction :: "(db \<Rightarrow> error + 'a \<times> db) \<Rightarrow> db \<Rightarrow> (error + 'a) \<times> db" where
  "transaction body d = (case body d of
     Inl e \<Rightarrow> (Inl e, d)
   | Inr (x, d') \<Rightarrow> (Inr x, d'))"

lemma transaction_Inl: "transaction body d = (Inl e, d') \<longleftrightarrow> body d = Inl e \<and> d' = d"
  by (auto simp: transaction_def split: sum.splits)

lemma transaction_Inr: "transaction body d = (Inr x, d') \<longleftrightarrow> body d = Inr (x, d')"
  by (auto simp: transaction_def split: sum.splits)

text \<open>After COMMIT a service answers with a view of the committed state (\<open>this.getById(id)\<close>).\<close>

definition answer :: "('a \<Rightarrow> db \<Rightarrow> 'b) \<Rightarrow> (error + 'a) \<times> db \<Rightarrow> (error + 'b) \<times> db" where
  "answer view = (\<lambda>(r, d). (case r of Inl e \<Rightarrow> Inl e | Inr x \<Rightarrow> Inr (view x d), d))"

text \<open>A parameter of a NOT NULL column that is missing in the request.\<close>

definition not_null :: "string \<Rightarrow> 'a option \<Rightarrow> error + 'a" where
  "not_null column v = (case v of None \<Rightarrow> Inl (SqlError (NotNullViolation column)) | Some x \<Rightarrow> Inr x)"

lemma not_null_Inr [simp]: "not_null c v = Inr x \<longleftrightarrow> v = Some x"
  by (simp add: not_null_def split: option.splits)

section \<open>Left joins\<close>

definition join_name :: "('r \<Rightarrow> ident) \<Rightarrow> ('r \<Rightarrow> 'v) \<Rightarrow> 'r list \<Rightarrow> ident option \<Rightarrow> 'v option" where
  "join_name key val rows k = Option.bind k (\<lambda>i. map_option val (find_row key i rows))"

section \<open>ProductBatch\<close>

definition batch_numbers_ok :: "product_batch \<Rightarrow> (bool \<times> sql_error) list" where
  "batch_numbers_ok r =
     [(dec_fits 10 3 (pb_quantityTotal r), NumericOverflow),
      (dec_fits 10 3 (pb_quantityLeft r), NumericOverflow),
      (dec_fits 10 2 (pb_enterPrice r), NumericOverflow)]"

definition ins_ProductBatch :: "product_batch \<Rightarrow> db \<Rightarrow> error + db" where
  "ins_ProductBatch r d = rbind (first_error (batch_numbers_ok r @
      [(fk_ok (map gr_id (GoodsReceipt d)) (pb_goodsReceiptId r),
        ForeignKeyViolation ''ProductBatch.goodsReceiptId''),
       (fk_ok (map br_id (BuyerReturn d)) (pb_buyerReturnId r),
        ForeignKeyViolation ''ProductBatch.buyerReturnId'')]))
     (\<lambda>_. Inr (d\<lparr>ProductBatch := ProductBatch d @ [r]\<rparr>))"

definition upd_ProductBatch ::
  "(product_batch \<Rightarrow> bool) \<Rightarrow> (product_batch \<Rightarrow> product_batch) \<Rightarrow> db \<Rightarrow> error + db" where
  "upd_ProductBatch P f d =
     rbind (update_table P f batch_numbers_ok (ProductBatch d))
       (\<lambda>rows. Inr (d\<lparr>ProductBatch := rows\<rparr>))"

text \<open>
  The three link tables reference \<open>ProductBatch\<close> with ON DELETE CASCADE
  (\<open>add_realization_batches\<close>, \<open>add_supplier_returns\<close>, \<open>add_buyer_returns\<close>).
\<close>

definition del_ProductBatch :: "(product_batch \<Rightarrow> bool) \<Rightarrow> db \<Rightarrow> db" where
  "del_ProductBatch P d =
     (let gone = map pb_id (filter P (ProductBatch d)) in
      d\<lparr>ProductBatch := filter (\<lambda>r. \<not> P r) (ProductBatch d),
        RealizationItemBatch :=
          filter (\<lambda>r. \<not> List.member gone (rib_productBatchId r)) (RealizationItemBatch d),
        SupplierReturnItemBatch :=
          filter (\<lambda>r. \<not> List.member gone (srib_productBatchId r)) (SupplierReturnItemBatch d),
        BuyerReturnItemBatch :=
          filter (\<lambda>r. \<not> List.member gone (brib_productBatchId r)) (BuyerReturnItemBatch d)\<rparr>)"

section \<open>GoodsReceipt\<close>

definition goods_receipt_ok :: "db \<Rightarrow> goods_receipt \<Rightarrow> (bool \<times> sql_error) list" where
  "goods_receipt_ok d r =
     [(dec_fits 10 2 (gr_paidAmount r), NumericOverflow),
      (fk_ok (map wh_id (Warehouse d)) (gr_warehouseId r),
       ForeignKeyViolation ''GoodsReceipt.warehouseId''),
      (fk_ok (map cp_id (Counterparty d)) (gr_providerId r),
       ForeignKeyViolation ''GoodsReceipt.providerId'')]"

definition ins_GoodsReceipt :: "goods_receipt \<Rightarrow> db \<Rightarrow> error + db" where
  "ins_GoodsReceipt r d = rbind (first_error (goods_receipt_ok d r))
     (\<lambda>_. Inr (d\<lparr>GoodsReceipt := GoodsReceipt d @ [r]\<rparr>))"

definition upd_GoodsReceipt ::
  "(goods_receipt \<Rightarrow> bool) \<Rightarrow> (goods_receipt \<Rightarrow> goods_receipt) \<Rightarrow> db \<Rightarrow> error + db" where
  "upd_GoodsReceipt P f d =
     rbind (update_table P f (goods_receipt_ok d) (GoodsReceipt d))
       (\<lambda>rows. Inr (d\<lparr>GoodsReceipt := rows\<rparr>))"

definition ins_GoodsReceiptItem :: "goods_receipt_item \<Rightarrow> db \<Rightarrow> error + db" where
  "ins_GoodsReceiptItem r d = rbind (first_error
      [(dec_fits 10 3 (gri_quantity r), NumericOverflow),
       (dec_fits 10 2 (gri_price r), NumericOverflow),
       (dec_fits 10 2 (gri_total r), NumericOverflow),
       (List.member (map gr_id (GoodsReceipt d)) (gri_goodsReceiptId r),
        ForeignKeyViolation ''GoodsReceiptItem.goodsReceiptId'')])
     (\<lambda>_. Inr (d\<lparr>GoodsReceiptItem := GoodsReceiptItem d @ [r]\<rparr>))"

definition del_GoodsReceiptItems :: "ident \<Rightarrow> db \<Rightarrow> db" where
  "del_GoodsReceiptItems i d =
     d\<lparr>GoodsReceiptItem := filter (\<lambda>r. gri_goodsReceiptId r \<noteq> i) (GoodsReceiptItem d)\<rparr>"

text \<open>\<open>ProductBatch.goodsReceiptId\<close> is ON DELETE SET NULL, the items cascade.\<close>

definition del_GoodsReceipt :: "ident \<Rightarrow> db \<Rightarrow> db" where
  "del_GoodsReceipt i d =
     d\<lparr>GoodsReceipt := filter (\<lambda>r. gr_id r \<noteq> i) (GoodsReceipt d),
       GoodsReceiptItem := filter (\<lambda>r. gri_goodsReceiptId r \<noteq> i) (GoodsReceiptItem d),
       ProductBatch := map_where (\<lambda>r. pb_goodsReceiptId r = Some i)
         (\<lambda>r. r\<lparr>pb_goodsReceiptId := None\<rparr>) (ProductBatch d)\<rparr>"

section \<open>BuyerReturn\<close>

definition buyer_return_ok :: "db \<Rightarrow> buyer_return \<Rightarrow> (bool \<times> sql_error) list" where
  "buyer_return_ok d r =
     [(dec_fits 10 2 (br_totalAmount r), NumericOverflow),
      (dec_fits 10 2 (br_profit r), NumericOverflow),
      (List.member (map cp_id (Counterparty d)) (br_counterpartyId r),
       ForeignKeyViolation ''BuyerReturn.counterpartyId''),
      (List.member (map wh_id (Warehouse d)) (br_warehouseId r),
       ForeignKeyViolation ''BuyerReturn.warehouseId'')]"

definition ins_BuyerReturn :: "buyer_return \<Rightarrow> db \<Rightarrow> error + db" where
  "ins_BuyerReturn r d = rbind (first_error (buyer_return_ok d r))
     (\<lambda>_. Inr (d\<lparr>BuyerReturn := BuyerReturn d @ [r]\<rparr>))"

definition upd_BuyerReturn ::
  "(buyer_return \<Rightarrow> bool) \<Rightarrow> (buyer_return \<Rightarrow> buyer_return) \<Rightarrow> db \<Rightarrow> error + db" where
  "upd_BuyerReturn P f d =
     rbind (update_table P f (buyer_return_ok d) (BuyerReturn d))
       (\<lambda>rows. Inr (d\<lparr>BuyerReturn := rows\<rparr>))"

definition ins_BuyerReturnItem :: "buyer_return_item \<Rightarrow> db \<Rightarrow> error + db" where
  "ins_BuyerReturnItem r d = rbind (first_error
      [(dec_fits 10 3 (bri_quantity r), NumericOverflow),
       (dec_fits 10 2 (bri_price r), NumericOverflow),
       (dec_fits 10 2 (bri_total r), NumericOverflow),
       (List.member (map br_id (BuyerReturn d)) (bri_buyerReturnId r),
        ForeignKeyViolation ''BuyerReturnItem.buyerReturnId''),
       (List.member (map prod_id (Product d)) (bri_productId r),
        ForeignKeyViolation ''BuyerReturnItem.productId'')])
     (\<lambda>_. Inr (d\<lparr>BuyerReturnItem := BuyerReturnItem d @ [r]\<rparr>))"

definition ins_BuyerReturnItemBatch :: "buyer_return_item_batch \<Rightarrow> db \<Rightarrow> error + db" where
  "ins_BuyerReturnItemBatch r d = rbind (first_error
      [(dec_fits 10 3 (brib_quantity r), NumericOverflow),
       (List.member (map bri_id (BuyerReturnItem d)) (brib_buyerReturnItemId r),
        ForeignKeyViolation ''BuyerReturnItemBatch.buyerReturnItemId''),
       (List.member (map pb_id (ProductBatch d)) (brib_productBatchId r),
        ForeignKeyViolation ''BuyerReturnItemBatch.productBatchId'')])
     (\<lambda>_. Inr (d\<lparr>BuyerReturnItemBatch := BuyerReturnItemBatch d @ [r]\<rparr>))"

text \<open>Deleting items deletes their batch links (ON DELETE CASCADE).\<close>

definition del_BuyerReturnItems :: "ident \<Rightarrow> db \<Rightarrow> db" where
  "del_BuyerReturnItems i d =
     (let gone = map bri_id (filter (\<lambda>r. bri_buyerReturnId r = i) (BuyerReturnItem d)) in
      d\<lparr>BuyerReturnItem := filter (\<lambda>r. bri_buyerReturnId r \<noteq> i) (BuyerReturnItem d),
        BuyerReturnItemBatch :=
          filter (\<lambda>r. \<not> List.member gone (brib_buyerReturnItemId r)) (BuyerReturnItemBatch d)\<rparr>)"

text \<open>\<open>ProductBatch.buyerReturnId\<close> is ON DELETE SET NULL.\<close>

definition del_BuyerReturn :: "ident \<Rightarrow> db \<Rightarrow> db" where
  "del_BuyerReturn i d =
     (let d1 = del_BuyerReturnItems i d in
      d1\<lparr>BuyerReturn := filter (\<lambda>r. br_id r \<noteq> i) (BuyerReturn d1),
         ProductBatch := map_where (\<lambda>r. pb_buyerReturnId r = Some i)
           (\<lambda>r. r\<lparr>pb_buyerReturnId := None\<rparr>) (ProductBatch d1)\<rparr>)"

section \<open>SupplierReturn\<close>

definition supplier_return_ok :: "db \<Rightarrow> supplier_return \<Rightarrow> (bool \<times> sql_error) list" where
  "supplier_return_ok d r =
     [(dec_fits 10 2 (sr_totalAmount r), NumericOverflow),
      (fk_ok (map cp_id (Counterparty d)) (sr_supplierId r),
       ForeignKeyViolation ''SupplierReturn.supplierId''),
      (fk_ok (map wh_id (Warehouse d)) (sr_warehouseId r),
       ForeignKeyViolation ''SupplierReturn.warehouseId'')]"

text \<open>\<open>SupplierReturn.number\<close> is UNIQUE.\<close>

definition ins_SupplierReturn :: "supplier_return \<Rightarrow> db \<Rightarrow> error + db" where
  "ins_SupplierReturn r d = rbind (first_error (supplier_return_ok d r @
      [(\<not> List.member (map sr_number (SupplierReturn d)) (sr_number r),
        UniqueViolation ''SupplierReturn.number'')]))
     (\<lambda>_. Inr (d\<lparr>SupplierReturn := SupplierReturn d @ [r]\<rparr>))"

definition upd_SupplierReturn ::
  "(supplier_return \<Rightarrow> bool) \<Rightarrow> (supplier_return \<Rightarrow> supplier_return) \<Rightarrow> db \<Rightarrow> error + db" where
  "upd_SupplierReturn P f d =
     rbind (update_table P f (supplier_return_ok d) (SupplierReturn d))
       (\<lambda>rows. Inr (d\<lparr>SupplierReturn := rows\<rparr>))"

definition ins_SupplierReturnItem :: "supplier_return_item \<Rightarrow> db \<Rightarrow> error + db" where
  "ins_SupplierReturnItem r d = rbind (first_error
      [(dec_fits 10 3 (sri_quantity r), NumericOverflow),
       (dec_fits 10 2 (sri_price r), NumericOverflow),
       (dec_fits 10 2 (sri_total r), NumericOverflow),
       (List.member (map sr_id (SupplierReturn d)) (sri_supplierReturnId r),
        ForeignKeyViolation ''SupplierReturnItem.supplierReturnId''),
       (List.member (map prod_id (Product d)) (sri_productId r),
        ForeignKeyViolation ''SupplierReturnItem.productId'')])
     (\<lambda>_. Inr (d\<lparr>SupplierReturnItem := SupplierReturnItem d @ [r]\<rparr>))"

definition ins_SupplierReturnItemBatch :: "supplier_return_item_batch \<Rightarrow> db \<Rightarrow> error + db" where
  "ins_SupplierReturnItemBatch r d = rbind (first_error
      [(dec_fits 10 3 (srib_quantity r), NumericOverflow),
       (dec_fits 10 2 (srib_enterPrice r), NumericOverflow),
       (List.member (map sri_id (SupplierReturnItem d)) (srib_supplierReturnItemId r),
        ForeignKeyViolation ''SupplierReturnItemBatch.supplierReturnItemId''),
       (List.member (map pb_id (ProductBatch d)) (srib_productBatchId r),
        ForeignKeyViolation ''SupplierReturnItemBatch.productBatchId'')])
     (\<lambda>_. Inr (d\<lparr>SupplierReturnItemBatch := SupplierReturnItemBatch d @ [r]\<rparr>))"

definition del_SupplierReturnItems :: "ident \<Rightarrow> db \<Rightarrow> db" where
  "del_SupplierReturnItems i d =
     (let gone = map sri_id (filter (\<lambda>r. sri_supplierReturnId r = i) (SupplierReturnItem d)) in
      d\<lparr>SupplierReturnItem := filter (\<lambda>r. sri_supplierReturnId r \<noteq> i) (SupplierReturnItem d),
        SupplierReturnItemBatch := filter (\<lambda>r. \<not> List.member gone (srib_supplierReturnItemId r))
          (SupplierReturnItemBatch d)\<rparr>)"

definition del_SupplierReturn :: "ident \<Rightarrow> db \<Rightarrow> db" where
  "del_SupplierReturn i d =
     (let d1 = del_SupplierReturnItems i d in
      d1\<lparr>SupplierReturn := filter (\<lambda>r. sr_id r \<noteq> i) (SupplierReturn d1)\<rparr>)"

section \<open>Realization\<close>

definition realization_ok :: "db \<Rightarrow> realization \<Rightarrow> (bool \<times> sql_error) list" where
  "realization_ok d r =
     [(dec_fits 10 2 (rl_amount r), NumericOverflow),
      (dec_fits 10 2 (rl_profit r), NumericOverflow),
      (dec_fits 10 2 (rl_paidAmount r), NumericOverflow),
      (fk_ok (map cp_id (Counterparty d)) (rl_counterpartyId r),
       ForeignKeyViolation ''Realization.counterpartyId''),
      (fk_ok (map wh_id (Warehouse d)) (rl_warehouseId r),
       ForeignKeyViolation ''Realization.warehouseId''),
      (fk_ok (map ord_id (Orders d)) (rl_orderId r),
       ForeignKeyViolation ''Realization.orderId'')]"

definition ins_Realization :: "realization \<Rightarrow> db \<Rightarrow> error + db" where
  "ins_Realization r d = rbind (first_error (realization_ok d r))
     (\<lambda>_. Inr (d\<lparr>Realization := Realization d @ [r]\<rparr>))"

definition upd_Realization ::
  "(realization \<Rightarrow> bool) \<Rightarrow> (realization \<Rightarrow> realization) \<Rightarrow> db \<Rightarrow> error + db" where
  "upd_Realization P f d =
     rbind (update_table P f (realization_ok d) (Realization d))
       (\<lambda>rows. Inr (d\<lparr>Realization := rows\<rparr>))"

definition ins_RealizationItem :: "realization_item \<Rightarrow> db \<Rightarrow> error + db" where
  "ins_RealizationItem r d = rbind (first_error
      [(dec_fits 10 3 (ri_quantity r), NumericOverflow),
       (dec_fits 10 2 (ri_price r), NumericOverflow),
       (dec_fits 10 2 (ri_total r), NumericOverflow),
       (List.member (map rl_id (Realization d)) (ri_realizationId r),
        ForeignKeyViolation ''RealizationItem.realizationId'')])
     (\<lambda>_. Inr (d\<lparr>RealizationItem := RealizationItem d @ [r]\<rparr>))"

definition ins_RealizationItemBatch :: "realization_item_batch \<Rightarrow> db \<Rightarrow> error + db" where
  "ins_RealizationItemBatch r d = rbind (first_error
      [(dec_fits 10 3 (rib_quantity r), NumericOverflow),
       (dec_fits 10 2 (rib_enterPrice r), NumericOverflow),
       (List.member (map ri_id (RealizationItem d)) (rib_realizationItemId r),
        ForeignKeyViolation ''RealizationItemBatch.realizationItemId''),
       (List.member (map pb_id (ProductBatch d)) (rib_productBatchId r),
        ForeignKeyViolation ''RealizationItemBatch.productBatchId'')])
     (\<lambda>_. Inr (d\<lparr>RealizationItemBatch := RealizationItemBatch d @ [r]\<rparr>))"

definition del_RealizationItems :: "ident \<Rightarrow> db \<Rightarrow> db" where
  "del_RealizationItems i d =
     (let gone = map ri_id (filter (\<lambda>r. ri_realizationId r = i) (RealizationItem d)) in
      d\<lparr>RealizationItem := filter (\<lambda>r. ri_realizationId r \<noteq> i) (RealizationItem d),
        RealizationItemBatch := filter (\<lambda>r. \<not> List.member gone (rib_realizationItemId r))
          (RealizationItemBatch d)\<rparr>)"

section \<open>Order\<close>

definition order_ok :: "order \<Rightarrow> (bool \<times> sql_error) list" where
  "order_ok r = [(dec_fits 10 2 (ord_total r), NumericOverflow)]"

definition ins_Order :: "order \<Rightarrow> db \<Rightarrow> error + db" where
  "ins_Order r d = rbind (first_error (order_ok r @
      [(find_row ord_id (ord_id r) (Orders d) = None, UniqueViolation ''Order.id'')]))
     (\<lambda>_. Inr (d\<lparr>Orders := Orders d @ [r]\<rparr>))"

definition upd_Order :: "(order \<Rightarrow> bool) \<Rightarrow> (order \<Rightarrow> order) \<Rightarrow> db \<Rightarrow> error + db" where
  "upd_Order P f d = rbind (update_table P f order_ok (Orders d)) (\<lambda>rows. Inr (d\<lparr>Orders := rows\<rparr>))"

definition ins_OrderItem :: "order_item \<Rightarrow> db \<Rightarrow> error + db" where
  "ins_OrderItem r d = rbind (first_error
      [(dec_fits 10 3 (oi_quantity r), NumericOverflow),
       (dec_fits 10 2 (oi_sellPrice r), NumericOverflow),
       (List.member (map ord_id (Orders d)) (oi_orderId r), ForeignKeyViolation ''OrderItem.orderId'')])
     (\<lambda>_. Inr (d\<lparr>OrderItem := OrderItem d @ [r]\<rparr>))"

definition del_OrderItems :: "ident \<Rightarrow> db \<Rightarrow> db" where
  "del_OrderItems i d = d\<lparr>OrderItem := filter (\<lambda>r. oi_orderId r \<noteq> i) (OrderItem d)\<rparr>"

text \<open>\<open>OrderItem.orderId\<close> is ON DELETE CASCADE, \<open>Realization.orderId\<close> ON DELETE SET NULL.\<close>

definition del_Order :: "ident \<Rightarrow> db \<Rightarrow> db" where
  "del_Order i d =
     d\<lparr>Orders := filter (\<lambda>r. ord_id r \<noteq> i) (Orders d),
       OrderItem := filter (\<lambda>r. oi_orderId r \<noteq> i) (OrderItem d),
       Realization := map_where (\<lambda>r. rl_orderId r = Some i) (\<lambda>r. r\<lparr>rl_orderId := None\<rparr>) (Realization d)\<rparr>"

definition upd_Order_status :: "ident \<Rightarrow> string \<Rightarrow> db \<Rightarrow> db" where
  "upd_Order_status i s d =
     d\<lparr>Orders := map_where (\<lambda>r. ord_id r = i)
       (\<lambda>r. r\<lparr>ord_status := s, ord_updatedAt := clock d\<rparr>) (Orders d)\<rparr>"

section \<open>The database after the migrations\<close>

definition empty_db :: db where
  "empty_db = \<lparr>ProductBatch = [], GoodsReceipt = [], GoodsReceiptItem = [], BuyerReturn = [],
     BuyerReturnItem = [], BuyerReturnItemBatch = [], SupplierReturn = [], SupplierReturnItem = [],
     SupplierReturnItemBatch = [], Realization = [], RealizationItem = [], RealizationItemBatch = [],
     Orders = [], OrderItem = [], Product = [], PriceType = [], PriceDocument = [],
     PriceDocumentItem = [], PriceJournal = [], Organization = [], Warehouse = [],
     CounterpartyGroup = [], Counterparty = [], Users = [],
     DocumentLock = None, Cashbox = [], TransactionCategory = [], CashTransaction = [],
     PaymentAllocation = [], SyncLog = [], CollectionSchedule = [], next_uuid = 1000, clock = 0, tz_offset = 0\<rparr>"

end
