(* ===== verification/Inventory.thy ===== *)
theory Inventory
  imports Statements
begin

text \<open>
  \<open>src/services/inventoryService.ts\<close>: the stock of a product in a warehouse is a list of batches.
  \<open>addStock\<close> inserts a batch, \<open>deductStock\<close> consumes the batches oldest first in binary64
  arithmetic, \<open>returnStock\<close> puts back what a realization took. The lemmas relate the floating-point
  loop to \<open>fifo_take\<close>, the exact first-in-first-out allocation: what reaches the DECIMAL columns is
  the exact allocation.
\<close>

section \<open>addStock\<close>

definition addStock ::
  "ident \<Rightarrow> jsnum \<Rightarrow> jsnum \<Rightarrow> ident option \<Rightarrow> timestamp option \<Rightarrow> ident option \<Rightarrow> db
    \<Rightarrow> error + product_batch \<times> db" where
  "addStock productId quantity enterPrice goodsReceiptId targetDate buyerReturnId d =
     (let row = \<lparr>pb_id = next_uuid d, pb_productId = productId,
                 pb_quantityTotal = round_dec 3 (js_text quantity),
                 pb_quantityLeft = round_dec 3 (js_text quantity),
                 pb_enterPrice = round_dec 2 (js_text enterPrice),
                 pb_goodsReceiptId = goodsReceiptId, pb_buyerReturnId = buyerReturnId,
                 pb_createdAt = (case targetDate of None \<Rightarrow> clock d | Some t \<Rightarrow> t),
                 pb_updatedAt = clock d\<rparr>
      in rbind (ins_ProductBatch row (d\<lparr>next_uuid := Suc (next_uuid d)\<rparr>)) (\<lambda>d'. Inr (row, d')))"

section \<open>deductStock\<close>

record deduction =
  ded_batchId :: ident
  ded_quantity :: jsnum
  ded_enterPrice :: jsnum

text \<open>\<open>COALESCE(gr."warehouseId", br."warehouseId")\<close> of a batch.\<close>

definition batch_warehouse :: "db \<Rightarrow> product_batch \<Rightarrow> ident option" where
  "batch_warehouse d b =
     (case Option.bind (pb_goodsReceiptId b)
             (\<lambda>i. Option.bind (find_row gr_id i (GoodsReceipt d)) gr_warehouseId) of
        Some w \<Rightarrow> Some w
      | None \<Rightarrow> Option.bind (pb_buyerReturnId b)
             (\<lambda>i. map_option br_warehouseId (find_row br_id i (BuyerReturn d))))"

definition available_batches :: "db \<Rightarrow> ident \<Rightarrow> ident option \<Rightarrow> product_batch list" where
  "available_batches d productId warehouseId =
     sort_key pb_createdAt
       (filter (\<lambda>b. pb_productId b = productId \<and> 0 < pb_quantityLeft b \<and>
                    warehouseId \<noteq> None \<and> batch_warehouse d b = warehouseId) (ProductBatch d))"

definition take_from_batch :: "ident \<Rightarrow> jsnum \<Rightarrow> db \<Rightarrow> error + db" where
  "take_from_batch i taken d =
     upd_ProductBatch (\<lambda>b. pb_id b = i)
       (\<lambda>b. b\<lparr>pb_quantityLeft := round_dec 3 (pb_quantityLeft b - js_text taken),
              pb_updatedAt := clock d\<rparr>) d"

fun deduct_loop ::
  "product_batch list \<Rightarrow> jsnum \<Rightarrow> deduction list \<Rightarrow> db \<Rightarrow> error + jsnum \<times> deduction list \<times> db" where
  "deduct_loop [] remaining deductions d = Inr (remaining, deductions, d)"
| "deduct_loop (batch # batches) remaining deductions d =
     (if remaining \<le> 0 then Inr (remaining, deductions, d)
      else let taken = min remaining (js_number (pb_quantityLeft batch))
           in rbind (take_from_batch (pb_id batch) taken d)
                (\<lambda>d'. deduct_loop batches (js_sub remaining taken)
                   (deductions @ [\<lparr>ded_batchId = pb_id batch, ded_quantity = taken,
                                   ded_enterPrice = js_number (pb_enterPrice batch)\<rparr>]) d'))"

text \<open>\<open>prodRes.rows[0]?.name || productId\<close>\<close>

definition product_label :: "db \<Rightarrow> ident \<Rightarrow> ident + string" where
  "product_label d productId =
     (case find_row prod_id productId (Product d) of
        None \<Rightarrow> Inl productId
      | Some p \<Rightarrow> (if prod_name p = [] then Inl productId else Inr (prod_name p)))"

definition deductStock ::
  "ident \<Rightarrow> jsnum \<Rightarrow> ident option \<Rightarrow> db \<Rightarrow> error + deduction list \<times> db" where
  "deductStock productId quantityNeeded warehouseId d =
     rbind (deduct_loop (available_batches d productId warehouseId) quantityNeeded [] d)
       (\<lambda>(remaining, deductions, d').
          if 0 < remaining
          then Inl (InsufficientStock (product_label d' productId) quantityNeeded remaining)
          else Inr (deductions, d'))"

section \<open>returnStock\<close>

text \<open>
  The quantity read from a link row is the text of a DECIMAL and goes back unchanged, so the
  addition is exact.
\<close>

definition return_to_batch :: "ident \<Rightarrow> decimal \<Rightarrow> db \<Rightarrow> error + db" where
  "return_to_batch i quantity d =
     upd_ProductBatch (\<lambda>b. pb_id b = i)
       (\<lambda>b. b\<lparr>pb_quantityLeft := round_dec 3 (pb_quantityLeft b + quantity),
              pb_updatedAt := clock d\<rparr>) d"

definition realization_links :: "ident \<Rightarrow> db \<Rightarrow> realization_item_batch list" where
  "realization_links realizationId d =
     filter (\<lambda>rib. case find_row ri_id (rib_realizationItemId rib) (RealizationItem d) of
                     None \<Rightarrow> False | Some ri \<Rightarrow> ri_realizationId ri = realizationId)
       (RealizationItemBatch d)"

definition returnStock :: "ident \<Rightarrow> db \<Rightarrow> error + realization_item_batch list \<times> db" where
  "returnStock realizationId d =
     (let batches = realization_links realizationId d
      in rbind (for_each (\<lambda>rib. return_to_batch (rib_productBatchId rib) (rib_quantity rib)) batches d)
           (\<lambda>d'. Inr (batches, d')))"

section \<open>What the columns hold\<close>

definition batch_typed :: "product_batch \<Rightarrow> bool" where
  "batch_typed b \<longleftrightarrow> on_grid 3 (pb_quantityTotal b) \<and> on_grid 3 (pb_quantityLeft b) \<and>
     on_grid 2 (pb_enterPrice b) \<and> (\<forall>c \<in> set (batch_numbers_ok b). fst c)"

definition batches_typed :: "db \<Rightarrow> bool" where
  "batches_typed d \<longleftrightarrow> (\<forall>b \<in> set (ProductBatch d). batch_typed b) \<and>
     distinct (map pb_id (ProductBatch d))"

lemma batch_typed_left:
  "batch_typed b \<Longrightarrow> on_grid 3 (pb_quantityLeft b) \<and> \<bar>pb_quantityLeft b\<bar> < 10 ^ 7"
  by (simp add: batch_typed_def batch_numbers_ok_def dec_fits_def)

section \<open>The exact allocation\<close>

text \<open>First in, first out, over the quantities of the batches: take what is there until enough.\<close>

fun fifo_take :: "decimal list \<Rightarrow> decimal \<Rightarrow> decimal list" where
  "fifo_take [] n = []"
| "fifo_take (q # qs) n = min q n # fifo_take qs (n - min q n)"

lemma length_fifo_take [simp]: "length (fifo_take qs n) = length qs"
  by (induction qs n rule: fifo_take.induct) auto

lemma fifo_take_zero: "\<forall>q \<in> set qs. 0 \<le> q \<Longrightarrow> fifo_take qs 0 = replicate (length qs) 0"
  by (induction qs) auto

lemma fifo_take_bounds:
  "0 \<le> n \<Longrightarrow> \<forall>q \<in> set qs. 0 \<le> q \<Longrightarrow>
   list_all2 (\<lambda>t q. 0 \<le> t \<and> t \<le> q) (fifo_take qs n) qs \<and> sum_list (fifo_take qs n) = min (sum_list qs) n"
proof (induction qs n rule: fifo_take.induct)
  case (2 q qs n)
  then have "0 \<le> sum_list qs" by (intro sum_list_nonneg) simp
  with 2 show ?case by (cases "q \<le> n") (auto simp: min_def)
qed auto

lemma fifo_take_grid:
  "on_grid s n \<Longrightarrow> \<forall>q \<in> set qs. on_grid s q \<Longrightarrow> \<forall>t \<in> set (fifo_take qs n). on_grid s t"
  by (induction qs n rule: fifo_take.induct) (auto simp: min_def on_grid_diff)

text \<open>Oldest first: a batch is touched only when every batch before it is used up.\<close>

lemma fifo_take_oldest_first:
  "0 \<le> n \<Longrightarrow> \<forall>q \<in> set qs. 0 \<le> q \<Longrightarrow> i < j \<Longrightarrow> j < length qs \<Longrightarrow>
   0 < fifo_take qs n ! j \<Longrightarrow> fifo_take qs n ! i = qs ! i"
proof (induction qs n arbitrary: i j rule: fifo_take.induct)
  case (2 q qs n)
  show ?case
  proof (cases i)
    case 0
    show ?thesis
    proof (cases "q \<le> n")
      case False
      then have "fifo_take (q # qs) n ! j = 0"
        using "2.prems" 0 by (cases j) (auto simp: min_def fifo_take_zero)
      with "2.prems" show ?thesis by simp
    qed (simp add: 0)
  next
    case (Suc i')
    with "2.prems" obtain j' where "j = Suc j'" "i' < j'" by (cases j) auto
    with "2.IH"[of i' j'] "2.prems" Suc show ?thesis by (auto simp: min_def)
  qed
qed simp

section \<open>The floating-point loop computes the exact allocation\<close>

text \<open>
  One rounding of a quantity below \<open>2^24\<close> is off by at most \<open>js_eps\<close>; a loop over at most
  \<open>max_batches\<close> batches stays within the distance at which the column rounding recovers the exact
  thousandth.
\<close>

definition js_eps :: rat where "js_eps = 1 / 2 ^ 29"
definition max_batches :: nat where "max_batches = 100000"

lemma fl_near: "\<bar>x\<bar> \<le> 2 ^ 24 \<Longrightarrow> \<bar>fl x - x\<bar> \<le> js_eps"
  using fl_error_le[of x "2 ^ 24"] by (simp add: js_eps_def)

lemma stored_near:
  assumes "on_grid 3 T" "\<bar>T\<bar> \<le> 10 ^ 7" "\<bar>x - T\<bar> \<le> 4 / 10000"
  shows "round_dec 3 (js_text x) = T"
    and "on_grid 3 q \<Longrightarrow> round_dec 3 (q - js_text x) = q - T"
proof -
  have "\<bar>x\<bar> \<le> \<bar>T\<bar> + \<bar>x - T\<bar>" by linarith
  then have "\<bar>x\<bar> \<le> 2 ^ 24" using assms(2,3) by simp
  then have "\<bar>x\<bar> / 2 ^ 52 \<le> 1 / 2 ^ 28" by simp
  with js_text_error[of x] have "\<bar>js_text x - x\<bar> \<le> 1 / 2 ^ 28" by linarith
  then have "\<bar>js_text x - x\<bar> < 1 / 10000" by simp
  with assms(3) have "\<bar>js_text x - T\<bar> < 5 / 10000" by linarith
  then have near: "\<bar>js_text x - T\<bar> < 1 / 2 / 10 ^ 3" by simp
  then show "round_dec 3 (js_text x) = T" by (rule round_dec_close[OF assms(1)])
  assume "on_grid 3 q"
  then show "round_dec 3 (q - js_text x) = q - T"
    using near assms(1) by (intro round_dec_close) (auto simp: abs_minus_commute)
qed

text \<open>
  A value of a DECIMAL column that is read with \<open>Number(...)\<close> and sent back as a parameter is the
  value it was.
\<close>

lemma column_exact:
  assumes "on_grid s x" "\<bar>x\<bar> \<le> 10 ^ 8" "s \<le> 3"
  shows "round_dec s (js_text (js_number x)) = x"
proof (rule round_dec_close[OF assms(1)])
  have "\<bar>x\<bar> \<le> 2 ^ 27" using assms(2) by simp
  then have e: "\<bar>fl x - x\<bar> \<le> 1 / 2 ^ 26" using fl_error_le[of x "2 ^ 27"] by simp
  moreover have "\<bar>fl x\<bar> \<le> \<bar>x\<bar> + \<bar>fl x - x\<bar>" by linarith
  ultimately have "\<bar>fl x\<bar> \<le> 2 ^ 27 + 1 / 2 ^ 26" using \<open>\<bar>x\<bar> \<le> 2 ^ 27\<close> by linarith
  then have "\<bar>fl x\<bar> \<le> 2 ^ 28" by simp
  then have "\<bar>fl x\<bar> / 2 ^ 52 \<le> 1 / 2 ^ 24" by simp
  with js_text_error[of "fl x"] have "\<bar>js_text (fl x) - fl x\<bar> \<le> 1 / 2 ^ 24" by linarith
  with e have "\<bar>js_text (fl x) - x\<bar> \<le> 1 / 2 ^ 24 + 1 / 2 ^ 26" by linarith
  then have "\<bar>js_text (js_number x) - x\<bar> < 1 / 2 / 10 ^ 3" by (simp add: js_number_def)
  also have "(1 :: rat) / 2 / 10 ^ 3 \<le> 1 / 2 / 10 ^ s"
    using assms(3) by (intro divide_left_mono power_increasing) auto
  finally show "\<bar>js_text (js_number x) - x\<bar> < 1 / 2 / 10 ^ s" .
qed

text \<open>The error of the running remainder after \<open>k\<close> batches.\<close>

definition rem_near :: "nat \<Rightarrow> jsnum \<Rightarrow> decimal \<Rightarrow> bool" where
  "rem_near k r R \<longleftrightarrow> 0 \<le> r \<and> \<bar>r - R\<bar> \<le> (2 * of_nat k + 1) * js_eps"

lemma rem_near_start: "0 \<le> R \<Longrightarrow> R \<le> 10 ^ 7 \<Longrightarrow> rem_near 0 (js_number R) R"
  using fl_near[of R] fl_nonneg[of R] by (simp add: rem_near_def js_number_def)

lemma rem_near_small: "rem_near k r R \<Longrightarrow> k \<le> max_batches \<Longrightarrow> \<bar>r - R\<bar> \<le> 3.8 / 10000"
proof -
  assume n: "rem_near k r R" and k: "k \<le> max_batches"
  from k have "(of_nat k :: rat) \<le> of_nat max_batches" by (simp only: of_nat_le_iff)
  then have "(2 * of_nat k + 1) * js_eps \<le> (2 * 100000 + 1) * js_eps"
    by (intro mult_right_mono) (simp_all add: max_batches_def js_eps_def)
  also have "\<dots> \<le> 3.8 / 10000" by (simp add: js_eps_def)
  finally show ?thesis using n by (simp add: rem_near_def)
qed

text \<open>One batch of the loop: the exact remainder stays on the grid and close to the float.\<close>

lemma deduct_step:
  assumes near: "rem_near k r R" and k: "Suc k \<le> max_batches"
    and R: "on_grid 3 R" "0 \<le> R" "R \<le> 10 ^ 7" and q: "on_grid 3 q" "0 < q" "q \<le> 10 ^ 7"
  defines "t \<equiv> min r (js_number q)"
  shows "round_dec 3 (js_text t) = min q R"
    and "round_dec 3 (q - js_text t) = q - min q R"
    and "rem_near (Suc k) (js_sub r t) (R - min q R)"
proof -
  have small: "\<bar>r - R\<bar> \<le> 3.8 / 10000" using k by (intro rem_near_small[OF near]) simp
  have eps: "0 < js_eps" "js_eps \<le> 1 / 100000" by (simp_all add: js_eps_def)
  have fq: "\<bar>js_number q - q\<bar> \<le> js_eps" "0 < js_number q"
    using fl_near[of q] fl_pos[of q] q by (simp_all add: js_number_def)
  show "rem_near (Suc k) (js_sub r t) (R - min q R)"
      and "round_dec 3 (js_text t) = min q R" and "round_dec 3 (q - js_text t) = q - min q R"
  proof -
    have "\<bar>t - min q R\<bar> \<le> 4 / 10000 \<and> rem_near (Suc k) (js_sub r t) (R - min q R)"
    proof (cases "js_number q \<le> r")
      case True
      then have t: "t = js_number q" by (simp add: t_def)
      have "- (1 / 1000) < R - q" using True small fq eps by linarith
      then have "- (1 / 10 ^ 3) < R - q" by simp
      then have "q \<le> R" using on_grid_nonneg[of 3 "R - q"] R q by auto
      moreover have "r \<le> R + 1" using small by linarith
      then have "\<bar>r - t\<bar> \<le> 10 ^ 7 + 1" using True t fq(2) R by simp
      then have "\<bar>js_sub r t - (r - t)\<bar> \<le> js_eps" unfolding js_sub_def by (intro fl_near) simp
      moreover have "0 \<le> js_sub r t" unfolding js_sub_def using True t by (intro fl_nonneg) simp
      ultimately show ?thesis
        using near fq eps t unfolding rem_near_def by (simp add: algebra_simps) (simp add: abs_le_iff)
    next
      case False
      then have t: "t = r" by (simp add: t_def)
      have "- (1 / 1000) < q - R" using False small fq eps by linarith
      then have "- (1 / 10 ^ 3) < q - R" by simp
      then have "R \<le> q" using on_grid_nonneg[of 3 "q - R"] R q by auto
      then show ?thesis
        using small eps t by (simp add: rem_near_def js_sub_def)
    qed
    moreover have "on_grid 3 (min q R)" "\<bar>min q R\<bar> \<le> 10 ^ 7" using R q by (auto simp: min_def)
    ultimately show "rem_near (Suc k) (js_sub r t) (R - min q R)"
      "round_dec 3 (js_text t) = min q R" "round_dec 3 (q - js_text t) = q - min q R"
      using stored_near[of "min q R" t] q by auto
  qed
qed

lemma deduct_step_last:
  assumes "rem_near k r R" "Suc k \<le> max_batches" "on_grid 3 R" "on_grid 3 q" "R < q" "0 < q"
    "q \<le> 10 ^ 7"
  shows "min r (js_number q) = r"
proof -
  have "\<bar>r - R\<bar> \<le> 3.8 / 10000" using assms(2) by (intro rem_near_small[OF assms(1)]) simp
  moreover have "\<bar>js_number q - q\<bar> \<le> js_eps"
    using fl_near[of q] assms(6,7) by (simp add: js_number_def)
  moreover have "js_eps \<le> 1 / 100000" by (simp add: js_eps_def)
  moreover have "1 / 10 ^ 3 \<le> q - R"
    using on_grid_pos_ge[of 3 "q - R"] assms(3-5) by auto
  then have "1 / 1000 \<le> q - R" by simp
  ultimately have "r \<le> js_number q" by linarith
  then show ?thesis by simp
qed

lemma deduct_loop_zero [simp]: "deduct_loop bs 0 ds d = Inr (0, ds, d)"
  by (cases bs) auto

section \<open>The effect of a deduction\<close>

text \<open>\<open>lower f d\<close> lowers \<open>quantityLeft\<close> of every batch in the domain of \<open>f\<close> by its amount.\<close>

definition lower_batch :: "timestamp \<Rightarrow> (ident \<rightharpoonup> decimal) \<Rightarrow> product_batch \<Rightarrow> product_batch" where
  "lower_batch now f b = (case f (pb_id b) of None \<Rightarrow> b
     | Some t \<Rightarrow> b\<lparr>pb_quantityLeft := pb_quantityLeft b - t, pb_updatedAt := now\<rparr>)"

definition lower :: "(ident \<rightharpoonup> decimal) \<Rightarrow> db \<Rightarrow> db" where
  "lower f d = d\<lparr>ProductBatch := map (lower_batch (clock d) f) (ProductBatch d)\<rparr>"

lemma lower_batch_fields [simp]:
  "pb_id (lower_batch now f b) = pb_id b"
  "pb_productId (lower_batch now f b) = pb_productId b"
  "pb_quantityTotal (lower_batch now f b) = pb_quantityTotal b"
  "pb_enterPrice (lower_batch now f b) = pb_enterPrice b"
  "pb_goodsReceiptId (lower_batch now f b) = pb_goodsReceiptId b"
  "pb_buyerReturnId (lower_batch now f b) = pb_buyerReturnId b"
  "pb_createdAt (lower_batch now f b) = pb_createdAt b"
  "pb_quantityLeft (lower_batch now f b) =
     pb_quantityLeft b - (case f (pb_id b) of None \<Rightarrow> 0 | Some t \<Rightarrow> t)"
  by (simp_all add: lower_batch_def split: option.splits)

lemma lower_frame [simp, frame]:
  "clock (lower f d) = clock d" "GoodsReceipt (lower f d) = GoodsReceipt d"
  "BuyerReturn (lower f d) = BuyerReturn d" "Product (lower f d) = Product d"
  by (simp_all add: lower_def)

lemma lower_empty [simp]: "lower Map.empty d = d"
proof -
  have "lower_batch (clock d) Map.empty = id" by (rule ext) (simp add: lower_batch_def)
  then show ?thesis by (simp add: lower_def)
qed

lemma lower_lower:
  assumes "dom f \<inter> dom g = {}"
  shows "lower g (lower f d) = lower (f ++ g) d"
proof -
  have "lower_batch (clock d) g (lower_batch (clock d) f b) = lower_batch (clock d) (f ++ g) b" for b
    using assms
    by (auto simp: lower_batch_def map_add_def dom_def split: option.splits)
  then show ?thesis by (simp add: lower_def)
qed

lemma lower_ids [simp]: "map pb_id (ProductBatch (lower f d)) = map pb_id (ProductBatch d)"
  by (simp add: lower_def)

lemma take_from_batch_lower:
  assumes typed: "batches_typed d" and b: "b \<in> set (ProductBatch d)"
    and exact: "round_dec 3 (pb_quantityLeft b - js_text x) = pb_quantityLeft b - t"
    and t: "0 \<le> t" "t \<le> pb_quantityLeft b"
  shows "take_from_batch (pb_id b) x d = Inr (lower [pb_id b \<mapsto> t] d)"
    and "batches_typed (lower [pb_id b \<mapsto> t] d)"
proof -
  have uniq: "b' = b" if "b' \<in> set (ProductBatch d)" "pb_id b' = pb_id b" for b'
    using that b typed by (auto simp: batches_typed_def distinct_map dest: inj_onD)
  have bt: "batch_typed b" using typed b by (simp add: batches_typed_def)
  have ok: "batch_typed (lower_batch (clock d) [pb_id b \<mapsto> t] b)"
    using bt exact t on_grid_round_dec[of 3 "pb_quantityLeft b - js_text x"]
    by (auto simp: batch_typed_def batch_numbers_ok_def dec_fits_def)
  have "map_where (\<lambda>b'. pb_id b' = pb_id b)
      (\<lambda>b. b\<lparr>pb_quantityLeft := round_dec 3 (pb_quantityLeft b - js_text x), pb_updatedAt := clock d\<rparr>)
      (ProductBatch d) = map (lower_batch (clock d) [pb_id b \<mapsto> t]) (ProductBatch d)"
    by (auto simp: map_where_def lower_batch_def exact dest!: uniq)
  moreover have "\<forall>c \<in> set (batch_numbers_ok
      (b'\<lparr>pb_quantityLeft := round_dec 3 (pb_quantityLeft b' - js_text x), pb_updatedAt := clock d\<rparr>)).
      fst c" if "b' \<in> set (ProductBatch d)" "pb_id b' = pb_id b" for b'
    using ok uniq[OF that] exact by (simp add: batch_typed_def batch_numbers_ok_def)
  ultimately show "take_from_batch (pb_id b) x d = Inr (lower [pb_id b \<mapsto> t] d)"
    by (simp add: take_from_batch_def upd_ProductBatch_def update_table_Inr_iff lower_def)
  have "batch_typed (lower_batch (clock d) [pb_id b \<mapsto> t] b')" if "b' \<in> set (ProductBatch d)" for b'
    using that uniq[OF that] ok typed
    by (cases "pb_id b' = pb_id b") (auto simp: batches_typed_def lower_batch_def)
  then show "batches_typed (lower [pb_id b \<mapsto> t] d)"
    using typed by (simp add: batches_typed_def lower_def comp_def)
qed

section \<open>The loop refines the exact allocation\<close>

abbreviation lefts :: "product_batch list \<Rightarrow> decimal list" where
  "lefts bs \<equiv> map pb_quantityLeft bs"

text \<open>What the columns receive from the deductions of the loop.\<close>

definition stored :: "deduction list \<Rightarrow> (ident \<times> decimal) list" where
  "stored ds = map (\<lambda>x. (ded_batchId x, round_dec 3 (js_text (ded_quantity x)))) ds"

lemma stored_simps [simp]:
  "stored [] = []" "stored (xs @ ys) = stored xs @ stored ys"
  "stored (x # xs) = (ded_batchId x, round_dec 3 (js_text (ded_quantity x))) # stored xs"
  by (simp_all add: stored_def)

lemma deduct_loop_refines:
  assumes "rem_near k r R" "k + length bs \<le> max_batches" "on_grid 3 R" "0 \<le> R" "R \<le> 10 ^ 7"
    and "batches_typed d" "set bs \<subseteq> set (ProductBatch d)" "distinct (map pb_id bs)"
    and "\<forall>b \<in> set bs. 0 < pb_quantityLeft b"
  shows "\<exists>r' ds' m. deduct_loop bs r ds d = Inr (r', ds @ ds', lower (map_of (stored ds')) d) \<and>
     m \<le> length bs \<and> stored ds' = zip (map pb_id (take m bs)) (fifo_take (lefts bs) R) \<and>
     (\<forall>t \<in> set (drop m (fifo_take (lefts bs) R)). t = 0) \<and>
     map ded_enterPrice ds' = map (js_number \<circ> pb_enterPrice) (take m bs) \<and>
     rem_near (k + length bs) r' (R - sum_list (fifo_take (lefts bs) R)) \<and>
     (m < length bs \<longrightarrow> r' = 0) \<and> (R < sum_list (lefts bs) \<longrightarrow> r' = 0) \<and>
     batches_typed (lower (map_of (stored ds')) d)"
  using assms
proof (induction bs arbitrary: k r R ds d)
  case Nil
  show ?case
    by (rule exI[of _ r], rule exI[of _ "[]"], rule exI[of _ 0]) (use Nil in simp)
next
  case (Cons b bs)
  let ?q = "pb_quantityLeft b" and ?t = "min r (js_number (pb_quantityLeft b))"
  have pos: "\<forall>q \<in> set (lefts bs). 0 \<le> q" using Cons.prems(9) by auto
  have near_mono: "rem_near (k + n) 0 0" for n by (simp add: rem_near_def js_eps_def)
  show ?case
  proof (cases "r \<le> 0")
    case True
    with Cons.prems(1) have r0: "r = 0" by (simp add: rem_near_def)
    have "\<bar>r - R\<bar> \<le> 3.8 / 10000" using Cons.prems(2) by (intro rem_near_small[OF Cons.prems(1)]) simp
    with r0 Cons.prems(4) have "R < 1 / 10 ^ 3" by simp
    then have R0: "R = 0" using on_grid_eq[of 3 R 0] Cons.prems(3,4) by simp
    have "0 < ?q" using Cons.prems(9) by simp
    then have z: "fifo_take (lefts bs) 0 = replicate (length bs) 0" "min ?q 0 = 0"
      using pos fifo_take_zero[of "lefts bs"] by auto
    have pos_sum: "R < sum_list (lefts (b # bs)) \<longrightarrow> r = 0" using r0 by simp
    show ?thesis
      by (rule exI[of _ r], rule exI[of _ "[]"], rule exI[of _ 0])
        (use r0 R0 Cons.prems(6) near_mono[of "length (b # bs)"] z in
          \<open>simp add: sum_list_replicate\<close>)
  next
    case False
    have b: "b \<in> set (ProductBatch d)" using Cons.prems(7) by simp
    have q: "on_grid 3 ?q" "0 < ?q" "?q \<le> 10 ^ 7"
      using batch_typed_left[of b] Cons.prems(6,9) b by (auto simp: batches_typed_def)
    have k: "Suc k \<le> max_batches" using Cons.prems(2) by simp
    note st = deduct_step[OF Cons.prems(1) k Cons.prems(3,4,5) q]
    have mn: "0 \<le> min ?q R" "min ?q R \<le> ?q" using q(2) Cons.prems(4) by auto
    note tk = take_from_batch_lower[OF Cons.prems(6) b st(2) mn]
    let ?d = "lower [pb_id b \<mapsto> min ?q R] d"
    let ?x = "\<lparr>ded_batchId = pb_id b, ded_quantity = ?t, ded_enterPrice = js_number (pb_enterPrice b)\<rparr>"
    have keep: "b' \<in> set (ProductBatch ?d)" if "b' \<in> set bs" for b'
    proof -
      have "pb_id b' \<noteq> pb_id b" using Cons.prems(8) imageI[OF that, of pb_id] by auto
      then have "lower_batch (clock d) [pb_id b \<mapsto> min ?q R] b' = b'" by (simp add: lower_batch_def)
      then show ?thesis using that Cons.prems(7) by (force simp: lower_def)
    qed
    have R': "on_grid 3 (R - min ?q R)" "0 \<le> R - min ?q R" "R - min ?q R \<le> 10 ^ 7"
      using q Cons.prems(3,4,5) mn by (auto simp: min_def)
    have pre: "Suc k + length bs \<le> max_batches" "set bs \<subseteq> set (ProductBatch ?d)"
      "distinct (map pb_id bs)" "\<forall>b \<in> set bs. 0 < pb_quantityLeft b"
      using Cons.prems keep by auto
    from Cons.IH[OF st(3) pre(1) R' tk(2) pre(2-4), of "ds @ [?x]"]
    obtain r' ds' m where IH:
      "deduct_loop bs (js_sub r ?t) (ds @ [?x]) ?d = Inr (r', (ds @ [?x]) @ ds', lower (map_of (stored ds')) ?d)"
      "m \<le> length bs" "stored ds' = zip (map pb_id (take m bs)) (fifo_take (lefts bs) (R - min ?q R))"
      "\<forall>t \<in> set (drop m (fifo_take (lefts bs) (R - min ?q R))). t = 0"
      "map ded_enterPrice ds' = map (js_number \<circ> pb_enterPrice) (take m bs)"
      "rem_near (Suc k + length bs) r' (R - min ?q R - sum_list (fifo_take (lefts bs) (R - min ?q R)))"
      "m < length bs \<longrightarrow> r' = 0" "R - min ?q R < sum_list (lefts bs) \<longrightarrow> r' = 0"
      "batches_typed (lower (map_of (stored ds')) ?d)"
      by blast
    have out: "R < sum_list (lefts (b # bs)) \<longrightarrow> r' = 0"
    proof (cases "R < ?q")
      case True
      then have "js_sub r ?t = 0"
        using deduct_step_last[OF Cons.prems(1) k Cons.prems(3) q(1)] q by (simp add: js_sub_def)
      with IH(1) show ?thesis by simp
    qed (use IH(8) in \<open>auto simp: min_def\<close>)
    have "pb_id b \<notin> pb_id ` set (take m bs)"
      using Cons.prems(8) image_mono[OF set_take_subset[of m bs], of pb_id] by auto
    then have "pb_id b \<notin> dom (map_of (stored ds'))"
      by (auto simp: IH(3) dom_map_of_conv_image_fst dest!: set_zip_leftD)
    then have low: "lower (map_of (stored ds')) ?d = lower (map_of (stored (?x # ds'))) d"
      by (subst lower_lower) (auto simp: st(1) map_add_upd_left intro!: arg_cong2[where f = lower])
    show ?thesis
      by (rule exI[of _ r'], rule exI[of _ "?x # ds'"], rule exI[of _ "Suc m"])
        (use False tk(1) IH st(1) low out in \<open>simp add: Let_def algebra_simps fun_upd_def\<close>)
  qed
qed

section \<open>deductStock meets its contract\<close>

lemma available_batches_facts:
  assumes "batches_typed d"
  shows "set (available_batches d p w) \<subseteq> set (ProductBatch d)"
    and "distinct (map pb_id (available_batches d p w))"
    and "\<forall>b \<in> set (available_batches d p w). 0 < pb_quantityLeft b"
    and "sorted (map pb_createdAt (available_batches d p w))"
    and "\<forall>q \<in> set (lefts (available_batches d p w)). on_grid 3 q \<and> 0 \<le> q"
proof -
  show sub: "set (available_batches d p w) \<subseteq> set (ProductBatch d)"
    and pos: "\<forall>b \<in> set (available_batches d p w). 0 < pb_quantityLeft b"
    and "sorted (map pb_createdAt (available_batches d p w))"
    by (auto simp: available_batches_def)
  then show "\<forall>q \<in> set (lefts (available_batches d p w)). on_grid 3 q \<and> 0 \<le> q"
    using assms batch_typed_left by (fastforce simp: batches_typed_def)
  have "distinct (ProductBatch d)" "inj_on pb_id (set (ProductBatch d))"
    using assms by (auto simp: batches_typed_def distinct_map)
  then show "distinct (map pb_id (available_batches d p w))"
    using sub by (auto simp: distinct_map available_batches_def intro: inj_on_subset)
qed

text \<open>The exact stock the query sees.\<close>

definition stock_of :: "db \<Rightarrow> ident \<Rightarrow> ident option \<Rightarrow> decimal" where
  "stock_of d p w = sum_list (lefts (available_batches d p w))"

definition fifo_plan :: "db \<Rightarrow> ident \<Rightarrow> ident option \<Rightarrow> decimal \<Rightarrow> decimal list" where
  "fifo_plan d p w n = fifo_take (lefts (available_batches d p w)) n"

lemma fifo_plan_sum:
  "batches_typed d \<Longrightarrow> 0 \<le> n \<Longrightarrow> sum_list (fifo_plan d p w n) = min (stock_of d p w) n"
  using fifo_take_bounds[of n "lefts (available_batches d p w)"] available_batches_facts(5)[of d p w]
  by (auto simp: fifo_plan_def stock_of_def)

lemma on_grid_sum: "\<forall>x \<in> set xs. on_grid s x \<Longrightarrow> on_grid s (sum_list xs)"
  using on_grid_sum_list[of xs s "\<lambda>x. x"] by simp

definition deduct_ready :: "db \<Rightarrow> ident \<Rightarrow> ident option \<Rightarrow> decimal \<Rightarrow> bool" where
  "deduct_ready d p w n \<longleftrightarrow> batches_typed d \<and> length (available_batches d p w) \<le> max_batches \<and>
     on_grid 3 n \<and> 0 \<le> n \<and> n \<le> 10 ^ 7"

text \<open>The loop from the start, as \<open>deductStock\<close> runs it.\<close>

lemma deduct_run:
  assumes "deduct_ready d p w n"
  obtains r ds m where
    "deduct_loop (available_batches d p w) (js_number n) [] d = Inr (r, ds, lower (map_of (stored ds)) d)"
    "stored ds = zip (map pb_id (take m (available_batches d p w))) (fifo_plan d p w n)"
    "m \<le> length (available_batches d p w)" "\<forall>t \<in> set (drop m (fifo_plan d p w n)). t = 0"
    "map ded_enterPrice ds = map (js_number \<circ> pb_enterPrice) (take m (available_batches d p w))"
    "0 \<le> r" "\<bar>r - (n - min (stock_of d p w) n)\<bar> < 1 / 1000"
    "n < stock_of d p w \<longrightarrow> r = 0" "batches_typed (lower (map_of (stored ds)) d)"
proof -
  let ?bs = "available_batches d p w"
  note R = assms[unfolded deduct_ready_def]
  note f = available_batches_facts[OF R[THEN conjunct1], of p w]
  have "rem_near 0 (js_number n) n" using R by (intro rem_near_start) auto
  note ref = deduct_loop_refines[OF this, of ?bs d "[]", unfolded append_Nil add_0]
  from R f(1-3) obtain r ds m where l: "deduct_loop ?bs (js_number n) [] d = Inr (r, ds, lower (map_of (stored ds)) d)"
    "m \<le> length ?bs" "stored ds = zip (map pb_id (take m ?bs)) (fifo_take (lefts ?bs) n)"
    "\<forall>t \<in> set (drop m (fifo_take (lefts ?bs) n)). t = 0"
    "map ded_enterPrice ds = map (js_number \<circ> pb_enterPrice) (take m ?bs)"
    "rem_near (length ?bs) r (n - sum_list (fifo_take (lefts ?bs) n))"
    "n < sum_list (lefts ?bs) \<longrightarrow> r = 0" "batches_typed (lower (map_of (stored ds)) d)"
    using ref by blast
  have sum: "sum_list (fifo_take (lefts ?bs) n) = min (stock_of d p w) n"
    using fifo_plan_sum[of d n p w] R by (simp add: fifo_plan_def)
  have "\<bar>r - (n - min (stock_of d p w) n)\<bar> \<le> 3.8 / 10000"
    using rem_near_small[OF l(6)[unfolded sum]] R by simp
  then have "\<bar>r - (n - min (stock_of d p w) n)\<bar> < 1 / 1000" by simp
  moreover have "0 \<le> r" using l(6) by (simp add: rem_near_def)
  ultimately show thesis
    by (intro that[of r ds m] l(1,2,5,8)) (use l in \<open>auto simp: fifo_plan_def stock_of_def\<close>)
qed

lemma stock_grid: "batches_typed d \<Longrightarrow> on_grid 3 (stock_of d p w)"
  using available_batches_facts(5)[of d p w] by (auto simp: stock_of_def intro!: on_grid_sum)

lemma deductStock_short:
  assumes "deduct_ready d p w n" "stock_of d p w < n"
  shows "\<exists>missing. 0 < missing \<and>
    deductStock p (js_number n) w d = Inl (InsufficientStock (product_label d p) (js_number n) missing)"
proof -
  obtain r ds where l:
    "deduct_loop (available_batches d p w) (js_number n) [] d = Inr (r, ds, lower (map_of (stored ds)) d)"
    "\<bar>r - (n - min (stock_of d p w) n)\<bar> < 1 / 1000"
    by (rule deduct_run[OF assms(1)]) blast
  have "1 / 10 ^ 3 \<le> n - stock_of d p w"
    using assms stock_grid[of d p w] by (intro on_grid_pos_ge on_grid_diff) (auto simp: deduct_ready_def)
  then have "1 / 1000 \<le> n - stock_of d p w" by simp
  moreover have "\<bar>r - (n - stock_of d p w)\<bar> < 1 / 1000" using l(2) assms(2) by simp
  ultimately have "0 < r" by linarith
  with l(1) show ?thesis by (simp add: deductStock_def product_label_def)
qed

lemma deductStock_enough:
  assumes "deduct_ready d p w n" "n < stock_of d p w"
  shows "\<exists>ds. deductStock p (js_number n) w d = Inr (ds, lower (map_of (stored ds)) d)"
proof -
  obtain r ds where l:
    "deduct_loop (available_batches d p w) (js_number n) [] d = Inr (r, ds, lower (map_of (stored ds)) d)"
    "n < stock_of d p w \<longrightarrow> r = 0"
    by (rule deduct_run[OF assms(1)]) blast
  then show ?thesis using assms(2) by (simp add: deductStock_def)
qed

lemma sum_snd_zip_take:
  assumes "m \<le> length ys" "length xs = length ys" "\<forall>t \<in> set (drop m ys). t = (0::rat)"
  shows "sum_list (map snd (zip (map f (take m xs)) ys)) = sum_list ys"
proof -
  have "map snd (zip (map f (take m xs)) ys) = take m ys"
    using assms by (simp add: map_snd_zip_take)
  moreover have "sum_list (drop m ys) = 0" using assms(3) sum_list_zero_iff[of "drop m ys" "\<lambda>x. x"] by simp
  ultimately show ?thesis by (metis add.right_neutral append_take_drop_id sum_list_append)
qed

lemma deductStock_success:
  assumes "deduct_ready d p w n" "deductStock p (js_number n) w d = Inr (ds, d')"
  obtains m where "d' = lower (map_of (stored ds)) d" "batches_typed d'" "n \<le> stock_of d p w"
    "stored ds = zip (map pb_id (take m (available_batches d p w))) (fifo_plan d p w n)"
    "\<forall>t \<in> set (drop m (fifo_plan d p w n)). t = 0" "m \<le> length (available_batches d p w)"
    "map ded_enterPrice ds = map (js_number \<circ> pb_enterPrice) (take m (available_batches d p w))"
    "sum_list (map snd (stored ds)) = n"
proof -
  obtain r ds' m where l:
    "deduct_loop (available_batches d p w) (js_number n) [] d = Inr (r, ds', lower (map_of (stored ds')) d)"
    "stored ds' = zip (map pb_id (take m (available_batches d p w))) (fifo_plan d p w n)"
    "m \<le> length (available_batches d p w)" "\<forall>t \<in> set (drop m (fifo_plan d p w n)). t = 0"
    "map ded_enterPrice ds' = map (js_number \<circ> pb_enterPrice) (take m (available_batches d p w))"
    "0 \<le> r" "\<bar>r - (n - min (stock_of d p w) n)\<bar> < 1 / 1000"
    "batches_typed (lower (map_of (stored ds')) d)"
    by (rule deduct_run[OF assms(1)]) blast
  with assms(2) have r: "r \<le> 0" "ds' = ds" "d' = lower (map_of (stored ds)) d"
    by (auto simp: deductStock_def split: if_splits)
  with l(6,7) have "\<bar>n - min (stock_of d p w) n\<bar> < 1 / 10 ^ 3" by simp
  then have n: "min (stock_of d p w) n = n"
    using on_grid_eq[of 3 n "min (stock_of d p w) n"] stock_grid[of d p w] assms(1)
    by (auto simp: deduct_ready_def min_def)
  have "sum_list (map snd (stored ds)) = sum_list (fifo_plan d p w n)"
    unfolding l(2)[unfolded r(2)] using l(3,4) by (intro sum_snd_zip_take) (auto simp: fifo_plan_def)
  also have "\<dots> = n" using fifo_plan_sum[of d n p w] assms(1) n by (simp add: deduct_ready_def)
  finally show thesis using that[of m] l r n by (auto simp: min_def split: if_splits)
qed

section \<open>Quantities that move\<close>

text \<open>
  \<open>shifted f bs bs'\<close>: the same batches, each \<open>quantityLeft\<close> moved by what \<open>f\<close> gives for its id.
  Deductions shift down, returns shift up, and shifts compose.
\<close>

definition shift_batch :: "decimal \<Rightarrow> product_batch \<Rightarrow> product_batch \<Rightarrow> bool" where
  "shift_batch q b b' \<longleftrightarrow>
     b' = b\<lparr>pb_quantityLeft := pb_quantityLeft b + q, pb_updatedAt := pb_updatedAt b'\<rparr>"

definition shifted :: "(ident \<Rightarrow> decimal) \<Rightarrow> product_batch list \<Rightarrow> product_batch list \<Rightarrow> bool" where
  "shifted f bs bs' \<longleftrightarrow> list_all2 (\<lambda>b b'. shift_batch (f (pb_id b)) b b') bs bs'"

definition moved :: "ident \<Rightarrow> (ident \<times> decimal) list \<Rightarrow> decimal" where
  "moved i links = sum_list (map snd (filter (\<lambda>l. fst l = i) links))"

lemma moved_simps [simp]:
  "moved i [] = 0" "moved i (l # ls) = (if fst l = i then snd l else 0) + moved i ls"
  "moved i (xs @ ys) = moved i xs + moved i ys"
  by (simp_all add: moved_def)

lemma shift_batch_left:
  "shift_batch q b b' \<Longrightarrow> pb_quantityLeft b' = pb_quantityLeft b + q \<and> pb_id b' = pb_id b \<and>
     pb_quantityTotal b' = pb_quantityTotal b \<and> pb_enterPrice b' = pb_enterPrice b \<and>
     pb_productId b' = pb_productId b \<and> pb_createdAt b' = pb_createdAt b \<and>
     pb_goodsReceiptId b' = pb_goodsReceiptId b \<and> pb_buyerReturnId b' = pb_buyerReturnId b"
  by (cases b, cases b') (simp add: shift_batch_def)

lemma shift_batch_iff:
  "shift_batch q b b' \<longleftrightarrow> pb_quantityLeft b' = pb_quantityLeft b + q \<and> pb_id b' = pb_id b \<and>
     pb_quantityTotal b' = pb_quantityTotal b \<and> pb_enterPrice b' = pb_enterPrice b \<and>
     pb_productId b' = pb_productId b \<and> pb_createdAt b' = pb_createdAt b \<and>
     pb_goodsReceiptId b' = pb_goodsReceiptId b \<and> pb_buyerReturnId b' = pb_buyerReturnId b"
  by (cases b, cases b') (auto simp: shift_batch_def)

lemma shifted_zero: "shifted (\<lambda>_. 0) bs bs"
  by (simp add: shifted_def list_all2_refl shift_batch_def)

lemma shifted_trans:
  assumes "shifted f xs ys" "shifted g ys zs"
  shows "shifted (\<lambda>i. f i + g i) xs zs"
  using assms unfolding shifted_def
  by (rule list_all2_trans[rotated]) (auto simp: shift_batch_iff)

lemma shifted_ids: "shifted f xs ys \<Longrightarrow> map pb_id ys = map pb_id xs"
  unfolding shifted_def
  by (induction rule: list_all2_induct) (auto dest: shift_batch_left)

lemma shifted_memD:
  assumes "shifted f xs ys" "y \<in> set ys"
  obtains x where "x \<in> set xs" "shift_batch (f (pb_id x)) x y"
  using assms unfolding shifted_def list_all2_conv_all_nth in_set_conv_nth by metis

lemma shifted_memI:
  assumes "shifted f xs ys" "x \<in> set xs"
  obtains y where "y \<in> set ys" "shift_batch (f (pb_id x)) x y"
  using assms unfolding shifted_def list_all2_conv_all_nth in_set_conv_nth by metis

lemma shifted_cong:
  assumes "shifted f xs ys" "\<And>x. x \<in> set xs \<Longrightarrow> f (pb_id x) = g (pb_id x)"
  shows "shifted g xs ys"
  using assms unfolding shifted_def list_all2_conv_all_nth by simp

lemma lower_shifted:
  "shifted (\<lambda>i. - (case f i of None \<Rightarrow> 0 | Some t \<Rightarrow> t)) (ProductBatch d) (ProductBatch (lower f d))"
  by (simp add: shifted_def lower_def list_all2_map2 list_all2_refl shift_batch_iff)

lemma map_of_moved:
  "distinct (map fst ls) \<Longrightarrow> (case map_of ls i of None \<Rightarrow> 0 | Some t \<Rightarrow> t) = moved i ls"
proof (induction ls)
  case (Cons l ls)
  show ?case
  proof (cases "fst l = i")
    case True
    with Cons.prems have "map_of ls i = None" by (auto simp: map_of_eq_None_iff)
    with True Cons show ?thesis by simp
  qed (use Cons in simp)
qed simp

section \<open>Stock that is added\<close>

definition new_batch ::
  "ident \<Rightarrow> ident \<Rightarrow> decimal \<Rightarrow> decimal \<Rightarrow> ident option \<Rightarrow> ident option \<Rightarrow> timestamp \<Rightarrow> timestamp \<Rightarrow> product_batch"
  where
  "new_batch i productId quantity price receipt return created now =
     \<lparr>pb_id = i, pb_productId = productId, pb_quantityTotal = quantity, pb_quantityLeft = quantity,
      pb_enterPrice = price, pb_goodsReceiptId = receipt, pb_buyerReturnId = return,
      pb_createdAt = created, pb_updatedAt = now\<rparr>"

lemma new_batch_fields [simp]:
  "pb_id (new_batch i p q c r b t now) = i" "pb_productId (new_batch i p q c r b t now) = p"
  "pb_quantityTotal (new_batch i p q c r b t now) = q" "pb_quantityLeft (new_batch i p q c r b t now) = q"
  "pb_enterPrice (new_batch i p q c r b t now) = c" "pb_goodsReceiptId (new_batch i p q c r b t now) = r"
  "pb_buyerReturnId (new_batch i p q c r b t now) = b" "pb_createdAt (new_batch i p q c r b t now) = t"
  by (simp_all add: new_batch_def)

lemma addStock_exact:
  assumes "on_grid 3 q" "\<bar>q\<bar> < 10 ^ 7" "on_grid 2 c" "\<bar>c\<bar> < 10 ^ 8"
    and "fk_ok (map gr_id (GoodsReceipt d)) r" "fk_ok (map br_id (BuyerReturn d)) b"
  shows "addStock p (js_number q) (js_number c) r (Some t) b d =
    (let row = new_batch (next_uuid d) p q c r b t (clock d)
     in Inr (row, d\<lparr>ProductBatch := ProductBatch d @ [row], next_uuid := Suc (next_uuid d)\<rparr>))"
proof -
  have "round_dec 3 (js_text (js_number q)) = q" "round_dec 2 (js_text (js_number c)) = c"
    using assms by (auto intro!: column_exact)
  moreover have "ins_ProductBatch row e = Inr (e\<lparr>ProductBatch := ProductBatch e @ [row]\<rparr>)"
    if "\<forall>x \<in> set (batch_numbers_ok row). fst x" "fk_ok (map gr_id (GoodsReceipt e)) (pb_goodsReceiptId row)"
      "fk_ok (map br_id (BuyerReturn e)) (pb_buyerReturnId row)" for row e
  proof -
    have "first_error (batch_numbers_ok row @
      [(fk_ok (map gr_id (GoodsReceipt e)) (pb_goodsReceiptId row),
        ForeignKeyViolation ''ProductBatch.goodsReceiptId''),
       (fk_ok (map br_id (BuyerReturn e)) (pb_buyerReturnId row),
        ForeignKeyViolation ''ProductBatch.buyerReturnId'')]) = Inr ()"
      using that by auto
    then show ?thesis by (simp add: ins_ProductBatch_def)
  qed
  ultimately show ?thesis
    using assms by (simp add: addStock_def Let_def new_batch_def batch_numbers_ok_def dec_fits_def)
qed

section \<open>Stock that comes back\<close>

lemma return_to_batch_ok:
  assumes "batches_typed d" "on_grid 3 q"
  shows "(\<exists>d'. return_to_batch i q d = Inr d') \<longleftrightarrow>
    (\<forall>b \<in> set (ProductBatch d). pb_id b = i \<longrightarrow> \<bar>pb_quantityLeft b + q\<bar> < 10 ^ 7)"
proof -
  have *: "\<bar>round_dec 3 (pb_quantityLeft b + q)\<bar> < 10 ^ 7 \<longleftrightarrow> \<bar>pb_quantityLeft b + q\<bar> < 10 ^ 7"
    "\<bar>pb_quantityTotal b\<bar> < 10 ^ 7" "\<bar>pb_enterPrice b\<bar> < 10 ^ 8"
    if "b \<in> set (ProductBatch d)" for b
    using that assms by (auto simp: batches_typed_def batch_typed_def batch_numbers_ok_def
        dec_fits_def on_grid_add)
  show ?thesis using *
    by (auto simp: return_to_batch_def upd_ProductBatch_def update_table_Inr_iff batch_numbers_ok_def
        dec_fits_def)
qed

lemma return_to_batch_shifts:
  assumes "batches_typed d" "on_grid 3 q" "return_to_batch i q d = Inr d'"
  shows "shifted (\<lambda>j. if j = i then q else 0) (ProductBatch d) (ProductBatch d')"
    and "batches_typed d'" and "d' = d\<lparr>ProductBatch := ProductBatch d'\<rparr>"
proof -
  let ?f = "\<lambda>b. b\<lparr>pb_quantityLeft := round_dec 3 (pb_quantityLeft b + q), pb_updatedAt := clock d\<rparr>"
  from assms(3) have d': "d' = d\<lparr>ProductBatch := map_where (\<lambda>b. pb_id b = i) ?f (ProductBatch d)\<rparr>"
    and ok: "\<forall>b \<in> set (ProductBatch d). pb_id b = i \<longrightarrow> (\<forall>c \<in> set (batch_numbers_ok (?f b)). fst c)"
    by (auto simp: return_to_batch_def upd_ProductBatch_def update_table_Inr_iff)
  have typed: "batch_typed b" if "b \<in> set (ProductBatch d)" for b
    using that assms(1) by (simp add: batches_typed_def)
  then have grid: "round_dec 3 (pb_quantityLeft b + q) = pb_quantityLeft b + q"
    if "b \<in> set (ProductBatch d)" for b
    using that assms(2) by (simp add: batch_typed_def on_grid_add)
  show "shifted (\<lambda>j. if j = i then q else 0) (ProductBatch d) (ProductBatch d')"
    unfolding d' shifted_def map_where_def
    by (auto simp: list_all2_map2 shift_batch_iff grid intro!: list.rel_refl_strong)
  have "batch_typed (?f b)" if "b \<in> set (ProductBatch d)" "pb_id b = i" for b
    using typed[OF that(1)] ok that by (simp add: batch_typed_def)
  then show "batches_typed d'"
    using assms(1) map_map_where[of "\<lambda>b. pb_id b = i" pb_id ?f "ProductBatch d"]
    unfolding d' batches_typed_def by (auto simp: set_map_where)
  show "d' = d\<lparr>ProductBatch := ProductBatch d'\<rparr>" by (simp add: d')
qed

abbreviation return_links :: "(ident \<times> decimal) list \<Rightarrow> db \<Rightarrow> error + db" where
  "return_links \<equiv> for_each (\<lambda>l. return_to_batch (fst l) (snd l))"

lemma return_links_shifts:
  assumes "return_links ls d = Inr d'" "batches_typed d" "\<forall>l \<in> set ls. on_grid 3 (snd l)"
  shows "shifted (\<lambda>i. moved i ls) (ProductBatch d) (ProductBatch d') \<and> batches_typed d' \<and>
    d' = d\<lparr>ProductBatch := ProductBatch d'\<rparr>"
  using assms
proof (induction ls arbitrary: d)
  case Nil
  then show ?case by (simp add: shifted_zero)
next
  case (Cons l ls)
  then obtain e where e: "return_to_batch (fst l) (snd l) d = Inr e" "return_links ls e = Inr d'" by auto
  note s = return_to_batch_shifts[OF Cons.prems(2) _ e(1)]
  have "on_grid 3 (snd l)" using Cons.prems(3) by simp
  note s = s[OF this]
  from Cons.IH[OF e(2) s(2)] Cons.prems(3) have IH:
    "shifted (\<lambda>i. moved i ls) (ProductBatch e) (ProductBatch d')" "batches_typed d'"
    "d' = e\<lparr>ProductBatch := ProductBatch d'\<rparr>" by auto
  have "shifted (\<lambda>i. moved i (l # ls)) (ProductBatch d) (ProductBatch d')"
    by (rule shifted_cong[OF shifted_trans[OF s(1) IH(1)]]) auto
  moreover have "d' = d\<lparr>ProductBatch := ProductBatch d'\<rparr>"
    by (subst IH(3), subst s(3)) simp
  ultimately show ?case using IH(2) by simp
qed

lemma return_links_succeeds:
  assumes "batches_typed d" "\<forall>l \<in> set ls. on_grid 3 (snd l) \<and> 0 \<le> snd l"
    and "\<forall>b \<in> set (ProductBatch d). 0 \<le> pb_quantityLeft b \<and> pb_quantityLeft b + moved (pb_id b) ls < 10 ^ 7"
  shows "\<exists>d'. return_links ls d = Inr d'"
  using assms
proof (induction ls arbitrary: d)
  case (Cons l ls)
  have pos: "0 \<le> moved i ls" for i
    using Cons.prems(2) by (auto simp: moved_def intro!: sum_list_nonneg)
  have fits: "\<bar>pb_quantityLeft b + snd l\<bar> < 10 ^ 7" if "b \<in> set (ProductBatch d)" "pb_id b = fst l" for b
    using Cons.prems(2,3) that pos[of "fst l"] by fastforce
  with Cons.prems(1,2) obtain e where e: "return_to_batch (fst l) (snd l) d = Inr e"
    using return_to_batch_ok[of d "snd l" "fst l"] by auto
  have g: "on_grid 3 (snd l)" "0 \<le> snd l" using Cons.prems(2) by auto
  note s = return_to_batch_shifts[OF Cons.prems(1) g(1) e]
  have "\<exists>d'. return_links ls e = Inr d'"
  proof (rule Cons.IH[OF s(2)])
    show "\<forall>l \<in> set ls. on_grid 3 (snd l) \<and> 0 \<le> snd l" using Cons.prems(2) by simp
    show "\<forall>b \<in> set (ProductBatch e). 0 \<le> pb_quantityLeft b \<and> pb_quantityLeft b + moved (pb_id b) ls < 10 ^ 7"
    proof
      fix b' assume "b' \<in> set (ProductBatch e)"
      then obtain b where b: "b \<in> set (ProductBatch d)"
        "shift_batch (if pb_id b = fst l then snd l else 0) b b'"
        by (rule shifted_memD[OF s(1)])
      then have "0 \<le> pb_quantityLeft b"
        "pb_quantityLeft b + ((if fst l = pb_id b then snd l else 0) + moved (pb_id b) ls) < 10 ^ 7"
        using Cons.prems(3) by simp_all
      then show "0 \<le> pb_quantityLeft b' \<and> pb_quantityLeft b' + moved (pb_id b') ls < 10 ^ 7"
        using g(2) shift_batch_left[OF b(2)] by (cases "pb_id b = fst l") simp_all
    qed
  qed
  then show ?case using e by auto
qed simp

lemma returnStock_links:
  "returnStock r d = rbind (return_links (map (\<lambda>x. (rib_productBatchId x, rib_quantity x))
     (realization_links r d)) d) (\<lambda>d'. Inr (realization_links r d, d'))"
  by (simp add: returnStock_def Let_def for_each_map)

lemma moved_absent: "i \<notin> fst ` set ls \<Longrightarrow> moved i ls = 0"
  by (induction ls) auto

lemma moved_zip_nth:
  assumes "distinct is" "length is = length qs" "k < length is" "m \<le> length is"
    and "\<forall>t \<in> set (drop m qs). t = 0"
  shows "moved (is ! k) (zip (take m is) qs) = qs ! k"
  using assms
proof (induction "is" qs arbitrary: k m rule: list_induct2')
  case (4 i is' q qs)
  show ?case
  proof (cases m)
    case 0
    with "4.prems" have "(q # qs) ! k \<in> set (q # qs)" by (intro nth_mem) auto
    with 0 "4.prems"(5) show ?thesis by auto
  next
    case (Suc m')
    show ?thesis
    proof (cases k)
      case 0
      have "moved i (zip (take m' is') qs) = 0"
        using "4.prems"(1) by (intro moved_absent) (auto dest!: set_zip_leftD set_take_subset[THEN subsetD])
      with 0 Suc show ?thesis by simp
    next
      case (Suc k')
      have "moved (is' ! k') (zip (take m' is') qs) = qs ! k'"
        using "4.prems" Suc \<open>m = Suc m'\<close> by (intro "4.IH") auto
      moreover have "is' ! k' \<noteq> i" using "4.prems"(1,3) Suc by (auto simp: in_set_conv_nth)
      ultimately show ?thesis using Suc \<open>m = Suc m'\<close> by auto
    qed
  qed
qed auto

lemma moved_plan:
  assumes "batches_typed d" "k < length (available_batches d p w)" "m \<le> length (available_batches d p w)"
    and "stored ds = zip (map pb_id (take m (available_batches d p w))) (fifo_plan d p w n)"
    and "\<forall>t \<in> set (drop m (fifo_plan d p w n)). t = 0"
  shows "moved (pb_id (available_batches d p w ! k)) (stored ds) = fifo_plan d p w n ! k"
proof -
  have "moved (map pb_id (available_batches d p w) ! k)
      (zip (take m (map pb_id (available_batches d p w))) (fifo_plan d p w n)) = fifo_plan d p w n ! k"
    using assms available_batches_facts(2)[OF assms(1)]
    by (intro moved_zip_nth) (auto simp: fifo_plan_def)
  then show ?thesis using assms by (simp add: take_map)
qed

text \<open>The batches after a deduction: each is lower by what was stored for it.\<close>

lemma deductStock_shifted:
  assumes "deduct_ready d p w n" "deductStock p (js_number n) w d = Inr (ds, d')"
  shows "shifted (\<lambda>i. - moved i (stored ds)) (ProductBatch d) (ProductBatch d')"
    and "d' = d\<lparr>ProductBatch := ProductBatch d'\<rparr>"
proof -
  from assms obtain m where m: "d' = lower (map_of (stored ds)) d"
    "stored ds = zip (map pb_id (take m (available_batches d p w))) (fifo_plan d p w n)"
    by (rule deductStock_success)
  have "distinct (map pb_id (available_batches d p w))"
    using assms(1) by (intro available_batches_facts) (simp add: deduct_ready_def)
  then have "distinct (map fst (stored ds))"
    unfolding m(2) map_fst_zip_take by (metis distinct_take take_map)
  then have "- (case map_of (stored ds) i of None \<Rightarrow> 0 | Some t \<Rightarrow> t) = - moved i (stored ds)" for i
    using map_of_moved[of "stored ds" i] by (simp only:)
  then show "shifted (\<lambda>i. - moved i (stored ds)) (ProductBatch d) (ProductBatch d')"
    using lower_shifted[of "map_of (stored ds)" d] unfolding m(1) by simp
  show "d' = d\<lparr>ProductBatch := ProductBatch d'\<rparr>" unfolding m(1) by (simp add: lower_def)
qed

section \<open>What deductStock promises\<close>

text \<open>
  C1: a successful \<open>deductStock\<close> takes exactly the requested quantity, and what it takes from each
  batch is the exact first-in-first-out allocation over the stock the query sees, although the loop
  computes in binary64: the link rows get the allocation, the batches are lowered by it, batches
  beyond the allocation are untouched, and the batch table stays well-typed.
\<close>

theorem deductStock_fifo:
  assumes "deduct_ready d p w n" and "deductStock p (js_number n) w d = Inr (ds, d')"
  shows "\<exists>m. stored ds = zip (map pb_id (take m (available_batches d p w))) (fifo_plan d p w n) \<and>
      (\<forall>t \<in> set (drop m (fifo_plan d p w n)). t = 0) \<and>
      sum_list (map snd (stored ds)) = n \<and> n \<le> stock_of d p w \<and>
      d' = lower (map_of (stored ds)) d \<and> batches_typed d'"
  using assms by (rule deductStock_success) blast

text \<open>The stock of one product in one warehouse, in two receipts.\<close>

definition two_batches :: "decimal \<Rightarrow> decimal \<Rightarrow> db" where
  "two_batches x y = empty_db\<lparr>
     GoodsReceipt := [\<lparr>gr_id = 1, gr_number = ''R1'', gr_docNumber = None, gr_date = 10, gr_warehouseId = Some 7,
        gr_providerId = None, gr_status = POSTED, gr_comment = None, gr_createdBy = None,
        gr_paidAmount = 0, gr_isDeleted = False, gr_createdAt = 10, gr_updatedAt = 10\<rparr>],
     ProductBatch :=
       [\<lparr>pb_id = 2, pb_productId = 5, pb_quantityTotal = y, pb_quantityLeft = y, pb_enterPrice = 3,
         pb_goodsReceiptId = Some 1, pb_buyerReturnId = None, pb_createdAt = 20, pb_updatedAt = 20\<rparr>,
        \<lparr>pb_id = 1, pb_productId = 5, pb_quantityTotal = x, pb_quantityLeft = x, pb_enterPrice = 2,
         pb_goodsReceiptId = Some 1, pb_buyerReturnId = None, pb_createdAt = 10, pb_updatedAt = 10\<rparr>]\<rparr>"

lemma two_batches_ready:
  assumes "on_grid 3 n" "0 \<le> n" "n \<le> 10 ^ 7"
  shows "deduct_ready (two_batches 5 3) 5 (Some 7) n"
proof -
  have "batches_typed (two_batches 5 3)" by code_simp
  moreover have "length (available_batches (two_batches 5 3) 5 (Some 7)) = 2" by code_simp
  ultimately show ?thesis using assms by (simp add: deduct_ready_def max_batches_def)
qed

lemma on_grid_numeral [simp]: "on_grid s (numeral k)" "on_grid s 1"
  unfolding on_grid_def by auto

lemmas two_batches_ready_6 = two_batches_ready[of 6, simplified]

theorem deductStock_fifo_witness:
  "\<exists>ds d' m. deductStock 5 (js_number 6) (Some 7) (two_batches 5 3) = Inr (ds, d') \<and>
     stored ds = zip (map pb_id (take m (available_batches (two_batches 5 3) 5 (Some 7))))
       (fifo_plan (two_batches 5 3) 5 (Some 7) 6) \<and> sum_list (map snd (stored ds)) = 6"
proof -
  have "6 < stock_of (two_batches 5 3) 5 (Some 7)" by code_simp
  from deductStock_enough[OF two_batches_ready_6 this]
  obtain ds d' where "deductStock 5 (js_number 6) (Some 7) (two_batches 5 3) = Inr (ds, d')" by blast
  with deductStock_fifo[OF two_batches_ready_6 this] show ?thesis by blast
qed

text \<open>
  C2: oldest first. If a deduction takes anything from a batch, every batch with an earlier place in
  the \<open>createdAt\<close> order has been used up to the last thousandth, and no batch is overdrawn.
\<close>

theorem deductStock_oldest_first:
  assumes "deduct_ready d p w n" and "deductStock p (js_number n) w d = Inr (ds, d')"
    and "i < j" and "j < length (available_batches d p w)"
    and "0 < moved (pb_id (available_batches d p w ! j)) (stored ds)"
  shows "pb_createdAt (available_batches d p w ! i) \<le> pb_createdAt (available_batches d p w ! j) \<and>
    moved (pb_id (available_batches d p w ! i)) (stored ds) =
      pb_quantityLeft (available_batches d p w ! i) \<and>
    (\<forall>b \<in> set (ProductBatch d').
       pb_id b = pb_id (available_batches d p w ! i) \<longrightarrow> pb_quantityLeft b = 0)"
proof -
  let ?bs = "available_batches d p w"
  have typed: "batches_typed d" and n: "0 \<le> n" using assms(1) by (auto simp: deduct_ready_def)
  note f = available_batches_facts[OF typed, of p w]
  from assms(1,2) obtain m where m: "m \<le> length ?bs"
    "stored ds = zip (map pb_id (take m ?bs)) (fifo_plan d p w n)"
    "\<forall>t \<in> set (drop m (fifo_plan d p w n)). t = 0" by (rule deductStock_success)
  note plan = moved_plan[OF typed _ m]
  have "0 < fifo_take (lefts ?bs) n ! j" using plan[OF assms(4)] assms(5) by (simp add: fifo_plan_def)
  then have "fifo_take (lefts ?bs) n ! i = lefts ?bs ! i"
    using fifo_take_oldest_first[OF n _ assms(3), of "lefts ?bs"] f(5) assms(4) by auto
  then have used: "moved (pb_id (?bs ! i)) (stored ds) = pb_quantityLeft (?bs ! i)"
    using plan[of i] assms(3,4) by (simp add: fifo_plan_def)
  have "pb_createdAt (?bs ! i) \<le> pb_createdAt (?bs ! j)"
    using sorted_nth_mono[OF f(4), of i j] assms(3,4) by simp
  moreover have "pb_quantityLeft b = 0"
    if b: "b \<in> set (ProductBatch d')" "pb_id b = pb_id (?bs ! i)" for b
  proof -
    from deductStock_shifted(1)[OF assms(1,2)] b(1) obtain c where c: "c \<in> set (ProductBatch d)"
      "shift_batch (- moved (pb_id c) (stored ds)) c b" by (rule shifted_memD)
    have "?bs ! i \<in> set (ProductBatch d)" using f(1) assms(3,4) nth_mem[of i ?bs] by auto
    then have "c = ?bs ! i"
      using typed c b(2) shift_batch_left[OF c(2)]
      by (auto simp: batches_typed_def distinct_map dest: inj_onD)
    then show ?thesis using shift_batch_left[OF c(2)] used by simp
  qed
  ultimately show ?thesis using used by blast
qed

theorem deductStock_oldest_first_witness:
  "\<exists>ds d'. deductStock 5 (js_number 6) (Some 7) (two_batches 5 3) = Inr (ds, d') \<and>
     moved (pb_id (available_batches (two_batches 5 3) 5 (Some 7) ! 0)) (stored ds) = 5"
proof -
  let ?d = "two_batches 5 3" and ?bs = "available_batches (two_batches 5 3) 5 (Some 7)"
  have bs: "length ?bs = 2" "pb_quantityLeft (?bs ! 0) = 5" "fifo_plan ?d 5 (Some 7) 6 ! 1 = 1"
    "6 < stock_of ?d 5 (Some 7)" by code_simp+
  from deductStock_enough[OF two_batches_ready_6 bs(4)]
  obtain ds d' where run: "deductStock 5 (js_number 6) (Some 7) ?d = Inr (ds, d')" by blast
  from two_batches_ready_6 run obtain m where m: "m \<le> length ?bs"
    "stored ds = zip (map pb_id (take m ?bs)) (fifo_plan ?d 5 (Some 7) 6)"
    "\<forall>t \<in> set (drop m (fifo_plan ?d 5 (Some 7) 6)). t = 0" by (rule deductStock_success)
  have "moved (pb_id (?bs ! 1)) (stored ds) = 1"
    using moved_plan[OF _ _ m, of 1] two_batches_ready_6 bs by (simp add: deduct_ready_def)
  with deductStock_oldest_first[OF two_batches_ready_6 run, of 0 1] bs run show ?thesis by auto
qed

text \<open>
  C19: when the stock the query sees is smaller than the request, \<open>deductStock\<close> throws
  INSUFFICIENT_STOCK with the product's label and a positive missing quantity, whatever the rounding
  errors of the loop.
\<close>

theorem deductStock_insufficient:
  assumes "deduct_ready d p w n" and "stock_of d p w < n"
  shows "\<exists>missing. 0 < missing \<and>
    deductStock p (js_number n) w d = Inl (InsufficientStock (product_label d p) (js_number n) missing)"
  using assms by (rule deductStock_short)

theorem deductStock_insufficient_witness:
  "\<exists>missing. 0 < missing \<and> deductStock 5 (js_number 9) (Some 7) (two_batches 5 3) =
     Inl (InsufficientStock (product_label (two_batches 5 3) 5) (js_number 9) missing)"
proof (rule deductStock_insufficient)
  show "deduct_ready (two_batches 5 3) 5 (Some 7) 9" by (rule two_batches_ready) simp_all
  show "stock_of (two_batches 5 3) 5 (Some 7) < 9" by code_simp
qed

text \<open>
  C37: when the stock exceeds the request by any amount, \<open>deductStock\<close> succeeds and lowers the batches
  by what it stores.
\<close>

theorem deductStock_succeeds:
  assumes "deduct_ready d p w n" and "n < stock_of d p w"
  shows "\<exists>ds. deductStock p (js_number n) w d = Inr (ds, lower (map_of (stored ds)) d)"
  using assms by (rule deductStock_enough)

theorem deductStock_succeeds_witness:
  "\<exists>ds. deductStock 5 (js_number 7) (Some 7) (two_batches 5 3) =
     Inr (ds, lower (map_of (stored ds)) (two_batches 5 3))"
proof (rule deductStock_succeeds)
  show "deduct_ready (two_batches 5 3) 5 (Some 7) 7" by (rule two_batches_ready) simp_all
  show "7 < stock_of (two_batches 5 3) 5 (Some 7)" by code_simp
qed

text \<open>
  Between the two lies a flaw of the floating-point loop. With batches of 0.7 and 0.1 the stock is
  exactly the 0.8 requested, and \<open>deductStock\<close> throws INSUFFICIENT_STOCK for a missing quantity of
  about \<open>8e-17\<close>.
\<close>

theorem deductStock_exact_stock_refused:
  "stock_of (two_batches (7 / 10) (1 / 10)) 5 (Some 7) = 8 / 10 \<and>
   deductStock 5 (js_number (8 / 10)) (Some 7) (two_batches (7 / 10) (1 / 10)) =
     Inl (InsufficientStock (Inl 5) (js_number (8 / 10)) (3 / 2 ^ 55))"
proof
  show "stock_of (two_batches (7 / 10) (1 / 10)) 5 (Some 7) = 8 / 10" by code_simp
next
  show "deductStock 5 (js_number (8 / 10)) (Some 7) (two_batches (7 / 10) (1 / 10)) =
     Inl (InsufficientStock (Inl 5) (js_number (8 / 10)) (3 / 2 ^ 55))" by code_simp
qed

end
