(* ===== verification/Outgoing.thy ===== *)
theory Outgoing
  imports Inventory
begin

text \<open>
  The interface between the stock and the documents that take goods out of it (realizations and
  returns to a supplier): a document deducts the stock of each item and records every deduction as a
  link row. \<open>outgoing\<close> states what such a link table must do; its lemmas give the effect of a whole
  document on the batches and show that returning the links restores them.
\<close>

section \<open>Issuing items\<close>

text \<open>Deduct an item's stock, then record each deduction with \<open>ins\<close>.\<close>

definition issue_item ::
  "(ident \<Rightarrow> deduction \<Rightarrow> db \<Rightarrow> error + db) \<Rightarrow> ident option \<Rightarrow> ident \<times> ident \<times> decimal \<Rightarrow> db \<Rightarrow> error + db"
  where
  "issue_item ins w = (\<lambda>(item, productId, quantity) d.
     rbind (deductStock productId (js_number quantity) w d) (\<lambda>(deductions, d').
       for_each (ins item) deductions d'))"

text \<open>What every step of an outgoing document needs: typed batches and quantities of the column's scale.\<close>

definition stock_ready :: "db \<Rightarrow> bool" where
  "stock_ready d \<longleftrightarrow> batches_typed d \<and> length (ProductBatch d) \<le> max_batches"

definition quantity_ready :: "decimal \<Rightarrow> bool" where
  "quantity_ready n \<longleftrightarrow> on_grid 3 n \<and> 0 \<le> n \<and> n \<le> 10 ^ 7"

lemma stock_ready_deduct: "stock_ready d \<Longrightarrow> quantity_ready n \<Longrightarrow> deduct_ready d p w n"
  by (simp add: stock_ready_def quantity_ready_def deduct_ready_def available_batches_def)
    (meson length_filter_le le_trans)

text \<open>A grid-valued deduction list: what \<open>deductStock\<close> stores.\<close>

lemma deductStock_stored:
  assumes "deduct_ready d p w n" "deductStock p (js_number n) w d = Inr (ds, d')"
  shows "\<forall>x \<in> set (stored ds). on_grid 3 (snd x) \<and> 0 \<le> snd x \<and> fst x \<in> pb_id ` set (ProductBatch d)"
    and "sum_list (map snd (stored ds)) = n"
proof -
  from assms obtain m where m: "sum_list (map snd (stored ds)) = n"
    "stored ds = zip (map pb_id (take m (available_batches d p w))) (fifo_plan d p w n)"
    by (rule deductStock_success)
  show "sum_list (map snd (stored ds)) = n" by (rule m)
  have typed: "batches_typed d" "on_grid 3 n" "0 \<le> n" using assms(1) by (auto simp: deduct_ready_def)
  note f = available_batches_facts[OF typed(1), of p w]
  have "list_all2 (\<lambda>t q. 0 \<le> t \<and> t \<le> q) (fifo_plan d p w n) (lefts (available_batches d p w))"
    using fifo_take_bounds[OF typed(3), of "lefts (available_batches d p w)"] f(5)
    by (simp add: fifo_plan_def)
  then have "\<forall>t \<in> set (fifo_plan d p w n). 0 \<le> t"
    by (auto simp: list_all2_conv_all_nth in_set_conv_nth)
  moreover have "\<forall>t \<in> set (fifo_plan d p w n). on_grid 3 t"
    using fifo_take_grid[of 3 n "lefts (available_batches d p w)"] typed(2) f(5) by (simp add: fifo_plan_def)
  moreover have ids: "set (map pb_id (take m (available_batches d p w))) \<subseteq> pb_id ` set (ProductBatch d)"
    using set_take_subset[of m "available_batches d p w"] f(1) by auto
  moreover have "fst x \<in> set (map pb_id (take m (available_batches d p w))) \<and> snd x \<in> set (fifo_plan d p w n)"
    if "x \<in> set (stored ds)" for x
    using that unfolding m(2) by (metis prod.collapse set_zip_leftD set_zip_rightD)
  ultimately show "\<forall>x \<in> set (stored ds). on_grid 3 (snd x) \<and> 0 \<le> snd x \<and> fst x \<in> pb_id ` set (ProductBatch d)"
    by blast
qed

text \<open>A deduction never overdraws a batch.\<close>

lemma deductStock_nonneg:
  assumes "deduct_ready d p w n" "deductStock p (js_number n) w d = Inr (ds, d')"
    and "\<forall>b \<in> set (ProductBatch d). 0 \<le> pb_quantityLeft b"
  shows "\<forall>b \<in> set (ProductBatch d'). 0 \<le> pb_quantityLeft b"
proof
  fix b' assume "b' \<in> set (ProductBatch d')"
  with deductStock_shifted(1)[OF assms(1,2)] obtain b where b: "b \<in> set (ProductBatch d)"
    "shift_batch (- moved (pb_id b) (stored ds)) b b'" by (rule shifted_memD)
  let ?bs = "available_batches d p w"
  from assms(1,2) obtain m where m: "m \<le> length ?bs"
    "stored ds = zip (map pb_id (take m ?bs)) (fifo_plan d p w n)"
    "\<forall>t \<in> set (drop m (fifo_plan d p w n)). t = 0" by (rule deductStock_success)
  have typed: "batches_typed d" "0 \<le> n" using assms(1) by (auto simp: deduct_ready_def)
  note f = available_batches_facts[OF typed(1), of p w]
  have "moved (pb_id b) (stored ds) \<le> pb_quantityLeft b"
  proof (cases "pb_id b \<in> pb_id ` set (take m ?bs)")
    case True
    then obtain c where c: "c \<in> set (take m ?bs)" "pb_id c = pb_id b" by auto
    then have "c \<in> set ?bs" by (meson in_set_takeD)
    moreover have "c = b" using c(2) b(1) f(1) typed(1) calculation
      by (auto simp: batches_typed_def distinct_map dest: inj_onD)
    ultimately obtain k where k: "k < length ?bs" "?bs ! k = b" by (auto simp: in_set_conv_nth)
    have "list_all2 (\<lambda>t q. 0 \<le> t \<and> t \<le> q) (fifo_plan d p w n) (lefts ?bs)"
      using fifo_take_bounds[OF typed(2), of "lefts ?bs"] f(5) by (simp add: fifo_plan_def)
    then have "fifo_plan d p w n ! k \<le> lefts ?bs ! k"
      using k(1) by (auto simp: list_all2_conv_all_nth)
    then show ?thesis using moved_plan[OF typed(1) k(1) m] k by simp
  next
    case False
    then have "pb_id b \<notin> fst ` set (stored ds)"
      unfolding m(2) by (auto dest!: set_zip_leftD)
    then show ?thesis using assms(3) b(1) by (simp add: moved_absent)
  qed
  then show "0 \<le> pb_quantityLeft b'" using shift_batch_left[OF b(2)] by simp
qed

text \<open>A deduction touches the batches only.\<close>

lemma take_from_batch_rest: "take_from_batch i x d = Inr d' \<Longrightarrow> d'\<lparr>ProductBatch := []\<rparr> = d\<lparr>ProductBatch := []\<rparr>"
  by (auto simp: take_from_batch_def upd_ProductBatch_def)

lemma deduct_loop_rest:
  "deduct_loop bs r ds d = Inr (r', ds', d') \<Longrightarrow> d'\<lparr>ProductBatch := []\<rparr> = d\<lparr>ProductBatch := []\<rparr>"
  by (induction bs r ds d rule: deduct_loop.induct)
    (fastforce simp: Let_def split: if_splits dest: take_from_batch_rest)+

lemma deductStock_rest:
  assumes "deductStock p n w d = Inr (ds, d')"
  shows "d'\<lparr>ProductBatch := []\<rparr> = d\<lparr>ProductBatch := []\<rparr>"
  using assms deduct_loop_rest by (fastforce simp: deductStock_def split: if_splits)

section \<open>The link table contract\<close>

locale outgoing =
  fixes links :: "db \<Rightarrow> 'l list" and item_of :: "'l \<Rightarrow> ident" and lnk :: "'l \<Rightarrow> ident \<times> decimal"
    and ins :: "ident \<Rightarrow> deduction \<Rightarrow> db \<Rightarrow> error + db"
  assumes ins_links: "ins item x d = Inr d' \<Longrightarrow> \<exists>l. links d' = links d @ [l] \<and> item_of l = item \<and>
      lnk l = (ded_batchId x, round_dec 3 (js_text (ded_quantity x)))"
    and ins_stock: "ins item x d = Inr d' \<Longrightarrow> ProductBatch d' = ProductBatch d"
    and links_stock: "links (d\<lparr>ProductBatch := bs\<rparr>) = links d"
begin

lemma ins_deductions:
  assumes "for_each (ins item) ds d = Inr d'"
  shows "\<exists>new. links d' = links d @ new \<and> map lnk new = stored ds \<and> (\<forall>l \<in> set new. item_of l = item) \<and>
    ProductBatch d' = ProductBatch d"
  using assms
proof (induction ds arbitrary: d)
  case Nil
  then show ?case by simp
next
  case (Cons x ds)
  then obtain e where e: "ins item x d = Inr e" "for_each (ins item) ds e = Inr d'" by auto
  from Cons.IH[OF e(2)] obtain new where new: "links d' = links e @ new" "map lnk new = stored ds"
    "\<forall>l \<in> set new. item_of l = item" "ProductBatch d' = ProductBatch e" by blast
  from ins_links[OF e(1)] obtain l where "links e = links d @ [l]" "item_of l = item"
    "lnk l = (ded_batchId x, round_dec 3 (js_text (ded_quantity x)))" by blast
  then show ?case using new ins_stock[OF e(1)] by (intro exI[of _ "l # new"]) simp
qed

text \<open>The effect of issuing one item and of issuing a document.\<close>

lemma issue_item_effect:
  assumes "issue_item ins w (item, p, n) d = Inr d'" "stock_ready d" "quantity_ready n"
  shows "\<exists>new. links d' = links d @ new \<and> (\<forall>l \<in> set new. item_of l = item) \<and>
    (\<forall>l \<in> set new. on_grid 3 (snd (lnk l)) \<and> 0 \<le> snd (lnk l) \<and> fst (lnk l) \<in> pb_id ` set (ProductBatch d)) \<and>
    sum_list (map (snd \<circ> lnk) new) = n \<and>
    shifted (\<lambda>i. - moved i (map lnk new)) (ProductBatch d) (ProductBatch d') \<and> stock_ready d'"
proof -
  from assms(1) obtain ds e where e: "deductStock p (js_number n) w d = Inr (ds, e)"
    "for_each (ins item) ds e = Inr d'" by (auto simp: issue_item_def)
  note ready = stock_ready_deduct[OF assms(2,3), of p w]
  note s = deductStock_shifted[OF ready e(1)]
  from ins_deductions[OF e(2)] obtain new where new: "links d' = links e @ new"
    "map lnk new = stored ds" "\<forall>l \<in> set new. item_of l = item" "ProductBatch d' = ProductBatch e" by blast
  have "links e = links d" using links_stock[where d = d] by (subst s(2))
  moreover have "batches_typed e" using deductStock_success[OF ready e(1)] by blast
  moreover have "length (ProductBatch e) = length (ProductBatch d)"
    using shifted_ids[OF s(1)] by (metis length_map)
  moreover have "snd (lnk l) = snd (lnk l) \<and> lnk l \<in> set (stored ds)" if "l \<in> set new" for l
    using that by (auto simp flip: new(2))
  moreover have "map (snd \<circ> lnk) new = map snd (stored ds)" unfolding new(2)[symmetric] by simp
  ultimately show ?thesis
    using new s(1) deductStock_stored[OF ready e(1)] assms(2)
    by (intro exI[of _ new]) (auto simp: stock_ready_def batches_typed_def)
qed

lemma issue_items_effect:
  assumes "for_each (issue_item ins w) xs d = Inr d'" "stock_ready d" "\<forall>x \<in> set xs. quantity_ready (snd (snd x))"
  shows "\<exists>new. links d' = links d @ new \<and> (\<forall>l \<in> set new. item_of l \<in> fst ` set xs) \<and>
    (\<forall>l \<in> set new. on_grid 3 (snd (lnk l)) \<and> 0 \<le> snd (lnk l) \<and> fst (lnk l) \<in> pb_id ` set (ProductBatch d)) \<and>
    sum_list (map (snd \<circ> lnk) new) = sum_list (map (snd \<circ> snd) xs) \<and>
    (distinct (map fst xs) \<longrightarrow> (\<forall>(item, p, n) \<in> set xs.
       sum_list (map (snd \<circ> lnk) (filter (\<lambda>l. item_of l = item) new)) = n)) \<and>
    shifted (\<lambda>i. - moved i (map lnk new)) (ProductBatch d) (ProductBatch d') \<and> stock_ready d'"
  using assms
proof (induction xs arbitrary: d)
  case Nil
  then show ?case by (simp add: shifted_zero)
next
  case (Cons x xs)
  obtain item p n where x: "x = (item, p, n)" by (cases x)
  from Cons.prems(1) obtain e where e: "issue_item ins w x d = Inr e" "for_each (issue_item ins w) xs e = Inr d'"
    by auto
  from issue_item_effect[OF e(1)[unfolded x] Cons.prems(2)] Cons.prems(3) x obtain a where a:
    "links e = links d @ a" "\<forall>l \<in> set a. item_of l = item"
    "\<forall>l \<in> set a. on_grid 3 (snd (lnk l)) \<and> 0 \<le> snd (lnk l) \<and> fst (lnk l) \<in> pb_id ` set (ProductBatch d)"
    "sum_list (map (snd \<circ> lnk) a) = n"
    "shifted (\<lambda>i. - moved i (map lnk a)) (ProductBatch d) (ProductBatch e)" "stock_ready e" by auto
  have "\<forall>x \<in> set xs. quantity_ready (snd (snd x))" using Cons.prems(3) by simp
  from Cons.IH[OF e(2) a(6) this] obtain b where b:
    "links d' = links e @ b" "\<forall>l \<in> set b. item_of l \<in> fst ` set xs"
    "\<forall>l \<in> set b. on_grid 3 (snd (lnk l)) \<and> 0 \<le> snd (lnk l) \<and> fst (lnk l) \<in> pb_id ` set (ProductBatch e)"
    "sum_list (map (snd \<circ> lnk) b) = sum_list (map (snd \<circ> snd) xs)"
    "distinct (map fst xs) \<longrightarrow> (\<forall>(item, p, n) \<in> set xs.
       sum_list (map (snd \<circ> lnk) (filter (\<lambda>l. item_of l = item) b)) = n)"
    "shifted (\<lambda>i. - moved i (map lnk b)) (ProductBatch e) (ProductBatch d')" "stock_ready d'" by blast
  have ids: "pb_id ` set (ProductBatch e) = pb_id ` set (ProductBatch d)"
    using shifted_ids[OF a(5)] by (metis list.set_map)
  have "shifted (\<lambda>i. - moved i (map lnk (a @ b))) (ProductBatch d) (ProductBatch d')"
    by (rule shifted_cong[OF shifted_trans[OF a(5) b(6)]]) simp
  moreover have per: "sum_list (map (snd \<circ> lnk) (filter (\<lambda>l. item_of l = j) (a @ b))) = k"
    if D: "distinct (map fst (x # xs))" and j: "(j, q, k) \<in> set (x # xs)" for j q k
  proof (cases "(j, q, k) = x")
    case True
    have "filter (\<lambda>l. item_of l = j) a = a" using a(2) True x by (simp add: filter_id_conv)
    moreover have "filter (\<lambda>l. item_of l = j) b = []"
      using b(2) D True x by (auto simp: filter_empty_conv)
    ultimately show ?thesis using a(4) True x by simp
  next
    case False
    then have m: "(j, q, k) \<in> set xs" using j by auto
    then have "j \<in> fst ` set xs" by force
    then have "j \<noteq> item" using D x by auto
    then have "filter (\<lambda>l. item_of l = j) a = []" using a(2) by (auto simp: filter_empty_conv)
    moreover have "sum_list (map (snd \<circ> lnk) (filter (\<lambda>l. item_of l = j) b)) = k" using b(5) D m by auto
    ultimately show ?thesis by simp
  qed
  moreover have "distinct (map fst (x # xs)) \<longrightarrow> (\<forall>(item, p, n) \<in> set (x # xs).
       sum_list (map (snd \<circ> lnk) (filter (\<lambda>l. item_of l = item) (a @ b))) = n)"
    using per by blast
  moreover have "links d' = links d @ (a @ b)" "\<forall>l \<in> set (a @ b). item_of l \<in> fst ` set (x # xs)"
    "\<forall>l \<in> set (a @ b). on_grid 3 (snd (lnk l)) \<and> 0 \<le> snd (lnk l) \<and> fst (lnk l) \<in> pb_id ` set (ProductBatch d)"
    "sum_list (map (snd \<circ> lnk) (a @ b)) = sum_list (map (snd \<circ> snd) (x # xs))"
    using a(1-4) b(1-4) ids x by auto
  ultimately show ?case using b(7) by (intro exI[of _ "a @ b"] conjI)
qed

lemma issue_item_nonneg:
  assumes "issue_item ins w x d = Inr d'" "stock_ready d" "quantity_ready (snd (snd x))"
    and "\<forall>b \<in> set (ProductBatch d). 0 \<le> pb_quantityLeft b"
  shows "stock_ready d' \<and> (\<forall>b \<in> set (ProductBatch d'). 0 \<le> pb_quantityLeft b)"
proof -
  obtain item p n where x: "x = (item, p, n)" by (cases x)
  from assms(1) obtain ds e where e: "deductStock p (js_number n) w d = Inr (ds, e)"
    "for_each (ins item) ds e = Inr d'" by (auto simp: issue_item_def x)
  have n: "quantity_ready n" using assms(3) x by simp
  have "ProductBatch d' = ProductBatch e" using ins_deductions[OF e(2)] by blast
  moreover have "stock_ready d'" using issue_item_effect[OF assms(1)[unfolded x] assms(2) n] by blast
  ultimately show ?thesis using deductStock_nonneg[OF stock_ready_deduct[OF assms(2) n] e(1) assms(4)] by simp
qed

lemma issue_items_nonneg:
  assumes "for_each (issue_item ins w) xs d = Inr d'" "stock_ready d" "\<forall>x \<in> set xs. quantity_ready (snd (snd x))"
    and "\<forall>b \<in> set (ProductBatch d). 0 \<le> pb_quantityLeft b"
  shows "\<forall>b \<in> set (ProductBatch d'). 0 \<le> pb_quantityLeft b"
proof -
  have "stock_ready d' \<and> (\<forall>b \<in> set (ProductBatch d'). 0 \<le> pb_quantityLeft b)"
    using assms(1) by (rule for_each_invariant) (use assms(2-4) issue_item_nonneg in blast)+
  then show ?thesis by simp
qed

text \<open>Returning the links of a document puts every batch back.\<close>

lemma return_issued:
  assumes "shifted (\<lambda>i. - moved i (map lnk new)) (ProductBatch d) (ProductBatch d')"
    and "batches_typed d" "batches_typed d'"
    and "\<forall>l \<in> set new. on_grid 3 (snd (lnk l)) \<and> 0 \<le> snd (lnk l)"
    and "\<forall>b \<in> set (ProductBatch d'). 0 \<le> pb_quantityLeft b"
  shows "\<exists>e. return_links (map lnk new) d' = Inr e \<and>
    shifted (\<lambda>_. 0) (ProductBatch d) (ProductBatch e) \<and> batches_typed e \<and> e = d'\<lparr>ProductBatch := ProductBatch e\<rparr>"
proof -
  have "\<forall>b \<in> set (ProductBatch d'). 0 \<le> pb_quantityLeft b \<and>
      pb_quantityLeft b + moved (pb_id b) (map lnk new) < 10 ^ 7"
  proof
    fix b' assume b': "b' \<in> set (ProductBatch d')"
    with assms(1) obtain b where b: "b \<in> set (ProductBatch d)"
      "shift_batch (- moved (pb_id b) (map lnk new)) b b'" by (rule shifted_memD)
    then have "pb_quantityLeft b < 10 ^ 7"
      using assms(2) batch_typed_left[of b] abs_ge_self[of "pb_quantityLeft b"]
      unfolding batches_typed_def by fastforce
    moreover have "0 \<le> pb_quantityLeft b'" using assms(5) b' by blast
    ultimately show "0 \<le> pb_quantityLeft b' \<and> pb_quantityLeft b' + moved (pb_id b') (map lnk new) < 10 ^ 7"
      using shift_batch_left[OF b(2)] by simp
  qed
  then obtain e where e: "return_links (map lnk new) d' = Inr e"
    using return_links_succeeds[OF assms(3), of "map lnk new"] assms(4) by auto
  have "\<forall>l \<in> set (map lnk new). on_grid 3 (snd l)" using assms(4) by auto
  note r = return_links_shifts[OF e assms(3) this]
  have "shifted (\<lambda>_. 0) (ProductBatch d) (ProductBatch e)"
    by (rule shifted_cong[OF shifted_trans[OF assms(1) r[THEN conjunct1]]]) simp
  with e r show ?thesis by blast
qed

end

end
