(* ===== verification/DocNumber.thy ===== *)
theory DocNumber
  imports Statements
begin

text \<open>
  \<open>src/utils/docNumberGenerator.ts\<close>: the number \<open>DDMMYY + sequence\<close> of a new document. The calendar
  fields of a \<open>Date\<close> follow the time-value algorithms of the language specification (days since the
  epoch, \<open>DayFromYear\<close>, month table), the sequence number is one more than the number of stored
  numbers with the same prefix.
\<close>

section \<open>Calendar fields of a Date\<close>

definition ms_per_day :: int where "ms_per_day = 86400000"

definition day_from_year :: "int \<Rightarrow> int" where
  "day_from_year y =
     365 * (y - 1970) + (y - 1969) div 4 - (y - 1901) div 100 + (y - 1601) div 400"

definition is_leap :: "int \<Rightarrow> bool" where
  "is_leap y \<longleftrightarrow> y mod 4 = 0 \<and> y mod 100 \<noteq> 0 \<or> y mod 400 = 0"

text \<open>
  \<open>YearFromTime\<close>: the year whose days contain the day. The mean year is a guess that is at most
  one year off.
\<close>

definition year_from_day :: "int \<Rightarrow> int" where
  "year_from_day n =
     (let y = 1970 + n * 400 div 146097 in
      if n < day_from_year y then y - 1
      else if day_from_year (y + 1) \<le> n then y + 1 else y)"

definition month_starts :: "bool \<Rightarrow> int list" where
  "month_starts leap =
     (let l = (if leap then 1 else 0)
      in [0, 31, 59 + l, 90 + l, 120 + l, 151 + l, 181 + l, 212 + l, 243 + l, 273 + l, 304 + l,
          334 + l])"

text \<open>Day of the month, month from 1 and year, of a day since the epoch.\<close>

definition civil :: "int \<Rightarrow> nat \<times> nat \<times> int" where
  "civil n =
     (let y = year_from_day n; k = n - day_from_year y;
          started = filter (\<lambda>s. s \<le> k) (month_starts (is_leap y))
      in (nat (k - last started) + 1, length started, y))"

definition local_day :: "int \<Rightarrow> timestamp \<Rightarrow> int" where
  "local_day tz t = (t + tz) div ms_per_day"

section \<open>Formatting\<close>

definition digit :: "nat \<Rightarrow> char" where "digit n = char_of (48 + n)"

fun show_nat :: "nat \<Rightarrow> string" where
  "show_nat n = (if n < 10 then [digit n] else show_nat (n div 10) @ [digit (n mod 10)])"

declare show_nat.simps [simp del]

definition show_int :: "int \<Rightarrow> string" where
  "show_int i = (if i < 0 then CHR ''-'' # show_nat (nat (- i)) else show_nat (nat i))"

definition pad_start2 :: "string \<Rightarrow> string" where
  "pad_start2 s = replicate (2 - length s) CHR ''0'' @ s"

definition slice_last2 :: "string \<Rightarrow> string" where
  "slice_last2 s = drop (length s - 2) s"

definition doc_prefix :: "int \<Rightarrow> timestamp \<Rightarrow> string" where
  "doc_prefix tz t = (case civil (local_day tz t) of (day, month, year) \<Rightarrow>
     pad_start2 (show_nat day) @ pad_start2 (show_nat month) @ slice_last2 (show_int year))"

section \<open>generateDocNumber\<close>

text \<open>
  \<open>numbers\<close> is the column the query counts over, as committed before the caller's transaction: the
  generator reads through a connection of its own.
\<close>

definition count_prefix :: "string \<Rightarrow> string list \<Rightarrow> nat" where
  "count_prefix p numbers = length (filter (\<lambda>s. take (length p) s = p) numbers)"

definition generateDocNumber :: "int \<Rightarrow> string list \<Rightarrow> timestamp \<Rightarrow> string" where
  "generateDocNumber tz numbers date =
     (let prefix = doc_prefix tz date
      in prefix @ show_nat (count_prefix prefix numbers + 1))"

section \<open>Properties of the formatting\<close>

lemma show_nat_nonempty [simp]: "show_nat n \<noteq> []"
  by (subst show_nat.simps) simp

lemma digit_inj: "m < 10 \<Longrightarrow> n < 10 \<Longrightarrow> digit m = digit n \<Longrightarrow> m = n"
  unfolding digit_def
  by (drule arg_cong[where f = "of_char :: char \<Rightarrow> nat"]) (simp add: of_char_of)

lemma show_nat_inj: "show_nat m = show_nat n \<Longrightarrow> m = n"
proof (induction m arbitrary: n rule: less_induct)
  case (less m)
  show ?case
  proof (cases "m < 10"; cases "n < 10")
    assume "m < 10" "n < 10"
    with less.prems show ?thesis
      by (simp add: show_nat.simps[of m] show_nat.simps[of n] digit_inj)
  next
    assume "\<not> m < 10" "\<not> n < 10"
    with less.prems have "show_nat (m div 10) = show_nat (n div 10)" "digit (m mod 10) = digit (n mod 10)"
      by (simp_all add: show_nat.simps[of m] show_nat.simps[of n])
    with less.IH[of "m div 10" "n div 10"] \<open>\<not> m < 10\<close> have "m div 10 = n div 10" "m mod 10 = n mod 10"
      by (auto intro: digit_inj)
    then show ?thesis by (metis div_mult_mod_eq)
  qed (use less.prems show_nat_nonempty in
      \<open>auto simp: show_nat.simps[of m] show_nat.simps[of n] dest: sym\<close>)
qed

lemma length_show_nat_le2: "n < 100 \<Longrightarrow> length (show_nat n) \<le> 2"
  by (auto simp: show_nat.simps[of n] show_nat.simps[of "n div 10"])

lemma length_pad_start2: "length s \<le> 2 \<Longrightarrow> length (pad_start2 s) = 2"
  by (simp add: pad_start2_def)

section \<open>Properties of the calendar\<close>

lemma div_window:
  assumes "(0::int) < m"
  obtains q r where "n div m = q" "n = m * q + r" "0 \<le> r" "r < m"
  using that[of "n div m" "n mod m"] assms by simp

lemma day_from_year_bounds:
  "400 * day_from_year y \<le> 146097 * (y - 1970) + 589 \<and>
   146097 * (y - 1970) - 506 \<le> 400 * day_from_year y"
proof -
  obtain q1 r1 where 1: "(y - 1969) div 4 = q1" "y - 1969 = 4 * q1 + r1" "0 \<le> r1" "r1 < 4"
    by (rule div_window[of 4]) simp_all
  obtain q2 r2 where 2: "(y - 1901) div 100 = q2" "y - 1901 = 100 * q2 + r2" "0 \<le> r2" "r2 < 100"
    by (rule div_window[of 100]) simp_all
  obtain q3 r3 where 3: "(y - 1601) div 400 = q3" "y - 1601 = 400 * q3 + r3" "0 \<le> r3" "r3 < 400"
    by (rule div_window[of 400]) simp_all
  have "day_from_year y = 365 * (y - 1970) + q1 - q2 + q3"
    by (simp only: day_from_year_def 1(1) 2(1) 3(1))
  with 1(2-) 2(2-) 3(2-) show ?thesis by (simp add: algebra_simps)
qed

lemma year_from_day_bounds:
  "day_from_year (year_from_day n) \<le> n \<and> n < day_from_year (year_from_day n + 1)"
proof -
  obtain q r where q: "n * 400 div 146097 = q" "n * 400 = 146097 * q + r" "0 \<le> r" "r < 146097"
    by (rule div_window[of 146097]) simp_all
  have "day_from_year (1970 + q - 1) \<le> n" "n < day_from_year (1970 + q + 1 + 1)"
    using q(2-) day_from_year_bounds[of "1970 + q - 1", THEN conjunct1]
      day_from_year_bounds[of "1970 + q + 1 + 1", THEN conjunct2]
    by (simp_all add: algebra_simps)
  then show ?thesis by (simp add: year_from_day_def Let_def q(1))
qed

lemma div_Suc_int:
  assumes "0 < m"
  shows "(n + 1) div m = n div m + (if (n + 1) mod m = 0 then 1 else (0::int))"
proof -
  obtain q r where qr: "n div m = q" "n = m * q + r" "0 \<le> r" "r < m"
    using assms by (rule div_window)
  show ?thesis
  proof (cases "r + 1 = m")
    case True
    with qr have "n + 1 = m * (q + 1) + 0" by (simp add: algebra_simps)
    then have "(n + 1) div m = q + 1" "(n + 1) mod m = 0"
      using assms by (auto intro: int_div_pos_eq int_mod_pos_eq)
    with qr show ?thesis by simp
  next
    case False
    with qr have e: "n + 1 = m * q + (r + 1)" "r + 1 < m" by auto
    then have "(n + 1) div m = q" "(n + 1) mod m = r + 1"
      using qr(3) by (auto intro: int_div_pos_eq int_mod_pos_eq)
    with qr show ?thesis by simp
  qed
qed

lemma year_length: "day_from_year (y + 1) - day_from_year y = (if is_leap y then 366 else 365)"
proof -
  have m: "(y - 1968) mod 4 = y mod 4" "(y - 1900) mod 100 = y mod 100" "(y - 1600) mod 400 = y mod 400"
    using mod_mult_self1[of y "- 492" 4] mod_mult_self1[of y "- 19" 100] mod_mult_self1[of y "- 4" 400]
    by simp_all
  have e: "y - 1969 + 1 = y - 1968" "y - 1901 + 1 = y - 1900" "y - 1601 + 1 = y - 1600"
    by simp_all
  have pos: "(0::int) < 4" "(0::int) < 100" "(0::int) < 400" by simp_all
  note step = div_Suc_int[OF pos(1), of "y - 1969", unfolded e m]
    div_Suc_int[OF pos(2), of "y - 1901", unfolded e m]
    div_Suc_int[OF pos(3), of "y - 1601", unfolded e m]
  have s: "(y - 1968) div 4 = (y - 1969) div 4 + (if y mod 4 = 0 then 1 else 0)"
    "(y - 1900) div 100 = (y - 1901) div 100 + (if y mod 100 = 0 then 1 else 0)"
    "(y - 1600) div 400 = (y - 1601) div 400 + (if y mod 400 = 0 then 1 else 0)"
    using step by (simp_all only:)
  have sh: "y + 1 - 1970 = y - 1970 + 1" "y + 1 - 1969 = y - 1968" "y + 1 - 1901 = y - 1900"
    "y + 1 - 1601 = y - 1600" by simp_all
  have "400 dvd y \<Longrightarrow> 100 dvd y" "100 dvd y \<Longrightarrow> 4 dvd y"
    by (rule dvd_trans[rotated], assumption, simp)+
  then have "y mod 400 = 0 \<Longrightarrow> y mod 100 = 0" "y mod 100 = 0 \<Longrightarrow> y mod 4 = 0"
    by (simp_all only: dvd_eq_mod_eq_0)
  then have "(if y mod 4 = 0 then 1 else 0) - (if y mod 100 = 0 then 1 else 0)
      + (if y mod 400 = 0 then 1 else 0) = (if is_leap y then 1 else (0 :: int))"
    unfolding is_leap_def by presburger
  then show ?thesis unfolding day_from_year_def sh s by (simp split: if_splits)
qed

text \<open>The days of the months start in order, so the last started month is the month of the day.\<close>

lemma last_started:
  assumes "sorted xs" "xs \<noteq> []" "hd xs \<le> k"
  defines "st \<equiv> filter (\<lambda>s. s \<le> k) xs"
  shows "st \<noteq> [] \<and> last st \<le> k \<and> last st = xs ! (length st - 1) \<and> length st \<le> length xs \<and>
         (length st < length xs \<longrightarrow> k < xs ! length st)"
proof -
  have take: "filter (\<lambda>s. s \<le> k) ys = takeWhile (\<lambda>s. s \<le> k) ys" if "sorted ys" for ys :: "'a list"
    using that
  proof (induction ys)
    case (Cons a ys)
    then show ?case by (cases ys) auto
  qed simp
  have st: "st = takeWhile (\<lambda>s. s \<le> k) xs" using take assms(1) by (simp add: st_def)
  have ne: "st \<noteq> []" using assms(2,3) by (cases xs) (auto simp: st_def)
  moreover have "last st \<in> set st" using ne by simp
  moreover have "last st = xs ! (length st - 1)"
    using ne takeWhile_nth[of "length st - 1" "\<lambda>s. s \<le> k" xs] by (simp add: st last_conv_nth)
  moreover have "length st < length xs \<Longrightarrow> k < xs ! length st"
    using nth_length_takeWhile[of "\<lambda>s. s \<le> k" xs] by (simp add: st)
  ultimately show ?thesis by (auto simp: st_def length_filter_le)
qed

lemma month_gap:
  assumes "i < 12"
  shows "(month_starts leap @ [if leap then 366 else 365]) ! (i + 1) - month_starts leap ! i \<le> 31"
proof -
  from assms have "i \<in> set [0..<12]" by simp
  then show ?thesis by (cases leap) (auto simp: upt_rec month_starts_def Let_def)
qed

lemma month_of_day:
  assumes "0 \<le> k" and "k < (if leap then 366 else 365)"
  defines "started \<equiv> filter (\<lambda>s. s \<le> k) (month_starts leap)"
  shows "started \<noteq> [] \<and> last started \<le> k \<and> k - last started \<le> 30 \<and> length started \<le> 12 \<and>
         last started = month_starts leap ! (length started - 1)"
proof -
  have len: "length (month_starts leap) = 12" by (simp add: month_starts_def Let_def)
  have "sorted (month_starts leap)" "month_starts leap \<noteq> []" "hd (month_starts leap) \<le> k"
    using assms(1) by (cases leap; simp add: month_starts_def Let_def)+
  note l = last_started[OF this, folded started_def, unfolded len]
  have "k < (month_starts leap @ [if leap then 366 else 365]) ! length started"
    using l assms(2) len by (cases "length started < 12") (auto simp: nth_append)
  moreover have "length started - 1 < 12" "length started - 1 + 1 = length started"
    using l by (cases started; simp)+
  ultimately show ?thesis using l month_gap[of "length started - 1" leap] by simp
qed

definition day_number :: "nat \<times> nat \<times> int \<Rightarrow> int" where
  "day_number c = (case c of (day, month, year) \<Rightarrow>
     day_from_year year + month_starts (is_leap year) ! (month - 1) + int day - 1)"

lemma civil_fields:
  assumes "civil n = (day, month, year)"
  shows "1 \<le> day" "day \<le> 31" "1 \<le> month" "month \<le> 12" "day_number (day, month, year) = n"
proof -
  let ?y = "year_from_day n" and ?k = "n - day_from_year (year_from_day n)"
  have k: "0 \<le> ?k" "?k < (if is_leap ?y then 366 else 365)"
    using year_from_day_bounds[of n] year_length[of ?y] by linarith+
  note m = month_of_day[OF k]
  from assms have e: "day = nat (?k - last (filter (\<lambda>s. s \<le> ?k) (month_starts (is_leap ?y)))) + 1"
    "month = length (filter (\<lambda>s. s \<le> ?k) (month_starts (is_leap ?y)))" "year = ?y"
    by (auto simp: civil_def Let_def)
  show "1 \<le> day" "day \<le> 31" "1 \<le> month" "month \<le> 12"
    using m unfolding e by (auto simp: Suc_le_eq)
  show "day_number (day, month, year) = n"
    using m unfolding e day_number_def prod.case by simp
qed

lemma length_doc_prefix:
  assumes "1000 \<le> year_from_day (local_day tz t)" "year_from_day (local_day tz t) < 10000"
  shows "length (doc_prefix tz t) = 6"
proof -
  obtain day month year where c: "civil (local_day tz t) = (day, month, year)"
    by (metis prod_cases3)
  then have y: "year = year_from_day (local_day tz t)" by (simp add: civil_def Let_def)
  from civil_fields[OF c] have "day < 100" "month < 100" by auto
  then have "length (pad_start2 (show_nat day)) = 2" "length (pad_start2 (show_nat month)) = 2"
    by (simp_all add: length_pad_start2 length_show_nat_le2)
  moreover have "2 \<le> length (show_nat (nat year))"
    using assms y by (subst show_nat.simps) (auto simp: Suc_le_eq length_greater_0_conv)
  then have "length (slice_last2 (show_int year)) = 2"
    using assms y by (simp add: slice_last2_def show_int_def)
  ultimately show ?thesis by (simp add: doc_prefix_def c)
qed

section \<open>Sequence numbers\<close>

lemma generateDocNumber_prefix:
  "take (length (doc_prefix tz t)) (generateDocNumber tz ns t) = doc_prefix tz t"
  by (simp add: generateDocNumber_def Let_def)

lemma generateDocNumber_inj:
  "generateDocNumber tz ns t = generateDocNumber tz ms t \<longleftrightarrow>
     count_prefix (doc_prefix tz t) ns = count_prefix (doc_prefix tz t) ms"
  by (auto simp: generateDocNumber_def Let_def dest: show_nat_inj)

text \<open>
  As long as the stored numbers of a day are \<open>1, ..., n\<close> (no document of the day was deleted), the
  generated number is new.
\<close>

lemma generateDocNumber_new:
  assumes "set (filter (\<lambda>s. take (length p) s = p) ns) = (\<lambda>k. p @ show_nat k) ` {1..count_prefix p ns}"
    and "p = doc_prefix tz t"
  shows "generateDocNumber tz ns t \<notin> set ns"
proof
  assume "generateDocNumber tz ns t \<in> set ns"
  then have "generateDocNumber tz ns t \<in> set (filter (\<lambda>s. take (length p) s = p) ns)"
    using assms(2) by (simp add: generateDocNumber_prefix)
  then obtain k where "k \<in> {1..count_prefix p ns}" "generateDocNumber tz ns t = p @ show_nat k"
    unfolding assms(1) by blast
  then show False
    using assms(2) by (auto simp: generateDocNumber_def Let_def dest: show_nat_inj)
qed

text \<open>
  C36: the number of a document is its local date and a sequence number. For a date with a year of four digits
  it is two digits each of a day from 1 to 31, a month from 1 to 12 and the year, and the calendar fields give
  back the day they were computed from.
\<close>

theorem doc_number_shape:
  assumes "civil (local_day tz t) = (day, month, year)" and "1000 \<le> year" and "year < 10000"
  shows "generateDocNumber tz ns t = pad_start2 (show_nat day) @ pad_start2 (show_nat month) @
      slice_last2 (show_int year) @ show_nat (Suc (count_prefix (doc_prefix tz t) ns)) \<and>
    map length [pad_start2 (show_nat day), pad_start2 (show_nat month), slice_last2 (show_int year)] = [2, 2, 2] \<and>
    1 \<le> day \<and> day \<le> 31 \<and> 1 \<le> month \<and> month \<le> 12 \<and> day_number (day, month, year) = local_day tz t"
proof -
  note f = civil_fields[OF assms(1)]
  from assms(1) have y: "year = year_from_day (local_day tz t)" by (simp add: civil_def Let_def)
  have p: "doc_prefix tz t = pad_start2 (show_nat day) @ pad_start2 (show_nat month) @ slice_last2 (show_int year)"
    by (simp add: doc_prefix_def assms(1))
  from f have l: "length (pad_start2 (show_nat day)) = 2" "length (pad_start2 (show_nat month)) = 2"
    by (simp_all add: length_pad_start2 length_show_nat_le2)
  moreover have "length (slice_last2 (show_int year)) = 2"
    using length_doc_prefix[of tz t] assms(2,3) l unfolding p by (simp add: y)
  ultimately show ?thesis using f by (simp add: generateDocNumber_def Let_def p)
qed

theorem doc_number_shape_witness:
  "generateDocNumber 0 [] 1709164800000 = ''2902241'' \<and> day_number (29, 2, 2024) = 19782"
proof -
  have c: "civil (local_day 0 1709164800000) = (29, 2, 2024)" "local_day 0 1709164800000 = 19782" by code_simp+
  have n: "pad_start2 (show_nat 29) = ''29''" "pad_start2 (show_nat 2) = ''02''" "slice_last2 (show_int 2024) = ''24''"
    "show_nat (Suc (count_prefix (doc_prefix 0 1709164800000) [])) = ''1''" by code_simp+
  from doc_number_shape[OF c(1), of "[]"] c(2) n show ?thesis by simp
qed

text \<open>
  Numbers are new as long as nothing was deleted. If the stored numbers with the prefix of the day are the
  sequence from 1 on, the generated number is none of them, and stored with them it continues the sequence.
\<close>

theorem doc_number_new:
  assumes "p = doc_prefix tz t"
    and "filter (\<lambda>s. take (length p) s = p) ns = map (\<lambda>k. p @ show_nat k) [1..<Suc (count_prefix p ns)]"
  shows "generateDocNumber tz ns t \<notin> set ns \<and>
    filter (\<lambda>s. take (length p) s = p) (ns @ [generateDocNumber tz ns t]) =
      map (\<lambda>k. p @ show_nat k) [1..<Suc (count_prefix p (ns @ [generateDocNumber tz ns t]))]"
proof
  have "set (filter (\<lambda>s. take (length p) s = p) ns) = (\<lambda>k. p @ show_nat k) ` {1..count_prefix p ns}"
    unfolding assms(2) by auto
  then show "generateDocNumber tz ns t \<notin> set ns" using assms(1) by (rule generateDocNumber_new)
  have g: "generateDocNumber tz ns t = p @ show_nat (Suc (count_prefix p ns))"
    by (simp add: generateDocNumber_def Let_def assms(1))
  then have "count_prefix p (ns @ [generateDocNumber tz ns t]) = Suc (count_prefix p ns)"
    by (simp add: count_prefix_def)
  with g assms(2) show "filter (\<lambda>s. take (length p) s = p) (ns @ [generateDocNumber tz ns t]) =
      map (\<lambda>k. p @ show_nat k) [1..<Suc (count_prefix p (ns @ [generateDocNumber tz ns t]))]"
    by simp
qed

theorem doc_number_new_witness:
  "generateDocNumber 0 [''2902241'', ''0103241''] 1709164800000 \<notin> {''2902241'', ''0103241''}"
proof -
  have "''290224'' = doc_prefix 0 1709164800000"
    "filter (\<lambda>s. take (length ''290224'') s = ''290224'') [''2902241'', ''0103241''] =
       map (\<lambda>k. ''290224'' @ show_nat k) [1..<Suc (count_prefix ''290224'' [''2902241'', ''0103241''])]"
    by code_simp+
  from doc_number_new[OF this] show ?thesis by simp
qed

end
