(* ===== verification/Http.thy ===== *)
theory Http
  imports Statements
begin

text \<open>
  What the Express handlers see of a request and send back: the decoded user that the authentication
  middleware attaches, the reply with its status code, and the warehouse rule that the handlers apply to
  users who are not administrators.
\<close>

record req_user =
  ru_id :: "ident option"
  ru_role :: string
  ru_warehouseId :: "ident option"

text \<open>The body of an error reply: the thrown message, or the handler's own text.\<close>

datatype http_error =
    ErrorMessage error
  | StockError error
  | Text string

type_synonym 'a reply = "nat \<times> (http_error + 'a)"

definition reply_ok :: "nat \<Rightarrow> 'a \<Rightarrow> 'a reply" where
  "reply_ok code x = (code, Inr x)"

definition reply_error :: "nat \<Rightarrow> http_error \<Rightarrow> 'a reply" where
  "reply_error code e = (code, Inl e)"

text \<open>\<open>if (user && user.role !== 'admin' && user.warehouseId)\<close>\<close>

definition restricted_to :: "req_user option \<Rightarrow> ident option" where
  "restricted_to user = (case user of None \<Rightarrow> None
     | Some u \<Rightarrow> if ru_role u \<noteq> ''admin'' then ru_warehouseId u else None)"

definition forced_warehouse :: "req_user option \<Rightarrow> ident option \<Rightarrow> ident option" where
  "forced_warehouse user w = (case restricted_to user of None \<Rightarrow> w | Some own \<Rightarrow> Some own)"

definition user_id :: "req_user option \<Rightarrow> ident option" where
  "user_id user = Option.bind user ru_id"

definition coalesce :: "'a option \<Rightarrow> 'a \<Rightarrow> 'a" where
  "coalesce v x = (case v of None \<Rightarrow> x | Some y \<Rightarrow> y)"

definition coalesce_opt :: "'a option \<Rightarrow> 'a option \<Rightarrow> 'a option" where
  "coalesce_opt v x = (case v of None \<Rightarrow> x | Some y \<Rightarrow> Some y)"

text \<open>A thrown error or a result, as a catch block answers it.\<close>

definition catch_reply :: "nat \<Rightarrow> (error \<Rightarrow> nat \<times> http_error) \<Rightarrow> error + 'a \<Rightarrow> 'a reply" where
  "catch_reply code f r = (case r of Inr x \<Rightarrow> (code, Inr x) | Inl e \<Rightarrow> (fst (f e), Inl (snd (f e))))"

end
