(* ===== verification/SupplierReturnService.thy ===== *)
theory SupplierReturnService
  imports Outgoing DocNumber Http
begin

text \<open>
  \<open>src/services/supplierReturnService.ts\<close>: returns of goods to a supplier. Posting takes the goods out of
  the stock like a sale and records the batches, unposting puts them back into the same batches.
\<close>

section \<open>Requests and views\<close>

text \<open>The request body that returns to a supplier and returns from a buyer share.\<close>

record return_item_data =
  rtd_productId :: ident
  rtd_quantity :: jsnum
  rtd_price :: jsnum

record return_data =
  rtn_date :: "timestamp option"
  rtn_counterpartyId :: "ident option"
  rtn_warehouseId :: "ident option"
  rtn_comment :: "string option"
  rtn_items :: "return_item_data list"

record return_filters =
  rnf_startDate :: "timestamp option"
  rnf_endDate :: "timestamp option"
  rnf_warehouseId :: "ident option"

record supplier_return_row =
  srv_row :: supplier_return
  srv_supplierName :: "string option"
  srv_warehouseName :: "string option"

record supplier_return_view =
  srw_header :: supplier_return_row
  srw_authorName :: "string option"
  srw_items :: "(supplier_return_item \<times> string option) list"

definition supplier_return_header :: "db \<Rightarrow> supplier_return \<Rightarrow> supplier_return_row" where
  "supplier_return_header d r =
     \<lparr>srv_row = r, srv_supplierName = join_name cp_id cp_name (Counterparty d) (sr_supplierId r),
      srv_warehouseName = join_name wh_id wh_name (Warehouse d) (sr_warehouseId r)\<rparr>"

definition supplier_return_getById :: "ident \<Rightarrow> db \<Rightarrow> supplier_return_view option" where
  "supplier_return_getById i d = map_option
     (\<lambda>r. \<lparr>srw_header = supplier_return_header d r,
           srw_authorName = join_name usr_id usr_email (Users d) (sr_createdBy r),
           srw_items = map (\<lambda>x. (x, join_name prod_id prod_name (Product d) (Some (sri_productId x))))
             (sort_key sri_sortOrder (sort_key sri_createdAt
               (filter (\<lambda>x. sri_supplierReturnId x = i) (SupplierReturnItem d))))\<rparr>)
     (find_row sr_id i (SupplierReturn d))"

text \<open>The end date is a day; the query extends it by \<open>23:59:59\<close>.\<close>

definition end_of_day :: "timestamp \<Rightarrow> timestamp" where
  "end_of_day t = t + 86399000"

definition supplier_return_getAll :: "return_filters \<Rightarrow> db \<Rightarrow> supplier_return_row list" where
  "supplier_return_getAll f d = map (supplier_return_header d)
     (sort_key (\<lambda>r. - sr_date r) (sort_key (\<lambda>r. - sr_createdAt r)
       (filter (\<lambda>r. (case rnf_startDate f of None \<Rightarrow> True | Some t \<Rightarrow> t \<le> sr_date r) \<and>
          (case rnf_endDate f of None \<Rightarrow> True | Some t \<Rightarrow> sr_date r \<le> end_of_day t) \<and>
          (case rnf_warehouseId f of None \<Rightarrow> True | Some w \<Rightarrow> sr_warehouseId r = Some w))
        (SupplierReturn d))))"

section \<open>create and update\<close>

definition insert_supplier_item ::
  "ident \<Rightarrow> nat \<times> return_item_data \<Rightarrow> jsnum \<times> db \<Rightarrow> error + jsnum \<times> db" where
  "insert_supplier_item i = (\<lambda>(sortOrder, item) (totalAmount, d).
     (let itemTotal = js_mul (rtd_quantity item) (rtd_price item)
      in rbind (ins_SupplierReturnItem
           \<lparr>sri_id = next_uuid d, sri_supplierReturnId = i, sri_productId = rtd_productId item,
            sri_quantity = round_dec 3 (js_text (rtd_quantity item)),
            sri_price = round_dec 2 (js_text (rtd_price item)),
            sri_total = round_dec 2 (js_text itemTotal), sri_sortOrder = sortOrder,
            sri_createdAt = clock d\<rparr>
           (d\<lparr>next_uuid := Suc (next_uuid d)\<rparr>)) (\<lambda>d'.
         Inr (js_add totalAmount itemTotal, d'))))"

definition write_supplier_items :: "ident \<Rightarrow> return_item_data list \<Rightarrow> db \<Rightarrow> error + db" where
  "write_supplier_items i items d =
     rbind (for_each (insert_supplier_item i) (zip [0..<length items] items) (0, d)) (\<lambda>(totalAmount, d').
       upd_SupplierReturn (\<lambda>r. sr_id r = i)
         (\<lambda>r. r\<lparr>sr_totalAmount := round_dec 2 (js_text totalAmount)\<rparr>) d')"

definition supplier_return_create_body :: "return_data \<Rightarrow> ident \<Rightarrow> db \<Rightarrow> error + ident \<times> db" where
  "supplier_return_create_body data userId d =
     (let number = generateDocNumber (tz_offset d) (map sr_number (SupplierReturn d))
            (coalesce (rtn_date data) (clock d));
          i = next_uuid d
      in rbind (not_null ''SupplierReturn.date'' (rtn_date data)) (\<lambda>date.
         rbind (ins_SupplierReturn
             \<lparr>sr_id = i, sr_number = number, sr_date = date, sr_supplierId = rtn_counterpartyId data,
              sr_warehouseId = rtn_warehouseId data, sr_status = DRAFT, sr_comment = rtn_comment data,
              sr_totalAmount = 0, sr_createdBy = Some userId, sr_createdAt = clock d,
              sr_updatedAt = clock d\<rparr>
             (d\<lparr>next_uuid := Suc i\<rparr>)) (\<lambda>d1.
         rbind (write_supplier_items i (rtn_items data) d1) (\<lambda>d2.
         Inr (i, d2)))))"

definition supplier_return_create ::
  "return_data \<Rightarrow> ident \<Rightarrow> db \<Rightarrow> (error + supplier_return_view option) \<times> db" where
  "supplier_return_create data userId d =
     answer supplier_return_getById (transaction (supplier_return_create_body data userId) d)"

definition supplier_return_update_body :: "ident \<Rightarrow> return_data \<Rightarrow> db \<Rightarrow> error + ident \<times> db" where
  "supplier_return_update_body i data d =
     (case find_row sr_id i (SupplierReturn d) of
        None \<Rightarrow> Inl DocumentNotFound
      | Some r \<Rightarrow>
          if sr_status r = POSTED then Inl CannotEditPosted
          else rbind (upd_SupplierReturn (\<lambda>r. sr_id r = i)
                 (\<lambda>r. r\<lparr>sr_date := coalesce (rtn_date data) (sr_date r),
                        sr_supplierId := coalesce_opt (rtn_counterpartyId data) (sr_supplierId r),
                        sr_warehouseId := coalesce_opt (rtn_warehouseId data) (sr_warehouseId r),
                        sr_comment := rtn_comment data, sr_updatedAt := clock d\<rparr>) d) (\<lambda>d1.
               rbind (write_supplier_items i (rtn_items data) (del_SupplierReturnItems i d1)) (\<lambda>d2.
               Inr (i, d2))))"

definition supplier_return_update ::
  "ident \<Rightarrow> return_data \<Rightarrow> db \<Rightarrow> (error + supplier_return_view option) \<times> db" where
  "supplier_return_update i data d =
     answer supplier_return_getById (transaction (supplier_return_update_body i data) d)"

section \<open>post and unpost\<close>

definition record_return :: "ident \<Rightarrow> deduction \<Rightarrow> db \<Rightarrow> error + db" where
  "record_return item deduction d =
     ins_SupplierReturnItemBatch
       \<lparr>srib_id = next_uuid d, srib_supplierReturnItemId = item, srib_productBatchId = ded_batchId deduction,
        srib_quantity = round_dec 3 (js_text (ded_quantity deduction)),
        srib_enterPrice = round_dec 2 (js_text (ded_enterPrice deduction))\<rparr>
       (d\<lparr>next_uuid := Suc (next_uuid d)\<rparr>)"

definition supplier_items :: "ident \<Rightarrow> db \<Rightarrow> supplier_return_item list" where
  "supplier_items i d =
     sort_key sri_sortOrder (filter (\<lambda>r. sri_supplierReturnId r = i) (SupplierReturnItem d))"

definition supplier_lines :: "supplier_return_item list \<Rightarrow> (ident \<times> ident \<times> decimal) list" where
  "supplier_lines items = map (\<lambda>r. (sri_id r, sri_productId r, sri_quantity r)) items"

definition set_supplier_status :: "ident \<Rightarrow> doc_status \<Rightarrow> db \<Rightarrow> error + db" where
  "set_supplier_status i s d = upd_SupplierReturn (\<lambda>r. sr_id r = i)
     (\<lambda>r. r\<lparr>sr_status := s, sr_updatedAt := clock d\<rparr>) d"

definition supplier_return_post_body :: "ident \<Rightarrow> db \<Rightarrow> error + ident \<times> db" where
  "supplier_return_post_body i d =
     (case find_row sr_id i (SupplierReturn d) of
        None \<Rightarrow> Inl DocumentNotFound
      | Some doc \<Rightarrow>
          if sr_status doc = POSTED then Inl DocumentAlreadyPosted
          else rbind (for_each (issue_item record_return (sr_warehouseId doc))
                        (supplier_lines (supplier_items i d)) d) (\<lambda>d1.
               rbind (set_supplier_status i POSTED d1) (\<lambda>d2. Inr (i, d2))))"

definition supplier_return_post :: "ident \<Rightarrow> db \<Rightarrow> (error + supplier_return_view option) \<times> db" where
  "supplier_return_post i d = answer supplier_return_getById (transaction (supplier_return_post_body i) d)"

definition supplier_links :: "ident \<Rightarrow> db \<Rightarrow> supplier_return_item_batch list" where
  "supplier_links i d =
     filter (\<lambda>l. case find_row sri_id (srib_supplierReturnItemId l) (SupplierReturnItem d) of
                   None \<Rightarrow> False | Some r \<Rightarrow> sri_supplierReturnId r = i)
       (SupplierReturnItemBatch d)"

definition del_SupplierReturnItemBatches :: "ident \<Rightarrow> db \<Rightarrow> db" where
  "del_SupplierReturnItemBatches i d =
     (let items = map sri_id (filter (\<lambda>r. sri_supplierReturnId r = i) (SupplierReturnItem d)) in
      d\<lparr>SupplierReturnItemBatch := filter (\<lambda>l. \<not> List.member items (srib_supplierReturnItemId l))
          (SupplierReturnItemBatch d)\<rparr>)"

definition supplier_return_unpost_body :: "ident \<Rightarrow> db \<Rightarrow> error + ident \<times> db" where
  "supplier_return_unpost_body i d =
     (case find_row sr_id i (SupplierReturn d) of
        None \<Rightarrow> Inl DocumentNotFound
      | Some doc \<Rightarrow>
          if sr_status doc \<noteq> POSTED then Inl DocumentNotPosted
          else rbind (for_each (\<lambda>l. return_to_batch (srib_productBatchId l) (srib_quantity l))
                        (supplier_links i d) d) (\<lambda>d1.
               rbind (set_supplier_status i DRAFT (del_SupplierReturnItemBatches i d1)) (\<lambda>d2.
               Inr (i, d2))))"

definition supplier_return_unpost :: "ident \<Rightarrow> db \<Rightarrow> (error + supplier_return_view option) \<times> db" where
  "supplier_return_unpost i d = answer supplier_return_getById (transaction (supplier_return_unpost_body i) d)"

definition supplier_return_delete_body :: "ident \<Rightarrow> db \<Rightarrow> error + unit \<times> db" where
  "supplier_return_delete_body i d =
     (case find_row sr_id i (SupplierReturn d) of
        None \<Rightarrow> Inl DocumentNotFound
      | Some doc \<Rightarrow>
          if sr_status doc = POSTED then Inl CannotDeletePosted
          else Inr ((), del_SupplierReturn i (del_SupplierReturnItems i d)))"

definition supplier_return_delete :: "ident \<Rightarrow> db \<Rightarrow> (error + unit) \<times> db" where
  "supplier_return_delete i = transaction (supplier_return_delete_body i)"

section \<open>Supplier returns are outgoing documents\<close>

definition srib_link :: "supplier_return_item_batch \<Rightarrow> ident \<times> decimal" where
  "srib_link l = (srib_productBatchId l, srib_quantity l)"

lemma record_return_Inr:
  assumes "record_return item x d = Inr d'"
  shows "d' = d\<lparr>next_uuid := Suc (next_uuid d), SupplierReturnItemBatch := SupplierReturnItemBatch d @
    [\<lparr>srib_id = next_uuid d, srib_supplierReturnItemId = item, srib_productBatchId = ded_batchId x,
      srib_quantity = round_dec 3 (js_text (ded_quantity x)),
      srib_enterPrice = round_dec 2 (js_text (ded_enterPrice x))\<rparr>]\<rparr>"
  using assms by (auto simp: record_return_def ins_SupplierReturnItemBatch_def)

interpretation supplier: outgoing SupplierReturnItemBatch srib_supplierReturnItemId srib_link record_return
  by unfold_locales (auto simp: srib_link_def dest!: record_return_Inr)

text \<open>Issuing touches the batches, the links and the supply of ids only.\<close>

definition return_rest :: "db \<Rightarrow> db" where
  "return_rest d = d\<lparr>ProductBatch := [], SupplierReturnItemBatch := [], next_uuid := 0\<rparr>"

lemma return_rest_eq:
  assumes "return_rest d' = return_rest d"
  obtains bs ls n where "d' = d\<lparr>ProductBatch := bs, SupplierReturnItemBatch := ls, next_uuid := n\<rparr>"
proof -
  have "d' = (return_rest d')\<lparr>ProductBatch := ProductBatch d', SupplierReturnItemBatch := SupplierReturnItemBatch d',
      next_uuid := next_uuid d'\<rparr>" by (simp add: return_rest_def)
  also have "\<dots> = (return_rest d)\<lparr>ProductBatch := ProductBatch d', SupplierReturnItemBatch := SupplierReturnItemBatch d',
      next_uuid := next_uuid d'\<rparr>" by (simp only: assms)
  finally show thesis by (intro that) (simp add: return_rest_def)
qed

lemma issue_return_rest:
  assumes "issue_item record_return w x d = Inr d'"
  shows "return_rest d' = return_rest d"
proof -
  from assms obtain ds e where e: "deductStock (fst (snd x)) (js_number (snd (snd x))) w d = Inr (ds, e)"
    "for_each (record_return (fst x)) ds e = Inr d'" by (cases x) (auto simp: issue_item_def)
  have "return_rest d' = return_rest e"
    using e(2) by (rule for_each_frame) (auto simp: return_rest_def dest!: record_return_Inr)
  also have "\<dots> = (e\<lparr>ProductBatch := []\<rparr>)\<lparr>SupplierReturnItemBatch := [], next_uuid := 0\<rparr>"
    by (simp add: return_rest_def)
  also have "\<dots> = return_rest d" by (simp add: deductStock_rest[OF e(1)] return_rest_def)
  finally show ?thesis .
qed

definition supplier_ready :: "ident \<Rightarrow> db \<Rightarrow> bool" where
  "supplier_ready i d \<longleftrightarrow> stock_ready d \<and> (\<forall>r \<in> set (supplier_items i d). quantity_ready (sri_quantity r)) \<and>
     distinct (map sri_id (SupplierReturnItem d))"

lemma upd_SupplierReturn_Inr:
  "upd_SupplierReturn P f d = Inr d' \<longleftrightarrow> d' = d\<lparr>SupplierReturn := map_where P f (SupplierReturn d)\<rparr> \<and>
     (\<forall>r \<in> set (SupplierReturn d). P r \<longrightarrow> (\<forall>c \<in> set (supplier_return_ok d (f r)). fst c))"
  by (auto simp: upd_SupplierReturn_def update_table_Inr_iff)

lemma supplier_return_ok_frame [simp]:
  "supplier_return_ok d (r\<lparr>sr_status := s, sr_updatedAt := t\<rparr>) = supplier_return_ok d r"
  "supplier_return_ok (d\<lparr>ProductBatch := bs\<rparr>) = supplier_return_ok d"
  "supplier_return_ok (d\<lparr>next_uuid := n\<rparr>) = supplier_return_ok d"
  "supplier_return_ok (d\<lparr>SupplierReturn := rs\<rparr>) = supplier_return_ok d"
  by (simp_all add: supplier_return_ok_def fun_eq_iff)

lemma supplier_items_distinct:
  "distinct (map sri_id (SupplierReturnItem d)) \<Longrightarrow> distinct (map fst (supplier_lines (supplier_items i d)))"
  by (auto simp: supplier_lines_def supplier_items_def comp_def distinct_map intro: inj_on_subset)

lemma supplier_post_effect:
  assumes "supplier_return_post_body i d = Inr (i', d')" "supplier_ready i d"
  obtains new n where "SupplierReturnItemBatch d' = SupplierReturnItemBatch d @ new"
    "\<forall>l \<in> set new. srib_supplierReturnItemId l \<in> sri_id ` set (supplier_items i d)"
    "\<forall>l \<in> set new. on_grid 3 (srib_quantity l) \<and> 0 \<le> srib_quantity l \<and>
       srib_productBatchId l \<in> pb_id ` set (ProductBatch d)"
    "\<forall>r \<in> set (supplier_items i d).
       sum_list (map srib_quantity (filter (\<lambda>l. srib_supplierReturnItemId l = sri_id r) new)) = sri_quantity r"
    "shifted (\<lambda>k. - moved k (map srib_link new)) (ProductBatch d) (ProductBatch d')" "stock_ready d'"
    "(\<forall>b \<in> set (ProductBatch d). 0 \<le> pb_quantityLeft b) \<longrightarrow> (\<forall>b \<in> set (ProductBatch d'). 0 \<le> pb_quantityLeft b)"
    "d' = d\<lparr>ProductBatch := ProductBatch d', SupplierReturnItemBatch := SupplierReturnItemBatch d', next_uuid := n,
      SupplierReturn := map_where (\<lambda>r. sr_id r = i)
        (\<lambda>r. r\<lparr>sr_status := POSTED, sr_updatedAt := clock d\<rparr>) (SupplierReturn d)\<rparr>"
    "\<forall>r \<in> set (SupplierReturn d). sr_id r = i \<longrightarrow> (\<forall>c \<in> set (supplier_return_ok d r). fst c)"
proof -
  from assms(1) obtain w d1 where p:
    "for_each (issue_item record_return w) (supplier_lines (supplier_items i d)) d = Inr d1"
    "set_supplier_status i POSTED d1 = Inr d'"
    by (auto simp: supplier_return_post_body_def split: option.splits if_splits)
  have "return_rest d1 = return_rest d" using p(1) by (rule for_each_frame) (rule issue_return_rest)
  then obtain bs ls n where d1: "d1 = d\<lparr>ProductBatch := bs, SupplierReturnItemBatch := ls, next_uuid := n\<rparr>"
    by (rule return_rest_eq)
  have d': "d' = d\<lparr>ProductBatch := bs, SupplierReturnItemBatch := ls, next_uuid := n,
      SupplierReturn := map_where (\<lambda>r. sr_id r = i)
        (\<lambda>r. r\<lparr>sr_status := POSTED, sr_updatedAt := clock d\<rparr>) (SupplierReturn d)\<rparr>"
    and ok: "\<forall>r \<in> set (SupplierReturn d). sr_id r = i \<longrightarrow> (\<forall>c \<in> set (supplier_return_ok d r). fst c)"
    using p(2) unfolding set_supplier_status_def upd_SupplierReturn_Inr d1
    by (auto simp: supplier_return_ok_def)
  have ready: "stock_ready d" "\<forall>x \<in> set (supplier_lines (supplier_items i d)). quantity_ready (snd (snd x))"
    using assms(2) by (auto simp: supplier_ready_def supplier_lines_def)
  from supplier.issue_items_effect[OF p(1) ready] obtain new where new:
    "ls = SupplierReturnItemBatch d @ new"
    "\<forall>l \<in> set new. srib_supplierReturnItemId l \<in> fst ` set (supplier_lines (supplier_items i d))"
    "\<forall>l \<in> set new. on_grid 3 (snd (srib_link l)) \<and> 0 \<le> snd (srib_link l) \<and>
      fst (srib_link l) \<in> pb_id ` set (ProductBatch d)"
    "\<forall>(item, p, n) \<in> set (supplier_lines (supplier_items i d)).
       sum_list (map (snd \<circ> srib_link) (filter (\<lambda>l. srib_supplierReturnItemId l = item) new)) = n"
    "shifted (\<lambda>k. - moved k (map srib_link new)) (ProductBatch d) bs" "stock_ready d1"
    using supplier_items_distinct assms(2) d1 by (auto simp: supplier_ready_def)
  have "stock_ready d'" using new(6) by (simp add: stock_ready_def batches_typed_def d' d1)
  moreover have "(\<forall>b \<in> set (ProductBatch d). 0 \<le> pb_quantityLeft b) \<longrightarrow> (\<forall>b \<in> set bs. 0 \<le> pb_quantityLeft b)"
    using supplier.issue_items_nonneg[OF p(1) ready] by (simp add: d1)
  ultimately show thesis
    using new d' ok by (intro that[of new n]) (auto simp: supplier_lines_def srib_link_def comp_def)
qed

lemma supplier_links_split:
  assumes "distinct (map sri_id (SupplierReturnItem d))"
  shows "supplier_links i d =
    filter (\<lambda>l. srib_supplierReturnItemId l \<in> sri_id ` set (supplier_items i d)) (SupplierReturnItemBatch d)"
proof -
  have "(case find_row sri_id k (SupplierReturnItem d) of None \<Rightarrow> False | Some r \<Rightarrow> sri_supplierReturnId r = i) \<longleftrightarrow>
      k \<in> sri_id ` set (supplier_items i d)" for k
  proof (cases "find_row sri_id k (SupplierReturnItem d)")
    case None
    then have "k \<notin> sri_id ` set (SupplierReturnItem d)" by (simp add: find_row_None_iff)
    with None show ?thesis by (auto simp: supplier_items_def)
  next
    case (Some r)
    note r = find_row_Some[OF Some]
    have "k \<in> sri_id ` set (supplier_items i d) \<longleftrightarrow> r \<in> set (supplier_items i d)"
      using assms r by (auto simp: supplier_items_def distinct_map dest: inj_onD)
    then show ?thesis using Some r by (simp add: supplier_items_def)
  qed
  then show ?thesis by (simp add: supplier_links_def)
qed

lemma supplier_unpost_after_post:
  assumes post: "supplier_return_post_body i d = Inr (i', d')" and ready: "supplier_ready i d"
    and doc: "find_row sr_id i (SupplierReturn d) = Some doc"
    and fresh: "\<forall>l \<in> set (SupplierReturnItemBatch d). srib_supplierReturnItemId l \<notin> sri_id ` set (supplier_items i d)"
    and pos: "\<forall>b \<in> set (ProductBatch d). 0 \<le> pb_quantityLeft b"
  shows "\<exists>d''. supplier_return_unpost_body i d' = Inr (i, d'') \<and>
    shifted (\<lambda>_. 0) (ProductBatch d) (ProductBatch d'') \<and>
    d'' = d\<lparr>ProductBatch := ProductBatch d'', next_uuid := next_uuid d',
      SupplierReturn := map_where (\<lambda>r. sr_id r = i)
        (\<lambda>r. r\<lparr>sr_status := DRAFT, sr_updatedAt := clock d\<rparr>) (SupplierReturn d)\<rparr>"
proof -
  from post ready obtain new n where new: "SupplierReturnItemBatch d' = SupplierReturnItemBatch d @ new"
    "\<forall>l \<in> set new. srib_supplierReturnItemId l \<in> sri_id ` set (supplier_items i d)"
    "\<forall>l \<in> set new. on_grid 3 (srib_quantity l) \<and> 0 \<le> srib_quantity l \<and>
       srib_productBatchId l \<in> pb_id ` set (ProductBatch d)"
    "shifted (\<lambda>k. - moved k (map srib_link new)) (ProductBatch d) (ProductBatch d')" "stock_ready d'"
    "(\<forall>b \<in> set (ProductBatch d). 0 \<le> pb_quantityLeft b) \<longrightarrow> (\<forall>b \<in> set (ProductBatch d'). 0 \<le> pb_quantityLeft b)"
    and d': "d' = d\<lparr>ProductBatch := ProductBatch d', SupplierReturnItemBatch := SupplierReturnItemBatch d', next_uuid := n,
      SupplierReturn := map_where (\<lambda>r. sr_id r = i)
        (\<lambda>r. r\<lparr>sr_status := POSTED, sr_updatedAt := clock d\<rparr>) (SupplierReturn d)\<rparr>"
    and ok: "\<forall>r \<in> set (SupplierReturn d). sr_id r = i \<longrightarrow> (\<forall>c \<in> set (supplier_return_ok d r). fst c)"
    by (rule supplier_post_effect) blast
  obtain bs ls where d'e: "d' = d\<lparr>ProductBatch := bs, SupplierReturnItemBatch := ls, next_uuid := n,
      SupplierReturn := map_where (\<lambda>r. sr_id r = i)
        (\<lambda>r. r\<lparr>sr_status := POSTED, sr_updatedAt := clock d\<rparr>) (SupplierReturn d)\<rparr>" using d' by blast
  have items: "supplier_items i d' = supplier_items i d" "SupplierReturnItem d' = SupplierReturnItem d"
    by (simp_all add: d'e supplier_items_def)
  have links: "supplier_links i d' = new"
    using ready by (subst supplier_links_split)
      (use new(1,2) fresh in \<open>auto simp: supplier_ready_def items filter_id_conv filter_empty_conv\<close>)
  have typed: "batches_typed d" "batches_typed d'" using ready new(5) by (auto simp: supplier_ready_def stock_ready_def)
  have grid: "\<forall>l \<in> set new. on_grid 3 (snd (srib_link l)) \<and> 0 \<le> snd (srib_link l)"
    using new(3) by (simp add: srib_link_def)
  from supplier.return_issued[OF new(4) typed grid mp[OF new(6) pos]]
  obtain e where e: "return_links (map srib_link new) d' = Inr e"
    "shifted (\<lambda>_. 0) (ProductBatch d) (ProductBatch e)" "e = d'\<lparr>ProductBatch := ProductBatch e\<rparr>" by blast
  have ret: "for_each (\<lambda>l. return_to_batch (srib_productBatchId l) (srib_quantity l)) (supplier_links i d') d' = Inr e"
    using e(1) unfolding links by (simp add: for_each_map srib_link_def)
  obtain cs where ee: "e = d'\<lparr>ProductBatch := cs\<rparr>" using e(3) by blast
  have "filter (\<lambda>l. srib_supplierReturnItemId l \<notin> sri_id ` set (supplier_items i d)) new = []"
    "filter (\<lambda>l. srib_supplierReturnItemId l \<notin> sri_id ` set (supplier_items i d)) (SupplierReturnItemBatch d) =
       SupplierReturnItemBatch d" using new(2) fresh by (auto simp: filter_id_conv filter_empty_conv)
  then have del: "del_SupplierReturnItemBatches i e = e\<lparr>SupplierReturnItemBatch := SupplierReturnItemBatch d\<rparr>"
    using new(1) by (simp add: del_SupplierReturnItemBatches_def ee items supplier_items_def)
  have "set_supplier_status i DRAFT (del_SupplierReturnItemBatches i e) =
    Inr (d\<lparr>ProductBatch := cs, next_uuid := n, SupplierReturn := map_where (\<lambda>r. sr_id r = i)
        (\<lambda>r. r\<lparr>sr_status := DRAFT, sr_updatedAt := clock d\<rparr>) (SupplierReturn d)\<rparr>)"
  proof -
    have "e\<lparr>SupplierReturnItemBatch := SupplierReturnItemBatch d\<rparr> =
        d\<lparr>ProductBatch := cs, next_uuid := n, SupplierReturn := SupplierReturn d'\<rparr>"
      by (simp add: ee d'e)
    moreover have "map_where (\<lambda>r. sr_id r = i) (\<lambda>r. r\<lparr>sr_status := DRAFT, sr_updatedAt := clock d\<rparr>)
        (SupplierReturn d') = map_where (\<lambda>r. sr_id r = i)
        (\<lambda>r. r\<lparr>sr_status := DRAFT, sr_updatedAt := clock d\<rparr>) (SupplierReturn d)"
      by (simp add: d'e map_where_def)
    moreover have "\<forall>r \<in> set (SupplierReturn d'). sr_id r = i \<longrightarrow> (\<forall>c \<in> set (supplier_return_ok d r). fst c)"
      using ok unfolding d'e by (simp add: set_map_where ball_Un) blast
    ultimately show ?thesis
      unfolding del set_supplier_status_def upd_SupplierReturn_Inr by simp
  qed
  then have "supplier_return_unpost_body i d' = Inr (i, d\<lparr>ProductBatch := cs, next_uuid := n,
      SupplierReturn := map_where (\<lambda>r. sr_id r = i)
        (\<lambda>r. r\<lparr>sr_status := DRAFT, sr_updatedAt := clock d\<rparr>) (SupplierReturn d)\<rparr>)"
    using ret doc find_row_Some[OF doc] by (simp add: supplier_return_unpost_body_def d'e find_row_map_where)
  moreover have "ProductBatch e = cs" "next_uuid d' = n" by (simp add: ee) (simp add: d'e)
  ultimately show ?thesis using e(2)
    by (intro exI[of _ "d\<lparr>ProductBatch := cs, next_uuid := n, SupplierReturn := map_where (\<lambda>r. sr_id r = i)
        (\<lambda>r. r\<lparr>sr_status := DRAFT, sr_updatedAt := clock d\<rparr>) (SupplierReturn d)\<rparr>"] conjI) simp_all
qed

section \<open>What supplier returns promise\<close>

definition draft_return_db :: db where
  "draft_return_db = (two_batches 5 3)\<lparr>
     Product := [named_product 5 ''Tea'' ''kg''],
     Warehouse := [named_warehouse 7 ''Main''],
     SupplierReturn := [\<lparr>sr_id = 4, sr_number = ''0101702'', sr_date = 30, sr_supplierId = None,
        sr_warehouseId = Some 7, sr_status = DRAFT, sr_comment = None, sr_totalAmount = 12, sr_createdBy = None,
        sr_createdAt = 30, sr_updatedAt = 30\<rparr>],
     SupplierReturnItem := [\<lparr>sri_id = 2, sri_supplierReturnId = 4, sri_productId = 5, sri_quantity = 6,
        sri_price = 2, sri_total = 12, sri_sortOrder = 0, sri_createdAt = 30\<rparr>]\<rparr>"

lemmas return_eval = supplier_return_post_body_def supplier_items_def supplier_lines_def issue_item_def
  deductStock_def available_batches_def batch_warehouse_def take_from_batch_def upd_ProductBatch_def
  update_table_def batch_numbers_ok_def dec_fits_def first_error_def record_return_def
  ins_SupplierReturnItemBatch_def set_supplier_status_def upd_SupplierReturn_def supplier_return_ok_def
  js_number_def js_sub_def js_add_def js_mul_def two_batches_def empty_db_def Let_def draft_return_db_def

lemma return_numbers:
  "js_text 5 = 5" "js_text 1 = 1" "js_text 2 = 2" "js_text 3 = 3"
  "fl 6 = 6" "fl 5 = 5" "fl 3 = 3" "fl 2 = 2" "fl 1 = 1" "fl 0 = 0"
  by code_simp+

lemma draft_return_post: "\<exists>d'. supplier_return_post_body 4 draft_return_db = Inr (4, d')"
  by (simp add: return_eval return_numbers del: One_nat_def)

lemma draft_return_facts:
  "supplier_ready 4 draft_return_db" "\<forall>b \<in> set (ProductBatch draft_return_db). 0 \<le> pb_quantityLeft b"
  "find_row sr_id 4 (SupplierReturn draft_return_db) = Some (SupplierReturn draft_return_db ! 0)"
  "\<forall>l \<in> set (SupplierReturnItemBatch draft_return_db).
     srib_supplierReturnItemId l \<notin> sri_id ` set (supplier_items 4 draft_return_db)"
proof -
  have "batches_typed (two_batches 5 3)" using two_batches_ready_6 by (simp add: deduct_ready_def)
  then have "stock_ready draft_return_db"
    by (simp add: stock_ready_def batches_typed_def draft_return_db_def max_batches_def two_batches_def)
  then show "supplier_ready 4 draft_return_db"
    by (simp add: supplier_ready_def draft_return_db_def supplier_items_def quantity_ready_def)
  show "\<forall>b \<in> set (ProductBatch draft_return_db). 0 \<le> pb_quantityLeft b"
    "find_row sr_id 4 (SupplierReturn draft_return_db) = Some (SupplierReturn draft_return_db ! 0)"
    "\<forall>l \<in> set (SupplierReturnItemBatch draft_return_db).
     srib_supplierReturnItemId l \<notin> sri_id ` set (supplier_items 4 draft_return_db)"
    by (simp_all add: draft_return_db_def two_batches_def empty_db_def)
qed

text \<open>
  C32: posting a return to a supplier takes exactly its items out of the stock, each item's link rows sum
  to its quantity, and unposting it puts every batch back to the quantity it had, removes the link rows
  and reopens the draft; nothing else changes.
\<close>

theorem supplier_return_post_unpost:
  assumes "supplier_return_post_body i d = Inr (i', d')" and "supplier_ready i d"
    and "find_row sr_id i (SupplierReturn d) = Some doc"
    and "\<forall>l \<in> set (SupplierReturnItemBatch d). srib_supplierReturnItemId l \<notin> sri_id ` set (supplier_items i d)"
    and "\<forall>b \<in> set (ProductBatch d). 0 \<le> pb_quantityLeft b"
  shows "(\<exists>new. SupplierReturnItemBatch d' = SupplierReturnItemBatch d @ new \<and>
      shifted (\<lambda>k. - moved k (map srib_link new)) (ProductBatch d) (ProductBatch d') \<and>
      (\<forall>r \<in> set (supplier_items i d). sum_list (map srib_quantity
         (filter (\<lambda>l. srib_supplierReturnItemId l = sri_id r) new)) = sri_quantity r)) \<and>
    (\<exists>d''. supplier_return_unpost_body i d' = Inr (i, d'') \<and>
      shifted (\<lambda>_. 0) (ProductBatch d) (ProductBatch d'') \<and>
      d'' = d\<lparr>ProductBatch := ProductBatch d'', next_uuid := next_uuid d',
        SupplierReturn := map_where (\<lambda>r. sr_id r = i)
          (\<lambda>r. r\<lparr>sr_status := DRAFT, sr_updatedAt := clock d\<rparr>) (SupplierReturn d)\<rparr>)"
  by (rule conjI, rule supplier_post_effect[OF assms(1,2)], blast, rule supplier_unpost_after_post[OF assms])

theorem supplier_return_post_unpost_witness:
  "\<exists>d' d''. supplier_return_post_body 4 draft_return_db = Inr (4, d') \<and>
     supplier_return_unpost_body 4 d' = Inr (4, d'')"
proof -
  obtain d' where d': "supplier_return_post_body 4 draft_return_db = Inr (4, d')"
    using draft_return_post by blast
  with supplier_return_post_unpost[OF d' draft_return_facts(1,3,4,2)] show ?thesis by blast
qed

text \<open>
  The document number is not always new. \<open>generateDocNumber\<close> counts the numbers of the day and adds
  one, so once the first of two returns of a day is deleted, the next one gets the number of the second;
  \<open>SupplierReturn.number\<close> is UNIQUE, and creating fails with the database unchanged.
\<close>

theorem supplier_return_number_reused:
  "supplier_return_create \<lparr>rtn_date = Some 0, rtn_counterpartyId = None, rtn_warehouseId = Some 7,
       rtn_comment = None, rtn_items = []\<rparr> 1 draft_return_db =
     (Inl (SqlError (UniqueViolation ''SupplierReturn.number'')), draft_return_db)"
proof -
  have "generateDocNumber 0 [''0101702''] 0 = ''0101702''" by code_simp
  then show ?thesis
    by (simp add: supplier_return_create_def supplier_return_create_body_def answer_def transaction_def
        ins_SupplierReturn_def first_error_def supplier_return_ok_def coalesce_def dec_fits_def
        draft_return_db_def two_batches_def empty_db_def Let_def not_null_def)
qed

end
