(* ===== verification/GoodsReceiptService.thy ===== *)
theory GoodsReceiptService
  imports Inventory DocNumber "HOL-Library.AList"
begin

text \<open>
  \<open>src/services/goodsReceiptService.ts\<close>: goods receipts are created and edited as drafts (SAVED),
  posting turns each item into a batch, unposting deletes the batches while none is sold, and a
  posted receipt can be edited as long as no product falls below what is already sold.
\<close>

section \<open>Requests and views\<close>

record receipt_item_data =
  rid_productId :: ident
  rid_quantity :: jsnum
  rid_price :: jsnum
  rid_total :: jsnum

record receipt_data =
  rd_number :: "string option"
  rd_date :: "timestamp option"
  rd_warehouseId :: "ident option"
  rd_providerId :: "ident option"
  rd_comment :: "string option"
  rd_items :: "receipt_item_data list"

record receipt_header_view =
  rhv_row :: goods_receipt
  rhv_providerName :: "string option"
  rhv_warehouseName :: "string option"
  rhv_amount :: decimal

record receipt_view =
  rv_header :: receipt_header_view
  rv_items :: "(goods_receipt_item \<times> string option) list"

section \<open>getById and getAll\<close>

definition receipt_header :: "db \<Rightarrow> goods_receipt \<Rightarrow> receipt_header_view" where
  "receipt_header d gr =
     \<lparr>rhv_row = gr,
      rhv_providerName = join_name cp_id cp_name (Counterparty d) (gr_providerId gr),
      rhv_warehouseName = join_name wh_id wh_name (Warehouse d) (gr_warehouseId gr),
      rhv_amount = sum_list (map gri_total
        (filter (\<lambda>i. gri_goodsReceiptId i = gr_id gr) (GoodsReceiptItem d)))\<rparr>"

text \<open>\<open>ORDER BY "sortOrder" ASC, "createdAt" ASC\<close>\<close>

definition receipt_items :: "ident \<Rightarrow> db \<Rightarrow> goods_receipt_item list" where
  "receipt_items i d = sort_key gri_sortOrder (sort_key gri_createdAt
     (filter (\<lambda>r. gri_goodsReceiptId r = i) (GoodsReceiptItem d)))"

definition receipt_getById :: "ident \<Rightarrow> db \<Rightarrow> receipt_view option" where
  "receipt_getById i d = map_option
     (\<lambda>gr. \<lparr>rv_header = receipt_header d gr,
            rv_items = map (\<lambda>r. (r, join_name prod_id prod_name (Product d) (Some (gri_productId r))))
              (receipt_items i d)\<rparr>)
     (find_row gr_id i (GoodsReceipt d))"

record receipt_filters =
  rf_startDate :: "timestamp option"
  rf_endDate :: "timestamp option"
  rf_warehouseId :: "ident option"

definition receipt_getAll :: "receipt_filters \<Rightarrow> db \<Rightarrow> receipt_header_view list" where
  "receipt_getAll f d = map (receipt_header d) (sort_key (\<lambda>gr. - gr_date gr)
     (filter (\<lambda>gr. \<not> gr_isDeleted gr \<and>
        (case rf_startDate f of None \<Rightarrow> True | Some t \<Rightarrow> t \<le> gr_date gr) \<and>
        (case rf_endDate f of None \<Rightarrow> True | Some t \<Rightarrow> gr_date gr \<le> t) \<and>
        (case rf_warehouseId f of None \<Rightarrow> True | Some w \<Rightarrow> gr_warehouseId gr = Some w))
      (GoodsReceipt d)))"

section \<open>create\<close>

text \<open>The items are numbered by \<open>sortOrder++\<close>.\<close>

definition insert_receipt_item :: "ident \<Rightarrow> nat \<times> receipt_item_data \<Rightarrow> db \<Rightarrow> error + db" where
  "insert_receipt_item receipt = (\<lambda>(sortOrder, item) d.
     ins_GoodsReceiptItem
       \<lparr>gri_id = next_uuid d, gri_goodsReceiptId = receipt, gri_productId = rid_productId item,
        gri_quantity = round_dec 3 (js_text (rid_quantity item)),
        gri_price = round_dec 2 (js_text (rid_price item)),
        gri_total = round_dec 2 (js_text (rid_total item)),
        gri_sortOrder = sortOrder, gri_createdAt = clock d\<rparr>
       (d\<lparr>next_uuid := Suc (next_uuid d)\<rparr>))"

definition insert_receipt_items :: "ident \<Rightarrow> receipt_item_data list \<Rightarrow> db \<Rightarrow> error + db" where
  "insert_receipt_items receipt items =
     for_each (insert_receipt_item receipt) (zip [0..<length items] items)"

definition receipt_create_body :: "receipt_data \<Rightarrow> ident \<Rightarrow> db \<Rightarrow> error + ident \<times> db" where
  "receipt_create_body data userId d =
     (let number = generateDocNumber (tz_offset d) (map gr_number (GoodsReceipt d))
            (case rd_date data of None \<Rightarrow> clock d | Some t \<Rightarrow> t);
          receipt = next_uuid d
      in rbind (not_null ''GoodsReceipt.date'' (rd_date data)) (\<lambda>date.
         rbind (ins_GoodsReceipt
             \<lparr>gr_id = receipt, gr_number = number, gr_docNumber = None, gr_date = date,
              gr_warehouseId = rd_warehouseId data, gr_providerId = rd_providerId data,
              gr_status = SAVED, gr_comment = rd_comment data, gr_createdBy = Some userId,
              gr_paidAmount = 0, gr_isDeleted = False, gr_createdAt = clock d,
              gr_updatedAt = clock d\<rparr>
             (d\<lparr>next_uuid := Suc (next_uuid d)\<rparr>)) (\<lambda>d1.
         rbind (insert_receipt_items receipt (rd_items data) d1) (\<lambda>d2.
         Inr (receipt, d2)))))"

definition receipt_create ::
  "receipt_data \<Rightarrow> ident \<Rightarrow> db \<Rightarrow> (error + receipt_view option) \<times> db" where
  "receipt_create data userId d = answer receipt_getById (transaction (receipt_create_body data userId) d)"

section \<open>post and unpost\<close>

definition set_receipt_status :: "ident \<Rightarrow> doc_status \<Rightarrow> db \<Rightarrow> error + db" where
  "set_receipt_status i s d = upd_GoodsReceipt (\<lambda>r. gr_id r = i)
     (\<lambda>r. r\<lparr>gr_status := s, gr_updatedAt := clock d\<rparr>) d"

definition stock_receipt_item ::
  "ident \<Rightarrow> timestamp \<Rightarrow> goods_receipt_item \<Rightarrow> db \<Rightarrow> error + db" where
  "stock_receipt_item i date item d =
     rbind (addStock (gri_productId item) (js_number (gri_quantity item)) (js_number (gri_price item))
              (Some i) (Some date) None d) (\<lambda>(_, d'). Inr d')"

definition receipt_post_tx :: "ident \<Rightarrow> db \<Rightarrow> error + (ident \<times> doc_status) \<times> db" where
  "receipt_post_tx i d =
     (case find_row gr_id i (GoodsReceipt d) of
        None \<Rightarrow> Inl DocumentNotFound
      | Some doc \<Rightarrow>
          if gr_status doc = POSTED then Inl DocumentAlreadyPosted
          else rbind (for_each (stock_receipt_item i (gr_date doc)) (receipt_items i d) d) (\<lambda>d1.
               rbind (set_receipt_status i POSTED d1) (\<lambda>d2.
               Inr ((i, POSTED), d2))))"

definition receipt_post :: "ident \<Rightarrow> db \<Rightarrow> (error + receipt_view option) \<times> db" where
  "receipt_post i d = answer (\<lambda>r. receipt_getById (fst r)) (transaction (receipt_post_tx i) d)"

definition receipt_unpost_tx :: "ident \<Rightarrow> db \<Rightarrow> error + (ident \<times> doc_status) \<times> db" where
  "receipt_unpost_tx i d =
     (case find_row gr_id i (GoodsReceipt d) of
        None \<Rightarrow> Inl DocumentNotFound
      | Some doc \<Rightarrow>
          if gr_status doc \<noteq> POSTED then Inl DocumentNotPosted
          else if filter (\<lambda>b. pb_goodsReceiptId b = Some i \<and> pb_quantityLeft b < pb_quantityTotal b)
                    (ProductBatch d) \<noteq> [] then Inl GoodsAlreadySold
          else rbind (set_receipt_status i SAVED
                        (del_ProductBatch (\<lambda>b. pb_goodsReceiptId b = Some i) d)) (\<lambda>d1.
               Inr ((i, SAVED), d1)))"

definition receipt_unpost :: "ident \<Rightarrow> db \<Rightarrow> (error + receipt_view option) \<times> db" where
  "receipt_unpost i d = answer (\<lambda>r. receipt_getById (fst r)) (transaction (receipt_unpost_tx i) d)"

section \<open>delete\<close>

definition receipt_delete_body :: "ident \<Rightarrow> db \<Rightarrow> error + unit \<times> db" where
  "receipt_delete_body i d =
     (case find_row gr_id i (GoodsReceipt d) of
        None \<Rightarrow> Inl DocumentNotFound
      | Some doc \<Rightarrow>
          if gr_status doc = POSTED then Inl CannotDeletePosted
          else Inr ((), del_GoodsReceipt i (del_GoodsReceiptItems i d)))"

definition receipt_delete :: "ident \<Rightarrow> db \<Rightarrow> (error + unit) \<times> db" where
  "receipt_delete i = transaction (receipt_delete_body i)"

section \<open>update\<close>

text \<open>The Maps of the handler, keyed by product in insertion order.\<close>

record old_batch =
  ob_total :: jsnum
  ob_left :: jsnum
  ob_ids :: "ident list"

definition add_old_batch ::
  "(ident \<times> old_batch) list \<Rightarrow> product_batch \<Rightarrow> (ident \<times> old_batch) list" where
  "add_old_batch m b =
     (case map_of m (pb_productId b) of
        None \<Rightarrow> m @ [(pb_productId b, \<lparr>ob_total = js_number (pb_quantityTotal b),
                       ob_left = js_number (pb_quantityLeft b), ob_ids = [pb_id b]\<rparr>)]
      | Some e \<Rightarrow> AList.update (pb_productId b)
          \<lparr>ob_total = js_add (ob_total e) (js_number (pb_quantityTotal b)),
           ob_left = js_add (ob_left e) (js_number (pb_quantityLeft b)),
           ob_ids = ob_ids e @ [pb_id b]\<rparr> m)"

definition old_batches :: "ident \<Rightarrow> db \<Rightarrow> (ident \<times> old_batch) list" where
  "old_batches i d =
     foldl add_old_batch [] (filter (\<lambda>b. pb_goodsReceiptId b = Some i) (ProductBatch d))"

definition add_incoming ::
  "(ident \<times> receipt_item_data) list \<Rightarrow> receipt_item_data \<Rightarrow> (ident \<times> receipt_item_data) list" where
  "add_incoming m item =
     (case map_of m (rid_productId item) of
        None \<Rightarrow> m @ [(rid_productId item, item)]
      | Some e \<Rightarrow> AList.update (rid_productId item)
          (e\<lparr>rid_quantity := js_add (rid_quantity e) (rid_quantity item)\<rparr>) m)"

definition incoming_items :: "receipt_item_data list \<Rightarrow> (ident \<times> receipt_item_data) list" where
  "incoming_items items = foldl add_incoming [] items"

definition clear_batch :: "ident \<Rightarrow> db \<Rightarrow> error + db" where
  "clear_batch i d = upd_ProductBatch (\<lambda>b. pb_id b = i)
     (\<lambda>b. b\<lparr>pb_quantityTotal := 0, pb_quantityLeft := 0, pb_updatedAt := clock d\<rparr>) d"

definition reconcile_product ::
  "ident \<Rightarrow> (ident \<times> receipt_item_data) list \<Rightarrow> ident \<times> old_batch \<Rightarrow> db \<Rightarrow> error + db" where
  "reconcile_product i incoming = (\<lambda>(productId, oldB) d.
     (let sold = js_sub (ob_total oldB) (ob_left oldB);
          item = map_of incoming productId;
          newTotal = (case item of None \<Rightarrow> 0 | Some x \<Rightarrow> rid_quantity x)
      in if newTotal < sold then Inl (SoldBelow sold)
         else if newTotal = 0 \<and> sold = 0
         then Inr (del_ProductBatch (\<lambda>b. pb_goodsReceiptId b = Some i \<and> pb_productId b = productId) d)
         else if 0 < newTotal
         then (case item of None \<Rightarrow> Inr d
               | Some x \<Rightarrow>
                   rbind (upd_ProductBatch (\<lambda>b. pb_id b = hd (ob_ids oldB))
                     (\<lambda>b. b\<lparr>pb_quantityTotal := round_dec 3 (js_text newTotal),
                            pb_quantityLeft := round_dec 3 (js_text (js_sub newTotal sold)),
                            pb_enterPrice := round_dec 2 (js_text (rid_price x)),
                            pb_updatedAt := clock d\<rparr>) d)
                   (for_each clear_batch (tl (ob_ids oldB))))
         else Inr d))"

definition add_new_product ::
  "ident \<Rightarrow> timestamp \<Rightarrow> (ident \<times> old_batch) list \<Rightarrow> ident \<times> receipt_item_data \<Rightarrow> db \<Rightarrow> error + db" where
  "add_new_product i date old = (\<lambda>(productId, item) d.
     (if map_of old productId = None
      then rbind (addStock productId (rid_quantity item) (rid_price item) (Some i) (Some date) None d)
             (\<lambda>(_, d'). Inr d')
      else Inr d))"

definition receipt_update_body :: "ident \<Rightarrow> receipt_data \<Rightarrow> db \<Rightarrow> error + ident \<times> db" where
  "receipt_update_body i data d =
     (case find_row gr_id i (GoodsReceipt d) of
        None \<Rightarrow> Inl DocumentNotFound
      | Some current \<Rightarrow>
          rbind (not_null ''GoodsReceipt.number'' (rd_number data)) (\<lambda>number.
          rbind (not_null ''GoodsReceipt.date'' (rd_date data)) (\<lambda>date.
          rbind (upd_GoodsReceipt (\<lambda>r. gr_id r = i)
                  (\<lambda>r. r\<lparr>gr_number := number, gr_date := date, gr_warehouseId := rd_warehouseId data,
                         gr_providerId := rd_providerId data, gr_comment := rd_comment data,
                         gr_updatedAt := clock d\<rparr>) d) (\<lambda>d1.
          rbind (if gr_status current = POSTED
                 then let old = old_batches i d1; incoming = incoming_items (rd_items data)
                      in rbind (for_each (reconcile_product i incoming) old d1)
                           (for_each (add_new_product i date old) incoming)
                 else Inr d1) (\<lambda>d2.
          rbind (insert_receipt_items i (rd_items data) (del_GoodsReceiptItems i d2)) (\<lambda>d3.
          Inr (i, d3)))))))"

definition receipt_update :: "ident \<Rightarrow> receipt_data \<Rightarrow> db \<Rightarrow> (error + receipt_view option) \<times> db" where
  "receipt_update i data d = answer receipt_getById (transaction (receipt_update_body i data) d)"

section \<open>What posting does\<close>

definition receipts_ok :: "db \<Rightarrow> bool" where
  "receipts_ok d \<longleftrightarrow> (\<forall>r \<in> set (GoodsReceipt d). \<forall>c \<in> set (goods_receipt_ok d r). fst c)"

definition receipt_item_typed :: "goods_receipt_item \<Rightarrow> bool" where
  "receipt_item_typed r \<longleftrightarrow> on_grid 3 (gri_quantity r) \<and> \<bar>gri_quantity r\<bar> < 10 ^ 7 \<and>
     on_grid 2 (gri_price r) \<and> \<bar>gri_price r\<bar> < 10 ^ 8"

definition receipt_items_typed :: "ident \<Rightarrow> db \<Rightarrow> bool" where
  "receipt_items_typed i d \<longleftrightarrow> (\<forall>r \<in> set (receipt_items i d). receipt_item_typed r)"

text \<open>One batch per item, in the order of the items.\<close>

fun receipt_batches ::
  "ident \<Rightarrow> timestamp \<Rightarrow> timestamp \<Rightarrow> ident \<Rightarrow> goods_receipt_item list \<Rightarrow> product_batch list" where
  "receipt_batches i date now n [] = []"
| "receipt_batches i date now n (r # rs) =
     new_batch n (gri_productId r) (gri_quantity r) (gri_price r) (Some i) None date now #
     receipt_batches i date now (Suc n) rs"

lemma receipt_batches_mem:
  "b \<in> set (receipt_batches i date now n rs) \<Longrightarrow>
     pb_goodsReceiptId b = Some i \<and> pb_quantityLeft b = pb_quantityTotal b \<and> n \<le> pb_id b"
proof (induction rs arbitrary: n)
  case (Cons r rs)
  then show ?case by (cases "b \<in> set (receipt_batches i date now (Suc n) rs)") fastforce+
qed simp

lemma receipt_batches_total:
  "sum_list (map pb_quantityTotal (filter (\<lambda>b. pb_productId b = p) (receipt_batches i date now n rs))) =
     sum_list (map gri_quantity (filter (\<lambda>r. gri_productId r = p) rs))"
  by (induction rs arbitrary: n) auto

lemma stock_receipt_items:
  assumes "\<forall>r \<in> set rs. receipt_item_typed r" "i \<in> gr_id ` set (GoodsReceipt d)"
  shows "for_each (stock_receipt_item i date) rs d =
    Inr (d\<lparr>ProductBatch := ProductBatch d @ receipt_batches i date (clock d) (next_uuid d) rs,
           next_uuid := next_uuid d + length rs\<rparr>)"
  using assms
proof (induction rs arbitrary: d)
  case (Cons r rs)
  have "fk_ok (map gr_id (GoodsReceipt d)) (Some i)" using Cons.prems(2) by simp
  then have "stock_receipt_item i date r d = Inr (d\<lparr>ProductBatch := ProductBatch d @
      [new_batch (next_uuid d) (gri_productId r) (gri_quantity r) (gri_price r) (Some i) None date (clock d)],
      next_uuid := Suc (next_uuid d)\<rparr>)"
    using Cons.prems(1) by (simp add: stock_receipt_item_def addStock_exact receipt_item_typed_def Let_def)
  then show ?case using Cons by (simp add: Cons.IH)
qed simp

lemma set_receipt_status_ok:
  assumes "receipts_ok d"
  shows "set_receipt_status i s d = Inr (d\<lparr>GoodsReceipt := map_where (\<lambda>r. gr_id r = i)
     (\<lambda>r. r\<lparr>gr_status := s, gr_updatedAt := clock d\<rparr>) (GoodsReceipt d)\<rparr>)"
  using assms
  by (auto simp: set_receipt_status_def upd_GoodsReceipt_def update_table_Inr_iff receipts_ok_def
      goods_receipt_ok_def)

definition receipt_posted :: "ident \<Rightarrow> timestamp \<Rightarrow> db \<Rightarrow> db" where
  "receipt_posted i date d =
     d\<lparr>ProductBatch := ProductBatch d @ receipt_batches i date (clock d) (next_uuid d) (receipt_items i d),
       next_uuid := next_uuid d + length (receipt_items i d),
       GoodsReceipt := map_where (\<lambda>r. gr_id r = i)
         (\<lambda>r. r\<lparr>gr_status := POSTED, gr_updatedAt := clock d\<rparr>) (GoodsReceipt d)\<rparr>"

lemma receipts_ok_upd [simp]:
  "receipts_ok (d\<lparr>ProductBatch := bs\<rparr>) = receipts_ok d"
  "receipts_ok (d\<lparr>next_uuid := n\<rparr>) = receipts_ok d"
  by (simp_all add: receipts_ok_def goods_receipt_ok_def)

lemma receipt_post_tx_ok:
  assumes "find_row gr_id i (GoodsReceipt d) = Some doc" "gr_status doc \<noteq> POSTED"
    and "receipts_ok d" "receipt_items_typed i d"
  shows "receipt_post_tx i d = Inr ((i, POSTED), receipt_posted i (gr_date doc) d)"
proof -
  have "i \<in> gr_id ` set (GoodsReceipt d)" using find_row_Some[OF assms(1)] by auto
  then have "for_each (stock_receipt_item i (gr_date doc)) (receipt_items i d) d = Inr (d\<lparr>
      ProductBatch := ProductBatch d @
        receipt_batches i (gr_date doc) (clock d) (next_uuid d) (receipt_items i d),
      next_uuid := next_uuid d + length (receipt_items i d)\<rparr>)" (is "_ = Inr ?d1")
    using assms(4) by (intro stock_receipt_items) (simp_all add: receipt_items_typed_def)
  moreover have "set_receipt_status i POSTED ?d1 = Inr (receipt_posted i (gr_date doc) d)"
    using assms(3) by (subst set_receipt_status_ok) (simp_all add: receipt_posted_def)
  ultimately show ?thesis using assms(1,2) by (simp add: receipt_post_tx_def)
qed

section \<open>Unposting undoes posting\<close>

text \<open>The supply of ids is ahead of every batch id a link row mentions.\<close>

definition links_below_supply :: "db \<Rightarrow> bool" where
  "links_below_supply d \<longleftrightarrow>
     (\<forall>r \<in> set (RealizationItemBatch d). rib_productBatchId r < next_uuid d) \<and>
     (\<forall>r \<in> set (SupplierReturnItemBatch d). srib_productBatchId r < next_uuid d) \<and>
     (\<forall>r \<in> set (BuyerReturnItemBatch d). brib_productBatchId r < next_uuid d)"

lemma del_new_batches:
  assumes "\<forall>b \<in> set (ProductBatch d). pb_goodsReceiptId b \<noteq> Some i" "links_below_supply d"
    and "\<forall>b \<in> set new. pb_goodsReceiptId b = Some i \<and> next_uuid d \<le> pb_id b"
  shows "del_ProductBatch (\<lambda>b. pb_goodsReceiptId b = Some i)
     (d\<lparr>ProductBatch := ProductBatch d @ new\<rparr>) = d"
proof -
  let ?P = "\<lambda>b. pb_goodsReceiptId b = Some i"
  have keep: "filter (\<lambda>b. \<not> ?P b) (ProductBatch d @ new) = ProductBatch d"
    "filter ?P (ProductBatch d @ new) = new"
    using assms(1,3) by (auto simp: filter_id_conv filter_empty_conv)
  have old: "k \<notin> pb_id ` set new" if "k < next_uuid d" for k
    using assms(3) that by (force simp: not_le[symmetric])
  have "filter (\<lambda>r. \<not> List.member (map pb_id new) (rib_productBatchId r)) (RealizationItemBatch d) =
      RealizationItemBatch d"
    "filter (\<lambda>r. \<not> List.member (map pb_id new) (srib_productBatchId r)) (SupplierReturnItemBatch d) =
      SupplierReturnItemBatch d"
    "filter (\<lambda>r. \<not> List.member (map pb_id new) (brib_productBatchId r)) (BuyerReturnItemBatch d) =
      BuyerReturnItemBatch d"
    using assms(2) old by (simp_all add: filter_id_conv links_below_supply_def)
  then show ?thesis using keep by (simp add: del_ProductBatch_def)
qed

lemma receipt_unpost_after_post:
  assumes "find_row gr_id i (GoodsReceipt d) = Some doc"
    and "receipts_ok d" "links_below_supply d"
    and "\<forall>b \<in> set (ProductBatch d). pb_goodsReceiptId b \<noteq> Some i"
  shows "receipt_unpost_tx i (receipt_posted i date d) = Inr ((i, SAVED),
    d\<lparr>next_uuid := next_uuid d + length (receipt_items i d),
      GoodsReceipt := map_where (\<lambda>r. gr_id r = i)
        (\<lambda>r. r\<lparr>gr_status := SAVED, gr_updatedAt := clock d\<rparr>) (GoodsReceipt d)\<rparr>)"
proof -
  let ?new = "receipt_batches i date (clock d) (next_uuid d) (receipt_items i d)"
  let ?up = "map_where (\<lambda>r. gr_id r = i) (\<lambda>r. r\<lparr>gr_status := POSTED, gr_updatedAt := clock d\<rparr>)"
  let ?e = "d\<lparr>next_uuid := next_uuid d + length (receipt_items i d), GoodsReceipt := ?up (GoodsReceipt d)\<rparr>"
  have split: "receipt_posted i date d = ?e\<lparr>ProductBatch := ProductBatch ?e @ ?new\<rparr>"
    by (simp add: receipt_posted_def)
  have doc: "find_row gr_id i (GoodsReceipt (receipt_posted i date d)) =
      Some (doc\<lparr>gr_status := POSTED, gr_updatedAt := clock d\<rparr>)"
    using find_row_Some[OF assms(1)] assms(1) by (simp add: receipt_posted_def find_row_map_where)
  have unsold: "filter (\<lambda>b. pb_goodsReceiptId b = Some i \<and> pb_quantityLeft b < pb_quantityTotal b)
      (ProductBatch (receipt_posted i date d)) = []"
    using assms(4) receipt_batches_mem by (fastforce simp: receipt_posted_def filter_empty_conv)
  have "del_ProductBatch (\<lambda>b. pb_goodsReceiptId b = Some i) (receipt_posted i date d) =
      (del_ProductBatch (\<lambda>b. pb_goodsReceiptId b = Some i) (d\<lparr>ProductBatch := ProductBatch d @ ?new\<rparr>))
        \<lparr>next_uuid := next_uuid d + length (receipt_items i d), GoodsReceipt := ?up (GoodsReceipt d)\<rparr>"
    by (simp add: del_ProductBatch_def receipt_posted_def)
  also have "\<dots> = ?e"
    by (subst del_new_batches) (use assms(3,4) receipt_batches_mem in \<open>auto\<close>)
  finally have del: "del_ProductBatch (\<lambda>b. pb_goodsReceiptId b = Some i) (receipt_posted i date d) = ?e" .
  have ok: "receipts_ok ?e"
    using assms(2) by (auto simp: receipts_ok_def goods_receipt_ok_def set_map_where)
  have "set_receipt_status i SAVED ?e = Inr (?e\<lparr>GoodsReceipt := map_where (\<lambda>r. gr_id r = i)
        (\<lambda>r. r\<lparr>gr_status := SAVED, gr_updatedAt := clock d\<rparr>) (GoodsReceipt d)\<rparr>)"
    by (subst set_receipt_status_ok[OF ok]) (simp add: map_where_def)
  then show ?thesis using doc unsold by (simp add: receipt_unpost_tx_def del)
qed

section \<open>Editing a posted receipt keeps what is sold\<close>

definition same_sold :: "ident \<Rightarrow> product_batch \<Rightarrow> product_batch \<Rightarrow> bool" where
  "same_sold i b b' \<longleftrightarrow> pb_id b' = pb_id b \<and> pb_productId b' = pb_productId b \<and>
     pb_goodsReceiptId b' = pb_goodsReceiptId b \<and>
     pb_quantityTotal b' - pb_quantityLeft b' = pb_quantityTotal b - pb_quantityLeft b \<and>
     (0 \<le> pb_quantityLeft b \<longrightarrow> 0 \<le> pb_quantityLeft b') \<and>
     (pb_goodsReceiptId b \<noteq> Some i \<longrightarrow> b' = b)"

definition keeps_sold :: "ident \<Rightarrow> db \<Rightarrow> db \<Rightarrow> bool" where
  "keeps_sold i d d' \<longleftrightarrow> (\<forall>b' \<in> set (ProductBatch d'). \<exists>b \<in> set (ProductBatch d). same_sold i b b')"

lemma same_sold_refl [simp]: "same_sold i b b"
  by (simp add: same_sold_def)

lemma keeps_sold_refl [simp]: "keeps_sold i d d"
  by (force simp: keeps_sold_def)

lemma same_sold_trans: "same_sold i b c \<Longrightarrow> same_sold i c e \<Longrightarrow> same_sold i b e"
  by (auto simp: same_sold_def)

lemma keeps_sold_trans: "keeps_sold i d e \<Longrightarrow> keeps_sold i e f \<Longrightarrow> keeps_sold i d f"
  unfolding keeps_sold_def using same_sold_trans by blast

definition whole_batch :: "product_batch \<Rightarrow> bool" where
  "whole_batch b \<longleftrightarrow> batch_typed b \<and> 0 \<le> pb_quantityLeft b \<and> pb_quantityLeft b \<le> pb_quantityTotal b"

definition old_batch_of :: "product_batch \<Rightarrow> ident \<times> old_batch" where
  "old_batch_of b = (pb_productId b, \<lparr>ob_total = js_number (pb_quantityTotal b),
     ob_left = js_number (pb_quantityLeft b), ob_ids = [pb_id b]\<rparr>)"

lemma fold_add_old_batch:
  assumes "distinct (map pb_productId bs)" "fst ` set m \<inter> pb_productId ` set bs = {}"
  shows "foldl add_old_batch m bs = m @ map old_batch_of bs"
  using assms
proof (induction bs arbitrary: m)
  case (Cons b bs)
  have "map_of m (pb_productId b) = None" using Cons.prems(2) by (auto simp: map_of_eq_None_iff)
  then have "add_old_batch m b = m @ [old_batch_of b]" by (simp add: add_old_batch_def old_batch_of_def)
  moreover have "foldl add_old_batch (m @ [old_batch_of b]) bs = (m @ [old_batch_of b]) @ map old_batch_of bs"
    using Cons.prems by (intro Cons.IH) (auto simp: old_batch_of_def)
  ultimately show ?case by simp
qed simp

lemma fold_add_incoming:
  assumes "distinct (map rid_productId xs)" "fst ` set m \<inter> rid_productId ` set xs = {}"
  shows "foldl add_incoming m xs = m @ map (\<lambda>x. (rid_productId x, x)) xs"
  using assms
proof (induction xs arbitrary: m)
  case (Cons x xs)
  have "map_of m (rid_productId x) = None" using Cons.prems(2) by (auto simp: map_of_eq_None_iff)
  then have "add_incoming m x = m @ [(rid_productId x, x)]" by (simp add: add_incoming_def)
  moreover have "foldl add_incoming (m @ [(rid_productId x, x)]) xs =
      (m @ [(rid_productId x, x)]) @ map (\<lambda>x. (rid_productId x, x)) xs"
    using Cons.prems by (intro Cons.IH) auto
  ultimately show ?case by simp
qed simp

lemma whole_batch_grid:
  "whole_batch b \<Longrightarrow> on_grid 3 (pb_quantityTotal b) \<and> on_grid 3 (pb_quantityLeft b) \<and>
     \<bar>pb_quantityTotal b\<bar> < 10 ^ 7"
  unfolding whole_batch_def batch_typed_def batch_numbers_ok_def dec_fits_def by auto

text \<open>The sold quantity the handler computes, against the exact one.\<close>

lemma sold_near:
  assumes "whole_batch b"
  shows "\<bar>js_sub (js_number (pb_quantityTotal b)) (js_number (pb_quantityLeft b)) -
     (pb_quantityTotal b - pb_quantityLeft b)\<bar> \<le> 3 * js_eps"
proof -
  let ?t = "pb_quantityTotal b" and ?l = "pb_quantityLeft b"
  have b: "0 \<le> ?l" "?l \<le> ?t" "?t \<le> 10 ^ 7"
    using assms whole_batch_grid[OF assms] unfolding whole_batch_def by linarith+
  have e: "\<bar>fl ?t - ?t\<bar> \<le> js_eps" "\<bar>fl ?l - ?l\<bar> \<le> js_eps" using b by (auto intro!: fl_near)
  have eps: "0 < js_eps" "js_eps \<le> 1" by (simp_all add: js_eps_def)
  have "\<bar>fl ?t - fl ?l\<bar> \<le> 10 ^ 7 + 2" using e eps b by linarith
  then have "\<bar>fl (fl ?t - fl ?l) - (fl ?t - fl ?l)\<bar> \<le> js_eps" by (intro fl_near) simp
  with e show ?thesis unfolding js_sub_def js_number_def by linarith
qed

definition grid_quantity :: "receipt_item_data \<Rightarrow> bool" where
  "grid_quantity x \<longleftrightarrow> (\<exists>q. rid_quantity x = js_number q \<and> on_grid 3 q \<and> 0 \<le> q \<and> q < 10 ^ 7)"

text \<open>The new left quantity the handler computes is exact.\<close>

lemma new_left_exact:
  assumes "whole_batch b" "on_grid 3 q" "0 \<le> q" "q < 10 ^ 7"
    and "\<not> js_number q < js_sub (js_number (pb_quantityTotal b)) (js_number (pb_quantityLeft b))"
  shows "round_dec 3 (js_text (js_number q)) = q"
    and "round_dec 3 (js_text (js_sub (js_number q)
      (js_sub (js_number (pb_quantityTotal b)) (js_number (pb_quantityLeft b))))) =
      q - (pb_quantityTotal b - pb_quantityLeft b)"
    and "0 \<le> q - (pb_quantityTotal b - pb_quantityLeft b)"
proof -
  let ?s = "js_sub (js_number (pb_quantityTotal b)) (js_number (pb_quantityLeft b))"
  let ?S = "pb_quantityTotal b - pb_quantityLeft b"
  have b: "0 \<le> ?S" "?S \<le> 10 ^ 7" using assms(1) whole_batch_grid[OF assms(1)] by (auto simp: whole_batch_def)
  have gS: "on_grid 3 (q - ?S)" using whole_batch_grid[OF assms(1)] assms(2) by auto
  have q: "\<bar>js_number q - q\<bar> \<le> js_eps" unfolding js_number_def using assms(3,4) by (intro fl_near) simp
  note s = sold_near[OF assms(1)]
  have eps: "0 < js_eps" "js_eps \<le> 1 / 10 ^ 6" "js_eps \<le> 1" by (simp_all add: js_eps_def)
  show "round_dec 3 (js_text (js_number q)) = q" using assms(2-4) by (intro column_exact) auto
  have "- (4 / 10 ^ 6) \<le> q - ?S" using assms(5) q s eps by linarith
  then have "- (1 / 10 ^ 3) < q - ?S" by simp
  with gS show pos: "0 \<le> q - ?S" by (rule on_grid_nonneg)
  have "\<bar>(js_number q - ?s) - (q - ?S)\<bar> \<le> 4 * js_eps" using q s by linarith
  moreover have "\<bar>js_number q - ?s\<bar> \<le> 10 ^ 7 + 4" using calculation pos assms(4) b eps by linarith
  then have "\<bar>js_sub (js_number q) ?s - (js_number q - ?s)\<bar> \<le> js_eps"
    unfolding js_sub_def[of "js_number q"] by (intro fl_near) simp
  ultimately have "\<bar>js_sub (js_number q) ?s - (q - ?S)\<bar> \<le> 5 * js_eps" by linarith
  also have "\<dots> \<le> 4 / 10000" by (simp add: js_eps_def)
  finally show "round_dec 3 (js_text (js_sub (js_number q) ?s)) = q - ?S"
    using gS pos b assms(4) by (intro stored_near) auto
qed

text \<open>Nothing is sold of a batch that the handler may drop, and such a batch is the only one it skips.\<close>

lemma js_sub_zero:
  assumes "whole_batch b" "js_sub (js_number (pb_quantityTotal b)) (js_number (pb_quantityLeft b)) = 0"
  shows "pb_quantityTotal b = pb_quantityLeft b"
proof (rule on_grid_eq)
  have "3 * js_eps < 1 / 10 ^ 3" by (simp add: js_eps_def)
  then show "\<bar>pb_quantityTotal b - pb_quantityLeft b\<bar> < 1 / 10 ^ 3"
    using sold_near[OF assms(1)] assms(2) by linarith
qed (use whole_batch_grid[OF assms(1)] in auto)

text \<open>One product of the loop: its batch is deleted, left alone, or set to the new total less what is sold.\<close>

definition requantified :: "decimal \<Rightarrow> decimal \<Rightarrow> timestamp \<Rightarrow> product_batch \<Rightarrow> product_batch \<Rightarrow> product_batch" where
  "requantified q price now b b' = b'\<lparr>pb_quantityTotal := q, pb_quantityLeft := q - (pb_quantityTotal b - pb_quantityLeft b),
     pb_enterPrice := price, pb_updatedAt := now\<rparr>"

lemma requantified_fields [simp]:
  "pb_id (requantified q p t b b') = pb_id b'" "pb_productId (requantified q p t b b') = pb_productId b'"
  "pb_goodsReceiptId (requantified q p t b b') = pb_goodsReceiptId b'" "pb_quantityTotal (requantified q p t b b') = q"
  "pb_quantityLeft (requantified q p t b b') = q - (pb_quantityTotal b - pb_quantityLeft b)"
  "pb_enterPrice (requantified q p t b b') = p"
  by (simp_all add: requantified_def)

lemma js_sub_not_neg:
  assumes "whole_batch b"
  shows "\<not> js_sub (js_number (pb_quantityTotal b)) (js_number (pb_quantityLeft b)) < 0"
proof
  let ?S = "pb_quantityTotal b - pb_quantityLeft b"
  assume neg: "js_sub (js_number (pb_quantityTotal b)) (js_number (pb_quantityLeft b)) < 0"
  have "3 * js_eps < 1 / 10 ^ 3" by (simp add: js_eps_def)
  moreover have "0 \<le> ?S" using assms by (simp add: whole_batch_def)
  ultimately have "\<bar>?S\<bar> < 1 / 10 ^ 3" using sold_near[OF assms] neg by linarith
  with whole_batch_grid[OF assms] have "pb_quantityTotal b = pb_quantityLeft b" by (intro on_grid_eq) auto
  with neg show False by (simp add: js_sub_def)
qed

lemma js_number_nonneg: "0 \<le> q \<Longrightarrow> 0 \<le> js_number q"
  by (simp add: js_number_def fl_nonneg)

lemma reconcile_product_cases:
  assumes run: "reconcile_product i inc (old_batch_of b) d = Inr e" and b: "whole_batch b"
    and inc: "\<forall>x \<in> snd ` set inc. grid_quantity x"
  obtains (del) "e = del_ProductBatch (\<lambda>b'. pb_goodsReceiptId b' = Some i \<and> pb_productId b' = pb_productId b) d"
        "pb_quantityLeft b = pb_quantityTotal b"
    | (upd) q p x where "on_grid 3 q" "on_grid 2 p" "0 \<le> q - (pb_quantityTotal b - pb_quantityLeft b)"
        "e = d\<lparr>ProductBatch := map_where (\<lambda>b'. pb_id b' = pb_id b) (requantified q p (clock d) b) (ProductBatch d)\<rparr>"
        "\<forall>b' \<in> set (ProductBatch d). pb_id b' = pb_id b \<longrightarrow>
           (\<forall>c \<in> set (batch_numbers_ok (requantified q p (clock d) b b')). fst c)"
        "map_of inc (pb_productId b) = Some x" "rid_quantity x = js_number q"
proof -
  let ?sold = "js_sub (js_number (pb_quantityTotal b)) (js_number (pb_quantityLeft b))"
  let ?item = "map_of inc (pb_productId b)"
  note run = run[unfolded reconcile_product_def old_batch_of_def, simplified, unfolded Let_def]
  have item: "0 \<le> rid_quantity x" if "?item = Some x" for x
    using map_of_SomeD[OF that] inc js_number_nonneg by (force simp: grid_quantity_def)
  consider (d) "e = del_ProductBatch (\<lambda>b'. pb_goodsReceiptId b' = Some i \<and> pb_productId b' = pb_productId b) d" "?sold = 0"
    | (u) x where "?item = Some x" "\<not> rid_quantity x < ?sold"
      "upd_ProductBatch (\<lambda>b'. pb_id b' = pb_id b)
         (\<lambda>b'. b'\<lparr>pb_quantityTotal := round_dec 3 (js_text (rid_quantity x)),
            pb_quantityLeft := round_dec 3 (js_text (js_sub (rid_quantity x) ?sold)),
            pb_enterPrice := round_dec 2 (js_text (rid_price x)), pb_updatedAt := clock d\<rparr>) d = Inr e"
    using run js_sub_not_neg[OF b] item by (fastforce split: if_splits option.splits)
  then show thesis
  proof cases
    case d
    with js_sub_zero[OF b] show thesis by (intro del) auto
  next
    case (u x)
    then have "grid_quantity x" using inc map_of_SomeD[OF u(1)] by force
    then obtain q where q: "rid_quantity x = js_number q" "on_grid 3 q" "0 \<le> q" "q < 10 ^ 7"
      by (auto simp: grid_quantity_def)
    note ex = new_left_exact[OF b q(2-4) u(2)[unfolded q(1)]]
    show thesis
      using u(3) unfolding q(1) ex(1,2)
      by (intro upd[of q "round_dec 2 (js_text (rid_price x))" x])
        (use q(1,2) ex(3) u(1) in \<open>auto simp: upd_ProductBatch_def update_table_Inr_iff requantified_def[abs_def]\<close>)
  qed
qed

lemma reconcile_product_keeps:
  assumes run: "reconcile_product i inc (old_batch_of b) d = Inr e"
    and b: "b \<in> set (ProductBatch d)" "pb_goodsReceiptId b = Some i" "whole_batch b"
    and ids: "distinct (map pb_id (ProductBatch d))"
    and inc: "\<forall>x \<in> snd ` set inc. grid_quantity x"
  shows "keeps_sold i d e \<and> distinct (map pb_id (ProductBatch e)) \<and> next_uuid e = next_uuid d \<and>
    (\<forall>c \<in> set (ProductBatch d). pb_productId c \<noteq> pb_productId b \<longrightarrow> c \<in> set (ProductBatch e))"
proof -
  have uniq: "c = b" if "c \<in> set (ProductBatch d)" "pb_id c = pb_id b" for c
    using ids b(1) that by (auto simp: distinct_map dest: inj_onD)
  show ?thesis
    using run b(3) inc
  proof (cases rule: reconcile_product_cases)
    case del
    have "distinct (map pb_id (ProductBatch e))"
      using ids by (simp add: del del_ProductBatch_def Let_def distinct_map inj_on_def)
    then show ?thesis
      by (auto simp: keeps_sold_def del(1) del_ProductBatch_def Let_def intro: same_sold_refl)
  next
    case (upd q p x)
    let ?f = "requantified q p (clock d) b"
    have e: "ProductBatch e = map_where (\<lambda>b'. pb_id b' = pb_id b) ?f (ProductBatch d)" by (simp add: upd(4))
    have "same_sold i c (if pb_id c = pb_id b then ?f c else c)" if "c \<in> set (ProductBatch d)" for c
      using uniq[OF that] b(2) upd(3) by (auto simp: same_sold_def)
    then have "keeps_sold i d e" by (force simp: keeps_sold_def e set_map_where)
    moreover have "distinct (map pb_id (ProductBatch e))"
      unfolding e by (subst map_map_where) (simp_all add: ids)
    moreover have "c \<in> set (ProductBatch e)"
      if "c \<in> set (ProductBatch d)" "pb_productId c \<noteq> pb_productId b" for c
      using that uniq[OF that(1)] by (auto simp: e set_map_where intro!: rev_image_eqI)
    ultimately show ?thesis by (simp add: upd(4))
  qed
qed

lemma distinct_map_tail: "distinct (map f (x # xs)) \<Longrightarrow> y \<in> set xs \<Longrightarrow> f y \<noteq> f x"
  by (metis distinct.simps(2) image_eqI list.set_map list.simps(9))

lemma reconcile_loop_keeps:
  assumes "for_each (reconcile_product i inc) (map old_batch_of bs) d = Inr e"
    and "\<forall>b \<in> set bs. b \<in> set (ProductBatch d) \<and> pb_goodsReceiptId b = Some i \<and> whole_batch b"
    and "distinct (map pb_productId bs)" "distinct (map pb_id (ProductBatch d))"
    and "\<forall>x \<in> snd ` set inc. grid_quantity x"
  shows "keeps_sold i d e"
  using assms(1-4)
proof (induction bs arbitrary: d)
  case (Cons b bs)
  from Cons.prems(1) obtain c where c: "reconcile_product i inc (old_batch_of b) d = Inr c"
    "for_each (reconcile_product i inc) (map old_batch_of bs) c = Inr e" by auto
  from Cons.prems(2) have b: "b \<in> set (ProductBatch d)" "pb_goodsReceiptId b = Some i" "whole_batch b" by auto
  note s = reconcile_product_keeps[OF c(1) b Cons.prems(4) assms(5)]
  have "\<forall>b' \<in> set bs. b' \<in> set (ProductBatch c) \<and> pb_goodsReceiptId b' = Some i \<and> whole_batch b'"
  proof
    fix b' assume b': "b' \<in> set bs"
    then have "pb_productId b' \<noteq> pb_productId b" using Cons.prems(3) by (rule distinct_map_tail[rotated])
    then show "b' \<in> set (ProductBatch c) \<and> pb_goodsReceiptId b' = Some i \<and> whole_batch b'"
      using s Cons.prems(2) b' by simp
  qed
  then have "keeps_sold i c e" using Cons.IH[OF c(2)] Cons.prems(3) s by simp
  then show ?case using s keeps_sold_trans by blast
qed simp

text \<open>
  Nothing sold is dropped: a batch goes only when it is a full one of the receipt. What the receipt keeps is one
  batch for each of its new items, in the new quantity.
\<close>

definition still_sold :: "ident \<Rightarrow> db \<Rightarrow> db \<Rightarrow> bool" where
  "still_sold i d d' \<longleftrightarrow> (\<forall>b \<in> set (ProductBatch d). (\<exists>b' \<in> set (ProductBatch d'). same_sold i b b') \<or>
     pb_goodsReceiptId b = Some i \<and> pb_quantityLeft b = pb_quantityTotal b)"

definition one_each :: "ident \<Rightarrow> db \<Rightarrow> bool" where
  "one_each i d \<longleftrightarrow> (\<forall>b \<in> set (ProductBatch d). \<forall>c \<in> set (ProductBatch d). pb_goodsReceiptId b = Some i \<and>
     pb_goodsReceiptId c = Some i \<and> pb_productId b = pb_productId c \<longrightarrow> pb_id b = pb_id c)"

definition listed_batch :: "(ident \<times> receipt_item_data) list \<Rightarrow> product_batch \<Rightarrow> bool" where
  "listed_batch inc b \<longleftrightarrow> (\<exists>x. map_of inc (pb_productId b) = Some x \<and> rid_quantity x = js_number (pb_quantityTotal b))"

lemma still_sold_trans: "still_sold i d e \<Longrightarrow> still_sold i e f \<Longrightarrow> still_sold i d f"
proof -
  assume de: "still_sold i d e" and ef: "still_sold i e f"
  have full: "pb_goodsReceiptId b = Some i \<and> pb_quantityLeft b = pb_quantityTotal b"
    if "same_sold i b c" "pb_goodsReceiptId c = Some i \<and> pb_quantityLeft c = pb_quantityTotal c" for b c
    using that by (simp add: same_sold_def)
  show "still_sold i d f" unfolding still_sold_def
  proof
    fix b assume "b \<in> set (ProductBatch d)"
    with de consider (kept) c where "c \<in> set (ProductBatch e)" "same_sold i b c"
      | (full) "pb_goodsReceiptId b = Some i \<and> pb_quantityLeft b = pb_quantityTotal b"
      by (auto simp: still_sold_def)
    then show "(\<exists>b' \<in> set (ProductBatch f). same_sold i b b') \<or>
        pb_goodsReceiptId b = Some i \<and> pb_quantityLeft b = pb_quantityTotal b"
    proof cases
      case kept
      with ef full[OF kept(2)] show ?thesis by (auto simp: still_sold_def dest: same_sold_trans)
    qed simp
  qed
qed

lemma one_eachD:
  "one_each i d \<Longrightarrow> b \<in> set (ProductBatch d) \<Longrightarrow> c \<in> set (ProductBatch d) \<Longrightarrow> pb_goodsReceiptId b = Some i \<Longrightarrow>
   pb_goodsReceiptId c = Some i \<Longrightarrow> pb_productId b = pb_productId c \<Longrightarrow> pb_id b = pb_id c"
  unfolding one_each_def by blast

lemma one_each_kept:
  assumes kept: "keeps_sold i d e" and one: "one_each i d"
  shows "one_each i e"
  unfolding one_each_def
proof (intro ballI impI)
  fix b' c' assume in': "b' \<in> set (ProductBatch e)" "c' \<in> set (ProductBatch e)"
    and eq: "pb_goodsReceiptId b' = Some i \<and> pb_goodsReceiptId c' = Some i \<and> pb_productId b' = pb_productId c'"
  obtain b c where bc: "b \<in> set (ProductBatch d)" "same_sold i b b'" "c \<in> set (ProductBatch d)" "same_sold i c c'"
    using kept in' unfolding keeps_sold_def by blast
  have "pb_id b = pb_id c"
    by (rule one_eachD[OF one bc(1,3)]) (use bc(2,4) eq in \<open>simp_all add: same_sold_def\<close>)
  then show "pb_id b' = pb_id c'" using bc(2,4) by (simp add: same_sold_def)
qed

lemma reconcile_product_lists:
  assumes run: "reconcile_product i inc (old_batch_of b) d = Inr e"
    and b: "b \<in> set (ProductBatch d)" "pb_goodsReceiptId b = Some i" "whole_batch b"
    and ids: "distinct (map pb_id (ProductBatch d))" and one: "one_each i d"
    and inc: "\<forall>x \<in> snd ` set inc. grid_quantity x"
  shows "still_sold i d e"
    and "c \<in> set (ProductBatch e) \<Longrightarrow> pb_goodsReceiptId c = Some i \<Longrightarrow>
      listed_batch inc c \<or> c \<in> set (ProductBatch d) \<and> pb_productId c \<noteq> pb_productId b"
proof -
  have uniq: "c = b" if "c \<in> set (ProductBatch d)" "pb_id c = pb_id b" for c
    using ids b(1) that by (auto simp: distinct_map dest: inj_onD)
  have only: "pb_id c = pb_id b" if "c \<in> set (ProductBatch d)" "pb_goodsReceiptId c = Some i" "pb_productId c = pb_productId b" for c
    by (rule one_eachD[OF one that(1) b(1) that(2) b(2) that(3)])
  have "still_sold i d e \<and> (c \<in> set (ProductBatch e) \<and> pb_goodsReceiptId c = Some i \<longrightarrow>
      listed_batch inc c \<or> c \<in> set (ProductBatch d) \<and> pb_productId c \<noteq> pb_productId b)"
    using run b(3) inc
  proof (cases rule: reconcile_product_cases)
    case del
    have "c = b" if "c \<in> set (ProductBatch d)" "pb_goodsReceiptId c = Some i" "pb_productId c = pb_productId b" for c
      using uniq only that by blast
    then show ?thesis
      using del(2) by (auto simp: still_sold_def del(1) del_ProductBatch_def Let_def intro: same_sold_refl)
  next
    case (upd q p x)
    let ?f = "requantified q p (clock d) b"
    have e: "ProductBatch e = map_where (\<lambda>b'. pb_id b' = pb_id b) ?f (ProductBatch d)" by (simp add: upd(4))
    have "same_sold i c (if pb_id c = pb_id b then ?f c else c)" if "c \<in> set (ProductBatch d)" for c
      using uniq[OF that] b(2) upd(3) by (auto simp: same_sold_def)
    then have "still_sold i d e" by (force simp: still_sold_def e set_map_where)
    moreover have "listed_batch inc (?f b)" using upd(6,7) by (simp add: listed_batch_def)
    ultimately show ?thesis using uniq only by (auto simp: e set_map_where)
  qed
  then show "still_sold i d e"
    and "c \<in> set (ProductBatch e) \<Longrightarrow> pb_goodsReceiptId c = Some i \<Longrightarrow>
      listed_batch inc c \<or> c \<in> set (ProductBatch d) \<and> pb_productId c \<noteq> pb_productId b" by blast+
qed

lemma reconcile_loop_lists:
  assumes "for_each (reconcile_product i inc) (map old_batch_of bs) d = Inr e"
    and "\<forall>b \<in> set bs. b \<in> set (ProductBatch d) \<and> pb_goodsReceiptId b = Some i \<and> whole_batch b"
    and "distinct (map pb_productId bs)" "distinct (map pb_id (ProductBatch d))" "one_each i d"
    and "\<forall>c \<in> set (ProductBatch d). pb_goodsReceiptId c = Some i \<longrightarrow> listed_batch inc c \<or> pb_productId c \<in> pb_productId ` set bs"
    and "\<forall>x \<in> snd ` set inc. grid_quantity x"
  shows "still_sold i d e \<and> next_uuid e = next_uuid d \<and>
    (\<forall>c \<in> set (ProductBatch e). pb_goodsReceiptId c = Some i \<longrightarrow> listed_batch inc c)"
  using assms(1-6)
proof (induction bs arbitrary: d)
  case (Cons b bs)
  from Cons.prems(1) obtain m where m: "reconcile_product i inc (old_batch_of b) d = Inr m"
    "for_each (reconcile_product i inc) (map old_batch_of bs) m = Inr e" by auto
  from Cons.prems(2) have b: "b \<in> set (ProductBatch d)" "pb_goodsReceiptId b = Some i" "whole_batch b" by auto
  note s = reconcile_product_keeps[OF m(1) b Cons.prems(4) assms(7)]
  note l = reconcile_product_lists[OF m(1) b Cons.prems(4,5) assms(7)]
  have rest: "\<forall>b' \<in> set bs. b' \<in> set (ProductBatch m) \<and> pb_goodsReceiptId b' = Some i \<and> whole_batch b'"
  proof
    fix b' assume b': "b' \<in> set bs"
    then have "pb_productId b' \<noteq> pb_productId b" using Cons.prems(3) by (rule distinct_map_tail[rotated])
    then show "b' \<in> set (ProductBatch m) \<and> pb_goodsReceiptId b' = Some i \<and> whole_batch b'"
      using s Cons.prems(2) b' by simp
  qed
  have "\<forall>c \<in> set (ProductBatch m). pb_goodsReceiptId c = Some i \<longrightarrow> listed_batch inc c \<or> pb_productId c \<in> pb_productId ` set bs"
    using l(2) Cons.prems(6) by fastforce
  with Cons.IH[OF m(2) rest] Cons.prems(3) s one_each_kept[of i d m] Cons.prems(5)
  have "still_sold i m e \<and> next_uuid e = next_uuid m \<and>
      (\<forall>c \<in> set (ProductBatch e). pb_goodsReceiptId c = Some i \<longrightarrow> listed_batch inc c)" by simp
  with l(1) s still_sold_trans show ?case by metis
qed (auto simp: still_sold_def intro: same_sold_refl)

lemma addStock_appends:
  assumes "addStock p q c r t b d = Inr (row, e)"
  shows "ProductBatch e = ProductBatch d @ [row] \<and> pb_goodsReceiptId row = r \<and>
    pb_quantityLeft row = pb_quantityTotal row \<and> pb_buyerReturnId row = b \<and> pb_id row = next_uuid d \<and>
    pb_productId row = p \<and> pb_quantityTotal row = round_dec 3 (js_text q) \<and>
    e = d\<lparr>ProductBatch := ProductBatch e, next_uuid := Suc (next_uuid d)\<rparr>"
  using assms by (auto simp: addStock_def ins_ProductBatch_def Let_def)

lemma grid_quantity_stored: "grid_quantity x \<Longrightarrow> rid_quantity x = js_number (round_dec 3 (js_text (rid_quantity x)))"
  by (auto simp: grid_quantity_def column_exact)

lemma add_new_products:
  assumes "for_each (add_new_product i t old) xs d = Inr e"
    and "\<forall>x \<in> set xs. grid_quantity (snd x)" "distinct (map fst xs)"
  shows "\<exists>new. ProductBatch e = ProductBatch d @ new \<and> next_uuid d \<le> next_uuid e \<and>
    (\<forall>b \<in> set new. pb_goodsReceiptId b = Some i \<and> pb_quantityLeft b = pb_quantityTotal b \<and>
       next_uuid d \<le> pb_id b \<and> listed_batch xs b)"
proof (rule for_each_invariant[OF assms(1), where P = "\<lambda>e. \<exists>new. ProductBatch e = ProductBatch d @ new \<and> next_uuid d \<le> next_uuid e \<and>
    (\<forall>b \<in> set new. pb_goodsReceiptId b = Some i \<and> pb_quantityLeft b = pb_quantityTotal b \<and>
       next_uuid d \<le> pb_id b \<and> listed_batch xs b)"])
  fix x e e' assume x: "x \<in> set xs" and run: "add_new_product i t old x e = Inr e'"
    and "\<exists>new. ProductBatch e = ProductBatch d @ new \<and> next_uuid d \<le> next_uuid e \<and>
      (\<forall>b \<in> set new. pb_goodsReceiptId b = Some i \<and> pb_quantityLeft b = pb_quantityTotal b \<and>
         next_uuid d \<le> pb_id b \<and> listed_batch xs b)"
  then obtain new where new: "ProductBatch e = ProductBatch d @ new" "next_uuid d \<le> next_uuid e"
    "\<forall>b \<in> set new. pb_goodsReceiptId b = Some i \<and> pb_quantityLeft b = pb_quantityTotal b \<and>
       next_uuid d \<le> pb_id b \<and> listed_batch xs b" by blast
  have item: "map_of xs (fst x) = Some (snd x)" "rid_quantity (snd x) = js_number (round_dec 3 (js_text (rid_quantity (snd x))))"
    using x assms(2,3) grid_quantity_stored by (auto simp: map_of_eq_Some_iff)
  show "\<exists>new. ProductBatch e' = ProductBatch d @ new \<and> next_uuid d \<le> next_uuid e' \<and>
      (\<forall>b \<in> set new. pb_goodsReceiptId b = Some i \<and> pb_quantityLeft b = pb_quantityTotal b \<and>
         next_uuid d \<le> pb_id b \<and> listed_batch xs b)"
  proof (cases "map_of old (fst x) = None")
    case True
    with run obtain row where "addStock (fst x) (rid_quantity (snd x)) (rid_price (snd x)) (Some i) (Some t) None e = Inr (row, e')"
      by (auto simp: add_new_product_def split: prod.splits)
    note row = addStock_appends[OF this]
    then have "next_uuid e' = Suc (next_uuid e)" by (metis db.select_convs db.surjective db.update_convs)
    with row new item show ?thesis by (intro exI[of _ "new @ [row]"]) (simp add: listed_batch_def)
  qed (use run new in \<open>auto simp: add_new_product_def split: prod.splits if_splits\<close>)
qed simp

lemma insert_receipt_items_frame:
  "insert_receipt_items i xs d = Inr e \<Longrightarrow> ProductBatch e = ProductBatch d"
  unfolding insert_receipt_items_def
  by (erule for_each_frame) (auto simp: insert_receipt_item_def ins_GoodsReceiptItem_def)

lemma upd_GoodsReceipt_frame:
  "upd_GoodsReceipt P f d = Inr e \<Longrightarrow> ProductBatch e = ProductBatch d \<and> next_uuid e = next_uuid d"
  by (auto simp: upd_GoodsReceipt_def)

lemma one_each_receipt:
  assumes "distinct (map pb_productId (filter (\<lambda>b. pb_goodsReceiptId b = Some i) (ProductBatch d)))"
  shows "one_each i d"
  using assms by (auto simp: one_each_def distinct_map dest!: inj_onD)

lemma receipt_update_posted:
  assumes run: "receipt_update_body i data d = Inr (r, e)"
    and doc: "find_row gr_id i (GoodsReceipt d) = Some doc" "gr_status doc = POSTED"
    and whole: "\<forall>b \<in> set (ProductBatch d). pb_goodsReceiptId b = Some i \<longrightarrow> whole_batch b"
    and ids: "distinct (map pb_id (ProductBatch d))" "\<forall>b \<in> set (ProductBatch d). pb_id b < next_uuid d"
    and single: "distinct (map pb_productId (filter (\<lambda>b. pb_goodsReceiptId b = Some i) (ProductBatch d)))"
    and items: "distinct (map rid_productId (rd_items data))" "\<forall>x \<in> set (rd_items data). grid_quantity x"
  shows "still_sold i d e \<and>
    (\<forall>b' \<in> set (ProductBatch e). (\<exists>b \<in> set (ProductBatch d). same_sold i b b') \<or>
       pb_goodsReceiptId b' = Some i \<and> pb_quantityLeft b' = pb_quantityTotal b' \<and> pb_id b' \<notin> pb_id ` set (ProductBatch d)) \<and>
    (\<forall>b' \<in> set (ProductBatch e). pb_goodsReceiptId b' = Some i \<longrightarrow>
       (\<exists>x \<in> set (rd_items data). rid_productId x = pb_productId b' \<and> rid_quantity x = js_number (pb_quantityTotal b')))"
proof -
  let ?old = "filter (\<lambda>b. pb_goodsReceiptId b = Some i) (ProductBatch d)"
  let ?inc = "incoming_items (rd_items data)"
  have inc: "?inc = map (\<lambda>x. (rid_productId x, x)) (rd_items data)"
    using fold_add_incoming[OF items(1), of "[]"] by (simp add: incoming_items_def)
  have grid: "\<forall>x \<in> snd ` set ?inc. grid_quantity x" "\<forall>x \<in> set ?inc. grid_quantity (snd x)" "distinct (map fst ?inc)"
    using items by (auto simp: inc comp_def)
  have old: "old_batches i d1 = map old_batch_of ?old" if "ProductBatch d1 = ProductBatch d" for d1
    using fold_add_old_batch[OF single, of "[]"] that by (simp add: old_batches_def)
  from run doc obtain f d1 d2 d3 where s:
    "ProductBatch d1 = ProductBatch d" "next_uuid d1 = next_uuid d"
    "for_each (reconcile_product i ?inc) (old_batches i d1) d1 = Inr d2"
    "for_each (add_new_product i f (old_batches i d1)) ?inc d2 = Inr d3"
    "insert_receipt_items i (rd_items data) (del_GoodsReceiptItems i d3) = Inr e"
    by (auto simp: receipt_update_body_def Let_def dest!: upd_GoodsReceipt_frame)
  note loop = s(3)[unfolded old[OF s(1)]]
  have one: "one_each i d1" using one_each_receipt[OF single] by (simp only: one_each_def s(1))
  have "keeps_sold i d1 d2" by (rule reconcile_loop_keeps[OF loop]) (use whole ids single s(1) grid in auto)
  moreover have lists: "still_sold i d1 d2 \<and> next_uuid d2 = next_uuid d1 \<and>
      (\<forall>c \<in> set (ProductBatch d2). pb_goodsReceiptId c = Some i \<longrightarrow> listed_batch ?inc c)"
    by (rule reconcile_loop_lists[OF loop]) (use whole ids single s(1) grid one in auto)
  moreover obtain new where "ProductBatch d3 = ProductBatch d2 @ new"
    "\<forall>b \<in> set new. pb_goodsReceiptId b = Some i \<and> pb_quantityLeft b = pb_quantityTotal b \<and> next_uuid d2 \<le> pb_id b \<and> listed_batch ?inc b"
    using add_new_products[OF s(4) grid(2,3)] by blast
  moreover have "ProductBatch e = ProductBatch d3"
    using insert_receipt_items_frame[OF s(5)] by (simp add: del_GoodsReceiptItems_def)
  moreover have "\<exists>x \<in> set (rd_items data). rid_productId x = pb_productId b \<and> rid_quantity x = js_number (pb_quantityTotal b)"
    if "listed_batch ?inc b" for b
  proof -
    from that obtain x where x: "map_of ?inc (pb_productId b) = Some x" "rid_quantity x = js_number (pb_quantityTotal b)"
      by (auto simp: listed_batch_def)
    from map_of_SomeD[OF x(1)] have "x \<in> set (rd_items data)" "rid_productId x = pb_productId b" by (auto simp: inc)
    with x(2) show ?thesis by blast
  qed
  moreover have "pb_id b \<notin> pb_id ` set (ProductBatch d)" if "next_uuid d \<le> pb_id b" for b using ids(2) that by fastforce
  ultimately have e: "ProductBatch e = ProductBatch d2 @ new" "keeps_sold i d d2" "still_sold i d d2"
    and all: "\<forall>b \<in> set (ProductBatch e). pb_goodsReceiptId b = Some i \<longrightarrow>
      (\<exists>x \<in> set (rd_items data). rid_productId x = pb_productId b \<and> rid_quantity x = js_number (pb_quantityTotal b))"
    and added: "\<forall>b \<in> set new. pb_goodsReceiptId b = Some i \<and> pb_quantityLeft b = pb_quantityTotal b \<and>
      pb_id b \<notin> pb_id ` set (ProductBatch d)"
    by (simp_all add: keeps_sold_def still_sold_def s(1,2) ball_Un) blast
  have "still_sold i d e" using e(1,3) by (auto simp: still_sold_def)
  moreover have "(\<exists>b \<in> set (ProductBatch d). same_sold i b b') \<or>
       pb_goodsReceiptId b' = Some i \<and> pb_quantityLeft b' = pb_quantityTotal b' \<and> pb_id b' \<notin> pb_id ` set (ProductBatch d)"
    if "b' \<in> set (ProductBatch e)" for b'
    using that e(2) added unfolding e(1) keeps_sold_def by auto
  ultimately show ?thesis using all by blast
qed

section \<open>What the receipts promise\<close>

text \<open>
  Posting a receipt adds, for each of its items in order, one batch with the item's quantity and
  price, dated as the receipt; every product's stock grows by the sum of its items; the receipt is
  POSTED and no other table changes.
\<close>

theorem receipt_post_adds_stock:
  assumes "find_row gr_id i (GoodsReceipt d) = Some doc" and "gr_status doc \<noteq> POSTED"
    and "receipts_ok d" and "receipt_items_typed i d"
  shows "\<exists>d'. receipt_post_tx i d = Inr ((i, POSTED), d') \<and>
    d' = d\<lparr>ProductBatch := ProductBatch d @
             receipt_batches i (gr_date doc) (clock d) (next_uuid d) (receipt_items i d),
           next_uuid := next_uuid d + length (receipt_items i d),
           GoodsReceipt := map_where (\<lambda>r. gr_id r = i)
             (\<lambda>r. r\<lparr>gr_status := POSTED, gr_updatedAt := clock d\<rparr>) (GoodsReceipt d)\<rparr> \<and>
    (\<forall>p. sum_list (map pb_quantityTotal (filter (\<lambda>b. pb_productId b = p) (ProductBatch d'))) =
         sum_list (map pb_quantityTotal (filter (\<lambda>b. pb_productId b = p) (ProductBatch d))) +
         sum_list (map gri_quantity (filter (\<lambda>r. gri_productId r = p) (receipt_items i d))))"
  using receipt_post_tx_ok[OF assms] by (simp add: receipt_posted_def receipt_batches_total)

text \<open>A saved receipt of two items of one product, and a batch of another receipt.\<close>

definition draft_receipt_db :: db where
  "draft_receipt_db = (two_batches 5 3)\<lparr>
     Warehouse := [named_warehouse 7 ''Main''],
     GoodsReceipt := GoodsReceipt (two_batches 5 3) @
       [\<lparr>gr_id = 4, gr_number = ''R2'', gr_docNumber = None, gr_date = 30, gr_warehouseId = Some 7, gr_providerId = None,
         gr_status = SAVED, gr_comment = None, gr_createdBy = None, gr_paidAmount = 0,
         gr_isDeleted = False, gr_createdAt = 30, gr_updatedAt = 30\<rparr>],
     GoodsReceiptItem :=
       [\<lparr>gri_id = 1, gri_goodsReceiptId = 4, gri_productId = 5, gri_quantity = 5 / 2, gri_price = 4,
         gri_total = 10, gri_sortOrder = 1, gri_createdAt = 30\<rparr>,
        \<lparr>gri_id = 2, gri_goodsReceiptId = 4, gri_productId = 5, gri_quantity = 2, gri_price = 3,
         gri_total = 6, gri_sortOrder = 0, gri_createdAt = 30\<rparr>]\<rparr>"

lemma draft_receipt_facts:
  "find_row gr_id 4 (GoodsReceipt draft_receipt_db) = Some (GoodsReceipt draft_receipt_db ! 1)"
  "gr_status (GoodsReceipt draft_receipt_db ! 1) \<noteq> POSTED"
  "receipts_ok draft_receipt_db" "receipt_items_typed 4 draft_receipt_db"
  "links_below_supply draft_receipt_db"
  "\<forall>b \<in> set (ProductBatch draft_receipt_db). pb_goodsReceiptId b \<noteq> Some 4"
  by code_simp+

theorem receipt_post_adds_stock_witness:
  "\<exists>d'. receipt_post_tx 4 draft_receipt_db = Inr ((4, POSTED), d') \<and>
     length (ProductBatch d') = 4"
proof -
  have "length (receipt_items 4 draft_receipt_db) = 2" "length (ProductBatch draft_receipt_db) = 2"
    by code_simp+
  moreover have "length (receipt_batches i date now n rs) = length rs" for i date now n rs
    by (induction rs arbitrary: n) auto
  ultimately show ?thesis using receipt_post_adds_stock[OF draft_receipt_facts(1-4)] by auto
qed

text \<open>
  C3: unposting undoes posting. From any state in which the saved receipt has no batches, post followed
  by unpost succeeds and leaves every table as it was, but for the receipt's own status and time stamp
  and the ids drawn for the batches.
\<close>

theorem receipt_post_unpost:
  assumes "find_row gr_id i (GoodsReceipt d) = Some doc" and "gr_status doc \<noteq> POSTED"
    and "receipts_ok d" and "receipt_items_typed i d" and "links_below_supply d"
    and "\<forall>b \<in> set (ProductBatch d). pb_goodsReceiptId b \<noteq> Some i"
  shows "\<exists>d'. receipt_post_tx i d = Inr ((i, POSTED), d') \<and>
    receipt_unpost_tx i d' = Inr ((i, SAVED),
      d\<lparr>next_uuid := next_uuid d + length (receipt_items i d),
        GoodsReceipt := map_where (\<lambda>r. gr_id r = i)
          (\<lambda>r. r\<lparr>gr_status := SAVED, gr_updatedAt := clock d\<rparr>) (GoodsReceipt d)\<rparr>)"
  using receipt_post_tx_ok[OF assms(1-4)] receipt_unpost_after_post[OF assms(1,3,5,6)] by blast

theorem receipt_post_unpost_witness:
  "\<exists>d' e. receipt_post_tx 4 draft_receipt_db = Inr ((4, POSTED), d') \<and>
     receipt_unpost_tx 4 d' = Inr ((4, SAVED), e) \<and> ProductBatch e = ProductBatch draft_receipt_db"
  using receipt_post_unpost[OF draft_receipt_facts] by auto

text \<open>
  C12: sold goods pin their receipt. Once \<open>deductStock\<close> has taken anything from a batch of a posted
  receipt, unposting the receipt is refused and changes nothing.
\<close>

theorem receipt_unpost_refused_after_sale:
  assumes "deduct_ready d p w n" and "deductStock p (js_number n) w d = Inr (ds, d')"
    and "b \<in> set (ProductBatch d)" and "pb_goodsReceiptId b = Some i"
    and "pb_quantityLeft b \<le> pb_quantityTotal b" and "0 < moved (pb_id b) (stored ds)"
    and "find_row gr_id i (GoodsReceipt d) = Some doc" and "gr_status doc = POSTED"
  shows "receipt_unpost i d' = (Inl GoodsAlreadySold, d')"
proof -
  note s = deductStock_shifted[OF assms(1,2)]
  from s(1) assms(3) obtain b' where b': "b' \<in> set (ProductBatch d')"
    "shift_batch (- moved (pb_id b) (stored ds)) b b'" by (rule shifted_memI)
  then have "b' \<in> set (filter (\<lambda>b. pb_goodsReceiptId b = Some i \<and> pb_quantityLeft b < pb_quantityTotal b)
      (ProductBatch d'))" using assms(4-6) shift_batch_left[OF b'(2)] by simp
  then have "filter (\<lambda>b. pb_goodsReceiptId b = Some i \<and> pb_quantityLeft b < pb_quantityTotal b)
      (ProductBatch d') \<noteq> []" by force
  moreover have "GoodsReceipt d' = GoodsReceipt d" by (subst s(2)) simp
  ultimately have "receipt_unpost_tx i d' = Inl GoodsAlreadySold"
    using assms(7,8) by (simp add: receipt_unpost_tx_def)
  then show ?thesis by (simp add: receipt_unpost_def transaction_def answer_def)
qed

theorem receipt_unpost_refused_after_sale_witness:
  "\<exists>ds d'. deductStock 5 (js_number 6) (Some 7) (two_batches 5 3) = Inr (ds, d') \<and>
     receipt_unpost 1 d' = (Inl GoodsAlreadySold, d')"
proof -
  let ?d = "two_batches 5 3" and ?bs = "available_batches (two_batches 5 3) 5 (Some 7)"
  have bs: "length ?bs = 2" "fifo_plan ?d 5 (Some 7) 6 ! 0 = 5" "6 < stock_of ?d 5 (Some 7)"
    "?bs ! 0 = ProductBatch ?d ! 1" by code_simp+
  from deductStock_enough[OF two_batches_ready_6 bs(3)]
  obtain ds d' where run: "deductStock 5 (js_number 6) (Some 7) ?d = Inr (ds, d')" by blast
  from two_batches_ready_6 run obtain m where m: "m \<le> length ?bs"
    "stored ds = zip (map pb_id (take m ?bs)) (fifo_plan ?d 5 (Some 7) 6)"
    "\<forall>t \<in> set (drop m (fifo_plan ?d 5 (Some 7) 6)). t = 0" by (rule deductStock_success)
  have "moved (pb_id (?bs ! 0)) (stored ds) = 5"
    using moved_plan[OF _ _ m, of 0] two_batches_ready_6 bs by (simp add: deduct_ready_def)
  then have "0 < moved (pb_id (ProductBatch ?d ! 1)) (stored ds)" using bs(4) by simp
  moreover have "ProductBatch ?d ! 1 \<in> set (ProductBatch ?d)" by (simp add: two_batches_def)
  ultimately have "receipt_unpost 1 d' = (Inl GoodsAlreadySold, d')"
    by (intro receipt_unpost_refused_after_sale[OF two_batches_ready_6 run, of "ProductBatch ?d ! 1" 1
          "GoodsReceipt ?d ! 0"]) (simp_all add: two_batches_def)
  with run show ?thesis by blast
qed


text \<open>A posted receipt of 5 pieces with 2 left, edited to 9 pieces and a new product.\<close>

definition sold_receipt_db :: db where
  "sold_receipt_db = (two_batches 5 3)\<lparr>
     Warehouse := [named_warehouse 7 ''Main''],
     ProductBatch := [(new_batch 1 5 5 2 (Some 1) None 10 10)\<lparr>pb_quantityLeft := 2\<rparr>]\<rparr>"

definition receipt_edit :: receipt_data where
  "receipt_edit = \<lparr>rd_number = Some ''R1'', rd_date = Some 10, rd_warehouseId = Some 7,
     rd_providerId = None, rd_comment = None,
     rd_items = [\<lparr>rid_productId = 5, rid_quantity = 9, rid_price = 2, rid_total = 18\<rparr>,
                 \<lparr>rid_productId = 6, rid_quantity = 1, rid_price = 2, rid_total = 2\<rparr>]\<rparr>"

text \<open>Definitions that evaluate a handler on a concrete database.\<close>

lemmas receipt_eval = receipt_update_body_def upd_GoodsReceipt_def update_table_def goods_receipt_ok_def
  dec_fits_def first_error_def old_batches_def add_old_batch_def incoming_items_def add_incoming_def
  reconcile_product_def clear_batch_def js_number_def js_sub_def js_add_def upd_ProductBatch_def
  batch_numbers_ok_def add_new_product_def addStock_def ins_ProductBatch_def insert_receipt_items_def
  insert_receipt_item_def ins_GoodsReceiptItem_def del_GoodsReceiptItems_def Let_def
  two_batches_def empty_db_def receipt_edit_def new_batch_def

lemma receipt_numbers:
  "js_text 9 = 9" "js_text 2 = 2" "js_text 18 = 18" "js_text 1 = 1" "js_text 6 = 6"
  "js_text 5 = 5" "js_text 10 = 10" "js_text 3 = 3"
  "fl 5 = 5" "fl 2 = 2" "fl 3 = 3" "fl 6 = 6" "fl 0 = 0"
  by code_simp+

lemma round_dec_numeral [simp]: "round_dec s (numeral k) = numeral k" "round_dec s 1 = 1"
  by (simp_all add: round_dec_id)

lemma receipt_edit_facts:
  "find_row gr_id 1 (GoodsReceipt sold_receipt_db) = Some (GoodsReceipt sold_receipt_db ! 0)"
  "gr_status (GoodsReceipt sold_receipt_db ! 0) = POSTED"
  "\<forall>b \<in> set (ProductBatch sold_receipt_db). pb_goodsReceiptId b = Some 1 \<longrightarrow> whole_batch b"
  "distinct (map pb_id (ProductBatch sold_receipt_db))"
  "\<forall>b \<in> set (ProductBatch sold_receipt_db). pb_id b < next_uuid sold_receipt_db"
  "distinct (map pb_productId (filter (\<lambda>b. pb_goodsReceiptId b = Some 1) (ProductBatch sold_receipt_db)))"
  "distinct (map rid_productId (rd_items receipt_edit))"
  by code_simp+

lemma receipt_edit_quantities: "\<forall>x \<in> set (rd_items receipt_edit). grid_quantity x"
proof -
  have "js_number 9 = 9" "js_number 1 = 1" by code_simp+
  then have "grid_quantity x" if "rid_quantity x = 9 \<or> rid_quantity x = 1" for x
    using that by (auto simp: grid_quantity_def intro: exI[of _ 9] exI[of _ 1])
  then show ?thesis by (simp add: receipt_edit_def)
qed


text \<open>A posted receipt with two batches of one product; the second is sold.\<close>

definition double_receipt_db :: db where
  "double_receipt_db = (two_batches 5 3)\<lparr>
     Warehouse := [named_warehouse 7 ''Main''],
     ProductBatch := [new_batch 1 5 3 2 (Some 1) None 10 10,
                      (new_batch 2 5 2 2 (Some 1) None 10 10)\<lparr>pb_quantityLeft := 0\<rparr>],
     RealizationItem := [\<lparr>ri_id = 1, ri_realizationId = 1, ri_productId = 5, ri_quantity = 2,
        ri_price = 4, ri_total = 8, ri_sortOrder = 0, ri_createdAt = 11\<rparr>],
     RealizationItemBatch := [\<lparr>rib_id = 1, rib_realizationItemId = 1, rib_productBatchId = 2,
        rib_quantity = 2, rib_enterPrice = 2\<rparr>]\<rparr>"

text \<open>
  With two batches of one product the handler loses track. It moves all quantities to the first
  batch and zeroes the second although the second is the sold one. When the sale is then unposted, the
  second batch holds more than its total, and the first still looks partly sold, so the receipt can
  never be unposted again.
\<close>

theorem receipt_update_double_batch_flaw:
  "\<exists>d' links d''. receipt_update_body 1 (receipt_edit\<lparr>rd_items :=
       [\<lparr>rid_productId = 5, rid_quantity = 5, rid_price = 2, rid_total = 10\<rparr>]\<rparr>) double_receipt_db
       = Inr (1, d') \<and>
     returnStock 1 d' = Inr (links, d'') \<and>
     map (\<lambda>b. (pb_quantityTotal b, pb_quantityLeft b)) (ProductBatch d'') = [(5, 3), (0, 2)] \<and>
     receipt_unpost_tx 1 d'' = Inl GoodsAlreadySold"
  by (simp add: receipt_eval double_receipt_db_def receipt_numbers returnStock_def realization_links_def
      return_to_batch_def receipt_unpost_tx_def del: One_nat_def)

end
