(* ===== verification/BuyerReturnService.thy ===== *)
theory BuyerReturnService
  imports SupplierReturnService GoodsReceiptService
begin

text \<open>
  \<open>src/services/buyerReturnService.ts\<close>: returns of goods by a buyer. Posting brings each item back as a new
  batch at the latest cost price of the product and books the reversed margin as profit; unposting deletes
  those batches.
\<close>

section \<open>Views\<close>

record buyer_return_row =
  brv_row :: buyer_return
  brv_counterpartyName :: "string option"
  brv_warehouseName :: "string option"

record buyer_return_view =
  brw_header :: buyer_return_row
  brw_authorName :: "string option"
  brw_items :: "(buyer_return_item \<times> string option) list"

definition buyer_return_header :: "db \<Rightarrow> buyer_return \<Rightarrow> buyer_return_row" where
  "buyer_return_header d r =
     \<lparr>brv_row = r, brv_counterpartyName = join_name cp_id cp_name (Counterparty d) (Some (br_counterpartyId r)),
      brv_warehouseName = join_name wh_id wh_name (Warehouse d) (Some (br_warehouseId r))\<rparr>"

definition buyer_return_getById :: "ident \<Rightarrow> db \<Rightarrow> buyer_return_view option" where
  "buyer_return_getById i d = map_option
     (\<lambda>r. \<lparr>brw_header = buyer_return_header d r,
           brw_authorName = join_name usr_id usr_email (Users d) (br_createdBy r),
           brw_items = map (\<lambda>x. (x, join_name prod_id prod_name (Product d) (Some (bri_productId x))))
             (sort_key bri_sortOrder (sort_key bri_createdAt
               (filter (\<lambda>x. bri_buyerReturnId x = i) (BuyerReturnItem d))))\<rparr>)
     (find_row br_id i (BuyerReturn d))"

definition buyer_return_getAll :: "return_filters \<Rightarrow> db \<Rightarrow> buyer_return_row list" where
  "buyer_return_getAll f d = map (buyer_return_header d)
     (sort_key (\<lambda>r. - br_date r)
       (filter (\<lambda>r. (case rnf_startDate f of None \<Rightarrow> True | Some t \<Rightarrow> t \<le> br_date r) \<and>
          (case rnf_endDate f of None \<Rightarrow> True | Some t \<Rightarrow> br_date r \<le> t) \<and>
          (case rnf_warehouseId f of None \<Rightarrow> True | Some w \<Rightarrow> br_warehouseId r = w))
        (BuyerReturn d)))"

section \<open>create and update\<close>

definition insert_buyer_item ::
  "ident \<Rightarrow> nat \<times> return_item_data \<Rightarrow> jsnum \<times> db \<Rightarrow> error + jsnum \<times> db" where
  "insert_buyer_item i = (\<lambda>(sortOrder, item) (totalAmount, d).
     (let itemTotal = js_mul (rtd_quantity item) (rtd_price item)
      in rbind (ins_BuyerReturnItem
           \<lparr>bri_id = next_uuid d, bri_buyerReturnId = i, bri_productId = rtd_productId item,
            bri_quantity = round_dec 3 (js_text (rtd_quantity item)),
            bri_price = round_dec 2 (js_text (rtd_price item)),
            bri_total = round_dec 2 (js_text itemTotal), bri_sortOrder = sortOrder,
            bri_createdAt = clock d\<rparr>
           (d\<lparr>next_uuid := Suc (next_uuid d)\<rparr>)) (\<lambda>d'.
         Inr (js_add totalAmount itemTotal, d'))))"

definition write_buyer_items :: "ident \<Rightarrow> return_item_data list \<Rightarrow> db \<Rightarrow> error + db" where
  "write_buyer_items i items d =
     rbind (for_each (insert_buyer_item i) (zip [0..<length items] items) (0, d)) (\<lambda>(totalAmount, d').
       upd_BuyerReturn (\<lambda>r. br_id r = i)
         (\<lambda>r. r\<lparr>br_totalAmount := round_dec 2 (js_text totalAmount)\<rparr>) d')"

definition buyer_return_create_body :: "return_data \<Rightarrow> ident \<Rightarrow> db \<Rightarrow> error + ident \<times> db" where
  "buyer_return_create_body data userId d =
     (let number = generateDocNumber (tz_offset d) (map br_number (BuyerReturn d))
            (coalesce (rtn_date data) (clock d));
          i = next_uuid d
      in rbind (not_null ''BuyerReturn.date'' (rtn_date data)) (\<lambda>date.
         rbind (not_null ''BuyerReturn.counterpartyId'' (rtn_counterpartyId data)) (\<lambda>counterpartyId.
         rbind (not_null ''BuyerReturn.warehouseId'' (rtn_warehouseId data)) (\<lambda>warehouseId.
         rbind (ins_BuyerReturn
             \<lparr>br_id = i, br_number = number, br_date = date, br_counterpartyId = counterpartyId,
              br_warehouseId = warehouseId, br_status = DRAFT, br_comment = rtn_comment data,
              br_totalAmount = 0, br_profit = 0, br_createdBy = Some userId, br_createdAt = clock d,
              br_updatedAt = clock d\<rparr>
             (d\<lparr>next_uuid := Suc i\<rparr>)) (\<lambda>d1.
         rbind (write_buyer_items i (rtn_items data) d1) (\<lambda>d2.
         Inr (i, d2)))))))"

definition buyer_return_create ::
  "return_data \<Rightarrow> ident \<Rightarrow> db \<Rightarrow> (error + buyer_return_view option) \<times> db" where
  "buyer_return_create data userId d =
     answer buyer_return_getById (transaction (buyer_return_create_body data userId) d)"

definition buyer_return_update_body :: "ident \<Rightarrow> return_data \<Rightarrow> db \<Rightarrow> error + ident \<times> db" where
  "buyer_return_update_body i data d =
     (case find_row br_id i (BuyerReturn d) of
        None \<Rightarrow> Inl DocumentNotFound
      | Some r \<Rightarrow>
          if br_status r = POSTED then Inl CannotEditPosted
          else rbind (not_null ''BuyerReturn.date'' (rtn_date data)) (\<lambda>date.
               rbind (not_null ''BuyerReturn.counterpartyId'' (rtn_counterpartyId data)) (\<lambda>counterpartyId.
               rbind (not_null ''BuyerReturn.warehouseId'' (rtn_warehouseId data)) (\<lambda>warehouseId.
               rbind (upd_BuyerReturn (\<lambda>r. br_id r = i)
                 (\<lambda>r. r\<lparr>br_date := date, br_counterpartyId := counterpartyId, br_warehouseId := warehouseId,
                        br_comment := rtn_comment data, br_updatedAt := clock d\<rparr>) d) (\<lambda>d1.
               rbind (write_buyer_items i (rtn_items data) (del_BuyerReturnItems i d1)) (\<lambda>d2.
               Inr (i, d2)))))))"

definition buyer_return_update ::
  "ident \<Rightarrow> return_data \<Rightarrow> db \<Rightarrow> (error + buyer_return_view option) \<times> db" where
  "buyer_return_update i data d = answer buyer_return_getById (transaction (buyer_return_update_body i data) d)"

section \<open>post\<close>

text \<open>\<open>ORDER BY "createdAt" DESC LIMIT 1\<close>\<close>

definition last_cost_price :: "db \<Rightarrow> ident \<Rightarrow> jsnum" where
  "last_cost_price d productId =
     (case sort_key (\<lambda>b. - pb_createdAt b) (filter (\<lambda>b. pb_productId b = productId) (ProductBatch d)) of
        [] \<Rightarrow> 0 | b # _ \<Rightarrow> js_number (pb_enterPrice b))"

definition take_back_item ::
  "ident \<Rightarrow> timestamp \<Rightarrow> buyer_return_item \<Rightarrow> jsnum \<times> db \<Rightarrow> error + jsnum \<times> db" where
  "take_back_item i date item = (\<lambda>(totalProfit, d).
     (let costPrice = last_cost_price d (bri_productId item)
      in rbind (addStock (bri_productId item) (js_number (bri_quantity item)) costPrice None (Some date)
                  (Some i) d) (\<lambda>(batch, d1).
         rbind (ins_BuyerReturnItemBatch
             \<lparr>brib_id = next_uuid d1, brib_buyerReturnItemId = bri_id item, brib_productBatchId = pb_id batch,
              brib_quantity = bri_quantity item\<rparr>
             (d1\<lparr>next_uuid := Suc (next_uuid d1)\<rparr>)) (\<lambda>d2.
         Inr (js_sub totalProfit
               (js_mul (js_sub (js_number (bri_price item)) costPrice) (js_number (bri_quantity item))), d2)))))"

definition buyer_items :: "ident \<Rightarrow> db \<Rightarrow> buyer_return_item list" where
  "buyer_items i d = sort_key bri_sortOrder (filter (\<lambda>r. bri_buyerReturnId r = i) (BuyerReturnItem d))"

definition buyer_return_post_tx :: "ident \<Rightarrow> db \<Rightarrow> error + (ident \<times> doc_status) \<times> db" where
  "buyer_return_post_tx i d =
     (case find_row br_id i (BuyerReturn d) of
        None \<Rightarrow> Inl DocumentNotFound
      | Some doc \<Rightarrow>
          if br_status doc = POSTED then Inl DocumentAlreadyPosted
          else rbind (for_each (take_back_item i (br_date doc)) (buyer_items i d) (0, d)) (\<lambda>(totalProfit, d1).
               rbind (upd_BuyerReturn (\<lambda>r. br_id r = i)
                   (\<lambda>r. r\<lparr>br_status := POSTED, br_profit := round_dec 2 (js_text totalProfit),
                          br_updatedAt := clock d1\<rparr>) d1) (\<lambda>d2.
               Inr ((i, POSTED), d2))))"

definition buyer_return_post :: "ident \<Rightarrow> db \<Rightarrow> (error + buyer_return_view option) \<times> db" where
  "buyer_return_post i d = answer (\<lambda>r. buyer_return_getById (fst r)) (transaction (buyer_return_post_tx i) d)"

section \<open>unpost\<close>

definition buyer_links :: "ident \<Rightarrow> db \<Rightarrow> buyer_return_item_batch list" where
  "buyer_links i d =
     filter (\<lambda>l. case find_row bri_id (brib_buyerReturnItemId l) (BuyerReturnItem d) of
                   None \<Rightarrow> False | Some r \<Rightarrow> bri_buyerReturnId r = i)
       (BuyerReturnItemBatch d)"

definition del_BuyerReturnItemBatches :: "ident \<Rightarrow> db \<Rightarrow> db" where
  "del_BuyerReturnItemBatches i d =
     (let items = map bri_id (filter (\<lambda>r. bri_buyerReturnId r = i) (BuyerReturnItem d)) in
      d\<lparr>BuyerReturnItemBatch := filter (\<lambda>l. \<not> List.member items (brib_buyerReturnItemId l))
          (BuyerReturnItemBatch d)\<rparr>)"

definition buyer_return_unpost_tx :: "ident \<Rightarrow> db \<Rightarrow> error + (ident \<times> doc_status) \<times> db" where
  "buyer_return_unpost_tx i d =
     (case find_row br_id i (BuyerReturn d) of
        None \<Rightarrow> Inl DocumentNotFound
      | Some doc \<Rightarrow>
          if br_status doc \<noteq> POSTED then Inl DocumentNotPosted
          else (let d1 = del_ProductBatch (\<lambda>b. pb_buyerReturnId b = Some i) d;
                    d2 = foldl (\<lambda>e l. del_ProductBatch (\<lambda>b. pb_id b = brib_productBatchId l) e) d1
                           (buyer_links i d1)
                in rbind (upd_BuyerReturn (\<lambda>r. br_id r = i)
                     (\<lambda>r. r\<lparr>br_status := DRAFT, br_profit := 0, br_updatedAt := clock d2\<rparr>)
                     (del_BuyerReturnItemBatches i d2)) (\<lambda>d3.
                   Inr ((i, SAVED), d3))))"

definition buyer_return_unpost :: "ident \<Rightarrow> db \<Rightarrow> (error + buyer_return_view option) \<times> db" where
  "buyer_return_unpost i d = answer (\<lambda>r. buyer_return_getById (fst r)) (transaction (buyer_return_unpost_tx i) d)"

section \<open>delete\<close>

definition buyer_return_delete_body :: "ident \<Rightarrow> db \<Rightarrow> error + unit \<times> db" where
  "buyer_return_delete_body i d =
     (case find_row br_id i (BuyerReturn d) of
        None \<Rightarrow> Inl DocumentNotFound
      | Some doc \<Rightarrow>
          if br_status doc = POSTED then Inl CannotDeletePosted
          else Inr ((), del_BuyerReturn i (del_BuyerReturnItems i d)))"

definition buyer_return_delete :: "ident \<Rightarrow> db \<Rightarrow> (error + unit) \<times> db" where
  "buyer_return_delete i = transaction (buyer_return_delete_body i)"

section \<open>The effect of posting and unposting\<close>

definition buyer_rest :: "db \<Rightarrow> db" where
  "buyer_rest d = d\<lparr>ProductBatch := [], BuyerReturnItemBatch := [], next_uuid := 0\<rparr>"

lemma buyer_rest_eq:
  assumes "buyer_rest d' = buyer_rest d"
  shows "d' = d\<lparr>ProductBatch := ProductBatch d', BuyerReturnItemBatch := BuyerReturnItemBatch d',
    next_uuid := next_uuid d'\<rparr>"
proof -
  have "d' = (buyer_rest d')\<lparr>ProductBatch := ProductBatch d', BuyerReturnItemBatch := BuyerReturnItemBatch d',
      next_uuid := next_uuid d'\<rparr>" by (simp add: buyer_rest_def)
  also have "\<dots> = (buyer_rest d)\<lparr>ProductBatch := ProductBatch d', BuyerReturnItemBatch := BuyerReturnItemBatch d',
      next_uuid := next_uuid d'\<rparr>" by (simp only: assms)
  also have "\<dots> = d\<lparr>ProductBatch := ProductBatch d', BuyerReturnItemBatch := BuyerReturnItemBatch d',
      next_uuid := next_uuid d'\<rparr>" by (simp add: buyer_rest_def)
  finally show ?thesis .
qed

text \<open>The batch that an item comes back as, and its link row.\<close>

definition returned_as :: "ident \<Rightarrow> timestamp \<Rightarrow> ident \<Rightarrow> buyer_return_item \<Rightarrow> product_batch \<Rightarrow> bool" where
  "returned_as i date n item b \<longleftrightarrow> pb_productId b = bri_productId item \<and>
     pb_quantityTotal b = round_dec 3 (js_text (js_number (bri_quantity item))) \<and>
     pb_quantityLeft b = pb_quantityTotal b \<and> pb_goodsReceiptId b = None \<and>
     pb_buyerReturnId b = Some i \<and> pb_createdAt b = date \<and> n \<le> pb_id b"

lemma take_back_item_Inr:
  assumes "take_back_item i date item (c, d) = Inr (c', d')"
  shows "\<exists>b l. ProductBatch d' = ProductBatch d @ [b] \<and> BuyerReturnItemBatch d' = BuyerReturnItemBatch d @ [l] \<and>
    returned_as i date (next_uuid d) item b \<and> brib_productBatchId l = pb_id b \<and>
    brib_buyerReturnItemId l = bri_id item \<and> brib_quantity l = bri_quantity item \<and>
    next_uuid d \<le> next_uuid d' \<and> buyer_rest d' = buyer_rest d"
  using assms
  by (auto simp: take_back_item_def Let_def addStock_def ins_ProductBatch_def ins_BuyerReturnItemBatch_def
      returned_as_def buyer_rest_def)

lemma take_back_items:
  assumes "for_each (take_back_item i date) items (c, d) = Inr (c', d')"
  shows "\<exists>bs ls. ProductBatch d' = ProductBatch d @ bs \<and> BuyerReturnItemBatch d' = BuyerReturnItemBatch d @ ls \<and>
    list_all2 (returned_as i date (next_uuid d)) items bs \<and> map brib_productBatchId ls = map pb_id bs \<and>
    map brib_buyerReturnItemId ls = map bri_id items \<and> next_uuid d \<le> next_uuid d' \<and> buyer_rest d' = buyer_rest d"
  using assms
proof (induction items arbitrary: c d)
  case (Cons r items)
  then obtain c1 d1 where s: "take_back_item i date r (c, d) = Inr (c1, d1)"
    "for_each (take_back_item i date) items (c1, d1) = Inr (c', d')" by auto
  from take_back_item_Inr[OF s(1)] obtain b l where a: "ProductBatch d1 = ProductBatch d @ [b]"
    "BuyerReturnItemBatch d1 = BuyerReturnItemBatch d @ [l]" "returned_as i date (next_uuid d) r b"
    "brib_productBatchId l = pb_id b" "brib_buyerReturnItemId l = bri_id r" "next_uuid d \<le> next_uuid d1"
    "buyer_rest d1 = buyer_rest d" by blast
  from Cons.IH[OF s(2)] obtain bs ls where "ProductBatch d' = ProductBatch d1 @ bs"
    "BuyerReturnItemBatch d' = BuyerReturnItemBatch d1 @ ls"
    and all: "list_all2 (returned_as i date (next_uuid d1)) items bs"
    and "map brib_productBatchId ls = map pb_id bs"
    "map brib_buyerReturnItemId ls = map bri_id items" "next_uuid d1 \<le> next_uuid d'"
    "buyer_rest d' = buyer_rest d1" by blast
  moreover have "list_all2 (returned_as i date (next_uuid d)) items bs"
    using all by (rule list_all2_mono) (use a(6) in \<open>auto simp: returned_as_def\<close>)
  ultimately show ?case using a by (intro exI[of _ "b # bs"] exI[of _ "l # ls"]) simp
qed simp

lemma upd_BuyerReturn_Inr:
  "upd_BuyerReturn P f d = Inr d' \<longleftrightarrow> d' = d\<lparr>BuyerReturn := map_where P f (BuyerReturn d)\<rparr> \<and>
     (\<forall>r \<in> set (BuyerReturn d). P r \<longrightarrow> (\<forall>c \<in> set (buyer_return_ok d (f r)). fst c))"
  by (auto simp: upd_BuyerReturn_def update_table_Inr_iff)

lemma buyer_post_effect:
  assumes "buyer_return_post_tx i d = Inr (x, d')"
  obtains doc profit bs ls where "find_row br_id i (BuyerReturn d) = Some doc"
    "list_all2 (returned_as i (br_date doc) (next_uuid d)) (buyer_items i d) bs"
    "map brib_productBatchId ls = map pb_id bs" "map brib_buyerReturnItemId ls = map bri_id (buyer_items i d)"
    "d' = d\<lparr>ProductBatch := ProductBatch d @ bs, BuyerReturnItemBatch := BuyerReturnItemBatch d @ ls,
       next_uuid := next_uuid d', BuyerReturn := map_where (\<lambda>r. br_id r = i)
         (\<lambda>r. r\<lparr>br_status := POSTED, br_profit := round_dec 2 (js_text profit), br_updatedAt := clock d\<rparr>)
         (BuyerReturn d)\<rparr>"
    "\<forall>r \<in> set (BuyerReturn d). br_id r = i \<longrightarrow> dec_fits 10 2 (br_totalAmount r) \<and>
       br_counterpartyId r \<in> cp_id ` set (Counterparty d) \<and> br_warehouseId r \<in> wh_id ` set (Warehouse d)"
proof -
  from assms obtain doc p d1 where s: "find_row br_id i (BuyerReturn d) = Some doc"
    "for_each (take_back_item i (br_date doc)) (buyer_items i d) (0, d) = Inr (p, d1)"
    "upd_BuyerReturn (\<lambda>r. br_id r = i) (\<lambda>r. r\<lparr>br_status := POSTED, br_profit := round_dec 2 (js_text p),
        br_updatedAt := clock d1\<rparr>) d1 = Inr d'"
    by (auto simp: buyer_return_post_tx_def split: option.splits if_splits)
  from take_back_items[OF s(2)] obtain bs ls where t: "ProductBatch d1 = ProductBatch d @ bs"
    "BuyerReturnItemBatch d1 = BuyerReturnItemBatch d @ ls"
    "list_all2 (returned_as i (br_date doc) (next_uuid d)) (buyer_items i d) bs"
    "map brib_productBatchId ls = map pb_id bs" "map brib_buyerReturnItemId ls = map bri_id (buyer_items i d)"
    "buyer_rest d1 = buyer_rest d" by blast
  obtain n where d1: "d1 = d\<lparr>ProductBatch := ProductBatch d @ bs,
      BuyerReturnItemBatch := BuyerReturnItemBatch d @ ls, next_uuid := n\<rparr>"
    using buyer_rest_eq[OF t(6)] t(1,2) by auto
  show thesis
    using s(3) unfolding upd_BuyerReturn_Inr d1
    by (intro that[OF s(1) t(3-5), of p]) (auto simp: buyer_return_ok_def)
qed

lemma del_returned_batches:
  assumes "\<forall>b \<in> set (ProductBatch d). pb_buyerReturnId b \<noteq> Some i" "links_below_supply d"
    and "\<forall>b \<in> set new. pb_buyerReturnId b = Some i \<and> next_uuid d \<le> pb_id b"
    and "\<forall>l \<in> set ls. brib_productBatchId l \<in> pb_id ` set new"
  shows "del_ProductBatch (\<lambda>b. pb_buyerReturnId b = Some i)
     (d\<lparr>ProductBatch := ProductBatch d @ new, BuyerReturnItemBatch := BuyerReturnItemBatch d @ ls\<rparr>) = d"
proof -
  let ?P = "\<lambda>b. pb_buyerReturnId b = Some i"
  have keep: "filter (\<lambda>b. \<not> ?P b) (ProductBatch d @ new) = ProductBatch d"
    "filter ?P (ProductBatch d @ new) = new"
    using assms(1,3) by (auto simp: filter_id_conv filter_empty_conv)
  have old: "k \<notin> pb_id ` set new" if "k < next_uuid d" for k
    using assms(3) that by (force simp: not_le[symmetric])
  have "filter (\<lambda>r. \<not> List.member (map pb_id new) (rib_productBatchId r)) (RealizationItemBatch d) =
      RealizationItemBatch d"
    "filter (\<lambda>r. \<not> List.member (map pb_id new) (srib_productBatchId r)) (SupplierReturnItemBatch d) =
      SupplierReturnItemBatch d"
    "filter (\<lambda>r. \<not> List.member (map pb_id new) (brib_productBatchId r)) (BuyerReturnItemBatch d @ ls) =
      BuyerReturnItemBatch d"
    using assms(2,4) old by (simp_all add: filter_id_conv filter_empty_conv links_below_supply_def)
  then show ?thesis using keep by (simp add: del_ProductBatch_def)
qed

lemma del_ProductBatch_frame [simp]:
  "del_ProductBatch P (d\<lparr>BuyerReturn := rs\<rparr>) = (del_ProductBatch P d)\<lparr>BuyerReturn := rs\<rparr>"
  "del_ProductBatch P (d\<lparr>next_uuid := n\<rparr>) = (del_ProductBatch P d)\<lparr>next_uuid := n\<rparr>"
  by (simp_all add: del_ProductBatch_def Let_def)

lemma no_buyer_links:
  assumes "\<forall>l \<in> set (BuyerReturnItemBatch d). brib_buyerReturnItemId l \<notin> bri_id ` set (buyer_items i d)"
  shows "buyer_links i d = []" "del_BuyerReturnItemBatches i d = d"
proof -
  have no: "brib_buyerReturnItemId l \<noteq> bri_id r"
    if "l \<in> set (BuyerReturnItemBatch d)" "r \<in> set (BuyerReturnItem d)" "bri_buyerReturnId r = i" for l r
    using assms that by (auto simp: buyer_items_def)
  show "buyer_links i d = []"
    using no by (fastforce simp: buyer_links_def filter_empty_conv split: option.splits dest: find_row_Some)
  have "filter (\<lambda>l. brib_buyerReturnItemId l \<notin> bri_id ` {r \<in> set (BuyerReturnItem d). bri_buyerReturnId r = i})
      (BuyerReturnItemBatch d) = BuyerReturnItemBatch d"
    using no by (auto simp: filter_id_conv)
  then show "del_BuyerReturnItemBatches i d = d" by (simp add: del_BuyerReturnItemBatches_def)
qed

lemma buyer_unpost_after_post:
  assumes post: "buyer_return_post_tx i d = Inr (x, d')"
    and no_batch: "\<forall>b \<in> set (ProductBatch d). pb_buyerReturnId b \<noteq> Some i" and below: "links_below_supply d"
    and fresh: "\<forall>l \<in> set (BuyerReturnItemBatch d). brib_buyerReturnItemId l \<notin> bri_id ` set (buyer_items i d)"
  shows "buyer_return_unpost_tx i d' = Inr ((i, SAVED), d\<lparr>next_uuid := next_uuid d',
      BuyerReturn := map_where (\<lambda>r. br_id r = i)
        (\<lambda>r. r\<lparr>br_status := DRAFT, br_profit := 0, br_updatedAt := clock d\<rparr>) (BuyerReturn d)\<rparr>)"
proof -
  from post obtain doc profit bs ls where p: "find_row br_id i (BuyerReturn d) = Some doc"
    "list_all2 (returned_as i (br_date doc) (next_uuid d)) (buyer_items i d) bs"
    "map brib_productBatchId ls = map pb_id bs"
    and d': "d' = d\<lparr>ProductBatch := ProductBatch d @ bs, BuyerReturnItemBatch := BuyerReturnItemBatch d @ ls,
       next_uuid := next_uuid d', BuyerReturn := map_where (\<lambda>r. br_id r = i)
         (\<lambda>r. r\<lparr>br_status := POSTED, br_profit := round_dec 2 (js_text profit), br_updatedAt := clock d\<rparr>)
         (BuyerReturn d)\<rparr>"
    and ok: "\<forall>r \<in> set (BuyerReturn d). br_id r = i \<longrightarrow> dec_fits 10 2 (br_totalAmount r) \<and>
       br_counterpartyId r \<in> cp_id ` set (Counterparty d) \<and> br_warehouseId r \<in> wh_id ` set (Warehouse d)"
    by (rule buyer_post_effect) blast
  obtain n where d'e: "d' = d\<lparr>ProductBatch := ProductBatch d @ bs, BuyerReturnItemBatch := BuyerReturnItemBatch d @ ls,
       next_uuid := n, BuyerReturn := map_where (\<lambda>r. br_id r = i)
         (\<lambda>r. r\<lparr>br_status := POSTED, br_profit := round_dec 2 (js_text profit), br_updatedAt := clock d\<rparr>)
         (BuyerReturn d)\<rparr>" using d' by blast
  have new: "\<forall>b \<in> set bs. pb_buyerReturnId b = Some i \<and> next_uuid d \<le> pb_id b"
    using p(2) by (auto simp: list_all2_conv_all_nth in_set_conv_nth returned_as_def)
  have "brib_productBatchId ` set ls = pb_id ` set bs" using p(3) by (metis list.set_map)
  then have links: "\<forall>l \<in> set ls. brib_productBatchId l \<in> pb_id ` set bs" by blast
  let ?R = "map_where (\<lambda>r. br_id r = i)
        (\<lambda>r. r\<lparr>br_status := POSTED, br_profit := round_dec 2 (js_text profit), br_updatedAt := clock d\<rparr>)
        (BuyerReturn d)"
  have del: "del_ProductBatch (\<lambda>b. pb_buyerReturnId b = Some i) d' = d\<lparr>next_uuid := n, BuyerReturn := ?R\<rparr>"
    unfolding d'e using del_returned_batches[OF no_batch below new links] by simp
  let ?d1 = "d\<lparr>next_uuid := n, BuyerReturn := ?R\<rparr>"
  have "\<forall>l \<in> set (BuyerReturnItemBatch ?d1). brib_buyerReturnItemId l \<notin> bri_id ` set (buyer_items i ?d1)"
    using fresh by (simp add: buyer_items_def)
  note nl = no_buyer_links[OF this]
  have "upd_BuyerReturn (\<lambda>r. br_id r = i) (\<lambda>r. r\<lparr>br_status := DRAFT, br_profit := 0, br_updatedAt := clock d\<rparr>) ?d1 =
      Inr (d\<lparr>next_uuid := n, BuyerReturn := map_where (\<lambda>r. br_id r = i)
        (\<lambda>r. r\<lparr>br_status := DRAFT, br_profit := 0, br_updatedAt := clock d\<rparr>) (BuyerReturn d)\<rparr>)"
  proof -
    have "\<forall>r \<in> set ?R. br_id r = i \<longrightarrow> (\<forall>c \<in> set (buyer_return_ok ?d1
        (r\<lparr>br_status := DRAFT, br_profit := 0, br_updatedAt := clock d\<rparr>)). fst c)"
      using ok by (simp add: set_map_where ball_Un buyer_return_ok_def dec_fits_def)
    moreover have "map_where (\<lambda>r. br_id r = i) (\<lambda>r. r\<lparr>br_status := DRAFT, br_profit := 0, br_updatedAt := clock d\<rparr>) ?R =
        map_where (\<lambda>r. br_id r = i) (\<lambda>r. r\<lparr>br_status := DRAFT, br_profit := 0, br_updatedAt := clock d\<rparr>) (BuyerReturn d)"
      by (simp add: map_where_def)
    ultimately show ?thesis unfolding upd_BuyerReturn_Inr by simp
  qed
  moreover have "find_row br_id i (BuyerReturn d') =
      Some (doc\<lparr>br_status := POSTED, br_profit := round_dec 2 (js_text profit), br_updatedAt := clock d\<rparr>)"
    using p(1) find_row_Some[OF p(1)] by (simp add: d'e find_row_map_where)
  moreover have "next_uuid d' = n" by (simp add: d'e)
  ultimately show ?thesis by (simp add: buyer_return_unpost_tx_def del nl)
qed

section \<open>What buyer returns promise\<close>

definition draft_back_db :: db where
  "draft_back_db = (two_batches 5 3)\<lparr>
     Product := [named_product 5 ''Tea'' ''kg''],
     Warehouse := [named_warehouse 7 ''Main''],
     Counterparty := [named_counterparty 8 ''Shop''],
     BuyerReturn := [\<lparr>br_id = 4, br_number = ''B1'', br_date = 40, br_counterpartyId = 8, br_warehouseId = 7,
        br_status = DRAFT, br_comment = None, br_totalAmount = 10, br_profit = 0, br_createdBy = None,
        br_createdAt = 40, br_updatedAt = 40\<rparr>],
     BuyerReturnItem := [\<lparr>bri_id = 2, bri_buyerReturnId = 4, bri_productId = 5, bri_quantity = 2,
        bri_price = 5, bri_total = 10, bri_sortOrder = 0, bri_createdAt = 40\<rparr>]\<rparr>"

lemmas back_eval = buyer_return_post_tx_def buyer_items_def take_back_item_def last_cost_price_def addStock_def
  ins_ProductBatch_def ins_BuyerReturnItemBatch_def batch_numbers_ok_def dec_fits_def first_error_def
  upd_BuyerReturn_def update_table_def buyer_return_ok_def js_number_def js_sub_def js_mul_def
  two_batches_def empty_db_def Let_def draft_back_db_def

lemma back_numbers:
  "js_text 2 = 2" "js_text 3 = 3" "js_text (- 4) = - 4" "fl 2 = 2" "fl 3 = 3" "fl 5 = 5" "fl 4 = 4" "fl (- 4) = - 4"
  by code_simp+

lemma round_dec_minus_4: "round_dec 2 (- 4) = - 4"
  by code_simp

lemma draft_back_post: "\<exists>d'. buyer_return_post_tx 4 draft_back_db = Inr ((4, POSTED), d')"
  by (simp add: back_eval back_numbers round_dec_minus_4 del: One_nat_def)

text \<open>
  The last cost price of a product, stated apart from the query that reads it: what the newest of its batches cost,
  and 0 if it never had one.
\<close>

definition last_cost :: "product_batch list \<Rightarrow> ident \<Rightarrow> decimal \<Rightarrow> bool" where
  "last_cost bs p x \<longleftrightarrow> (if \<forall>b \<in> set bs. pb_productId b \<noteq> p then x = 0
     else \<exists>b \<in> set bs. pb_productId b = p \<and> x = pb_enterPrice b \<and>
       (\<forall>c \<in> set bs. pb_productId c = p \<longrightarrow> pb_createdAt c \<le> pb_createdAt b))"

definition prices_stored :: "product_batch list \<Rightarrow> bool" where
  "prices_stored bs \<longleftrightarrow> (\<forall>b \<in> set bs. on_grid 2 (pb_enterPrice b) \<and> \<bar>pb_enterPrice b\<bar> \<le> 10 ^ 8)"

lemma last_cost_price_is_last:
  obtains x where "last_cost (ProductBatch d) p x" "last_cost_price d p = js_number x"
proof (cases "sort_key (\<lambda>b. - pb_createdAt b) (filter (\<lambda>b. pb_productId b = p) (ProductBatch d))")
  case Nil
  then have "filter (\<lambda>b. pb_productId b = p) (ProductBatch d) = []" by (metis length_0_conv length_sort)
  then have "\<forall>b \<in> set (ProductBatch d). pb_productId b \<noteq> p" by (simp add: filter_empty_conv)
  moreover have "last_cost_price d p = js_number 0" using Nil by (simp add: last_cost_price_def js_number_def)
  ultimately show thesis by (intro that) (auto simp: last_cost_def)
next
  case (Cons b bs)
  let ?bs = "filter (\<lambda>b. pb_productId b = p) (ProductBatch d)"
  have all: "set (b # bs) = set ?bs" by (metis Cons set_sort)
  have "sorted (map (\<lambda>b. - pb_createdAt b) (b # bs))" by (metis Cons sorted_sort_key)
  then have "\<forall>c \<in> set ?bs. pb_createdAt c \<le> pb_createdAt b" unfolding all[symmetric] by auto
  moreover have "b \<in> set ?bs" unfolding all[symmetric] by simp
  ultimately have "last_cost (ProductBatch d) p (pb_enterPrice b)"
    unfolding last_cost_def by auto
  moreover have "last_cost_price d p = js_number (pb_enterPrice b)" using Cons by (simp add: last_cost_price_def)
  ultimately show thesis by (rule that)
qed

lemma last_cost_stored: "prices_stored bs \<Longrightarrow> last_cost bs p x \<Longrightarrow> on_grid 2 x \<and> \<bar>x\<bar> \<le> 10 ^ 8"
  by (auto simp: prices_stored_def last_cost_def split: if_splits)

lemma last_cost_append:
  "last_cost bs (pb_productId b) (pb_enterPrice b) \<Longrightarrow> last_cost (bs @ [b]) p x \<Longrightarrow> last_cost bs p x"
  unfolding last_cost_def by (auto split: if_splits)

lemma take_back_item_cost:
  assumes "take_back_item i date item (c, d) = Inr (c', d')" and "prices_stored (ProductBatch d)"
  obtains b where "ProductBatch d' = ProductBatch d @ [b]" "pb_productId b = bri_productId item"
    "last_cost (ProductBatch d) (bri_productId item) (pb_enterPrice b)" "prices_stored (ProductBatch d')"
proof -
  obtain x where x: "last_cost (ProductBatch d) (bri_productId item) x" "last_cost_price d (bri_productId item) = js_number x"
    by (rule last_cost_price_is_last)
  note grid = last_cost_stored[OF assms(2) x(1)]
  then have "round_dec 2 (js_text (js_number x)) = x" by (intro column_exact) auto
  then show thesis using assms x grid
    by (intro that[of "last (ProductBatch d')"])
      (auto simp: take_back_item_def Let_def addStock_def ins_ProductBatch_def ins_BuyerReturnItemBatch_def prices_stored_def)
qed

lemma take_back_costs:
  assumes "for_each (take_back_item i date) items (c, d) = Inr (c', d')" and "prices_stored (ProductBatch d)"
  shows "\<exists>bs. ProductBatch d' = ProductBatch d @ bs \<and>
    list_all2 (\<lambda>r b. last_cost (ProductBatch d) (bri_productId r) (pb_enterPrice b)) items bs"
  using assms
proof (induction items arbitrary: c d)
  case (Cons r items)
  then obtain c1 d1 where s: "take_back_item i date r (c, d) = Inr (c1, d1)"
    "for_each (take_back_item i date) items (c1, d1) = Inr (c', d')" by auto
  from s(1) Cons.prems(2) obtain b where b: "ProductBatch d1 = ProductBatch d @ [b]" "pb_productId b = bri_productId r"
    "last_cost (ProductBatch d) (bri_productId r) (pb_enterPrice b)" "prices_stored (ProductBatch d1)"
    by (rule take_back_item_cost)
  from Cons.IH[OF s(2) b(4)] obtain bs where bs: "ProductBatch d' = ProductBatch d1 @ bs"
    "list_all2 (\<lambda>r b. last_cost (ProductBatch d1) (bri_productId r) (pb_enterPrice b)) items bs" by blast
  have "last_cost (ProductBatch d) p x" if "last_cost (ProductBatch d1) p x" for p x
    using last_cost_append[of "ProductBatch d" b p x] b(2,3) that by (simp add: b(1))
  then have "list_all2 (\<lambda>r b. last_cost (ProductBatch d) (bri_productId r) (pb_enterPrice b)) items bs"
    using bs(2) by (auto elim: list_all2_mono)
  then show ?case using bs(1) b(1,3) by (intro exI[of _ "b # bs"]) simp
qed simp



lemma del_ProductBatch_links:
  "set (RealizationItemBatch (del_ProductBatch P d)) \<subseteq> set (RealizationItemBatch d)"
  by (auto simp: del_ProductBatch_def Let_def)

lemma del_links_fold:
  "set (RealizationItemBatch (foldl (\<lambda>e l. del_ProductBatch (P l) e) d ls)) \<subseteq> set (RealizationItemBatch d)"
  by (induction ls arbitrary: d) (auto dest!: del_ProductBatch_links[THEN subsetD])

definition sold_back_db :: db where
  "sold_back_db = draft_back_db\<lparr>
     BuyerReturn := map (\<lambda>r. r\<lparr>br_status := POSTED\<rparr>) (BuyerReturn draft_back_db),
     ProductBatch := [(new_batch 11 5 2 3 None (Some 4) 40 40)\<lparr>pb_quantityLeft := 1\<rparr>],
     BuyerReturnItemBatch := [\<lparr>brib_id = 12, brib_buyerReturnItemId = 2, brib_productBatchId = 11, brib_quantity = 2\<rparr>],
     RealizationItemBatch := [\<lparr>rib_id = 13, rib_realizationItemId = 3, rib_productBatchId = 11, rib_quantity = 1,
        rib_enterPrice = 3\<rparr>]\<rparr>"

text \<open>
  Unposting a buyer return forgets the sales from its batches. Unlike a goods receipt, it does not
  check whether the returned goods have been sold again: it succeeds, and deleting the batches takes the
  link rows of the realizations that sold them with it, so those sales can no longer be undone.
\<close>

theorem buyer_return_unpost_forgets_sales:
  assumes "buyer_return_unpost_tx i d = Inr (x, d')"
    and "b \<in> set (ProductBatch d)" and "pb_buyerReturnId b = Some i"
    and "l \<in> set (RealizationItemBatch d)" and "rib_productBatchId l = pb_id b"
  shows "l \<notin> set (RealizationItemBatch d')"
proof -
  let ?d1 = "del_ProductBatch (\<lambda>b. pb_buyerReturnId b = Some i) d"
  have "l \<notin> set (RealizationItemBatch ?d1)"
    using assms(2,3,5) by (auto simp: del_ProductBatch_def Let_def)
  moreover have "RealizationItemBatch d' = RealizationItemBatch
      (foldl (\<lambda>e l. del_ProductBatch (\<lambda>b. pb_id b = brib_productBatchId l) e) ?d1 (buyer_links i ?d1))"
    using assms(1) by (auto simp: buyer_return_unpost_tx_def upd_BuyerReturn_def del_BuyerReturnItemBatches_def Let_def
        split: option.splits if_splits)
  ultimately show ?thesis using del_links_fold by fastforce
qed

theorem buyer_return_unpost_forgets_sales_witness:
  "\<exists>d'. buyer_return_unpost_tx 4 sold_back_db = Inr ((4, SAVED), d') \<and>
     hd (RealizationItemBatch sold_back_db) \<notin> set (RealizationItemBatch d')"
proof -
  have "\<exists>d'. buyer_return_unpost_tx 4 sold_back_db = Inr ((4, SAVED), d')"
    by (simp add: buyer_return_unpost_tx_def sold_back_db_def del_ProductBatch_def new_batch_def buyer_links_def
        del_BuyerReturnItemBatches_def back_eval)
  then obtain d' where d': "buyer_return_unpost_tx 4 sold_back_db = Inr ((4, SAVED), d')" by blast
  from buyer_return_unpost_forgets_sales[OF d', of "hd (ProductBatch sold_back_db)"
      "hd (RealizationItemBatch sold_back_db)"] d'
  show ?thesis by (auto simp: sold_back_db_def)
qed

end
