(* ===== verification/DocumentControllers.thy ===== *)
theory DocumentControllers
  imports BuyerReturnService
begin

text \<open>
  \<open>src/controllers/\<close>: the handlers of goods receipts, supplier returns, buyer returns and the inventory.
  Each calls its service and answers with a status code: the errors it names become a 400 with the message,
  every other error a 500 with a text of its own. Users who are not administrators are held to their
  warehouse when they list and write.
\<close>

text \<open>\<open>req.user?.id || 'system'\<close>\<close>

definition system_user :: ident where "system_user = 0"

definition author :: "req_user option \<Rightarrow> ident" where
  "author user = (case user_id user of None \<Rightarrow> system_user | Some i \<Rightarrow> i)"

text \<open>A catch block that passes the messages of \<open>known\<close> on with 400.\<close>

definition known_or :: "error list \<Rightarrow> string \<Rightarrow> error \<Rightarrow> nat \<times> http_error" where
  "known_or known txt e = (if List.member known e then (400, ErrorMessage e) else (500, Text txt))"

definition found :: "'a option \<Rightarrow> 'a reply" where
  "found v = (case v of None \<Rightarrow> reply_error 404 (Text ''Not found'') | Some x \<Rightarrow> reply_ok 200 x)"

section \<open>GoodsReceiptController\<close>

definition receipts_getAll_route ::
  "req_user option \<Rightarrow> timestamp option \<Rightarrow> timestamp option \<Rightarrow> db \<Rightarrow> receipt_header_view list reply" where
  "receipts_getAll_route user startDate endDate d = reply_ok 200 (receipt_getAll
     \<lparr>rf_startDate = startDate, rf_endDate = endDate, rf_warehouseId = restricted_to user\<rparr> d)"

definition receipts_getById_route :: "ident \<Rightarrow> db \<Rightarrow> receipt_view reply" where
  "receipts_getById_route i d = found (receipt_getById i d)"

definition receipts_create_route ::
  "req_user option \<Rightarrow> receipt_data \<Rightarrow> db \<Rightarrow> receipt_view option reply \<times> db" where
  "receipts_create_route user data d =
     map_prod (catch_reply 201 (known_or [] ''Failed to create'')) id
       (receipt_create (data\<lparr>rd_warehouseId := forced_warehouse user (rd_warehouseId data)\<rparr>) (author user) d)"

definition receipts_update_route ::
  "req_user option \<Rightarrow> ident \<Rightarrow> receipt_data \<Rightarrow> db \<Rightarrow> receipt_view option reply \<times> db" where
  "receipts_update_route user i data d =
     map_prod (catch_reply 200 (known_or [CannotEditPosted] ''Failed to update'')) id
       (receipt_update i (data\<lparr>rd_warehouseId := forced_warehouse user (rd_warehouseId data)\<rparr>) d)"

definition receipts_post_route :: "ident \<Rightarrow> db \<Rightarrow> receipt_view option reply \<times> db" where
  "receipts_post_route i d =
     map_prod (catch_reply 200 (known_or [DocumentAlreadyPosted] ''Failed to post document'')) id (receipt_post i d)"

definition receipts_unpost_route :: "ident \<Rightarrow> db \<Rightarrow> receipt_view option reply \<times> db" where
  "receipts_unpost_route i d =
     map_prod (catch_reply 200 (known_or [DocumentNotPosted] ''Failed to unpost document'')) id (receipt_unpost i d)"

definition receipts_delete_route :: "ident \<Rightarrow> db \<Rightarrow> unit reply \<times> db" where
  "receipts_delete_route i d =
     map_prod (catch_reply 200 (known_or [CannotDeletePosted] ''Failed to delete'')) id (receipt_delete i d)"

section \<open>SupplierReturnController\<close>

definition return_filter :: "req_user option \<Rightarrow> timestamp option \<Rightarrow> timestamp option \<Rightarrow> return_filters" where
  "return_filter user startDate endDate =
     \<lparr>rnf_startDate = startDate, rnf_endDate = endDate, rnf_warehouseId = restricted_to user\<rparr>"

definition own_return :: "req_user option \<Rightarrow> return_data \<Rightarrow> return_data" where
  "own_return user data = data\<lparr>rtn_warehouseId := forced_warehouse user (rtn_warehouseId data)\<rparr>"

definition supplier_getAll_route ::
  "req_user option \<Rightarrow> timestamp option \<Rightarrow> timestamp option \<Rightarrow> db \<Rightarrow> supplier_return_row list reply" where
  "supplier_getAll_route user startDate endDate d =
     reply_ok 200 (supplier_return_getAll (return_filter user startDate endDate) d)"

definition supplier_getById_route :: "ident \<Rightarrow> db \<Rightarrow> supplier_return_view reply" where
  "supplier_getById_route i d = found (supplier_return_getById i d)"

definition supplier_create_route ::
  "req_user option \<Rightarrow> return_data \<Rightarrow> db \<Rightarrow> supplier_return_view option reply \<times> db" where
  "supplier_create_route user data d =
     map_prod (catch_reply 201 (known_or [] ''Failed to create'')) id
       (supplier_return_create (own_return user data) (author user) d)"

definition supplier_update_route ::
  "req_user option \<Rightarrow> ident \<Rightarrow> return_data \<Rightarrow> db \<Rightarrow> supplier_return_view option reply \<times> db" where
  "supplier_update_route user i data d =
     map_prod (catch_reply 200 (known_or [CannotEditPosted, DocumentNotFound] ''Failed to update'')) id
       (supplier_return_update i (own_return user data) d)"

definition supplier_post_error :: "error \<Rightarrow> nat \<times> http_error" where
  "supplier_post_error e = (case e of InsufficientStock p n m \<Rightarrow> (400, StockError e)
     | _ \<Rightarrow> known_or [DocumentAlreadyPosted, DocumentNotFound] ''Failed to post document'' e)"

definition supplier_post_route :: "ident \<Rightarrow> db \<Rightarrow> supplier_return_view option reply \<times> db" where
  "supplier_post_route i d = map_prod (catch_reply 200 supplier_post_error) id (supplier_return_post i d)"

definition supplier_unpost_route :: "ident \<Rightarrow> db \<Rightarrow> supplier_return_view option reply \<times> db" where
  "supplier_unpost_route i d =
     map_prod (catch_reply 200 (known_or [DocumentNotPosted, DocumentNotFound] ''Failed to unpost document'')) id
       (supplier_return_unpost i d)"

definition supplier_delete_route :: "ident \<Rightarrow> db \<Rightarrow> unit reply \<times> db" where
  "supplier_delete_route i d =
     map_prod (catch_reply 200 (known_or [CannotDeletePosted, DocumentNotFound] ''Failed to delete'')) id
       (supplier_return_delete i d)"

section \<open>BuyerReturnController\<close>

definition buyer_getAll_route ::
  "req_user option \<Rightarrow> timestamp option \<Rightarrow> timestamp option \<Rightarrow> db \<Rightarrow> buyer_return_row list reply" where
  "buyer_getAll_route user startDate endDate d =
     reply_ok 200 (buyer_return_getAll (return_filter user startDate endDate) d)"

definition buyer_getById_route :: "ident \<Rightarrow> db \<Rightarrow> buyer_return_view reply" where
  "buyer_getById_route i d = found (buyer_return_getById i d)"

definition buyer_create_route ::
  "req_user option \<Rightarrow> return_data \<Rightarrow> db \<Rightarrow> buyer_return_view option reply \<times> db" where
  "buyer_create_route user data d =
     map_prod (catch_reply 201 (known_or [] ''Failed to create'')) id
       (buyer_return_create (own_return user data) (author user) d)"

definition buyer_update_route ::
  "req_user option \<Rightarrow> ident \<Rightarrow> return_data \<Rightarrow> db \<Rightarrow> buyer_return_view option reply \<times> db" where
  "buyer_update_route user i data d =
     map_prod (catch_reply 200 (known_or [CannotEditPosted, DocumentNotFound] ''Failed to update'')) id
       (buyer_return_update i (own_return user data) d)"

definition buyer_post_route :: "ident \<Rightarrow> db \<Rightarrow> buyer_return_view option reply \<times> db" where
  "buyer_post_route i d =
     map_prod (catch_reply 200 (known_or [DocumentAlreadyPosted, DocumentNotFound] ''Failed to post document'')) id
       (buyer_return_post i d)"

definition buyer_unpost_route :: "ident \<Rightarrow> db \<Rightarrow> buyer_return_view option reply \<times> db" where
  "buyer_unpost_route i d =
     map_prod (catch_reply 200 (known_or [DocumentNotPosted, DocumentNotFound] ''Failed to unpost document'')) id
       (buyer_return_unpost i d)"

definition buyer_delete_route :: "ident \<Rightarrow> db \<Rightarrow> unit reply \<times> db" where
  "buyer_delete_route i d =
     map_prod (catch_reply 200 (known_or [CannotDeletePosted, DocumentNotFound] ''Failed to delete'')) id
       (buyer_return_delete i d)"

section \<open>InventoryController\<close>

definition addArrival_body ::
  "ident \<Rightarrow> jsnum \<Rightarrow> jsnum \<Rightarrow> db \<Rightarrow> error + product_batch \<times> db" where
  "addArrival_body productId quantity enterPrice d = addStock productId quantity enterPrice None None None d"

definition addArrival ::
  "ident option \<Rightarrow> jsnum option \<Rightarrow> jsnum option \<Rightarrow> db \<Rightarrow> product_batch reply \<times> db" where
  "addArrival productId quantity enterPrice d =
     (case (productId, quantity, enterPrice) of
        (Some p, Some q, Some e) \<Rightarrow>
          if q = 0
          then (reply_error 400 (Text ''Missing required fields: productId, quantity, enterPrice''), d)
          else map_prod (catch_reply 201 (known_or [] ''Failed to add inventory'')) id
                 (transaction (addArrival_body p q e) d)
      | _ \<Rightarrow> (reply_error 400 (Text ''Missing required fields: productId, quantity, enterPrice''), d))"

definition getStock :: "ident \<Rightarrow> db \<Rightarrow> product_batch list reply" where
  "getStock productId d = reply_ok 200 (sort_key pb_createdAt
     (filter (\<lambda>b. pb_productId b = productId \<and> 0 < pb_quantityLeft b) (ProductBatch d)))"

section \<open>What the handlers promise\<close>

text \<open>Receipts of a user bound to a warehouse: what the list shows, where a new one belongs.\<close>

lemma receipts_list_warehouse:
  assumes "restricted_to user = Some w" and "v \<in> set (projr (snd (receipts_getAll_route user s e d)))"
  shows "gr_warehouseId (rhv_row v) = Some w"
  using assms by (auto simp: receipts_getAll_route_def reply_ok_def receipt_getAll_def receipt_header_def)

lemma receipts_create_warehouse:
  assumes "receipts_create_route user data d = ((201, Inr v), d')" and "restricted_to user = Some w"
  shows "\<exists>r. GoodsReceipt d' = GoodsReceipt d @ [r] \<and> gr_warehouseId r = Some w"
proof -
  let ?data = "data\<lparr>rd_warehouseId := Some w\<rparr>"
  from assms obtain k where "receipt_create_body ?data (author user) d = Inr (k, d')"
    by (auto simp: receipts_create_route_def receipt_create_def answer_def transaction_def catch_reply_def known_or_def
        forced_warehouse_def split: sum.splits prod.splits)
  then obtain r d1 where r: "ins_GoodsReceipt r (d\<lparr>next_uuid := Suc (next_uuid d)\<rparr>) = Inr d1"
    "gr_warehouseId r = Some w" "insert_receipt_items k (rd_items data) d1 = Inr d'"
    by (auto simp: receipt_create_body_def Let_def)
  have "GoodsReceipt d' = GoodsReceipt d1" using r(3) unfolding insert_receipt_items_def
    by (rule for_each_frame) (auto simp: insert_receipt_item_def ins_GoodsReceiptItem_def)
  with r(1,2) show ?thesis by (auto simp: ins_GoodsReceipt_def)
qed

text \<open>
  Stock that arrives through \<open>/inventory/arrival\<close> cannot be sold. The new batch belongs to no receipt
  and no buyer return, so it has no warehouse; the stock screen lists it, but the batches that
  \<open>deductStock\<close> finds are the same as before for every product and warehouse.
\<close>

theorem arrival_is_never_available:
  assumes "addArrival (Some p) (Some q) (Some e) d = ((201, Inr b), d')"
  shows "available_batches d' p' w = available_batches d p' w \<and>
    (0 < pb_quantityLeft b \<longrightarrow> b \<in> set (projr (snd (getStock p d'))))"
proof -
  from assms have run: "addStock p q e None None None d = Inr (b, d')"
    by (auto simp: addArrival_def addArrival_body_def transaction_def catch_reply_def reply_error_def
        split: if_splits sum.splits prod.splits)
  then have d': "ProductBatch d' = ProductBatch d @ [b]" "GoodsReceipt d' = GoodsReceipt d"
    "BuyerReturn d' = BuyerReturn d"
    and b: "pb_goodsReceiptId b = None" "pb_buyerReturnId b = None" "pb_productId b = p"
    by (auto simp: addStock_def ins_ProductBatch_def Let_def)
  have "batch_warehouse d' c = batch_warehouse d c" for c
    by (simp add: batch_warehouse_def d' split: option.split)
  moreover have "batch_warehouse d b = None" by (simp add: batch_warehouse_def b)
  ultimately have "available_batches d' p' w = available_batches d p' w"
    by (auto simp: available_batches_def d')
  then show ?thesis using b by (simp add: getStock_def reply_ok_def d')
qed

theorem arrival_is_never_available_witness:
  "\<exists>b d'. addArrival (Some 5) (Some 3) (Some 2) (two_batches 5 3) = ((201, Inr b), d') \<and>
     available_batches d' 5 (Some 7) = available_batches (two_batches 5 3) 5 (Some 7)"
proof -
  have n: "js_text 3 = 3" "js_text 2 = 2" by code_simp+
  have "\<exists>b d'. addArrival (Some 5) (Some 3) (Some 2) (two_batches 5 3) = ((201, Inr b), d')"
    by (simp add: addArrival_def addArrival_body_def addStock_def ins_ProductBatch_def first_error_def
        batch_numbers_ok_def dec_fits_def transaction_def catch_reply_def Let_def n)
  with arrival_is_never_available show ?thesis by blast
qed

text \<open>
  The reason of a refused unposting is lost. When goods of a receipt are sold, the service refuses with
  an explanation for the user, and the handler answers 500 with a text that does not contain it.
\<close>

theorem refused_unpost_reason_lost:
  assumes "find_row gr_id i (GoodsReceipt d) = Some doc" and "gr_status doc = POSTED"
    and "b \<in> set (ProductBatch d)" and "pb_goodsReceiptId b = Some i"
    and "pb_quantityLeft b < pb_quantityTotal b"
  shows "receipts_unpost_route i d = ((500, Inl (Text ''Failed to unpost document'')), d)"
proof -
  have "filter (\<lambda>b. pb_goodsReceiptId b = Some i \<and> pb_quantityLeft b < pb_quantityTotal b) (ProductBatch d) \<noteq> []"
    using assms(3-5) by (auto simp: filter_empty_conv)
  then have "receipt_unpost_tx i d = Inl GoodsAlreadySold"
    using assms(1,2) by (simp add: receipt_unpost_tx_def)
  then show ?thesis
    by (simp add: receipts_unpost_route_def receipt_unpost_def transaction_def answer_def catch_reply_def known_or_def)
qed

theorem refused_unpost_reason_lost_witness:
  "receipts_unpost_route 1 sold_receipt_db =
     ((500, Inl (Text ''Failed to unpost document'')), sold_receipt_db)"
  by (rule refused_unpost_reason_lost[of _ _ "GoodsReceipt sold_receipt_db ! 0" "ProductBatch sold_receipt_db ! 0"])
    (simp_all add: sold_receipt_db_def two_batches_def new_batch_def)

end
