(* ===== verification/Auth.thy ===== *)
theory Auth
  imports Http
begin

text \<open>
  Who a request comes from: the middleware \<open>src/middleware/auth.ts\<close>, the login routes
  \<open>src/routes/auth.ts\<close> and the user administration \<open>src/routes/users.ts\<close>. The packages are parameters:
  \<open>verify\<close> is \<open>jwt.verify\<close> with the server's secret (None when it throws), \<open>sign\<close> is \<open>jwt.sign\<close>, \<open>hash\<close> and
  \<open>compare\<close> are the functions of bcrypt.
\<close>

section \<open>Requests and tokens\<close>

record request =
  rq_method :: string
  rq_path :: string
  rq_authorization :: "string option"
  rq_adminSecret :: "string option"
  rq_token :: "string option"

text \<open>The decoded payload of a token; a missing, null or empty property is None.\<close>

record claims =
  tk_id :: "ident option"
  tk_email :: "string option"
  tk_role :: "string option"
  tk_warehouseId :: "string option"
  tk_permissions :: "json_text option"

definition hex_digit :: "char \<Rightarrow> bool" where
  "hex_digit c \<longleftrightarrow> List.member ''0123456789abcdefABCDEF'' c"

text \<open>\<open>/^[0-9a-f]{8}-[0-9a-f]{4}-[0-9a-f]{4}-[0-9a-f]{4}-[0-9a-f]{12}$/i\<close>, matched group by group.\<close>

fun hex_groups :: "nat \<Rightarrow> nat list \<Rightarrow> string \<Rightarrow> bool" where
  "hex_groups 0 [] s \<longleftrightarrow> s = []"
| "hex_groups 0 (n # ns) (c # s) \<longleftrightarrow> c = CHR ''-'' \<and> hex_groups n ns s"
| "hex_groups (Suc k) ns (c # s) \<longleftrightarrow> hex_digit c \<and> hex_groups k ns s"
| "hex_groups _ _ _ \<longleftrightarrow> False"

definition is_uuid :: "string \<Rightarrow> bool" where
  "is_uuid s = hex_groups 8 [4, 4, 4, 12] s"

text \<open>\<open>authHeader.startsWith('Bearer ')\<close> and \<open>authHeader.split(' ')[1]\<close>.\<close>

definition is_bearer :: "string option \<Rightarrow> bool" where
  "is_bearer h = (case h of None \<Rightarrow> False | Some s \<Rightarrow> take 7 s = ''Bearer '')"

definition second_word :: "string \<Rightarrow> string option" where
  "second_word s = (case dropWhile (\<lambda>c. c \<noteq> CHR '' '') s of
     [] \<Rightarrow> None | _ # t \<Rightarrow> Some (takeWhile (\<lambda>c. c \<noteq> CHR '' '') t))"

definition non_empty :: "string option \<Rightarrow> string option" where
  "non_empty v = (case v of Some (c # cs) \<Rightarrow> Some (c # cs) | _ \<Rightarrow> None)"

section \<open>The middleware\<close>

text \<open>The row of the user replaces what the token says; a warehouse that is not a UUID is dropped.\<close>

definition refresh_claims :: "db \<Rightarrow> claims \<Rightarrow> claims" where
  "refresh_claims d decoded =
     (let c = (case Option.bind (tk_id decoded) (\<lambda>i. find_row usr_id i (Users d)) of
          None \<Rightarrow> decoded
        | Some u \<Rightarrow> decoded\<lparr>tk_role := Some (usr_role u), tk_warehouseId := usr_warehouseId u,
            tk_permissions := Some (coalesce (usr_permissions u) ''{}'')\<rparr>)
      in case non_empty (tk_warehouseId c) of None \<Rightarrow> c
         | Some w \<Rightarrow> if is_uuid w then c else c\<lparr>tk_warehouseId := None\<rparr>)"

definition secret_claims :: claims where
  "secret_claims = \<lparr>tk_id = None, tk_email = None, tk_role = Some ''admin'', tk_warehouseId = None,
     tk_permissions = None\<rparr>"

definition legacy_auth :: "string option \<Rightarrow> request \<Rightarrow> claims reply" where
  "legacy_auth secret rq = (case non_empty (rq_adminSecret rq) of
     None \<Rightarrow> reply_error 403 (Text ''Access denied. Valid token or admin secret required.'')
   | Some s \<Rightarrow> if secret = Some s then reply_ok 200 secret_claims
       else reply_error 403 (Text ''Access denied. Valid token or admin secret required.''))"

definition bearer_token :: "request \<Rightarrow> string option" where
  "bearer_token rq = (if is_bearer (rq_authorization rq)
     then non_empty (Option.bind (rq_authorization rq) second_word) else None)"

definition adminAuth ::
  "(string \<Rightarrow> claims option) \<Rightarrow> string option \<Rightarrow> request \<Rightarrow> db \<Rightarrow> claims reply" where
  "adminAuth verify secret rq d =
     (case map_option (refresh_claims d) (Option.bind (bearer_token rq) verify) of
        None \<Rightarrow> legacy_auth secret rq
      | Some c \<Rightarrow> if tk_role c = Some ''admin'' \<or> tk_role c = Some ''manager'' then reply_ok 200 c
          else legacy_auth secret rq)"

definition userAuth :: "(string \<Rightarrow> claims option) \<Rightarrow> request \<Rightarrow> db \<Rightarrow> claims reply" where
  "userAuth verify rq d =
     (case (if is_bearer (rq_authorization rq) then bearer_token rq else non_empty (rq_token rq)) of
        None \<Rightarrow> reply_error 401 (Text ''Token missing or Authorization header required'')
      | Some token \<Rightarrow> (case verify token of
          None \<Rightarrow> reply_error 401 (Text ''Invalid token'')
        | Some decoded \<Rightarrow> reply_ok 200 (refresh_claims d decoded)))"

text \<open>
  What the handlers read of \<open>req.user\<close>; \<open>key\<close> numbers the warehouse keys.
\<close>

definition as_req_user :: "(string \<Rightarrow> ident) \<Rightarrow> claims \<Rightarrow> req_user" where
  "as_req_user key c = \<lparr>ru_id = tk_id c, ru_role = coalesce (tk_role c) [],
     ru_warehouseId = map_option key (non_empty (tk_warehouseId c))\<rparr>"

section \<open>Login\<close>

definition login_claims :: "user \<Rightarrow> claims" where
  "login_claims u = \<lparr>tk_id = Some (usr_id u), tk_email = Some (usr_email u), tk_role = Some (usr_role u),
     tk_warehouseId = usr_warehouseId u, tk_permissions = None\<rparr>"

text \<open>What the routes show of a user: every column but the password.\<close>

record user_view =
  uv_id :: ident
  uv_email :: string
  uv_role :: string
  uv_warehouseId :: "string option"
  uv_counterpartyId :: "ident option"
  uv_organizationId :: "ident option"
  uv_preferences :: "json_text option"
  uv_permissions :: "json_text option"

definition view_user :: "user \<Rightarrow> user_view" where
  "view_user u = \<lparr>uv_id = usr_id u, uv_email = usr_email u, uv_role = usr_role u,
     uv_warehouseId = usr_warehouseId u, uv_counterpartyId = usr_counterpartyId u,
     uv_organizationId = usr_organizationId u, uv_preferences = usr_preferences u,
     uv_permissions = usr_permissions u\<rparr>"

text \<open>The answer of a login leaves out the counterparty and the organization.\<close>

definition login ::
  "(string \<Rightarrow> string \<Rightarrow> bool) \<Rightarrow> (claims \<Rightarrow> string) \<Rightarrow> string option \<Rightarrow> string option \<Rightarrow> db \<Rightarrow>
   (string \<times> user_view) reply" where
  "login compare sign email password d =
     (case (non_empty email, non_empty password) of
        (Some e, Some p) \<Rightarrow>
          (case find_row usr_email e (Users d) of
             None \<Rightarrow> reply_error 401 (Text ''Invalid credentials'')
           | Some user \<Rightarrow>
               if compare p (usr_password user) then reply_ok 200 (sign (login_claims user),
                   (view_user user)\<lparr>uv_counterpartyId := None, uv_organizationId := None\<rparr>)
               else reply_error 401 (Text ''Invalid credentials''))
      | _ \<Rightarrow> reply_error 400 (Text ''Email and password are required''))"

text \<open>\<open>GET /api/auth/verify\<close> takes the second word of any authorization header.\<close>

definition verify_route :: "(string \<Rightarrow> claims option) \<Rightarrow> request \<Rightarrow> nat \<times> bool" where
  "verify_route verify rq =
     (case non_empty (Option.bind (rq_authorization rq) second_word) of
        None \<Rightarrow> (401, False)
      | Some token \<Rightarrow> if verify token = None then (401, False) else (200, True))"

definition emergency_reset :: "(string \<Rightarrow> string) \<Rightarrow> db \<Rightarrow> string reply \<times> db" where
  "emergency_reset hash d =
     (reply_ok 200 ''Admin password reset to 123456'',
      d\<lparr>Users := map_where (\<lambda>u. usr_email u = ''admin@test.com'')
          (\<lambda>u. u\<lparr>usr_password := hash ''123456''\<rparr>) (Users d)\<rparr>)"

section \<open>User administration\<close>

definition lower_char :: "char \<Rightarrow> char" where
  "lower_char c = (let n = of_char c :: nat in if 65 \<le> n \<and> n \<le> 90 then char_of (n + 32) else c)"

definition requireAdmin :: "claims \<Rightarrow> bool" where
  "requireAdmin c = (case non_empty (tk_role c) of None \<Rightarrow> False | Some r \<Rightarrow> map lower_char r = ''admin'')"

definition update_preferences :: "claims \<Rightarrow> json_text option \<Rightarrow> db \<Rightarrow> json_text option reply \<times> db" where
  "update_preferences c preferences d =
     (case tk_id c of
        None \<Rightarrow> (reply_error 401 (Text ''Unauthorized''), d)
      | Some i \<Rightarrow>
          let p = Some (coalesce preferences ''{}'')
          in if find_row usr_id i (Users d) = None then (reply_error 404 (Text ''User not found''), d)
             else (reply_ok 200 p,
               d\<lparr>Users := map_where (\<lambda>u. usr_id u = i) (\<lambda>u. u\<lparr>usr_preferences := p\<rparr>) (Users d)\<rparr>))"

definition list_users :: "(string \<Rightarrow> nat) \<Rightarrow> db \<Rightarrow> user_view list reply" where
  "list_users collate d = reply_ok 200 (map view_user (sort_key (\<lambda>u. collate (usr_email u)) (Users d)))"

text \<open>\<open>ub_warehouseId\<close>, \<open>ub_preferences\<close> and \<open>ub_permissions\<close> tell a missing property (None) from null (Some None).\<close>

record user_body =
  ub_email :: "string option"
  ub_password :: "string option"
  ub_role :: "string option"
  ub_counterpartyId :: "ident option"
  ub_organizationId :: "ident option"
  ub_warehouseId :: "string option option"
  ub_preferences :: "json_text option option"
  ub_permissions :: "json_text option option"

definition sent_warehouse :: "string option option \<Rightarrow> string option" where
  "sent_warehouse v = (case non_empty (Option.bind v id) of
     None \<Rightarrow> None | Some w \<Rightarrow> if is_uuid w then Some w else None)"

definition create_user :: "(string \<Rightarrow> string) \<Rightarrow> user_body \<Rightarrow> db \<Rightarrow> user_view reply \<times> db" where
  "create_user hash b d =
     (case (non_empty (ub_email b), non_empty (ub_password b), non_empty (ub_role b)) of
        (Some email, Some password, Some role) \<Rightarrow>
          if find_row usr_email email (Users d) \<noteq> None
          then (reply_error 400 (Text ''User with this email already exists''), d)
          else
            let row = \<lparr>usr_id = next_uuid d, usr_email = email, usr_role = role,
                  usr_warehouseId = sent_warehouse (ub_warehouseId b), usr_priceType = None,
                  usr_password = hash password, usr_counterpartyId = ub_counterpartyId b,
                  usr_organizationId = ub_organizationId b, usr_preferences = Some ''{}'',
                  usr_permissions = Some (coalesce (Option.bind (ub_permissions b) id) ''{}'')\<rparr>
            in (reply_ok 201 (view_user row), d\<lparr>next_uuid := Suc (next_uuid d), Users := Users d @ [row]\<rparr>)
      | _ \<Rightarrow> (reply_error 400 (Text ''Email, password, and role are required''), d))"

definition change_user :: "(string \<Rightarrow> string) \<Rightarrow> user_body \<Rightarrow> string \<Rightarrow> string \<Rightarrow> user \<Rightarrow> user" where
  "change_user hash b email role u = u\<lparr>
     usr_email := email, usr_role := role,
     usr_counterpartyId := ub_counterpartyId b, usr_organizationId := ub_organizationId b,
     usr_warehouseId := (if ub_warehouseId b = None then usr_warehouseId u else sent_warehouse (ub_warehouseId b)),
     usr_preferences := coalesce (ub_preferences b) (usr_preferences u),
     usr_permissions := coalesce (ub_permissions b) (usr_permissions u),
     usr_password := (case non_empty (ub_password b) of None \<Rightarrow> usr_password u | Some p \<Rightarrow> hash p)\<rparr>"

definition update_user :: "(string \<Rightarrow> string) \<Rightarrow> ident \<Rightarrow> user_body \<Rightarrow> db \<Rightarrow> user_view reply \<times> db" where
  "update_user hash i b d =
     (case (non_empty (ub_email b), non_empty (ub_role b)) of
        (Some email, Some role) \<Rightarrow>
          (case find_row usr_id i (Users d) of
             None \<Rightarrow> (reply_error 404 (Text ''User not found''), d)
           | Some u \<Rightarrow>
               if list_all (\<lambda>v. usr_email v = email \<longrightarrow> usr_id v = i) (Users d)
               then (reply_ok 200 (view_user (change_user hash b email role u)),
                 d\<lparr>Users := map_where (\<lambda>v. usr_id v = i) (change_user hash b email role) (Users d)\<rparr>)
               else (reply_error 500 (Text ''Internal server error''), d))
      | _ \<Rightarrow> (reply_error 400 (Text ''Email and role are required''), d))"

section \<open>UUIDs\<close>

text \<open>The shape the regular expression asks for: True is a hexadecimal digit, False a dash.\<close>

definition uuid_shape :: "nat \<Rightarrow> nat list \<Rightarrow> bool list" where
  "uuid_shape k ns = replicate k True @ concat (map (\<lambda>n. False # replicate n True) ns)"

definition fits :: "bool \<Rightarrow> char \<Rightarrow> bool" where
  "fits digit c \<longleftrightarrow> (if digit then hex_digit c else c = CHR ''-'')"

lemma uuid_shape_simps [simp]:
  "uuid_shape 0 [] = []" "uuid_shape 0 (n # ns) = False # uuid_shape n ns"
  "uuid_shape (Suc k) ns = True # uuid_shape k ns" "uuid_shape k (n # ns) \<noteq> []"
  by (simp_all add: uuid_shape_def)

lemma hex_groups_shape: "hex_groups k ns s \<longleftrightarrow> list_all2 fits (uuid_shape k ns) s"
  by (induction k ns s rule: hex_groups.induct) (simp_all add: fits_def)

lemma uuid_shape_nth:
  "length (uuid_shape 8 [4, 4, 4, 12]) = 36"
  "\<forall>i \<in> {0..<36}. uuid_shape 8 [4, 4, 4, 12] ! i \<longleftrightarrow> i \<notin> {8, 13, 18, 23}"
  by code_simp+

text \<open>
  The matcher is the regular expression read position by position: 36 characters, dashes at the positions
  8, 13, 18 and 23, hexadecimal digits of either case everywhere else.
\<close>

theorem is_uuid_positions:
  "is_uuid s \<longleftrightarrow> length s = 36 \<and> list_all (\<lambda>i. s ! i = CHR ''-'') [8, 13, 18, 23] \<and>
     list_all (\<lambda>i. i \<in> {8, 13, 18, 23} \<or> hex_digit (s ! i)) [0..<36]"
proof -
  define D :: "nat set" where "D = {8, 13, 18, 23}"
  define shape where "shape = uuid_shape 8 [4, 4, 4, 12]"
  have D: "D \<subseteq> {0..<36}" unfolding D_def by code_simp
  have shape: "length shape = 36" "\<forall>i \<in> {0..<36}. shape ! i \<longleftrightarrow> i \<notin> D"
    unfolding shape_def D_def by (rule uuid_shape_nth)+
  have "is_uuid s \<longleftrightarrow> length shape = length s \<and> (\<forall>i < length shape. fits (shape ! i) (s ! i))"
    unfolding is_uuid_def hex_groups_shape list_all2_conv_all_nth shape_def ..
  also have "\<dots> \<longleftrightarrow> length s = 36 \<and> (\<forall>i \<in> {0..<36}. fits (i \<notin> D) (s ! i))"
    using shape by auto
  also have "\<dots> \<longleftrightarrow> length s = 36 \<and> (\<forall>i \<in> D. s ! i = CHR ''-'') \<and> (\<forall>i \<in> {0..<36}. i \<in> D \<or> hex_digit (s ! i))"
    using D by (auto simp: fits_def split: if_splits)
  finally show ?thesis unfolding D_def list_all_iff set_upt list.set .
qed

section \<open>What the middleware promises\<close>

lemma refresh_id [simp]: "tk_id (refresh_claims d c) = tk_id c"
  by (simp add: refresh_claims_def Let_def split: option.split)

lemma refresh_known:
  assumes "tk_id c = Some i" "find_row usr_id i (Users d) = Some u"
  shows "tk_role (refresh_claims d c) = Some (usr_role u)"
    and "tk_warehouseId (refresh_claims d c) =
      (case non_empty (usr_warehouseId u) of None \<Rightarrow> usr_warehouseId u
       | Some w \<Rightarrow> if is_uuid w then usr_warehouseId u else None)"
  using assms by (simp_all add: refresh_claims_def Let_def split: option.split)

lemma refresh_unknown:
  assumes "\<And>i. tk_id c = Some i \<Longrightarrow> find_row usr_id i (Users d) = None"
  shows "tk_role (refresh_claims d c) = tk_role c"
proof -
  have "Option.bind (tk_id c) (\<lambda>i. find_row usr_id i (Users d)) = None"
    using assms by (cases "tk_id c") auto
  then show ?thesis by (simp add: refresh_claims_def Let_def split: option.split)
qed

lemma userAuth_ok:
  assumes "userAuth verify rq d = (200, Inr c)"
  obtains token decoded where "verify token = Some decoded" "c = refresh_claims d decoded"
  using assms by (auto simp: userAuth_def reply_ok_def reply_error_def split: option.splits if_splits)

lemma non_empty_uuid: "is_uuid w \<Longrightarrow> non_empty (Some w) = Some w"
  by (cases w) (auto simp: is_uuid_def non_empty_def numeral_eq_Suc)

text \<open>What the middleware reads of the row: the warehouse counts only if it is a UUID.\<close>

lemma userAuth_row:
  assumes "userAuth verify rq d = (200, Inr c)" and "tk_id c = Some i" and "find_row usr_id i (Users d) = Some u"
  shows "tk_role c = Some (usr_role u)"
    and "tk_warehouseId c = (case usr_warehouseId u of None \<Rightarrow> None | Some w \<Rightarrow> if w = [] \<or> is_uuid w then Some w else None)"
proof -
  obtain token decoded where c: "c = refresh_claims d decoded" using assms(1) by (rule userAuth_ok)
  with assms(2) have "tk_id decoded = Some i" by simp
  note r = refresh_known[OF this assms(3)]
  show "tk_role c = Some (usr_role u)" by (simp add: c r(1))
  show "tk_warehouseId c = (case usr_warehouseId u of None \<Rightarrow> None | Some w \<Rightarrow> if w = [] \<or> is_uuid w then Some w else None)"
    unfolding c r(2) by (auto simp: non_empty_def split: option.split list.split)
qed

lemma userAuth_restricts:
  assumes "userAuth verify rq d = (200, Inr c)" and "tk_id c = Some i" and "find_row usr_id i (Users d) = Some u"
    and "usr_role u \<noteq> ''admin''" "usr_warehouseId u = Some w" "is_uuid w"
  shows "restricted_to (Some (as_req_user key c)) = Some (key w)"
  using userAuth_row[OF assms(1-3)] assms(4-6)
  by (simp add: restricted_to_def as_req_user_def coalesce_def non_empty_uuid)

definition uuid_text :: string where
  "uuid_text = ''0a1b2c3d-0000-4000-8000-0123456789AB''"

definition manager :: user where
  "manager = \<lparr>usr_id = 3, usr_email = ''m@test.com'', usr_role = ''manager'', usr_warehouseId = Some uuid_text,
     usr_priceType = None, usr_password = ''h'', usr_counterpartyId = None, usr_organizationId = None,
     usr_preferences = None, usr_permissions = None\<rparr>"

definition admin :: user where
  "admin = manager\<lparr>usr_id := 1, usr_email := ''admin@test.com'', usr_role := ''admin'', usr_warehouseId := None\<rparr>"

definition staff_db :: db where
  "staff_db = empty_db\<lparr>Users := [admin, manager]\<rparr>"

definition bearer :: "string \<Rightarrow> request" where
  "bearer t = \<lparr>rq_method = ''GET'', rq_path = ''/api/realizations'', rq_authorization = Some (''Bearer '' @ t),
     rq_adminSecret = None, rq_token = None\<rparr>"

definition forged :: claims where
  "forged = \<lparr>tk_id = Some 3, tk_email = None, tk_role = Some ''admin'', tk_warehouseId = None,
     tk_permissions = None\<rparr>"

lemma staff_users [simp]: "Users staff_db = [admin, manager]"
  by (simp add: staff_db_def)

section \<open>Logging in\<close>

definition with_token :: "string \<Rightarrow> request \<Rightarrow> request" where
  "with_token t rq = rq\<lparr>rq_authorization := Some (''Bearer '' @ t)\<rparr>"

lemma bearer_with_token:
  assumes "t \<noteq> []" "CHR '' '' \<notin> set t"
  shows "is_bearer (rq_authorization (with_token t rq))" "bearer_token (with_token t rq) = Some t"
proof -
  have "takeWhile (\<lambda>c. c \<noteq> CHR '' '') t = t" using assms(2) by (intro takeWhile_eq_all_conv[THEN iffD2] ballI notI) (erule notE, simp only:)
  with assms(1) show "is_bearer (rq_authorization (with_token t rq))" "bearer_token (with_token t rq) = Some t"
    by (cases t; simp add: with_token_def is_bearer_def bearer_token_def second_word_def non_empty_def)+
qed

lemma login_ok:
  assumes "login compare sign email password d = (200, Inr (token, v))"
  obtains e u where "email = Some e" "find_row usr_email e (Users d) = Some u" "token = sign (login_claims u)"
    "uv_id v = usr_id u" "uv_role v = usr_role u"
  using assms by (auto simp: login_def reply_ok_def reply_error_def non_empty_def view_user_def
      split: option.splits list.splits if_splits)

lemma login_claims_id [simp]: "tk_id (login_claims u) = Some (usr_id u)"
  by (simp add: login_claims_def)

text \<open>
  What login gives, the middleware takes. If the token verifies to what was signed, a request with the
  token of a login passes \<open>userAuth\<close> as the user that logged in, with the role of its row.
\<close>

theorem login_then_user_auth:
  assumes "login compare sign email password d = (200, Inr (token, v))"
    and "\<And>c. verify (sign c) = Some c" and "token \<noteq> []" and "CHR '' '' \<notin> set token"
    and "distinct (map usr_id (Users d))"
  shows "\<exists>c. userAuth verify (with_token token rq) d = (200, Inr c) \<and>
    tk_id c = Some (uv_id v) \<and> tk_role c = Some (uv_role v)"
proof -
  from assms(1) obtain e u where u: "find_row usr_email e (Users d) = Some u" "token = sign (login_claims u)"
    "uv_id v = usr_id u" "uv_role v = usr_role u" by (rule login_ok)
  then have "find_row usr_id (usr_id u) (Users d) = Some u"
    using assms(5) by (intro find_row_distinct) (auto dest: find_row_Some)
  with u refresh_known(1)[of "login_claims u" "usr_id u" d u] bearer_with_token[OF assms(3,4)] assms(2)
  show ?thesis by (auto simp: userAuth_def reply_ok_def)
qed

text \<open>A token format for the witnesses: the user's number in unary, and the fields one after the other.\<close>

definition plain_hash :: "string \<Rightarrow> string" where "plain_hash p = CHR ''#'' # p"
definition plain_compare :: "string \<Rightarrow> string \<Rightarrow> bool" where "plain_compare p h \<longleftrightarrow> h = plain_hash p"

fun write_text :: "string option \<Rightarrow> string" where
  "write_text None = ''0''"
| "write_text (Some s) = CHR ''1'' # replicate (length s) (CHR ''x'') @ CHR ''y'' # s"

fun read_count :: "string \<Rightarrow> nat \<times> string" where
  "read_count (c # s) = (if c = CHR ''x'' then (let (n, r) = read_count s in (Suc n, r)) else (0, s))"
| "read_count [] = (0, [])"

fun read_text :: "string \<Rightarrow> string option \<times> string" where
  "read_text (c # s) = (if c = CHR ''1'' then (let (n, r) = read_count s in (Some (take n r), drop n r)) else (None, s))"
| "read_text [] = (None, [])"

definition plain_sign :: "claims \<Rightarrow> string" where
  "plain_sign c = write_text (map_option (\<lambda>i. replicate i (CHR ''i'')) (tk_id c)) @ write_text (tk_email c) @
     write_text (tk_role c) @ write_text (tk_warehouseId c) @ write_text (tk_permissions c)"

definition plain_verify :: "string \<Rightarrow> claims option" where
  "plain_verify t = (let (a, t1) = read_text t; (b, t2) = read_text t1; (c, t3) = read_text t2;
     (e, t4) = read_text t3; (f, t5) = read_text t4
     in Some \<lparr>tk_id = map_option length a, tk_email = b, tk_role = c, tk_warehouseId = e, tk_permissions = f\<rparr>)"

lemma read_count_write: "read_count (replicate n (CHR ''x'') @ CHR ''y'' # s) = (n, s)"
  by (induction n) auto

lemma read_text_write: "read_text (write_text v @ s) = (v, s)"
  by (cases v) (simp_all add: read_count_write)

lemma plain_verify_sign: "plain_verify (plain_sign c) = Some c"
  using read_text_write[of _ "[]"]
  by (simp add: plain_verify_def plain_sign_def read_text_write option.map_comp comp_def option.map_ident)

definition login_db :: db where
  "login_db = staff_db\<lparr>Users := [admin\<lparr>usr_password := plain_hash ''pw''\<rparr>, manager]\<rparr>"

theorem login_then_user_auth_witness:
  "\<exists>token v c. login plain_compare plain_sign (Some ''admin@test.com'') (Some ''pw'') login_db = (200, Inr (token, v)) \<and>
     userAuth plain_verify (with_token token (bearer [])) login_db = (200, Inr c) \<and> tk_role c = Some ''admin''"
proof -
  let ?u = "admin\<lparr>usr_password := plain_hash ''pw''\<rparr>" and ?token = "plain_sign (login_claims (admin\<lparr>usr_password := plain_hash ''pw''\<rparr>))"
  let ?v = "(view_user ?u)\<lparr>uv_counterpartyId := None, uv_organizationId := None\<rparr>"
  have l: "login plain_compare plain_sign (Some ''admin@test.com'') (Some ''pw'') login_db = (200, Inr (?token, ?v))"
    by (simp add: login_def non_empty_def login_db_def admin_def plain_compare_def reply_ok_def)
  have t: "?token \<noteq> []" "CHR '' '' \<notin> set ?token" "distinct (map usr_id (Users login_db))"
    by (simp_all add: plain_sign_def login_claims_def admin_def manager_def login_db_def)
  have "uv_role ?v = ''admin''" by (simp add: view_user_def admin_def)
  with login_then_user_auth[OF l plain_verify_sign t, of "bearer []"] l show ?thesis by metis
qed

text \<open>
  C16: anyone can become the administrator. Whatever the database holds, if \<open>admin@test.com\<close> is an
  administrator, then after one request to \<open>/api/auth/emergency-reset\<close>, which asks for no token, the login
  with the password 123456 succeeds and its token passes \<open>adminAuth\<close>, with no secret configured.
\<close>

theorem emergency_reset_opens_admin:
  assumes "find_row usr_email ''admin@test.com'' (Users d) = Some u" and "usr_role u = ''admin''"
    and "distinct (map usr_id (Users d))" and "\<And>p. compare p (hash p)" and "\<And>c. verify (sign c) = Some c"
    and "sign (login_claims u) \<noteq> []" and "CHR '' '' \<notin> set (sign (login_claims u))"
  shows "\<exists>token v c. let d' = snd (emergency_reset hash d) in
    login compare sign (Some ''admin@test.com'') (Some ''123456'') d' = (200, Inr (token, v)) \<and>
    adminAuth verify None (with_token token rq) d' = (200, Inr c) \<and> tk_id c = Some (usr_id u)"
proof -
  let ?d = "snd (emergency_reset hash d)" and ?u = "u\<lparr>usr_password := hash ''123456''\<rparr>"
  have users: "Users ?d = map_where (\<lambda>u. usr_email u = ''admin@test.com'') (\<lambda>u. u\<lparr>usr_password := hash ''123456''\<rparr>) (Users d)"
    by (simp add: emergency_reset_def)
  have email: "find_row usr_email ''admin@test.com'' (Users ?d) = Some ?u"
    using assms(1) find_row_Some[OF assms(1)] by (simp add: users find_row_map_where)
  have "find_row usr_id (usr_id u) (Users d) = Some u"
    using assms(1,3) by (intro find_row_distinct) (auto dest: find_row_Some)
  then have id: "find_row usr_id (usr_id u) (Users ?d) = Some ?u"
    using find_row_Some[OF assms(1)] by (simp add: users find_row_map_where)
  have claims: "login_claims ?u = login_claims u" by (simp add: login_claims_def)
  have "login compare sign (Some ''admin@test.com'') (Some ''123456'') ?d = (200, Inr (sign (login_claims u),
      (view_user ?u)\<lparr>uv_counterpartyId := None, uv_organizationId := None\<rparr>))"
    using email assms(4) claims by (simp add: login_def non_empty_def reply_ok_def)
  moreover have "tk_role (refresh_claims ?d (login_claims u)) = Some ''admin''"
    using refresh_known(1)[OF login_claims_id id] assms(2) by simp
  then have "adminAuth verify None (with_token (sign (login_claims u)) rq) ?d
      = (200, Inr (refresh_claims ?d (login_claims u)))"
    using bearer_with_token[OF assms(6,7)] assms(5) by (simp add: adminAuth_def reply_ok_def)
  ultimately show ?thesis by (auto simp: Let_def)
qed

theorem emergency_reset_opens_admin_witness:
  "\<exists>token v c. login plain_compare plain_sign (Some ''admin@test.com'') (Some ''123456'')
       (snd (emergency_reset plain_hash staff_db)) = (200, Inr (token, v)) \<and>
     adminAuth plain_verify None (with_token token (bearer [])) (snd (emergency_reset plain_hash staff_db)) = (200, Inr c) \<and>
     tk_id c = Some 1"
proof -
  have u: "find_row usr_email ''admin@test.com'' (Users staff_db) = Some admin" "usr_role admin = ''admin''"
    "usr_id admin = 1" "distinct (map usr_id (Users staff_db))" "\<And>p. plain_compare p (plain_hash p)"
    "plain_sign (login_claims admin) \<noteq> []" "CHR '' '' \<notin> set (plain_sign (login_claims admin))"
    by (simp_all add: admin_def manager_def plain_compare_def plain_sign_def login_claims_def)
  from emergency_reset_opens_admin[where compare = plain_compare and hash = plain_hash and verify = plain_verify
      and sign = plain_sign and rq = "bearer []", OF u(1,2,4,5) plain_verify_sign u(6,7)] u(3)
  show ?thesis by (simp add: Let_def)
qed

section \<open>The table of users\<close>

definition users_ok :: "db \<Rightarrow> bool" where
  "users_ok d \<longleftrightarrow> distinct (map usr_id (Users d)) \<and> distinct (map usr_email (Users d)) \<and>
     list_all (\<lambda>u. usr_id u < next_uuid d) (Users d)"

lemma map_where_keys:
  assumes "\<And>u. P u \<Longrightarrow> usr_id (f u) = usr_id u" "\<And>u. P u \<Longrightarrow> usr_email (f u) = usr_email u" "users_ok d"
  shows "users_ok (d\<lparr>Users := map_where P f (Users d)\<rparr>)"
proof -
  have "map usr_id (map_where P f (Users d)) = map usr_id (Users d)"
    "map usr_email (map_where P f (Users d)) = map usr_email (Users d)"
    using assms(1,2) by (auto intro: map_map_where)
  with assms show ?thesis by (auto simp: users_ok_def list_all_iff set_map_where)
qed

lemma users_ok_create: "users_ok d \<Longrightarrow> users_ok (snd (create_user hash b d))"
proof -
  assume ok: "users_ok d"
  then have "users_ok (d\<lparr>next_uuid := Suc (next_uuid d), Users := Users d @ [row]\<rparr>)"
    if "find_row usr_email (usr_email row) (Users d) = None" "usr_id row = next_uuid d" for row
    using that by (auto simp: users_ok_def find_row_None_iff list_all_iff)
  with ok show ?thesis by (simp add: create_user_def Let_def split: option.split)
qed

lemma users_ok_update:
  assumes "users_ok d"
  shows "users_ok (snd (update_user hash i b d))"
proof -
  have "users_ok (d\<lparr>Users := map_where (\<lambda>v. usr_id v = i) (change_user hash b email role) (Users d)\<rparr>)"
    if email: "list_all (\<lambda>v. usr_email v = email \<longrightarrow> usr_id v = i) (Users d)" for email role
  proof -
    let ?f = "\<lambda>v. if usr_id v = i then change_user hash b email role v else v"
    have id: "usr_id (?f v) = usr_id v" for v by (simp add: change_user_def)
    have inj: "inj_on usr_email (?f ` set (Users d))"
      using assms email unfolding users_ok_def list_all_iff distinct_map
      by (intro inj_onI) (auto simp: change_user_def inj_on_def split: if_splits)
    have ids: "map usr_id (map ?f (Users d)) = map usr_id (Users d)" using id by simp
    have "distinct (map usr_id (map ?f (Users d)))" unfolding ids using assms by (simp add: users_ok_def)
    from this inj have "distinct (map usr_email (map ?f (Users d)))"
      unfolding distinct_map set_map by blast
    moreover have "list_all (\<lambda>u. usr_id u < next_uuid d) (map ?f (Users d))"
      using assms by (auto simp: users_ok_def list_all_iff change_user_def)
    moreover have "distinct (map usr_id (map ?f (Users d)))" by fact
    ultimately show ?thesis by (simp add: users_ok_def map_where_def del: map_map)
  qed
  with assms show ?thesis by (simp add: update_user_def split: option.split)
qed

lemma users_ok_preferences: "users_ok d \<Longrightarrow> users_ok (snd (update_preferences c p d))"
  by (simp add: update_preferences_def Let_def map_where_keys split: option.split)

lemma users_ok_reset: "users_ok d \<Longrightarrow> users_ok (snd (emergency_reset hash d))"
  by (simp add: emergency_reset_def map_where_keys)

text \<open>
  The two keys of the table hold. Creating and changing users, changing preferences and the emergency
  reset keep the numbers and the email addresses of the users distinct and the numbers below the supply.
\<close>

theorem user_keys_kept:
  assumes "users_ok d"
  shows "users_ok (snd (create_user hash b d)) \<and> users_ok (snd (update_user hash i b d)) \<and>
    users_ok (snd (update_preferences c p d)) \<and> users_ok (snd (emergency_reset hash d))"
  using assms by (simp add: users_ok_create users_ok_update users_ok_preferences users_ok_reset)

definition new_manager :: user_body where
  "new_manager = \<lparr>ub_email = Some ''n@test.com'', ub_password = Some ''pw'', ub_role = Some ''manager'',
     ub_counterpartyId = None, ub_organizationId = None, ub_warehouseId = Some (Some ''3''),
     ub_preferences = None, ub_permissions = None\<rparr>"

theorem user_keys_kept_witness:
  "users_ok (snd (create_user plain_hash new_manager staff_db)) \<and>
     map usr_email (Users (snd (create_user plain_hash new_manager staff_db))) =
       [''admin@test.com'', ''m@test.com'', ''n@test.com'']"
proof -
  have "users_ok staff_db" by (simp add: users_ok_def staff_db_def admin_def manager_def empty_db_def)
  from user_keys_kept[OF this] have "users_ok (snd (create_user plain_hash new_manager staff_db))" by blast
  moreover have "map usr_email (Users (snd (create_user plain_hash new_manager staff_db))) =
      [''admin@test.com'', ''m@test.com'', ''n@test.com'']"
    by (simp add: create_user_def new_manager_def non_empty_def admin_def manager_def Let_def)
  ultimately show ?thesis ..
qed

end
