(* ===== verification/Queries.thy ===== *)
theory Queries
  imports DocNumber Http "HOL-Library.Multiset"
begin

text \<open>
  The query forms of the reports: inner joins, GROUP BY with its sums, calendar days of stored times, windows of
  days, and running totals that JavaScript adds up over the rows of an answer.
\<close>

section \<open>Joins\<close>

text \<open>\<open>a JOIN b ON on a b\<close>; the rows of \<open>a\<close> that match nothing are dropped.\<close>

definition join :: "('a \<Rightarrow> 'b \<Rightarrow> bool) \<Rightarrow> 'a list \<Rightarrow> 'b list \<Rightarrow> ('a \<times> 'b) list" where
  "join on xs ys = concat (map (\<lambda>x. map (Pair x) (filter (on x) ys)) xs)"

lemma join_Nil [simp]: "join on [] ys = []" and
  join_Cons [simp]: "join on (x # xs) ys = map (Pair x) (filter (on x) ys) @ join on xs ys"
  by (simp_all add: join_def)

lemma set_join: "set (join on xs ys) = {(x, y). x \<in> set xs \<and> y \<in> set ys \<and> on x y}"
  by (auto simp: join_def)

lemma filter_key_distinct:
  "distinct (map key ys) \<Longrightarrow> filter (\<lambda>y. key y = k) ys = (case find_row key k ys of None \<Rightarrow> [] | Some y \<Rightarrow> [y])"
proof (induction ys)
  case (Cons y ys)
  show ?case
  proof (cases "key y = k")
    case True
    with Cons.prems have "filter (\<lambda>y. key y = k) ys = []" by (auto simp: filter_empty_conv image_iff)
    with True show ?thesis by simp
  qed (use Cons in simp)
qed simp

text \<open>A join on a key of the second table is a filter of the first.\<close>

lemma join_on_key:
  assumes "distinct (map key ys)"
  shows "map fst (join (\<lambda>x y. f x = key y) xs ys) = filter (\<lambda>x. f x \<in> key ` set ys) xs"
proof (induction xs)
  case (Cons x xs)
  have "filter (\<lambda>y. f x = key y) ys = filter (\<lambda>y. key y = f x) ys" by (rule filter_cong) auto
  then have "filter (\<lambda>y. f x = key y) ys = (case find_row key (f x) ys of None \<Rightarrow> [] | Some y \<Rightarrow> [y])"
    using filter_key_distinct[OF assms] by simp
  then show ?case using Cons find_row_None_iff[of key "f x" ys]
    by (auto split: option.splits dest: find_row_Some)
qed simp

lemma join_on_key':
  assumes "distinct (map key ys)"
  shows "map fst (join (\<lambda>x y. key y = f x) xs ys) = filter (\<lambda>x. f x \<in> key ` set ys) xs"
  using join_on_key[OF assms, of f xs] by (simp only: eq_commute[of "f _"])

lemma join_filter: "join on xs (filter P ys) = filter (P \<circ> snd) (join on xs ys)"
  by (induction xs) (auto simp: filter_map o_def intro: arg_cong[of _ _ "map (Pair _)"] filter_cong)

section \<open>GROUP BY\<close>

definition group_by :: "('a \<Rightarrow> 'k) \<Rightarrow> 'a list \<Rightarrow> ('k \<times> 'a list) list" where
  "group_by key xs = map (\<lambda>k. (k, filter (\<lambda>x. key x = k) xs)) (remdups (map key xs))"

definition sum_of :: "('a \<Rightarrow> rat) \<Rightarrow> 'a list \<Rightarrow> rat" where
  "sum_of f xs = sum_list (map f xs)"

lemma sum_of_simps [simp]:
  "sum_of f [] = 0" "sum_of f (x # xs) = f x + sum_of f xs" "sum_of f (xs @ ys) = sum_of f xs + sum_of f ys"
  by (simp_all add: sum_of_def)

lemma sum_of_map [simp]: "sum_of f (map g xs) = sum_of (\<lambda>x. f (g x)) xs"
  by (simp add: sum_of_def o_def)

lemma sum_of_0 [simp]: "sum_of (\<lambda>_. 0) xs = 0"
  by (induction xs) auto

lemma sum_of_add: "sum_of (\<lambda>x. f x + g x) xs = sum_of f xs + sum_of g xs"
  by (induction xs) auto

lemma sum_of_minus: "sum_of (\<lambda>x. - f x) xs = - sum_of f xs"
  by (induction xs) auto

lemma sum_of_diff: "sum_of (\<lambda>x. f x - g x) xs = sum_of f xs - sum_of g xs"
  by (induction xs) auto

lemma sum_of_filter: "sum_of f (filter P xs) = sum_of (\<lambda>x. if P x then f x else 0) xs"
  by (induction xs) auto

lemma sum_of_filter_if: "sum_of (\<lambda>x. if P x then f x else 0) (filter Q xs) = sum_of f (filter (\<lambda>x. P x \<and> Q x) xs)"
  by (induction xs) auto

lemma sum_of_disjoint:
  assumes "\<And>x. x \<in> set xs \<Longrightarrow> R x \<longleftrightarrow> P x \<or> Q x" and "\<And>x. x \<in> set xs \<Longrightarrow> \<not> (P x \<and> Q x)"
  shows "sum_of f (filter R xs) = sum_of f (filter P xs) + sum_of f (filter Q xs)"
  using assms by (induction xs) auto

lemma sum_of_cong: "(\<And>x. x \<in> set xs \<Longrightarrow> f x = g x) \<Longrightarrow> sum_of f xs = sum_of g xs"
  by (induction xs) auto

lemma sum_of_1: "sum_of (\<lambda>_. 1) xs = of_nat (length xs)"
  by (induction xs) auto

text \<open>ORDER BY changes no sum.\<close>

lemma sum_of_mset: "mset xs = mset ys \<Longrightarrow> sum_of f xs = sum_of f ys"
  unfolding sum_of_def by (metis mset_map sum_mset_sum_list)

lemma sum_of_sort_key [simp]: "sum_of f (sort_key g xs) = sum_of f xs"
  by (rule sum_of_mset) simp

lemma distinct_map_sort_key [simp]: "distinct (map f (sort_key g xs)) = distinct (map f xs)"
  by (rule mset_eq_imp_distinct_iff) simp

lemma sum_of_join: "sum_of h (join on xs ys) = sum_of (\<lambda>y. sum_of (\<lambda>x. h (x, y)) (filter (\<lambda>x. on x y) xs)) ys"
proof (induction xs)
  case (Cons x xs)
  have "sum_of h (join on (x # xs) ys) =
      sum_of (\<lambda>y. (if on x y then h (x, y) else 0) + sum_of (\<lambda>x. h (x, y)) (filter (\<lambda>x. on x y) xs)) ys"
    by (simp add: sum_of_add sum_of_filter Cons)
  also have "\<dots> = sum_of (\<lambda>y. sum_of (\<lambda>x. h (x, y)) (filter (\<lambda>x. on x y) (x # xs))) ys" by (rule sum_of_cong) simp
  finally show ?case .
qed simp

lemma sum_of_join_swap: "sum_of (\<lambda>p. f (fst p)) (join on xs ys) = sum_of (\<lambda>y. sum_of f (filter (\<lambda>x. on x y) xs)) ys"
  by (simp add: sum_of_join)

lemma on_grid_sum_of: "(\<And>x. x \<in> set xs \<Longrightarrow> on_grid s (f x)) \<Longrightarrow> on_grid s (sum_of f xs)"
  unfolding sum_of_def by (rule on_grid_sum_list)

lemma sum_of_single: "distinct ks \<Longrightarrow> sum_of (\<lambda>k. if a = k then v else 0) ks = (if a \<in> set ks then v else 0)"
  by (induction ks) auto

lemma sum_of_by_key:
  "distinct ks \<Longrightarrow> key ` set xs \<subseteq> set ks \<Longrightarrow> sum_of (\<lambda>k. sum_of f (filter (\<lambda>x. key x = k) xs)) ks = sum_of f xs"
proof (induction xs)
  case (Cons x xs)
  have single: "sum_of (\<lambda>k. if key x = k then f x else 0) ks = f x"
    using Cons.prems by (simp add: sum_of_single)
  have "sum_of (\<lambda>k. sum_of f (filter (\<lambda>y. key y = k) (x # xs))) ks =
      sum_of (\<lambda>k. (if key x = k then f x else 0) + sum_of f (filter (\<lambda>y. key y = k) xs)) ks"
    by (rule sum_of_cong) simp
  with Cons single show ?case by (simp add: sum_of_add)
qed simp

text \<open>The groups lose no row: a sum over the group sums is the sum over the rows.\<close>

lemma sum_of_group_by: "sum_of (\<lambda>(k, g). sum_of f g) (group_by key xs) = sum_of f xs"
  using sum_of_by_key[of "remdups (map key xs)" key xs f] by (simp add: group_by_def)

lemma length_group_by: "sum_of (\<lambda>(k, g). of_nat (length g)) (group_by key xs) = of_nat (length xs)"
  using sum_of_group_by[of "\<lambda>_. 1" key xs]
  by (simp add: sum_of_1 case_prod_beta)

text \<open>The rows of the groups that match, added up, are the rows that match.\<close>

lemma sum_of_groups_where:
  "sum_of (\<lambda>(k, g). if P k then sum_of f g else 0) (group_by key xs) = sum_of f (filter (\<lambda>x. P (key x)) xs)"
proof -
  have "sum_of (\<lambda>(k, g). if P k then sum_of f g else 0) (group_by key xs) =
      sum_of (\<lambda>(k, g). sum_of (\<lambda>x. if P (key x) then f x else 0) g) (group_by key xs)"
  proof (rule sum_of_cong)
    fix x assume "x \<in> set (group_by key xs)"
    then obtain k where x: "x = (k, filter (\<lambda>x. key x = k) xs)" by (auto simp: group_by_def)
    have "sum_of (\<lambda>x. if P (key x) then f x else 0) (filter (\<lambda>x. key x = k) xs) =
        sum_of (\<lambda>x. if P k then f x else 0) (filter (\<lambda>x. key x = k) xs)" by (rule sum_of_cong) auto
    then show "(case x of (k, g) \<Rightarrow> if P k then sum_of f g else 0) =
        (case x of (k, g) \<Rightarrow> sum_of (\<lambda>x. if P (key x) then f x else 0) g)" by (simp add: x)
  qed
  then show ?thesis by (simp only: sum_of_group_by sum_of_filter)
qed

lemma group_by_member:
  "(k, g) \<in> set (group_by key xs) \<longleftrightarrow> k \<in> key ` set xs \<and> g = filter (\<lambda>x. key x = k) xs"
  by (auto simp: group_by_def)

lemma group_by_filter: "group_by key (filter (\<lambda>x. P (key x)) xs) = filter (\<lambda>g. P (fst g)) (group_by key xs)"
proof -
  have "map key (filter (\<lambda>x. P (key x)) xs) = filter P (map key xs)" by (simp add: filter_map o_def)
  moreover have "filter (\<lambda>x. key x = k) (filter (\<lambda>x. P (key x)) xs) = filter (\<lambda>x. key x = k) xs" if "P k" for k
    using that by (auto intro: filter_cong)
  ultimately show ?thesis
    by (auto simp: group_by_def remdups_filter[symmetric] filter_map o_def)
qed

lemma distinct_group_by: "distinct (map fst (group_by key xs))"
  by (simp add: group_by_def o_def)

lemma find_row_group_by:
  "find_row fst k (group_by key xs) = (if k \<in> key ` set xs then Some (k, filter (\<lambda>x. key x = k) xs) else None)"
proof (cases "k \<in> key ` set xs")
  case True
  then have "(k, filter (\<lambda>x. key x = k) xs) \<in> set (group_by key xs)" by (simp add: group_by_member)
  from find_row_distinct[OF distinct_group_by this] True show ?thesis by simp
next
  case False
  then have "k \<notin> fst ` set (group_by key xs)" by (force simp: group_by_member)
  with False show ?thesis by (simp add: find_row_None_iff)
qed

section \<open>Parameters\<close>

text \<open>A text parameter the server reads as a value of another type, or refuses; a missing one is NULL.\<close>

definition read_param :: "(string \<Rightarrow> 'v option) \<Rightarrow> string option \<Rightarrow> error + 'v option" where
  "read_param input v = (case v of None \<Rightarrow> Inr None
     | Some s \<Rightarrow> (case input s of None \<Rightarrow> Inl (SqlError (InvalidInput s)) | Some x \<Rightarrow> Inr (Some x)))"

section \<open>LEFT JOIN of a grouped query\<close>

text \<open>\<open>COALESCE(g.sum, 0)\<close> for the group of a key, when a LEFT JOIN finds it, or without one.\<close>

definition group_sum :: "('a \<Rightarrow> 'k) \<Rightarrow> ('a \<Rightarrow> rat) \<Rightarrow> 'k \<Rightarrow> 'a list \<Rightarrow> rat" where
  "group_sum key f k xs = (case find_row fst k (group_by key xs) of None \<Rightarrow> 0 | Some g \<Rightarrow> sum_of f (snd g))"

lemma group_sum_eq [simp]: "group_sum key f k xs = sum_of f (filter (\<lambda>x. key x = k) xs)"
proof (cases "k \<in> key ` set xs")
  case False
  then have "filter (\<lambda>x. key x = k) xs = []" by (auto simp: filter_empty_conv)
  then show ?thesis using False by (simp add: group_sum_def find_row_group_by)
qed (simp add: group_sum_def find_row_group_by)

section \<open>Days\<close>

text \<open>
  \<open>date < $1::date\<close> and \<open>date < ($1::date + interval '1 day')\<close> on the day of a stored time. A TIMESTAMP column
  holds the wall clock of the server process (its offset is \<open>tz_offset\<close>), a TIMESTAMPTZ column an instant that the
  session reads in its own time zone \<open>tz\<close>; \<open>wall_instant\<close> is the instant of the former in the session.
\<close>

definition before_day :: "int \<Rightarrow> int \<Rightarrow> bool" where "before_day n day \<longleftrightarrow> day < n"
definition until_day :: "int \<Rightarrow> int \<Rightarrow> bool" where "until_day n day \<longleftrightarrow> day < n + 1"
definition in_days :: "int \<Rightarrow> int \<Rightarrow> int \<Rightarrow> bool" where "in_days a b day \<longleftrightarrow> a \<le> day \<and> day < b + 1"

definition wall_instant :: "int \<Rightarrow> db \<Rightarrow> timestamp \<Rightarrow> timestamp" where
  "wall_instant tz d t = t + tz_offset d - tz"

lemma local_day_wall_instant: "local_day tz (wall_instant tz d t) = local_day (tz_offset d) t"
  by (simp add: local_day_def wall_instant_def)

text \<open>\<open>WHERE date >= $1::date AND date < ($2::date + interval '1 day')\<close> with either bound missing.\<close>

definition in_window :: "int option \<Rightarrow> int option \<Rightarrow> int \<Rightarrow> bool" where
  "in_window a b day \<longleftrightarrow> pred_option (\<lambda>n. n \<le> day) a \<and> pred_option (\<lambda>n. day < n + 1) b"

section \<open>ORDER BY\<close>

definition order_nulls_last :: "(string \<Rightarrow> nat) \<Rightarrow> ('r \<Rightarrow> string option) \<Rightarrow> 'r list \<Rightarrow> 'r list" where
  "order_nulls_last collate f rows =
     sort_key (\<lambda>r. case f r of None \<Rightarrow> (1::nat) | Some _ \<Rightarrow> 0)
       (sort_key (\<lambda>r. case f r of None \<Rightarrow> 0 | Some s \<Rightarrow> collate s) rows)"

lemma set_order_nulls_last [simp]: "set (order_nulls_last collate f rows) = set rows"
  by (simp add: order_nulls_last_def)

lemma sum_of_order_nulls_last [simp]: "sum_of g (order_nulls_last collate f rows) = sum_of g rows"
  by (simp add: order_nulls_last_def)

section \<open>Opening and closing balances\<close>

text \<open>The balance before a day grows by the changes of the days of a period to the balance before the day after it.\<close>

lemma balance_carries:
  assumes "a \<le> b + 1"
  shows "sum_of f (filter (\<lambda>x. before_day (b + 1) (day x)) xs) =
    sum_of f (filter (\<lambda>x. before_day a (day x)) xs) + sum_of f (filter (\<lambda>x. in_days a b (day x)) xs)"
  using assms by (induction xs) (auto simp: before_day_def in_days_def)

end
