(* ===== verification/StockReports.thy ===== *)
theory StockReports
  imports Inventory Auth Queries
begin

text \<open>
  The stock reports of \<open>src/routes/reports.ts\<close>: the balances at the end of a day and the movements of a period.
  Both read the batches and the links that realizations and supplier returns keep to them. \<open>tz\<close> is the offset of
  the time zone of the database session, \<open>pg_date\<close> the input function of DATE (a day number), \<open>collate\<close> the
  position of a text in the collation.
\<close>

section \<open>Movements of batches\<close>

text \<open>\<open>COALESCE(gr."date", br."date")\<close>: the time the document of a batch has, if the batch has one.\<close>

definition batch_receipt :: "db \<Rightarrow> product_batch \<Rightarrow> goods_receipt option" where
  "batch_receipt d b = Option.bind (pb_goodsReceiptId b) (\<lambda>i. find_row gr_id i (GoodsReceipt d))"

definition batch_return :: "db \<Rightarrow> product_batch \<Rightarrow> buyer_return option" where
  "batch_return d b = Option.bind (pb_buyerReturnId b) (\<lambda>i. find_row br_id i (BuyerReturn d))"

definition batch_date :: "int \<Rightarrow> db \<Rightarrow> product_batch \<Rightarrow> timestamp option" where
  "batch_date tz d b = coalesce_opt (map_option gr_date (batch_receipt d b))
     (map_option (\<lambda>r. wall_instant tz d (br_date r)) (batch_return d b))"

definition batch_in :: "int \<Rightarrow> (int \<Rightarrow> bool) \<Rightarrow> db \<Rightarrow> product_batch \<Rightarrow> bool" where
  "batch_in tz days d b = (case batch_date tz d b of None \<Rightarrow> False | Some t \<Rightarrow> days (local_day tz t))"

datatype movement_type = MRealization | MSupplierReturn | MGoodsReceipt | MBuyerReturn

text \<open>A row of the joins that lead from a link to its document.\<close>

record out_event =
  oe_batchId :: ident
  oe_quantity :: decimal
  oe_doc :: ident
  oe_type :: movement_type
  oe_number :: string
  oe_date :: timestamp
  oe_status :: doc_status

definition realization_events :: "db \<Rightarrow> out_event list" where
  "realization_events d = map (\<lambda>((rib, ri), r). \<lparr>oe_batchId = rib_productBatchId rib, oe_quantity = rib_quantity rib,
       oe_doc = rl_id r, oe_type = MRealization, oe_number = rl_number r, oe_date = rl_date r, oe_status = rl_status r\<rparr>)
     (join (\<lambda>(rib, ri) r. rl_id r = ri_realizationId ri)
       (join (\<lambda>rib ri. ri_id ri = rib_realizationItemId rib) (RealizationItemBatch d) (RealizationItem d)) (Realization d))"

definition supplier_return_events :: "int \<Rightarrow> db \<Rightarrow> out_event list" where
  "supplier_return_events tz d = map (\<lambda>((srib, sri), r). \<lparr>oe_batchId = srib_productBatchId srib,
       oe_quantity = srib_quantity srib, oe_doc = sr_id r, oe_type = MSupplierReturn, oe_number = sr_number r,
       oe_date = wall_instant tz d (sr_date r), oe_status = sr_status r\<rparr>)
     (join (\<lambda>(srib, sri) r. sr_id r = sri_supplierReturnId sri)
       (join (\<lambda>srib sri. sri_id sri = srib_supplierReturnItemId srib) (SupplierReturnItemBatch d) (SupplierReturnItem d))
       (SupplierReturn d))"

section \<open>Stock balances\<close>

definition posted_until :: "int \<Rightarrow> int \<Rightarrow> out_event \<Rightarrow> bool" where
  "posted_until tz n e \<longleftrightarrow> until_day n (local_day tz (oe_date e)) \<and> oe_status e = POSTED"

record batch_balance =
  bb_productId :: ident
  bb_warehouseId :: "ident option"
  bb_enterPrice :: decimal
  bb_incoming :: decimal
  bb_outgoing :: decimal

definition batch_balances :: "int \<Rightarrow> int \<Rightarrow> ident option \<Rightarrow> db \<Rightarrow> batch_balance list" where
  "batch_balances tz n w d =
     (let realized = filter (posted_until tz n) (realization_events d);
          returned = filter (posted_until tz n) (supplier_return_events tz d)
      in map (\<lambda>b. \<lparr>bb_productId = pb_productId b, bb_warehouseId = batch_warehouse d b, bb_enterPrice = pb_enterPrice b,
             bb_incoming = (if batch_in tz (until_day n) d b then pb_quantityTotal b else 0),
             bb_outgoing = group_sum oe_batchId oe_quantity (pb_id b) realized +
               group_sum oe_batchId oe_quantity (pb_id b) returned\<rparr>)
           (filter (\<lambda>b. w = None \<or> batch_warehouse d b = w) (ProductBatch d)))"

record stock_row =
  st_productId :: ident
  st_productName :: "string option"
  st_productCategory :: "string option"
  st_warehouseName :: "string option"
  st_balance :: decimal
  st_totalValue :: decimal

definition bb_balance :: "batch_balance \<Rightarrow> decimal" where
  "bb_balance b = bb_incoming b - bb_outgoing b"

definition stock_row_of :: "db \<Rightarrow> (ident \<times> ident option) \<times> batch_balance list \<Rightarrow> stock_row" where
  "stock_row_of d = (\<lambda>((p, w), bbs). let product = find_row prod_id p (Product d)
     in \<lparr>st_productId = p, st_productName = map_option prod_name product,
        st_productCategory = Option.bind product prod_category,
        st_warehouseName = join_name wh_id wh_name (Warehouse d) w, st_balance = sum_of bb_balance bbs,
        st_totalValue = sum_of (\<lambda>b. bb_balance b * bb_enterPrice b) bbs\<rparr>)"

definition by_category :: "(string \<Rightarrow> nat) \<Rightarrow> string option \<Rightarrow> ('r \<Rightarrow> string option) \<Rightarrow> ('r \<Rightarrow> string option) \<Rightarrow> 'r list \<Rightarrow> 'r list" where
  "by_category collate sortBy category name rows =
     (if sortBy = Some ''name'' then order_nulls_last collate name rows
      else order_nulls_last collate category (order_nulls_last collate name rows))"

definition stock_rows :: "int \<Rightarrow> int \<Rightarrow> ident option \<Rightarrow> db \<Rightarrow> stock_row list" where
  "stock_rows tz n w d = filter (\<lambda>r. st_balance r \<noteq> 0)
     (map (stock_row_of d) (group_by (\<lambda>b. (bb_productId b, bb_warehouseId b)) (batch_balances tz n w d)))"

definition stock_balances ::
  "int \<Rightarrow> (string \<Rightarrow> int option) \<Rightarrow> (string \<Rightarrow> nat) \<Rightarrow> req_user option \<Rightarrow> string option \<Rightarrow> ident option \<Rightarrow> string option \<Rightarrow>
   db \<Rightarrow> stock_row list reply" where
  "stock_balances tz pg_date collate user date warehouseId sortBy d =
     catch_reply 200 (\<lambda>_. (500, Text ''Failed to fetch stock balances''))
       (rbind (read_param pg_date (non_empty date)) (\<lambda>day.
          let n = coalesce day (local_day 0 (clock d)); w = forced_warehouse user warehouseId
          in Inr (by_category collate sortBy st_productCategory st_productName (stock_rows tz n w d))))"

section \<open>Inventory movement\<close>

record movement_doc =
  md_id :: ident
  md_type :: movement_type
  md_docNumber :: "string option"
  md_date :: timestamp
  md_quantity :: decimal

record movement_row =
  mv_productId :: ident
  mv_productName :: string
  mv_productCategory :: "string option"
  mv_warehouseName :: "string option"
  mv_startBalance :: decimal
  mv_incoming :: decimal
  mv_outgoing :: decimal
  mv_endBalance :: decimal
  mv_details :: "movement_doc list"

text \<open>The object that \<open>json_build_object\<close> makes of a batch; only batches with a date reach it.\<close>

definition incoming_doc :: "int \<Rightarrow> db \<Rightarrow> product_batch \<Rightarrow> movement_doc" where
  "incoming_doc tz d b = \<lparr>
     md_id = coalesce (map_option gr_id (batch_receipt d b)) (case batch_return d b of None \<Rightarrow> 0 | Some r \<Rightarrow> br_id r),
     md_type = (if batch_receipt d b \<noteq> None then MGoodsReceipt else MBuyerReturn),
     md_docNumber = coalesce_opt (Option.bind (batch_receipt d b) gr_docNumber) (map_option br_number (batch_return d b)),
     md_date = coalesce (batch_date tz d b) 0, md_quantity = pb_quantityTotal b\<rparr>"

definition outgoing_doc :: "out_event \<Rightarrow> movement_doc" where
  "outgoing_doc e = \<lparr>md_id = oe_doc e, md_type = oe_type e, md_docNumber = Some (oe_number e), md_date = oe_date e,
     md_quantity = oe_quantity e\<rparr>"

text \<open>The events of the batches of a warehouse, each with the product of its batch.\<close>

definition outgoing_events :: "int \<Rightarrow> ident \<Rightarrow> db \<Rightarrow> (out_event \<times> product_batch) list" where
  "outgoing_events tz w d = filter (\<lambda>(e, b). batch_warehouse d b = Some w)
     (join (\<lambda>e b. pb_id b = oe_batchId e) (realization_events d @ supplier_return_events tz d) (ProductBatch d))"

definition batches_of :: "ident \<Rightarrow> db \<Rightarrow> product_batch list" where
  "batches_of w d = filter (\<lambda>b. batch_warehouse d b = Some w) (ProductBatch d)"

definition moved_in :: "int \<Rightarrow> (int \<Rightarrow> bool) \<Rightarrow> ident \<Rightarrow> db \<Rightarrow> ident \<Rightarrow> decimal" where
  "moved_in tz days w d p =
     group_sum pb_productId (\<lambda>b. if batch_in tz days d b then pb_quantityTotal b else 0) p (batches_of w d)"

definition moved_out :: "int \<Rightarrow> (int \<Rightarrow> bool) \<Rightarrow> ident \<Rightarrow> db \<Rightarrow> ident \<Rightarrow> decimal" where
  "moved_out tz days w d p = group_sum (\<lambda>(e, b). pb_productId b)
     (\<lambda>(e, b). if days (local_day tz (oe_date e)) then oe_quantity e else 0) p (outgoing_events tz w d)"

definition movement_details :: "int \<Rightarrow> (int \<Rightarrow> bool) \<Rightarrow> ident \<Rightarrow> db \<Rightarrow> ident \<Rightarrow> movement_doc list" where
  "movement_details tz days w d p = sort_key md_date
     (map (incoming_doc tz d) (filter (\<lambda>b. pb_productId b = p \<and> batch_in tz days d b) (batches_of w d)) @
      map (\<lambda>(e, b). outgoing_doc e) (filter (\<lambda>(e, b). pb_productId b = p \<and> days (local_day tz (oe_date e))) (outgoing_events tz w d)))"

definition movement_row_of :: "int \<Rightarrow> int \<Rightarrow> int \<Rightarrow> ident \<Rightarrow> db \<Rightarrow> product \<Rightarrow> movement_row" where
  "movement_row_of tz from_day to_day w d p =
     (let start = moved_in tz (before_day from_day) w d (prod_id p) - moved_out tz (before_day from_day) w d (prod_id p);
          incoming = moved_in tz (in_days from_day to_day) w d (prod_id p);
          outgoing = moved_out tz (in_days from_day to_day) w d (prod_id p)
      in \<lparr>mv_productId = prod_id p, mv_productName = prod_name p, mv_productCategory = prod_category p,
          mv_warehouseName = join_name wh_id wh_name (Warehouse d) (Some w), mv_startBalance = start, mv_incoming = incoming,
          mv_outgoing = outgoing, mv_endBalance = start + incoming - outgoing,
          mv_details = movement_details tz (in_days from_day to_day) w d (prod_id p)\<rparr>)"

definition movement_rows :: "int \<Rightarrow> int \<Rightarrow> int \<Rightarrow> ident \<Rightarrow> db \<Rightarrow> movement_row list" where
  "movement_rows tz from_day to_day w d =
     map (movement_row_of tz from_day to_day w d) (filter (\<lambda>p. \<not> prod_deleted p) (Product d))"

definition inventory_movement ::
  "int \<Rightarrow> (string \<Rightarrow> int option) \<Rightarrow> (string \<Rightarrow> nat) \<Rightarrow> req_user option \<Rightarrow> string option \<Rightarrow> string option \<Rightarrow> ident option \<Rightarrow>
   string option \<Rightarrow> db \<Rightarrow> movement_row list reply" where
  "inventory_movement tz pg_date collate user dateFrom dateTo warehouseId sortBy d =
     (case (non_empty dateFrom, non_empty dateTo, forced_warehouse user warehouseId) of
        (Some a, Some b, Some w) \<Rightarrow> catch_reply 200 (\<lambda>_. (500, Text ''Failed to fetch inventory movement''))
          (case (pg_date a, pg_date b) of
             (Some from_day, Some to_day) \<Rightarrow> Inr (by_category collate sortBy mv_productCategory
               (\<lambda>r. Some (mv_productName r)) (movement_rows tz from_day to_day w d))
           | (None, _) \<Rightarrow> Inl (SqlError (InvalidInput a))
           | (_, None) \<Rightarrow> Inl (SqlError (InvalidInput b)))
      | _ \<Rightarrow> reply_error 400 (Text ''Missing required parameters: dateFrom, dateTo, warehouseId''))"

section \<open>The balance of a product in a warehouse\<close>

text \<open>What both reports compute of a warehouse: what came in less what went out on some days.\<close>

lemma moved_in_sum:
  "moved_in tz days w d p = sum_of pb_quantityTotal (filter (\<lambda>b. pb_productId b = p \<and> batch_in tz days d b) (batches_of w d))"
  unfolding moved_in_def group_sum_eq by (simp add: sum_of_filter) (rule sum_of_cong, simp)

lemma moved_out_sum:
  "moved_out tz days w d p =
     sum_of (\<lambda>(e, b). oe_quantity e) (filter (\<lambda>(e, b). pb_productId b = p \<and> days (local_day tz (oe_date e))) (outgoing_events tz w d))"
  unfolding moved_out_def group_sum_eq by (simp add: sum_of_filter) (rule sum_of_cong, auto split: if_splits)

lemma days_split:
  assumes "a \<le> b + 1"
  shows "before_day (b + 1) n \<longleftrightarrow> before_day a n \<or> in_days a b n" and "\<not> (before_day a n \<and> in_days a b n)"
  using assms by (auto simp: before_day_def in_days_def)

lemma batch_in_split:
  assumes "a \<le> b + 1"
  shows "batch_in tz (before_day (b + 1)) d x \<longleftrightarrow> batch_in tz (before_day a) d x \<or> batch_in tz (in_days a b) d x"
    and "\<not> (batch_in tz (before_day a) d x \<and> batch_in tz (in_days a b) d x)"
  using days_split[OF assms] by (auto simp: batch_in_def split: option.split)

lemma moved_in_split:
  "a \<le> b + 1 \<Longrightarrow> moved_in tz (before_day (b + 1)) w d p = moved_in tz (before_day a) w d p + moved_in tz (in_days a b) w d p"
  unfolding moved_in_sum by (rule sum_of_disjoint) (use batch_in_split in blast)+

lemma moved_out_split:
  "a \<le> b + 1 \<Longrightarrow> moved_out tz (before_day (b + 1)) w d p = moved_out tz (before_day a) w d p + moved_out tz (in_days a b) w d p"
  unfolding moved_out_sum by (rule sum_of_disjoint) (auto simp: before_day_def in_days_def)

definition signed_quantity :: "movement_doc \<Rightarrow> decimal" where
  "signed_quantity x = (if md_type x = MGoodsReceipt \<or> md_type x = MBuyerReturn then md_quantity x else - md_quantity x)"

text \<open>
  The periods of the movement report fit together: the closing balance of a period is the opening balance of
  the period that starts on the next day, for every product, and the documents a row lists add up to its
  incoming less its outgoing quantity.
\<close>

theorem movement_carries_forward:
  assumes "from_day \<le> to_day + 1"
  shows "mv_endBalance (movement_row_of tz from_day to_day w d p) = mv_startBalance (movement_row_of tz (to_day + 1) next w d p) \<and>
    sum_of signed_quantity (mv_details (movement_row_of tz from_day to_day w d p)) =
      mv_incoming (movement_row_of tz from_day to_day w d p) - mv_outgoing (movement_row_of tz from_day to_day w d p)"
proof -
  have "signed_quantity (incoming_doc tz d b) = pb_quantityTotal b" for b
    by (simp add: signed_quantity_def incoming_doc_def)
  moreover have "signed_quantity (case x of (e, b) \<Rightarrow> outgoing_doc e) = - (case x of (e, b) \<Rightarrow> oe_quantity e)"
    if "x \<in> set (outgoing_events tz w d)" for x
    using that by (auto simp: signed_quantity_def outgoing_doc_def outgoing_events_def set_join realization_events_def
        supplier_return_events_def)
  then have "sum_of (\<lambda>x. signed_quantity (case x of (e, b) \<Rightarrow> outgoing_doc e)) (filter P (outgoing_events tz w d)) =
      - sum_of (\<lambda>(e, b). oe_quantity e) (filter P (outgoing_events tz w d))" for P
    unfolding sum_of_minus[symmetric] by (intro sum_of_cong) auto
  ultimately have "sum_of signed_quantity (movement_details tz (in_days from_day to_day) w d (prod_id p)) =
      moved_in tz (in_days from_day to_day) w d (prod_id p) - moved_out tz (in_days from_day to_day) w d (prod_id p)"
    by (simp add: movement_details_def moved_in_sum moved_out_sum)
  with moved_in_split[OF assms] moved_out_split[OF assms] show ?thesis
    by (simp add: movement_row_of_def Let_def)
qed

section \<open>The two reports agree\<close>

definition links_posted :: "int \<Rightarrow> db \<Rightarrow> bool" where
  "links_posted tz d \<longleftrightarrow> list_all (\<lambda>e. oe_status e = POSTED) (realization_events d @ supplier_return_events tz d)"

text \<open>The rows of a product add up to its batches; the rows HAVING leaves out are zero.\<close>

lemma stock_rows_sum:
  "sum_of st_balance (filter (\<lambda>r. st_productId r = p) (stock_rows tz n w d)) =
     sum_of bb_balance (filter (\<lambda>b. bb_productId b = p) (batch_balances tz n w d))"
proof -
  let ?groups = "group_by (\<lambda>b. (bb_productId b, bb_warehouseId b)) (batch_balances tz n w d)"
  have "sum_of st_balance (filter (\<lambda>r. st_productId r = p) (stock_rows tz n w d)) =
      sum_of (\<lambda>r. if st_productId r = p then st_balance r else 0) (map (stock_row_of d) ?groups)"
    unfolding stock_rows_def sum_of_filter by (rule sum_of_cong) simp
  also have "\<dots> = sum_of (\<lambda>(k, g). sum_of (\<lambda>b. if bb_productId b = p then bb_balance b else 0) g) ?groups"
    unfolding sum_of_map
  proof (rule sum_of_cong)
    fix x assume "x \<in> set ?groups"
    then have "\<forall>b \<in> set (snd x). bb_productId b = fst (fst x)"
      using group_by_member[of "fst x" "snd x"] by (auto simp: prod_eq_iff)
    then have "sum_of (\<lambda>b. if bb_productId b = p then bb_balance b else 0) (snd x) =
        sum_of (\<lambda>b. if fst (fst x) = p then bb_balance b else 0) (snd x)"
      by (intro sum_of_cong) simp
    also have "\<dots> = (if fst (fst x) = p then sum_of bb_balance (snd x) else 0)" by simp
    finally have "sum_of (\<lambda>b. if bb_productId b = p then bb_balance b else 0) (snd x) =
        (if fst (fst x) = p then sum_of bb_balance (snd x) else 0)" .
    then show "(if st_productId (stock_row_of d x) = p then st_balance (stock_row_of d x) else 0) =
        (case x of (k, g) \<Rightarrow> sum_of (\<lambda>b. if bb_productId b = p then bb_balance b else 0) g)"
      by (auto simp: stock_row_of_def Let_def split: prod.split)
  qed
  also have "\<dots> = sum_of bb_balance (filter (\<lambda>b. bb_productId b = p) (batch_balances tz n w d))"
    unfolding sum_of_filter by (rule sum_of_group_by)
  finally show ?thesis .
qed

text \<open>
  C23: the two stock reports agree: as long as only posted documents keep links to batches, the balance of a
  product in a warehouse on a day is the closing balance of every movement report that ends on that day.
\<close>

theorem balances_agree_with_movement:
  assumes "links_posted tz d" and "from_day \<le> n + 1"
  shows "sum_of st_balance (filter (\<lambda>r. st_productId r = prod_id p) (stock_rows tz n (Some w) d)) =
    mv_endBalance (movement_row_of tz from_day n w d p)"
proof -
  let ?days = "before_day (n + 1)" and ?of = "\<lambda>b. pb_productId b = prod_id p"
  have until: "until_day n = ?days" by (rule ext) (simp add: until_day_def before_day_def)
  have posted: "filter (posted_until tz n) (realization_events d) = filter (\<lambda>e. ?days (local_day tz (oe_date e))) (realization_events d)"
    "filter (posted_until tz n) (supplier_return_events tz d) = filter (\<lambda>e. ?days (local_day tz (oe_date e))) (supplier_return_events tz d)"
    using assms(1) by (auto simp: links_posted_def list_all_iff posted_until_def until intro!: filter_cong)
  let ?out = "\<lambda>b. sum_of (\<lambda>e. if ?days (local_day tz (oe_date e)) then oe_quantity e else 0)
      (filter (\<lambda>e. oe_batchId e = pb_id b) (realization_events d @ supplier_return_events tz d))"
  have "sum_of st_balance (filter (\<lambda>r. st_productId r = prod_id p) (stock_rows tz n (Some w) d)) =
      sum_of (\<lambda>b. (if batch_in tz ?days d b then pb_quantityTotal b else 0) - ?out b) (filter ?of (batches_of w d))"
    unfolding stock_rows_sum batch_balances_def Let_def posted until
    by (simp add: batches_of_def filter_map o_def bb_balance_def sum_of_filter_if conj_commute)
  also have "\<dots> = moved_in tz ?days w d (prod_id p) - moved_out tz ?days w d (prod_id p)"
  proof -
    have "moved_out tz ?days w d (prod_id p) = sum_of ?out (filter ?of (batches_of w d))"
      unfolding moved_out_def group_sum_eq outgoing_events_def batches_of_def
      unfolding sum_of_filter[of _ _ "join _ _ _"] sum_of_filter[of _ _ "filter _ _"] sum_of_filter[of _ _ "ProductBatch d"] sum_of_join
    proof (rule sum_of_cong)
      fix b assume "b \<in> set (ProductBatch d)"
      show "sum_of (\<lambda>e. if case (e, b) of (e, b) \<Rightarrow> batch_warehouse d b = Some w
            then if (case (e, b) of (e, b) \<Rightarrow> pb_productId b) = prod_id p
              then case (e, b) of (e, b) \<Rightarrow> if ?days (local_day tz (oe_date e)) then oe_quantity e else 0 else 0 else 0)
          (filter (\<lambda>e. pb_id b = oe_batchId e) (realization_events d @ supplier_return_events tz d)) =
        (if batch_warehouse d b = Some w then if ?of b then ?out b else 0 else 0)"
        by (cases "batch_warehouse d b = Some w"; cases "?of b") (simp_all add: eq_commute[of "pb_id b"])
    qed
    moreover have "moved_in tz ?days w d (prod_id p) = sum_of (\<lambda>b. if batch_in tz ?days d b then pb_quantityTotal b else 0) (filter ?of (batches_of w d))"
      by (simp add: moved_in_def)
    ultimately show ?thesis by (simp add: sum_of_diff)
  qed
  also have "\<dots> = mv_endBalance (movement_row_of tz from_day n w d p)"
    using moved_in_split[OF assms(2)] moved_out_split[OF assms(2)] by (simp add: movement_row_of_def Let_def)
  finally show ?thesis .
qed

section \<open>A day of sales\<close>

text \<open>Two batches of tea; a posted realization of one from the older batch, a draft of two.\<close>

definition tea :: product where "tea = named_product 5 ''Tea'' ''kg''"

definition sold_db :: db where
  "sold_db = (two_batches 5 3)\<lparr>
     ProductBatch := map_where (\<lambda>b. pb_id b = 1) (\<lambda>b. b\<lparr>pb_quantityLeft := 4\<rparr>) (ProductBatch (two_batches 5 3)),
     Product := [tea], Warehouse := [named_warehouse 7 ''Main''],
     Realization := [\<lparr>rl_id = 4, rl_number = ''S1'', rl_date = 30, rl_counterpartyId = None,
        rl_warehouseId = Some 7, rl_status = POSTED, rl_amount = 4, rl_currency = ''UAH'', rl_comment = None,
        rl_salesType = None, rl_orderId = None, rl_profit = 2, rl_paidAmount = 0, rl_createdBy = None,
        rl_isDeleted = False, rl_createdAt = 30, rl_updatedAt = 30\<rparr>,
       \<lparr>rl_id = 6, rl_number = ''S2'', rl_date = 40, rl_counterpartyId = None,
        rl_warehouseId = Some 7, rl_status = DRAFT, rl_amount = 8, rl_currency = ''UAH'', rl_comment = None,
        rl_salesType = None, rl_orderId = None, rl_profit = 0, rl_paidAmount = 0, rl_createdBy = None,
        rl_isDeleted = False, rl_createdAt = 40, rl_updatedAt = 40\<rparr>],
     RealizationItem :=
       [\<lparr>ri_id = 2, ri_realizationId = 4, ri_productId = 5, ri_quantity = 1, ri_price = 4, ri_total = 4,
         ri_sortOrder = 0, ri_createdAt = 30\<rparr>,
        \<lparr>ri_id = 3, ri_realizationId = 6, ri_productId = 5, ri_quantity = 2, ri_price = 4, ri_total = 8,
         ri_sortOrder = 0, ri_createdAt = 40\<rparr>],
     RealizationItemBatch :=
       [\<lparr>rib_id = 8, rib_realizationItemId = 2, rib_productBatchId = 1, rib_quantity = 1, rib_enterPrice = 2\<rparr>]\<rparr>"

lemmas sold_db_eval = sold_db_def two_batches_def empty_db_def tea_def realization_events_def supplier_return_events_def

lemma sold_db_events:
  "realization_events sold_db = [\<lparr>oe_batchId = 1, oe_quantity = 1, oe_doc = 4, oe_type = MRealization, oe_number = ''S1'',
     oe_date = 30, oe_status = POSTED\<rparr>]"
  "supplier_return_events tz sold_db = []"
  by (simp_all add: sold_db_eval)

theorem movement_carries_forward_witness:
  "mv_endBalance (movement_row_of 0 0 0 7 sold_db tea) = mv_startBalance (movement_row_of 0 1 5 7 sold_db tea) \<and>
   mv_endBalance (movement_row_of 0 0 0 7 sold_db tea) = 7"
proof -
  have "mv_endBalance (movement_row_of 0 0 0 7 sold_db tea) = 7"
    by (simp add: movement_row_of_def moved_in_sum moved_out_sum outgoing_events_def sold_db_events batches_of_def Let_def)
      (simp add: sold_db_eval batch_warehouse_def batch_in_def batch_date_def batch_receipt_def batch_return_def
        coalesce_opt_def before_day_def in_days_def local_day_def ms_per_day_def)
  with movement_carries_forward[of 0 0 0 7 sold_db tea 5] show ?thesis by simp
qed

theorem balances_agree_with_movement_witness:
  "sum_of st_balance (filter (\<lambda>r. st_productId r = 5) (stock_rows 0 0 (Some 7) sold_db)) =
     mv_endBalance (movement_row_of 0 0 0 7 sold_db tea)"
proof -
  have "links_posted 0 sold_db" by (simp add: links_posted_def sold_db_events)
  from balances_agree_with_movement[OF this, of 0 0 tea 7] show ?thesis by (simp add: tea_def)
qed

end
