(* ===== verification/RealizationService.thy ===== *)
theory RealizationService
  imports Outgoing
begin

text \<open>
  \<open>src/services/realizationService.ts\<close>: posting a realization (a sale) deducts the stock of every
  item, records which batches it came from, computes the profit and completes the order; unposting
  returns the stock, deletes the links and reopens the order.
\<close>

section \<open>Comments\<close>

text \<open>\<open>String.prototype.trim\<close> on code units below 256.\<close>

definition is_space :: "char \<Rightarrow> bool" where
  "is_space c \<longleftrightarrow> List.member [9, 10, 11, 12, 13, 32, 160] (of_char c :: nat)"

definition js_trim :: "string \<Rightarrow> string" where
  "js_trim s = rev (dropWhile is_space (rev (dropWhile is_space s)))"

definition negative_profit_warning :: string where
  "negative_profit_warning = ''[WARNING: Negative Profit]''"

definition status_comment :: "string option \<Rightarrow> jsnum \<Rightarrow> string option" where
  "status_comment comment profit =
     (let prefix = (case comment of None \<Rightarrow> [] | Some c \<Rightarrow> if c = [] then [] else c @ '' '');
          s = js_trim (if profit < 0 then prefix @ negative_profit_warning else prefix)
      in if s = [] then None else Some s)"

section \<open>post\<close>

definition realization_items :: "ident \<Rightarrow> db \<Rightarrow> realization_item list" where
  "realization_items i d = filter (\<lambda>r. ri_realizationId r = i) (RealizationItem d)"

definition record_sale :: "ident \<Rightarrow> deduction \<Rightarrow> db \<Rightarrow> error + db" where
  "record_sale item deduction d =
     ins_RealizationItemBatch
       \<lparr>rib_id = next_uuid d, rib_realizationItemId = item, rib_productBatchId = ded_batchId deduction,
        rib_quantity = round_dec 3 (js_text (ded_quantity deduction)),
        rib_enterPrice = round_dec 2 (js_text (ded_enterPrice deduction))\<rparr>
       (d\<lparr>next_uuid := Suc (next_uuid d)\<rparr>)"

definition link_deduction ::
  "ident \<Rightarrow> deduction \<Rightarrow> jsnum \<times> db \<Rightarrow> error + jsnum \<times> db" where
  "link_deduction item deduction = (\<lambda>(totalCostPrice, d).
     rbind (record_sale item deduction d) (\<lambda>d'.
     Inr (js_add totalCostPrice (js_mul (ded_quantity deduction) (ded_enterPrice deduction)), d')))"

definition sell_item ::
  "ident option \<Rightarrow> realization_item \<Rightarrow> jsnum \<times> db \<Rightarrow> error + jsnum \<times> db" where
  "sell_item warehouseId item = (\<lambda>(totalCostPrice, d).
     rbind (deductStock (ri_productId item) (js_number (ri_quantity item)) warehouseId d) (\<lambda>(deductions, d').
     for_each (link_deduction (ri_id item)) deductions (totalCostPrice, d')))"

definition set_order_status :: "ident option \<Rightarrow> string \<Rightarrow> db \<Rightarrow> db" where
  "set_order_status orderId s d = (case orderId of None \<Rightarrow> d | Some oid \<Rightarrow> upd_Order_status oid s d)"

definition realization_post_tx :: "ident \<Rightarrow> db \<Rightarrow> error + jsnum \<times> db" where
  "realization_post_tx i d =
     (case find_row rl_id i (Realization d) of
        None \<Rightarrow> Inl RealizationNotFound
      | Some doc \<Rightarrow>
          if rl_status doc = POSTED then Inl RealizationAlreadyPosted
          else rbind (for_each (sell_item (rl_warehouseId doc)) (realization_items i d) (0, d))
            (\<lambda>(totalCostPrice, d1).
             let profit = js_sub (js_number (rl_amount doc)) totalCostPrice
             in rbind (upd_Realization (\<lambda>r. rl_id r = i)
                  (\<lambda>r. r\<lparr>rl_status := POSTED, rl_profit := round_dec 2 (js_text profit),
                         rl_comment := status_comment (rl_comment doc) profit,
                         rl_updatedAt := clock d1\<rparr>) d1) (\<lambda>d2.
                Inr (profit, set_order_status (rl_orderId doc) ''COMPLETED'' d2))))"

definition realization_post :: "ident \<Rightarrow> db \<Rightarrow> (error + jsnum) \<times> db" where
  "realization_post i = transaction (realization_post_tx i)"

section \<open>unpost\<close>

definition del_RealizationItemBatches :: "ident \<Rightarrow> db \<Rightarrow> db" where
  "del_RealizationItemBatches i d =
     (let items = map ri_id (realization_items i d) in
      d\<lparr>RealizationItemBatch := filter (\<lambda>r. \<not> List.member items (rib_realizationItemId r))
          (RealizationItemBatch d)\<rparr>)"

definition realization_unpost_tx :: "ident \<Rightarrow> db \<Rightarrow> error + unit \<times> db" where
  "realization_unpost_tx i d =
     (case find_row rl_id i (Realization d) of
        None \<Rightarrow> Inl RealizationNotFound
      | Some doc \<Rightarrow>
          if rl_status doc \<noteq> POSTED then Inl OnlyPostedUnposted
          else rbind (returnStock i d) (\<lambda>(_, d1).
             rbind (upd_Realization (\<lambda>r. rl_id r = i)
                  (\<lambda>r. r\<lparr>rl_status := DRAFT, rl_profit := 0, rl_updatedAt := clock d1\<rparr>)
                  (del_RealizationItemBatches i d1)) (\<lambda>d2.
             Inr ((), set_order_status (rl_orderId doc) ''ACCEPTED'' d2))))"

definition realization_unpost :: "ident \<Rightarrow> db \<Rightarrow> (error + unit) \<times> db" where
  "realization_unpost i = transaction (realization_unpost_tx i)"

section \<open>Realizations are outgoing documents\<close>

definition rib_link :: "realization_item_batch \<Rightarrow> ident \<times> decimal" where
  "rib_link l = (rib_productBatchId l, rib_quantity l)"

lemma record_sale_Inr:
  assumes "record_sale item x d = Inr d'"
  shows "d' = d\<lparr>next_uuid := Suc (next_uuid d), RealizationItemBatch := RealizationItemBatch d @
    [\<lparr>rib_id = next_uuid d, rib_realizationItemId = item, rib_productBatchId = ded_batchId x,
      rib_quantity = round_dec 3 (js_text (ded_quantity x)),
      rib_enterPrice = round_dec 2 (js_text (ded_enterPrice x))\<rparr>]\<rparr>"
  using assms by (auto simp: record_sale_def ins_RealizationItemBatch_def)

interpretation sale: outgoing RealizationItemBatch rib_realizationItemId rib_link record_sale
  by unfold_locales (auto simp: rib_link_def dest!: record_sale_Inr)

definition sale_lines :: "realization_item list \<Rightarrow> (ident \<times> ident \<times> decimal) list" where
  "sale_lines items = map (\<lambda>r. (ri_id r, ri_productId r, ri_quantity r)) items"

text \<open>The cost accumulator does not influence the database.\<close>

lemma link_deductions_db:
  "for_each (link_deduction item) ds (c, d) = Inr (c', d') \<Longrightarrow> for_each (record_sale item) ds d = Inr d'"
  by (induction ds arbitrary: c d) (auto simp: link_deduction_def)

lemma sell_item_db:
  "sell_item w r (c, d) = Inr (c', d') \<Longrightarrow>
     issue_item record_sale w (ri_id r, ri_productId r, ri_quantity r) d = Inr d'"
  by (auto simp: sell_item_def issue_item_def dest: link_deductions_db)

lemma sell_items_db:
  "for_each (sell_item w) items (c, d) = Inr (c', d') \<Longrightarrow>
     for_each (issue_item record_sale w) (sale_lines items) d = Inr d'"
proof (induction items arbitrary: c d)
  case (Cons r items)
  then obtain c1 d1 where "sell_item w r (c, d) = Inr (c1, d1)"
    "for_each (sell_item w) items (c1, d1) = Inr (c', d')" by auto
  with Cons.IH sell_item_db show ?case by (fastforce simp: sale_lines_def)
qed (simp add: sale_lines_def)

text \<open>Selling touches the batches, the links and the supply of ids only.\<close>

definition sale_rest :: "db \<Rightarrow> db" where
  "sale_rest d = d\<lparr>ProductBatch := [], RealizationItemBatch := [], next_uuid := 0\<rparr>"

lemma sale_rest_eq:
  assumes "sale_rest d' = sale_rest d"
  shows "d' = d\<lparr>ProductBatch := ProductBatch d', RealizationItemBatch := RealizationItemBatch d',
    next_uuid := next_uuid d'\<rparr>"
proof -
  have "d' = (sale_rest d')\<lparr>ProductBatch := ProductBatch d', RealizationItemBatch := RealizationItemBatch d',
      next_uuid := next_uuid d'\<rparr>" by (simp add: sale_rest_def)
  also have "\<dots> = (sale_rest d)\<lparr>ProductBatch := ProductBatch d', RealizationItemBatch := RealizationItemBatch d',
      next_uuid := next_uuid d'\<rparr>" by (simp only: assms)
  also have "\<dots> = d\<lparr>ProductBatch := ProductBatch d', RealizationItemBatch := RealizationItemBatch d',
      next_uuid := next_uuid d'\<rparr>" by (simp add: sale_rest_def)
  finally show ?thesis .
qed

lemma issue_sale_rest:
  assumes "issue_item record_sale w x d = Inr d'"
  shows "sale_rest d' = sale_rest d"
proof -
  from assms obtain ds e where e: "deductStock (fst (snd x)) (js_number (snd (snd x))) w d = Inr (ds, e)"
    "for_each (record_sale (fst x)) ds e = Inr d'" by (cases x) (auto simp: issue_item_def)
  have "sale_rest d' = sale_rest e"
    using e(2) by (rule for_each_frame) (auto simp: sale_rest_def dest!: record_sale_Inr)
  also have "\<dots> = (e\<lparr>ProductBatch := []\<rparr>)\<lparr>RealizationItemBatch := [], next_uuid := 0\<rparr>"
    by (simp add: sale_rest_def)
  also have "\<dots> = sale_rest d" by (simp add: deductStock_rest[OF e(1)] sale_rest_def)
  finally show ?thesis .
qed

lemma sell_items_rest:
  assumes "for_each (sell_item w) items (c, d) = Inr (c', d')"
  shows "sale_rest d' = sale_rest d"
  using sell_items_db[OF assms] by (rule for_each_frame) (rule issue_sale_rest)

section \<open>The effect of posting\<close>

definition sale_ready :: "ident \<Rightarrow> db \<Rightarrow> bool" where
  "sale_ready i d \<longleftrightarrow> stock_ready d \<and> (\<forall>r \<in> set (realization_items i d). quantity_ready (ri_quantity r)) \<and>
     distinct (map ri_id (RealizationItem d))"

lemma realization_post_tx_E:
  assumes "realization_post_tx i d = Inr (profit, d')"
  obtains doc c d1 d2 where "find_row rl_id i (Realization d) = Some doc" "rl_status doc \<noteq> POSTED"
    "for_each (sell_item (rl_warehouseId doc)) (realization_items i d) (0, d) = Inr (c, d1)"
    "profit = js_sub (js_number (rl_amount doc)) c"
    "upd_Realization (\<lambda>r. rl_id r = i)
       (\<lambda>r. r\<lparr>rl_status := POSTED, rl_profit := round_dec 2 (js_text profit),
              rl_comment := status_comment (rl_comment doc) profit, rl_updatedAt := clock d1\<rparr>) d1 = Inr d2"
    "d' = set_order_status (rl_orderId doc) ''COMPLETED'' d2"
  using assms by (auto simp: realization_post_tx_def Let_def split: option.splits if_splits)

lemma set_order_status_frame [simp]:
  "ProductBatch (set_order_status oid s d) = ProductBatch d"
  "RealizationItemBatch (set_order_status oid s d) = RealizationItemBatch d"
  "RealizationItem (set_order_status oid s d) = RealizationItem d"
  "Realization (set_order_status oid s d) = Realization d"
  "clock (set_order_status oid s d) = clock d"
  "Counterparty (set_order_status oid s d) = Counterparty d"
  "Warehouse (set_order_status oid s d) = Warehouse d"
  "map ord_id (Orders (set_order_status oid s d)) = map ord_id (Orders d)"
  by (auto simp: set_order_status_def upd_Order_status_def map_map_where split: option.splits)

lemma upd_Realization_Inr:
  "upd_Realization P f d = Inr d' \<longleftrightarrow> d' = d\<lparr>Realization := map_where P f (Realization d)\<rparr> \<and>
     (\<forall>r \<in> set (Realization d). P r \<longrightarrow> (\<forall>c \<in> set (realization_ok d (f r)). fst c))"
  by (auto simp: upd_Realization_def update_table_Inr_iff)

lemma realization_post_effect:
  assumes "realization_post_tx i d = Inr (profit, d')" "sale_ready i d"
  obtains new where "RealizationItemBatch d' = RealizationItemBatch d @ new"
    "\<forall>l \<in> set new. rib_realizationItemId l \<in> ri_id ` set (realization_items i d)"
    "\<forall>l \<in> set new. on_grid 3 (rib_quantity l) \<and> 0 \<le> rib_quantity l \<and>
       rib_productBatchId l \<in> pb_id ` set (ProductBatch d)"
    "\<forall>r \<in> set (realization_items i d).
       sum_list (map rib_quantity (filter (\<lambda>l. rib_realizationItemId l = ri_id r) new)) = ri_quantity r"
    "shifted (\<lambda>k. - moved k (map rib_link new)) (ProductBatch d) (ProductBatch d')" "stock_ready d'"
    "(\<forall>b \<in> set (ProductBatch d). 0 \<le> pb_quantityLeft b) \<longrightarrow> (\<forall>b \<in> set (ProductBatch d'). 0 \<le> pb_quantityLeft b)"
proof -
  from assms(1) obtain doc c d1 d2 where p0: "find_row rl_id i (Realization d) = Some doc"
    "rl_status doc \<noteq> POSTED" and p:
    "for_each (sell_item (rl_warehouseId doc)) (realization_items i d) (0, d) = Inr (c, d1)"
    and "profit = js_sub (js_number (rl_amount doc)) c" and p':
    "upd_Realization (\<lambda>r. rl_id r = i)
       (\<lambda>r. r\<lparr>rl_status := POSTED, rl_profit := round_dec 2 (js_text profit),
              rl_comment := status_comment (rl_comment doc) profit, rl_updatedAt := clock d1\<rparr>) d1 = Inr d2"
    "d' = set_order_status (rl_orderId doc) ''COMPLETED'' d2" by (rule realization_post_tx_E)
  have d': "ProductBatch d' = ProductBatch d1" "RealizationItemBatch d' = RealizationItemBatch d1"
    using p' by (auto simp: upd_Realization_Inr)
  note db = sell_items_db[OF p(1)]
  have ready: "stock_ready d" "\<forall>x \<in> set (sale_lines (realization_items i d)). quantity_ready (snd (snd x))"
    "distinct (map fst (sale_lines (realization_items i d)))"
    using assms(2) by (auto simp: sale_ready_def sale_lines_def comp_def realization_items_def distinct_map
        intro: inj_on_subset)
  from sale.issue_items_effect[OF db ready(1,2)] obtain new where new:
    "RealizationItemBatch d1 = RealizationItemBatch d @ new"
    "\<forall>l \<in> set new. rib_realizationItemId l \<in> fst ` set (sale_lines (realization_items i d))"
    "\<forall>l \<in> set new. on_grid 3 (snd (rib_link l)) \<and> 0 \<le> snd (rib_link l) \<and>
      fst (rib_link l) \<in> pb_id ` set (ProductBatch d)"
    "\<forall>(item, p, n) \<in> set (sale_lines (realization_items i d)).
       sum_list (map (snd \<circ> rib_link) (filter (\<lambda>l. rib_realizationItemId l = item) new)) = n"
    "shifted (\<lambda>k. - moved k (map rib_link new)) (ProductBatch d) (ProductBatch d1)" "stock_ready d1"
    using ready(3) by blast
  have "stock_ready d'" using new(6) by (simp add: stock_ready_def batches_typed_def d')
  moreover have "(\<forall>b \<in> set (ProductBatch d). 0 \<le> pb_quantityLeft b) \<longrightarrow>
      (\<forall>b \<in> set (ProductBatch d'). 0 \<le> pb_quantityLeft b)"
    using sale.issue_items_nonneg[OF db ready(1,2)] by (simp add: d')
  ultimately show thesis
    using new by (intro that[of new]) (auto simp: d' sale_lines_def rib_link_def comp_def)
qed

lemma realization_post_frame:
  assumes "realization_post_tx i d = Inr (profit, d')" "find_row rl_id i (Realization d) = Some doc"
  shows "d' = d\<lparr>ProductBatch := ProductBatch d', RealizationItemBatch := RealizationItemBatch d',
      next_uuid := next_uuid d', Orders := Orders (set_order_status (rl_orderId doc) ''COMPLETED'' d),
      Realization := map_where (\<lambda>r. rl_id r = i)
       (\<lambda>r. r\<lparr>rl_status := POSTED, rl_profit := round_dec 2 (js_text profit),
              rl_comment := status_comment (rl_comment doc) profit, rl_updatedAt := clock d\<rparr>) (Realization d)\<rparr>"
    and "\<forall>r \<in> set (Realization d). rl_id r = i \<longrightarrow> dec_fits 10 2 (rl_amount r) \<and>
      dec_fits 10 2 (rl_paidAmount r) \<and> fk_ok (map cp_id (Counterparty d)) (rl_counterpartyId r) \<and>
      fk_ok (map wh_id (Warehouse d)) (rl_warehouseId r) \<and> fk_ok (map ord_id (Orders d)) (rl_orderId r)"
proof -
  from assms obtain c d1 d2 where p: 
    "for_each (sell_item (rl_warehouseId doc)) (realization_items i d) (0, d) = Inr (c, d1)"
    "upd_Realization (\<lambda>r. rl_id r = i)
       (\<lambda>r. r\<lparr>rl_status := POSTED, rl_profit := round_dec 2 (js_text profit),
              rl_comment := status_comment (rl_comment doc) profit, rl_updatedAt := clock d1\<rparr>) d1 = Inr d2"
    "d' = set_order_status (rl_orderId doc) ''COMPLETED'' d2" by (auto elim!: realization_post_tx_E)
  note d1 = sale_rest_eq[OF sell_items_rest[OF p(1)]]
  obtain bs ls n where d1': "d1 = d\<lparr>ProductBatch := bs, RealizationItemBatch := ls, next_uuid := n\<rparr>"
    using d1 by blast
  show "d' = d\<lparr>ProductBatch := ProductBatch d', RealizationItemBatch := RealizationItemBatch d',
      next_uuid := next_uuid d', Orders := Orders (set_order_status (rl_orderId doc) ''COMPLETED'' d),
      Realization := map_where (\<lambda>r. rl_id r = i)
       (\<lambda>r. r\<lparr>rl_status := POSTED, rl_profit := round_dec 2 (js_text profit),
              rl_comment := status_comment (rl_comment doc) profit, rl_updatedAt := clock d\<rparr>) (Realization d)\<rparr>"
    using p(2) unfolding p(3) d1' upd_Realization_Inr
    by (cases "rl_orderId doc") (simp_all add: set_order_status_def upd_Order_status_def)
  show "\<forall>r \<in> set (Realization d). rl_id r = i \<longrightarrow> dec_fits 10 2 (rl_amount r) \<and>
      dec_fits 10 2 (rl_paidAmount r) \<and> fk_ok (map cp_id (Counterparty d)) (rl_counterpartyId r) \<and>
      fk_ok (map wh_id (Warehouse d)) (rl_warehouseId r) \<and> fk_ok (map ord_id (Orders d)) (rl_orderId r)"
    using p(2) unfolding d1' upd_Realization_Inr by (auto simp: realization_ok_def)
qed

section \<open>Unposting\<close>

lemma realization_links_split:
  assumes "distinct (map ri_id (RealizationItem d))"
  shows "realization_links i d =
    filter (\<lambda>l. rib_realizationItemId l \<in> ri_id ` set (realization_items i d)) (RealizationItemBatch d)"
proof -
  have "(case find_row ri_id k (RealizationItem d) of None \<Rightarrow> False | Some ri \<Rightarrow> ri_realizationId ri = i) \<longleftrightarrow>
      k \<in> ri_id ` set (realization_items i d)" for k
  proof (cases "find_row ri_id k (RealizationItem d)")
    case None
    then have "k \<notin> ri_id ` set (RealizationItem d)" by (simp add: find_row_None_iff)
    with None show ?thesis by (auto simp: realization_items_def)
  next
    case (Some r)
    note r = find_row_Some[OF Some]
    have "k \<in> ri_id ` set (realization_items i d) \<longleftrightarrow> r \<in> set (realization_items i d)"
      using assms r by (auto simp: realization_items_def distinct_map dest: inj_onD)
    then show ?thesis using Some r by (simp add: realization_items_def)
  qed
  then show ?thesis by (simp add: realization_links_def)
qed

lemma posted_sale_returns:
  assumes post: "realization_post_tx i d = Inr (profit, d')" and ready: "sale_ready i d"
    and doc: "find_row rl_id i (Realization d) = Some doc"
    and fresh: "\<forall>l \<in> set (RealizationItemBatch d). rib_realizationItemId l \<notin> ri_id ` set (realization_items i d)"
    and pos: "\<forall>b \<in> set (ProductBatch d). 0 \<le> pb_quantityLeft b"
  obtains new e where "returnStock i d' = Inr (new, e)" and "shifted (\<lambda>_. 0) (ProductBatch d) (ProductBatch e)"
    and "e = d'\<lparr>ProductBatch := ProductBatch e\<rparr>"
    and "del_RealizationItemBatches i e = e\<lparr>RealizationItemBatch := RealizationItemBatch d\<rparr>"
proof -
  from post ready obtain new where new: "RealizationItemBatch d' = RealizationItemBatch d @ new"
    "\<forall>l \<in> set new. rib_realizationItemId l \<in> ri_id ` set (realization_items i d)"
    "\<forall>l \<in> set new. on_grid 3 (rib_quantity l) \<and> 0 \<le> rib_quantity l \<and>
       rib_productBatchId l \<in> pb_id ` set (ProductBatch d)"
    "shifted (\<lambda>k. - moved k (map rib_link new)) (ProductBatch d) (ProductBatch d')" "stock_ready d'"
    "(\<forall>b \<in> set (ProductBatch d). 0 \<le> pb_quantityLeft b) \<longrightarrow> (\<forall>b \<in> set (ProductBatch d'). 0 \<le> pb_quantityLeft b)"
    by (rule realization_post_effect) blast
  note fr = realization_post_frame[OF post doc]
  have items: "RealizationItem d' = RealizationItem d" by (subst fr(1), simp)+
  have items': "realization_items i d' = realization_items i d" by (simp add: realization_items_def items)
  have D: "distinct (map ri_id (RealizationItem d'))" using ready by (simp add: sale_ready_def items)
  have links: "realization_links i d' = new"
    unfolding realization_links_split[OF D] items' new(1) using new(2) fresh
    by (simp add: filter_id_conv filter_empty_conv)
  have typed: "batches_typed d" "batches_typed d'" using ready new(5) by (auto simp: sale_ready_def stock_ready_def)
  have "\<forall>l \<in> set new. on_grid 3 (snd (rib_link l)) \<and> 0 \<le> snd (rib_link l)" using new(3) by (simp add: rib_link_def)
  with sale.return_issued[OF new(4) typed _ mp[OF new(6) pos]]
  obtain e where e: "return_links (map rib_link new) d' = Inr e"
    "shifted (\<lambda>_. 0) (ProductBatch d) (ProductBatch e)" "e = d'\<lparr>ProductBatch := ProductBatch e\<rparr>" by blast
  have ret: "returnStock i d' = Inr (new, e)"
    using e(1) by (simp add: returnStock_links links rib_link_def[abs_def])
  have ei: "realization_items i e = realization_items i d"
    by (subst e(3), simp add: items' realization_items_def items)+
  have "RealizationItemBatch e = RealizationItemBatch d @ new" by (subst e(3), simp add: new(1))
  moreover have "filter (\<lambda>r. rib_realizationItemId r \<notin> ri_id ` set (realization_items i d)) new = []"
    using new(2) by (auto simp: filter_empty_conv)
  moreover have "filter (\<lambda>r. rib_realizationItemId r \<notin> ri_id ` set (realization_items i d))
      (RealizationItemBatch d) = RealizationItemBatch d" using fresh by (simp add: filter_id_conv)
  ultimately have "del_RealizationItemBatches i e = e\<lparr>RealizationItemBatch := RealizationItemBatch d\<rparr>"
    by (simp add: del_RealizationItemBatches_def ei)
  from that[OF ret e(2,3) this] show thesis .
qed

lemma reopened_row_ok:
  assumes post: "realization_post_tx i d = Inr (profit, d')" and doc: "find_row rl_id i (Realization d) = Some doc"
    and e: "Counterparty e = Counterparty d" "Warehouse e = Warehouse d" "map ord_id (Orders e) = map ord_id (Orders d)"
    and r: "r \<in> set (Realization d')" "rl_id r = i"
    and c: "c \<in> set (realization_ok e (r\<lparr>rl_status := DRAFT, rl_profit := 0, rl_updatedAt := t\<rparr>))"
  shows "fst c"
proof -
  note fr = realization_post_frame[OF post doc]
  have "Realization d' = map_where (\<lambda>r. rl_id r = i)
       (\<lambda>r. r\<lparr>rl_status := POSTED, rl_profit := round_dec 2 (js_text profit),
              rl_comment := status_comment (rl_comment doc) profit, rl_updatedAt := clock d\<rparr>) (Realization d)"
    by (subst fr(1)) simp
  then obtain r0 where r0: "r0 \<in> set (Realization d)" "r = (if rl_id r0 = i then r0\<lparr>rl_status := POSTED,
      rl_profit := round_dec 2 (js_text profit), rl_comment := status_comment (rl_comment doc) profit,
      rl_updatedAt := clock d\<rparr> else r0)"
    using r(1) by (auto simp: set_map_where)
  then have "rl_id r0 = i" using r(2) by (simp split: if_splits)
  with fr(2) r0(1) have "dec_fits 10 2 (rl_amount r0)" "dec_fits 10 2 (rl_paidAmount r0)"
    "fk_ok (map cp_id (Counterparty d)) (rl_counterpartyId r0)"
    "fk_ok (map wh_id (Warehouse d)) (rl_warehouseId r0)" "fk_ok (map ord_id (Orders d)) (rl_orderId r0)"
    by blast+
  then show ?thesis using c r0(2) \<open>rl_id r0 = i\<close> e by (auto simp: realization_ok_def dec_fits_def)
qed

lemma realization_unpost_after_post:
  assumes post: "realization_post_tx i d = Inr (profit, d')" and ready: "sale_ready i d"
    and doc: "find_row rl_id i (Realization d) = Some doc"
    and fresh: "\<forall>l \<in> set (RealizationItemBatch d). rib_realizationItemId l \<notin> ri_id ` set (realization_items i d)"
    and pos: "\<forall>b \<in> set (ProductBatch d). 0 \<le> pb_quantityLeft b"
  shows "\<exists>d''. realization_unpost_tx i d' = Inr ((), d'') \<and>
    shifted (\<lambda>_. 0) (ProductBatch d) (ProductBatch d'') \<and>
    d'' = d\<lparr>ProductBatch := ProductBatch d'', next_uuid := next_uuid d',
      Orders := Orders (set_order_status (rl_orderId doc) ''ACCEPTED'' d),
      Realization := map_where (\<lambda>r. rl_id r = i)
       (\<lambda>r. r\<lparr>rl_status := DRAFT, rl_profit := 0,
              rl_comment := status_comment (rl_comment doc) profit, rl_updatedAt := clock d\<rparr>) (Realization d)\<rparr>"
proof -
  obtain new e where e: "returnStock i d' = Inr (new, e)" "shifted (\<lambda>_. 0) (ProductBatch d) (ProductBatch e)"
    "e = d'\<lparr>ProductBatch := ProductBatch e\<rparr>"
    "del_RealizationItemBatches i e = e\<lparr>RealizationItemBatch := RealizationItemBatch d\<rparr>"
    by (rule posted_sale_returns[OF assms])
  obtain bs ls n os where d': "d' = d\<lparr>ProductBatch := bs, RealizationItemBatch := ls, next_uuid := n, Orders := os,
      Realization := map_where (\<lambda>r. rl_id r = i)
       (\<lambda>r. r\<lparr>rl_status := POSTED, rl_profit := round_dec 2 (js_text profit),
              rl_comment := status_comment (rl_comment doc) profit, rl_updatedAt := clock d\<rparr>) (Realization d)\<rparr>"
    "os = Orders (set_order_status (rl_orderId doc) ''COMPLETED'' d)" using realization_post_frame(1)[OF post doc] by blast
  let ?f = "\<lambda>r. r\<lparr>rl_status := DRAFT, rl_profit := 0, rl_updatedAt := clock d\<rparr>"
  let ?e = "e\<lparr>RealizationItemBatch := RealizationItemBatch d\<rparr>"
  let ?rows = "map_where (\<lambda>r. rl_id r = i) (\<lambda>r. r\<lparr>rl_status := DRAFT, rl_profit := 0,
    rl_comment := status_comment (rl_comment doc) profit, rl_updatedAt := clock d\<rparr>) (Realization d)"
  have e': "?e = d\<lparr>ProductBatch := ProductBatch e, next_uuid := n, Orders := os, Realization := Realization d'\<rparr>"
    by (subst e(3), simp add: d')
  have "upd_Realization (\<lambda>r. rl_id r = i) ?f ?e =
      Inr (?e\<lparr>Realization := map_where (\<lambda>r. rl_id r = i) ?f (Realization ?e)\<rparr>)"
    unfolding upd_Realization_Inr using reopened_row_ok[OF post doc, of ?e] by (simp add: e' d'(2))
  moreover have "Realization ?e = Realization d'" "clock e = clock d" by (simp add: e') (subst e(3), simp add: d')
  moreover have rows: "map_where (\<lambda>r. rl_id r = i) ?f (Realization d') = ?rows" by (simp add: d'(1) map_where_def)
  moreover have "find_row rl_id i (Realization d') = Some (doc\<lparr>rl_status := POSTED,
      rl_profit := round_dec 2 (js_text profit), rl_comment := status_comment (rl_comment doc) profit,
      rl_updatedAt := clock d\<rparr>)"
    using doc find_row_Some[OF doc] by (simp add: d' find_row_map_where)
  ultimately have "realization_unpost_tx i d' = Inr ((), set_order_status (rl_orderId doc) ''ACCEPTED'' (?e\<lparr>Realization := ?rows\<rparr>))"
    using e(1) by (simp add: realization_unpost_tx_def e(4))
  moreover have acc: "map_where (\<lambda>r. ord_id r = k) (\<lambda>r. r\<lparr>ord_status := s, ord_updatedAt := t\<rparr>)
      (map_where (\<lambda>r. ord_id r = k) (\<lambda>r. r\<lparr>ord_status := s', ord_updatedAt := t'\<rparr>) xs) =
      map_where (\<lambda>r. ord_id r = k) (\<lambda>r. r\<lparr>ord_status := s, ord_updatedAt := t\<rparr>) xs" for k s t s' t' xs
    by (simp add: map_where_def)
  have "set_order_status (rl_orderId doc) ''ACCEPTED'' (?e\<lparr>Realization := ?rows\<rparr>) =
      d\<lparr>ProductBatch := ProductBatch e, next_uuid := next_uuid d',
        Orders := Orders (set_order_status (rl_orderId doc) ''ACCEPTED'' d), Realization := ?rows\<rparr>"
    unfolding e' d'(2) by (cases "rl_orderId doc") (simp_all add: set_order_status_def upd_Order_status_def acc d'(1))
  ultimately show ?thesis using e(2) by simp
qed

section \<open>What realizations promise\<close>

text \<open>A draft of two lines over the two batches, for an order.\<close>

definition draft_sale_db :: db where
  "draft_sale_db = (two_batches 5 3)\<lparr>
     Warehouse := [named_warehouse 7 ''Main''],
     Orders := [\<lparr>ord_id = 9, ord_userId = 2, ord_counterpartyId = None, ord_status = ''ACCEPTED'',
        ord_total = 24, ord_currency = ''UAH'', ord_items = None, ord_comment = None, ord_docNumber = None, ord_warehouseId = None,
        ord_isDeleted = False, ord_createdAt = 1,
        ord_updatedAt = 1\<rparr>],
     Realization := [\<lparr>rl_id = 4, rl_number = ''S1'', rl_date = 30, rl_counterpartyId = None,
        rl_warehouseId = Some 7, rl_status = DRAFT, rl_amount = 24, rl_currency = ''UAH'', rl_comment = None,
        rl_salesType = None, rl_orderId = Some 9, rl_profit = 0, rl_paidAmount = 0, rl_createdBy = None,
        rl_isDeleted = False, rl_createdAt = 30, rl_updatedAt = 30\<rparr>],
     RealizationItem :=
       [\<lparr>ri_id = 2, ri_realizationId = 4, ri_productId = 5, ri_quantity = 4, ri_price = 4, ri_total = 16,
         ri_sortOrder = 0, ri_createdAt = 30\<rparr>,
        \<lparr>ri_id = 3, ri_realizationId = 4, ri_productId = 5, ri_quantity = 2, ri_price = 4, ri_total = 8,
         ri_sortOrder = 1, ri_createdAt = 30\<rparr>]\<rparr>"

lemmas sale_eval = realization_post_tx_def realization_items_def sell_item_def deductStock_def
  available_batches_def batch_warehouse_def take_from_batch_def upd_ProductBatch_def update_table_def
  batch_numbers_ok_def dec_fits_def first_error_def link_deduction_def record_sale_def
  ins_RealizationItemBatch_def upd_Realization_def realization_ok_def set_order_status_def
  upd_Order_status_def js_number_def js_sub_def js_add_def js_mul_def draft_sale_db_def two_batches_def
  empty_db_def Let_def

lemma sale_numbers:
  "js_text 4 = 4" "js_text 2 = 2" "js_text 1 = 1" "js_text 3 = 3" "js_text 0 = 0" "js_text 11 = 11"
  "fl 5 = 5" "fl 2 = 2" "fl 3 = 3" "fl 4 = 4" "fl 1 = 1" "fl 0 = 0" "fl 24 = 24" "fl 8 = 8" "fl 10 = 10"
  "fl 13 = 13" "fl 11 = 11"
  by code_simp+

lemma draft_sale_post: "\<exists>d'. realization_post_tx 4 draft_sale_db = Inr (11, d')"
  by (simp add: sale_eval sale_numbers del: One_nat_def)

lemma draft_sale_facts:
  "sale_ready 4 draft_sale_db" "\<forall>b \<in> set (ProductBatch draft_sale_db). 0 \<le> pb_quantityLeft b"
  "find_row rl_id 4 (Realization draft_sale_db) = Some (Realization draft_sale_db ! 0)"
  "\<forall>l \<in> set (RealizationItemBatch draft_sale_db).
     rib_realizationItemId l \<notin> ri_id ` set (realization_items 4 draft_sale_db)"
proof -
  have "batches_typed (two_batches 5 3)" using two_batches_ready_6 by (simp add: deduct_ready_def)
  then have "stock_ready draft_sale_db"
    by (simp add: stock_ready_def batches_typed_def draft_sale_db_def max_batches_def two_batches_def)
  moreover have "\<forall>r \<in> set (realization_items 4 draft_sale_db). quantity_ready (ri_quantity r)"
    by (simp add: realization_items_def draft_sale_db_def quantity_ready_def)
  ultimately show "sale_ready 4 draft_sale_db"
    by (simp add: sale_ready_def draft_sale_db_def two_batches_def empty_db_def)
  show "\<forall>b \<in> set (ProductBatch draft_sale_db). 0 \<le> pb_quantityLeft b"
    "find_row rl_id 4 (Realization draft_sale_db) = Some (Realization draft_sale_db ! 0)"
    "\<forall>l \<in> set (RealizationItemBatch draft_sale_db).
     rib_realizationItemId l \<notin> ri_id ` set (realization_items 4 draft_sale_db)"
    by (simp_all add: draft_sale_db_def two_batches_def empty_db_def)
qed

text \<open>
  C4: posting a realization sells exactly its items. Each item gets link rows that sum to its quantity,
  the batches are lowered by exactly what the new link rows say, no batch is overdrawn, and the batch
  table stays well-typed.
\<close>

theorem realization_post_sells_items:
  assumes "realization_post_tx i d = Inr (profit, d')" and "sale_ready i d"
    and "\<forall>b \<in> set (ProductBatch d). 0 \<le> pb_quantityLeft b"
  shows "\<exists>new. RealizationItemBatch d' = RealizationItemBatch d @ new \<and>
    (\<forall>r \<in> set (realization_items i d).
       sum_list (map rib_quantity (filter (\<lambda>l. rib_realizationItemId l = ri_id r) new)) = ri_quantity r) \<and>
    (\<forall>l \<in> set new. rib_realizationItemId l \<in> ri_id ` set (realization_items i d) \<and> 0 \<le> rib_quantity l) \<and>
    shifted (\<lambda>k. - moved k (map rib_link new)) (ProductBatch d) (ProductBatch d') \<and>
    (\<forall>b \<in> set (ProductBatch d'). 0 \<le> pb_quantityLeft b) \<and> batches_typed d'"
  using assms(1,2)
  by (rule realization_post_effect) (use assms(3) in \<open>auto simp: stock_ready_def\<close>)

theorem realization_post_sells_items_witness:
  "\<exists>d' new. realization_post_tx 4 draft_sale_db = Inr (11, d') \<and> RealizationItemBatch d' = new \<and>
    (\<forall>r \<in> set (realization_items 4 draft_sale_db).
       sum_list (map rib_quantity (filter (\<lambda>l. rib_realizationItemId l = ri_id r) new)) = ri_quantity r)"
proof -
  obtain d' where d': "realization_post_tx 4 draft_sale_db = Inr (11, d')" using draft_sale_post by blast
  have "RealizationItemBatch draft_sale_db = []" by (simp add: draft_sale_db_def two_batches_def empty_db_def)
  with realization_post_sells_items[OF d' draft_sale_facts(1,2)] d' show ?thesis by auto
qed

text \<open>
  C5: unposting undoes posting. After a draft without links is posted, unposting succeeds, puts every
  batch back to the quantity it had, removes exactly the new link rows, reopens the order and resets the
  profit; nothing else changes except the comment, which keeps the text posting gave it.
\<close>

theorem realization_post_unpost:
  assumes "realization_post_tx i d = Inr (profit, d')" and "sale_ready i d"
    and "find_row rl_id i (Realization d) = Some doc"
    and "\<forall>l \<in> set (RealizationItemBatch d). rib_realizationItemId l \<notin> ri_id ` set (realization_items i d)"
    and "\<forall>b \<in> set (ProductBatch d). 0 \<le> pb_quantityLeft b"
  shows "\<exists>d''. realization_unpost_tx i d' = Inr ((), d'') \<and>
    shifted (\<lambda>_. 0) (ProductBatch d) (ProductBatch d'') \<and>
    d'' = d\<lparr>ProductBatch := ProductBatch d'', next_uuid := next_uuid d',
      Orders := Orders (set_order_status (rl_orderId doc) ''ACCEPTED'' d),
      Realization := map_where (\<lambda>r. rl_id r = i)
       (\<lambda>r. r\<lparr>rl_status := DRAFT, rl_profit := 0,
              rl_comment := status_comment (rl_comment doc) profit, rl_updatedAt := clock d\<rparr>) (Realization d)\<rparr>"
  using assms by (rule realization_unpost_after_post)

theorem realization_post_unpost_witness:
  "\<exists>d' d''. realization_post_tx 4 draft_sale_db = Inr (11, d') \<and>
     realization_unpost_tx 4 d' = Inr ((), d'') \<and> RealizationItemBatch d'' = []"
proof -
  obtain d' where d': "realization_post_tx 4 draft_sale_db = Inr (11, d')" using draft_sale_post by blast
  from realization_post_unpost[OF d' draft_sale_facts(1,3,4,2)] obtain d'' x y z w where d'':
    "realization_unpost_tx 4 d' = Inr ((), d'')"
    "d'' = draft_sale_db\<lparr>ProductBatch := x, next_uuid := y, Orders := z, Realization := w\<rparr>" by blast
  have "RealizationItemBatch d'' = []"
    unfolding d''(2) by (simp add: draft_sale_db_def two_batches_def empty_db_def)
  with d' d'' show ?thesis by blast
qed

text \<open>
  The comment grows on every repost. Unposting keeps the warning that a posting at a loss appended, so
  the next posting at a loss appends it again.
\<close>

theorem repost_appends_warning_again:
  "profit < 0 \<Longrightarrow> profit' < 0 \<Longrightarrow> status_comment (status_comment None profit) profit' =
     Some (negative_profit_warning @ '' '' @ negative_profit_warning)"
proof -
  assume neg: "profit < 0" "profit' < 0"
  have "status_comment (status_comment None (- 1)) (- 1) =
     Some (negative_profit_warning @ '' '' @ negative_profit_warning)" by code_simp
  moreover have "status_comment c profit = status_comment c (- 1)"
    "status_comment c profit' = status_comment c (- 1)" for c
    using neg by (simp_all add: status_comment_def)
  ultimately show ?thesis by simp
qed

theorem repost_appends_warning_again_witness:
  "status_comment (status_comment None (- 3)) (- 2) =
     Some (''[WARNING: Negative Profit] [WARNING: Negative Profit]'')"
  using repost_appends_warning_again[of "- 3" "- 2"] by (simp add: negative_profit_warning_def)

end
