(* ===== verification/StockLedger.thy ===== *)
theory StockLedger
  imports StockReports RealizationService SupplierReturnService
begin

text \<open>
  The stock as a ledger over the services and the report: what is left in a batch is what it held less what
  the links of realizations and supplier returns took from it. Posting and unposting keep it, so the report of
  balances, which computes from the links, shows what the batches hold.
\<close>

section \<open>The ledger\<close>

definition batch_links :: "db \<Rightarrow> (ident \<times> decimal) list" where
  "batch_links d = map rib_link (RealizationItemBatch d) @ map srib_link (SupplierReturnItemBatch d)"

definition booked :: "db \<Rightarrow> bool" where
  "booked d \<longleftrightarrow> list_all (\<lambda>b. pb_quantityLeft b = pb_quantityTotal b - moved (pb_id b) (batch_links d)) (ProductBatch d)"

definition items_ready :: "db \<Rightarrow> bool" where
  "items_ready d \<longleftrightarrow> distinct (map ri_id (RealizationItem d)) \<and> distinct (map sri_id (SupplierReturnItem d)) \<and>
     list_all (\<lambda>r. quantity_ready (ri_quantity r)) (RealizationItem d) \<and>
     list_all (\<lambda>r. quantity_ready (sri_quantity r)) (SupplierReturnItem d)"

definition books :: "db \<Rightarrow> bool" where
  "books d \<longleftrightarrow> stock_ready d \<and> items_ready d \<and> list_all (\<lambda>l. on_grid 3 (snd l)) (batch_links d) \<and> booked d"

lemma booked_shifted:
  assumes "booked d" and "shifted f (ProductBatch d) (ProductBatch d')"
    and "\<And>k. moved k (batch_links d') = moved k (batch_links d) - f k"
  shows "booked d'"
  unfolding booked_def list_all_iff
proof
  fix b' assume "b' \<in> set (ProductBatch d')"
  with assms(2) obtain b where "b \<in> set (ProductBatch d)" "shift_batch (f (pb_id b)) b b'" by (rule shifted_memD)
  with assms(1,3) show "pb_quantityLeft b' = pb_quantityTotal b' - moved (pb_id b') (batch_links d')"
    using shift_batch_left[of "f (pb_id b)" b b'] by (simp add: booked_def list_all_iff)
qed

lemma moved_split: "moved k (map f (filter P ls)) + moved k (map f (filter (\<lambda>l. \<not> P l) ls)) = moved k (map f ls)"
  by (induction ls) auto

section \<open>Realizations\<close>

lemma books_sale_ready: "books d \<Longrightarrow> sale_ready i d"
  by (auto simp: books_def sale_ready_def items_ready_def realization_items_def list_all_iff)

lemma realization_post_books:
  assumes "realization_post_tx i d = Inr (p, d')" and "books d"
  shows "books d'"
proof -
  obtain new where new: "RealizationItemBatch d' = RealizationItemBatch d @ new"
    "\<forall>l \<in> set new. on_grid 3 (rib_quantity l) \<and> 0 \<le> rib_quantity l \<and> rib_productBatchId l \<in> pb_id ` set (ProductBatch d)"
    "shifted (\<lambda>k. - moved k (map rib_link new)) (ProductBatch d) (ProductBatch d')" "stock_ready d'"
    by (rule realization_post_effect[OF assms(1) books_sale_ready[OF assms(2)]]) blast
  obtain doc where doc: "find_row rl_id i (Realization d) = Some doc"
    using assms(1) by (auto elim: realization_post_tx_E)
  note fr = realization_post_frame(1)[OF assms(1) doc]
  have rest: "RealizationItem d' = RealizationItem d" "SupplierReturnItem d' = SupplierReturnItem d"
    "SupplierReturnItemBatch d' = SupplierReturnItemBatch d" by (subst fr, simp)+
  have "booked d'"
    by (rule booked_shifted[OF _ new(3)]) (use assms(2) in \<open>simp_all add: books_def batch_links_def rest new(1)\<close>)
  then show ?thesis using assms(2) new(2,4)
    by (auto simp: books_def items_ready_def rest batch_links_def new(1) list_all_iff rib_link_def)
qed

lemma set_order_status_returns [simp]:
  "SupplierReturnItem (set_order_status k s d) = SupplierReturnItem d"
  "SupplierReturnItemBatch (set_order_status k s d) = SupplierReturnItemBatch d"
  by (simp_all add: set_order_status_def upd_Order_status_def split: option.split)

text \<open>The rows the documents' items are kept in; posting and unposting only read them.\<close>

definition item_tables ::
  "db \<Rightarrow> goods_receipt_item list \<times> realization_item list \<times> supplier_return_item list \<times> buyer_return_item list" where
  "item_tables d = (GoodsReceiptItem d, RealizationItem d, SupplierReturnItem d, BuyerReturnItem d)"

lemma set_order_status_items [simp]:
  "GoodsReceiptItem (set_order_status k s d) = GoodsReceiptItem d" "BuyerReturnItem (set_order_status k s d) = BuyerReturnItem d"
  "next_uuid (set_order_status k s d) = next_uuid d" "SupplierReturn (set_order_status k s d) = SupplierReturn d"
  by (simp_all add: set_order_status_def upd_Order_status_def split: option.split)

lemma realization_unpost_effect:
  assumes "realization_unpost_tx i d = Inr (u, d')" and "books d"
  shows "shifted (\<lambda>k. moved k (map rib_link (realization_links i d))) (ProductBatch d) (ProductBatch d')"
    and "batches_typed d'" and "item_tables d' = item_tables d" and "next_uuid d' = next_uuid d"
    and "SupplierReturnItemBatch d' = SupplierReturnItemBatch d" and "SupplierReturn d' = SupplierReturn d"
    and "RealizationItemBatch d' =
      filter (\<lambda>l. rib_realizationItemId l \<notin> ri_id ` set (realization_items i d)) (RealizationItemBatch d)"
proof -
  obtain doc where doc: "find_row rl_id i (Realization d) = Some doc" "rl_status doc = POSTED"
    using assms(1) by (auto simp: realization_unpost_tx_def split: option.splits if_splits)
  obtain x d1 d2 where p: "returnStock i d = Inr (x, d1)"
    "upd_Realization (\<lambda>r. rl_id r = i) (\<lambda>r. r\<lparr>rl_status := DRAFT, rl_profit := 0, rl_updatedAt := clock d1\<rparr>)
       (del_RealizationItemBatches i d1) = Inr d2" "d' = set_order_status (rl_orderId doc) ''ACCEPTED'' d2"
    using assms(1) by (auto simp: realization_unpost_tx_def doc)
  let ?links = "map rib_link (realization_links i d)"
  have r: "return_links ?links d = Inr d1" using p(1) by (auto simp: returnStock_links rib_link_def[abs_def])
  have "\<forall>l \<in> set ?links. on_grid 3 (snd l)"
    using assms(2) by (auto simp: books_def batch_links_def list_all_iff realization_links_def)
  with return_links_shifts[OF r] assms(2) have s: "shifted (\<lambda>k. moved k ?links) (ProductBatch d) (ProductBatch d1)"
    "batches_typed d1" "d1 = d\<lparr>ProductBatch := ProductBatch d1\<rparr>" by (auto simp: books_def stock_ready_def)
  obtain bs where d1: "d1 = d\<lparr>ProductBatch := bs\<rparr>" using s(3) by blast
  have d': "ProductBatch d' = ProductBatch d1" "item_tables d' = item_tables d" "next_uuid d' = next_uuid d"
    "SupplierReturnItemBatch d' = SupplierReturnItemBatch d" "SupplierReturn d' = SupplierReturn d"
    "RealizationItemBatch d' = filter (\<lambda>l. rib_realizationItemId l \<notin> ri_id ` set (realization_items i d)) (RealizationItemBatch d)"
    using p(2) unfolding p(3) upd_Realization_Inr
    by (auto simp: del_RealizationItemBatches_def Let_def d1 realization_items_def item_tables_def)
  show "shifted (\<lambda>k. moved k ?links) (ProductBatch d) (ProductBatch d')" using s(1) by (simp add: d'(1))
  show "batches_typed d'" using s(2) by (simp add: batches_typed_def d'(1))
  show "item_tables d' = item_tables d" "next_uuid d' = next_uuid d" "SupplierReturnItemBatch d' = SupplierReturnItemBatch d"
    "SupplierReturn d' = SupplierReturn d"
    "RealizationItemBatch d' = filter (\<lambda>l. rib_realizationItemId l \<notin> ri_id ` set (realization_items i d)) (RealizationItemBatch d)"
    by (rule d')+
qed

lemma realization_unpost_books:
  assumes "realization_unpost_tx i d = Inr (u, d')" and "books d"
  shows "books d'"
proof -
  note e = realization_unpost_effect[OF assms]
  let ?links = "map rib_link (realization_links i d)"
  have "distinct (map ri_id (RealizationItem d))" using assms(2) by (simp add: books_def items_ready_def)
  note links = realization_links_split[OF this, of i]
  have "length (ProductBatch d') = length (ProductBatch d)" using arg_cong[OF shifted_ids[OF e(1)], of length] by simp
  with e(2) assms(2) have "stock_ready d'" by (simp add: stock_ready_def books_def)
  moreover have "booked d'"
  proof (rule booked_shifted[OF _ e(1)])
    show "moved k (batch_links d') = moved k (batch_links d) - moved k ?links" for k
      using moved_split[of k rib_link "\<lambda>l. rib_realizationItemId l \<in> ri_id ` set (realization_items i d)" "RealizationItemBatch d"]
      by (simp add: batch_links_def e links)
  qed (use assms(2) in \<open>simp add: books_def\<close>)
  ultimately show ?thesis using assms(2) e(3)
    by (auto simp: books_def items_ready_def item_tables_def e(5,7) batch_links_def list_all_iff)
qed

section \<open>Supplier returns\<close>

lemma books_supplier_ready: "books d \<Longrightarrow> supplier_ready i d"
  by (auto simp: books_def supplier_ready_def items_ready_def supplier_items_def list_all_iff)

lemma supplier_return_post_books:
  assumes "supplier_return_post_body i d = Inr (i', d')" and "books d"
  shows "books d'"
proof -
  obtain new n where new: "SupplierReturnItemBatch d' = SupplierReturnItemBatch d @ new"
    "\<forall>l \<in> set new. on_grid 3 (srib_quantity l) \<and> 0 \<le> srib_quantity l \<and> srib_productBatchId l \<in> pb_id ` set (ProductBatch d)"
    "shifted (\<lambda>k. - moved k (map srib_link new)) (ProductBatch d) (ProductBatch d')" "stock_ready d'"
    and d': "d' = d\<lparr>ProductBatch := ProductBatch d', SupplierReturnItemBatch := SupplierReturnItemBatch d', next_uuid := n,
      SupplierReturn := map_where (\<lambda>r. sr_id r = i)
        (\<lambda>r. r\<lparr>sr_status := POSTED, sr_updatedAt := clock d\<rparr>) (SupplierReturn d)\<rparr>"
    by (rule supplier_post_effect[OF assms(1) books_supplier_ready[OF assms(2)]]) blast
  have rest: "RealizationItem d' = RealizationItem d" "SupplierReturnItem d' = SupplierReturnItem d"
    "RealizationItemBatch d' = RealizationItemBatch d" by (subst d', simp)+
  have "booked d'"
    by (rule booked_shifted[OF _ new(3)]) (use assms(2) in \<open>simp_all add: books_def batch_links_def rest new(1)\<close>)
  then show ?thesis using assms(2) new(2,4)
    by (auto simp: books_def items_ready_def rest batch_links_def new(1) list_all_iff srib_link_def)
qed

lemma supplier_unpost_effect:
  assumes "supplier_return_unpost_body i d = Inr (i', d')" and "books d"
  shows "shifted (\<lambda>k. moved k (map srib_link (supplier_links i d))) (ProductBatch d) (ProductBatch d')"
    and "batches_typed d'" and "item_tables d' = item_tables d" and "next_uuid d' = next_uuid d"
    and "RealizationItemBatch d' = RealizationItemBatch d" and "Realization d' = Realization d"
    and "SupplierReturn d' = map_where (\<lambda>r. sr_id r = i) (\<lambda>r. r\<lparr>sr_status := DRAFT, sr_updatedAt := clock d\<rparr>) (SupplierReturn d)"
    and "SupplierReturnItemBatch d' =
      filter (\<lambda>l. srib_supplierReturnItemId l \<notin> sri_id ` set (supplier_items i d)) (SupplierReturnItemBatch d)"
proof -
  let ?links = "map srib_link (supplier_links i d)"
  obtain d1 where p: "return_links ?links d = Inr d1"
    "set_supplier_status i DRAFT (del_SupplierReturnItemBatches i d1) = Inr d'"
    using assms(1) by (auto simp: supplier_return_unpost_body_def for_each_map srib_link_def split: option.splits if_splits)
  have "\<forall>l \<in> set ?links. on_grid 3 (snd l)"
    using assms(2) by (auto simp: books_def batch_links_def list_all_iff supplier_links_def)
  with return_links_shifts[OF p(1)] assms(2) have s: "shifted (\<lambda>k. moved k ?links) (ProductBatch d) (ProductBatch d1)"
    "batches_typed d1" "d1 = d\<lparr>ProductBatch := ProductBatch d1\<rparr>" by (auto simp: books_def stock_ready_def)
  obtain bs where d1: "d1 = d\<lparr>ProductBatch := bs\<rparr>" using s(3) by blast
  have d': "ProductBatch d' = ProductBatch d1" "item_tables d' = item_tables d" "next_uuid d' = next_uuid d"
    "RealizationItemBatch d' = RealizationItemBatch d" "Realization d' = Realization d"
    "SupplierReturn d' = map_where (\<lambda>r. sr_id r = i) (\<lambda>r. r\<lparr>sr_status := DRAFT, sr_updatedAt := clock d\<rparr>) (SupplierReturn d)"
    "SupplierReturnItemBatch d' = filter (\<lambda>l. srib_supplierReturnItemId l \<notin> sri_id ` set (supplier_items i d)) (SupplierReturnItemBatch d)"
    using p(2) unfolding set_supplier_status_def upd_SupplierReturn_Inr
    by (auto simp: del_SupplierReturnItemBatches_def Let_def d1 supplier_items_def item_tables_def)
  show "shifted (\<lambda>k. moved k ?links) (ProductBatch d) (ProductBatch d')" using s(1) by (simp add: d'(1))
  show "batches_typed d'" using s(2) by (simp add: batches_typed_def d'(1))
  show "item_tables d' = item_tables d" "next_uuid d' = next_uuid d" "RealizationItemBatch d' = RealizationItemBatch d"
    "Realization d' = Realization d"
    "SupplierReturn d' = map_where (\<lambda>r. sr_id r = i) (\<lambda>r. r\<lparr>sr_status := DRAFT, sr_updatedAt := clock d\<rparr>) (SupplierReturn d)"
    "SupplierReturnItemBatch d' = filter (\<lambda>l. srib_supplierReturnItemId l \<notin> sri_id ` set (supplier_items i d)) (SupplierReturnItemBatch d)"
    by (rule d')+
qed

lemma supplier_return_unpost_books:
  assumes "supplier_return_unpost_body i d = Inr (i', d')" and "books d"
  shows "books d'"
proof -
  note e = supplier_unpost_effect[OF assms]
  let ?links = "map srib_link (supplier_links i d)"
  have "distinct (map sri_id (SupplierReturnItem d))" using assms(2) by (simp add: books_def items_ready_def)
  note links = supplier_links_split[OF this, of i]
  have "length (ProductBatch d') = length (ProductBatch d)" using arg_cong[OF shifted_ids[OF e(1)], of length] by simp
  with e(2) assms(2) have "stock_ready d'" by (simp add: stock_ready_def books_def)
  moreover have "booked d'"
  proof (rule booked_shifted[OF _ e(1)])
    show "moved k (batch_links d') = moved k (batch_links d) - moved k ?links" for k
      using moved_split[of k srib_link "\<lambda>l. srib_supplierReturnItemId l \<in> sri_id ` set (supplier_items i d)" "SupplierReturnItemBatch d"]
      by (simp add: batch_links_def e links)
  qed (use assms(2) in \<open>simp add: books_def\<close>)
  ultimately show ?thesis using assms(2) e(3)
    by (auto simp: books_def items_ready_def item_tables_def e(5,8) batch_links_def list_all_iff)
qed

section \<open>Runs of postings\<close>

datatype posting = PostSale ident | UnpostSale ident | PostReturn ident | UnpostReturn ident

fun apply_posting :: "posting \<Rightarrow> db \<Rightarrow> db" where
  "apply_posting (PostSale i) d = snd (realization_post i d)"
| "apply_posting (UnpostSale i) d = snd (realization_unpost i d)"
| "apply_posting (PostReturn i) d = snd (supplier_return_post i d)"
| "apply_posting (UnpostReturn i) d = snd (supplier_return_unpost i d)"

lemma snd_answer [simp]: "snd (answer view x) = snd x"
  by (cases x) (simp add: answer_def)

lemma transaction_books:
  assumes "\<And>x d'. body d = Inr (x, d') \<Longrightarrow> books d'" and "books d"
  shows "books (snd (transaction body d))"
  using assms by (auto simp: transaction_def split: sum.split)

text \<open>
  The stock ledger: whatever sequence of realizations and supplier returns is posted and unposted, accepted or
  refused, what is left in every batch is what it held less what the links to it took.
\<close>

theorem postings_keep_books:
  assumes "books d"
  shows "books (fold apply_posting ps d)"
  using assms
proof (induction ps arbitrary: d)
  case (Cons q ps)
  have "books (apply_posting q d)"
    by (cases q) (auto simp: realization_post_def realization_unpost_def supplier_return_post_def supplier_return_unpost_def
        intro!: transaction_books Cons.prems dest: realization_post_books[OF _ Cons.prems] realization_unpost_books[OF _ Cons.prems]
        supplier_return_post_books[OF _ Cons.prems] supplier_return_unpost_books[OF _ Cons.prems])
  with Cons.IH show ?case by simp
qed simp

section \<open>The report of balances\<close>

text \<open>The foreign keys of the links, from the item to its document.\<close>

definition linked :: "db \<Rightarrow> bool" where
  "linked d \<longleftrightarrow> distinct (map rl_id (Realization d)) \<and> distinct (map sr_id (SupplierReturn d)) \<and>
     list_all (\<lambda>l. List.member (map ri_id (RealizationItem d)) (rib_realizationItemId l)) (RealizationItemBatch d) \<and>
     list_all (\<lambda>r. List.member (map rl_id (Realization d)) (ri_realizationId r)) (RealizationItem d) \<and>
     list_all (\<lambda>l. List.member (map sri_id (SupplierReturnItem d)) (srib_supplierReturnItemId l)) (SupplierReturnItemBatch d) \<and>
     list_all (\<lambda>r. List.member (map sr_id (SupplierReturn d)) (sri_supplierReturnId r)) (SupplierReturnItem d)"

definition event_link :: "out_event \<Rightarrow> ident \<times> decimal" where
  "event_link e = (oe_batchId e, oe_quantity e)"

lemma filter_all: "list_all P xs \<Longrightarrow> filter P xs = xs"
  by (simp add: list_all_iff filter_id_conv)

lemma realization_event_links:
  assumes "linked d" and "items_ready d"
  shows "map event_link (realization_events d) = map rib_link (RealizationItemBatch d)"
proof -
  let ?J = "join (\<lambda>rib ri. ri_id ri = rib_realizationItemId rib) (RealizationItemBatch d) (RealizationItem d)"
  have inner: "map fst ?J = RealizationItemBatch d"
    using assms by (subst join_on_key') (auto simp: items_ready_def linked_def intro!: filter_all elim!: list.pred_mono_strong)
  have "map fst (join (\<lambda>x r. rl_id r = ri_realizationId (snd x)) ?J (Realization d)) = ?J"
    using assms(1) by (subst join_on_key') (auto simp: linked_def list_all_iff set_join filter_id_conv)
  then have "map (\<lambda>x. rib_link (fst (fst x))) (join (\<lambda>x r. rl_id r = ri_realizationId (snd x)) ?J (Realization d)) =
      map (\<lambda>x. rib_link (fst x)) ?J" by (metis (no_types, lifting) map_map map_cong comp_def)
  also have "\<dots> = map rib_link (RealizationItemBatch d)" by (metis (no_types, lifting) inner map_map map_cong comp_def)
  finally show ?thesis
    by (simp add: realization_events_def event_link_def rib_link_def case_prod_unfold o_def)
qed

lemma supplier_return_event_links:
  assumes "linked d" and "items_ready d"
  shows "map event_link (supplier_return_events tz d) = map srib_link (SupplierReturnItemBatch d)"
proof -
  let ?J = "join (\<lambda>srib sri. sri_id sri = srib_supplierReturnItemId srib) (SupplierReturnItemBatch d) (SupplierReturnItem d)"
  have inner: "map fst ?J = SupplierReturnItemBatch d"
    using assms by (subst join_on_key') (auto simp: items_ready_def linked_def intro!: filter_all elim!: list.pred_mono_strong)
  have "map fst (join (\<lambda>x r. sr_id r = sri_supplierReturnId (snd x)) ?J (SupplierReturn d)) = ?J"
    using assms(1) by (subst join_on_key') (auto simp: linked_def list_all_iff set_join filter_id_conv)
  then have "map (\<lambda>x. srib_link (fst (fst x))) (join (\<lambda>x r. sr_id r = sri_supplierReturnId (snd x)) ?J (SupplierReturn d)) =
      map (\<lambda>x. srib_link (fst x)) ?J" by (metis (no_types, lifting) map_map map_cong comp_def)
  also have "\<dots> = map srib_link (SupplierReturnItemBatch d)" by (metis (no_types, lifting) inner map_map map_cong comp_def)
  finally show ?thesis
    by (simp add: supplier_return_events_def event_link_def srib_link_def case_prod_unfold o_def)
qed

lemma sum_of_events: "sum_of oe_quantity (filter (\<lambda>e. oe_batchId e = k) es) = moved k (map event_link es)"
  by (induction es) (auto simp: event_link_def)

definition settled :: "int \<Rightarrow> int \<Rightarrow> db \<Rightarrow> bool" where
  "settled tz n d \<longleftrightarrow> list_all (posted_until tz n) (realization_events d @ supplier_return_events tz d) \<and>
     list_all (batch_in tz (until_day n) d) (ProductBatch d)"

lemma balances_of_books:
  assumes "books d" and "linked d" and "settled tz n d"
  shows "sum_of st_balance (filter (\<lambda>r. st_productId r = p) (stock_rows tz n None d)) =
    sum_of pb_quantityLeft (filter (\<lambda>b. pb_productId b = p) (ProductBatch d))"
proof -
  have ready: "items_ready d" using assms(1) by (simp add: books_def)
  have posted: "filter (posted_until tz n) (realization_events d) = realization_events d"
    "filter (posted_until tz n) (supplier_return_events tz d) = supplier_return_events tz d"
    using assms(3) by (auto simp: settled_def intro: filter_all)
  have "sum_of st_balance (filter (\<lambda>r. st_productId r = p) (stock_rows tz n None d)) =
      sum_of (\<lambda>b. (if batch_in tz (until_day n) d b then pb_quantityTotal b else 0) - moved (pb_id b) (batch_links d))
        (filter (\<lambda>b. pb_productId b = p) (ProductBatch d))"
    unfolding stock_rows_sum batch_balances_def Let_def posted
    by (simp add: filter_map o_def bb_balance_def sum_of_events realization_event_links[OF assms(2) ready]
        supplier_return_event_links[OF assms(2) ready] batch_links_def)
  also have "\<dots> = sum_of pb_quantityLeft (filter (\<lambda>b. pb_productId b = p) (ProductBatch d))"
    using assms(1,3) by (intro sum_of_cong) (auto simp: books_def booked_def settled_def list_all_iff)
  finally show ?thesis .
qed

text \<open>
  The report of balances shows the stock: once every document is dated on or before the day of the report, the
  balances of a product over all warehouses add up to what is left in its batches, which is what the services
  sell from.
\<close>

theorem balances_show_batches:
  assumes "books d" and "linked d" and "settled tz n d"
  shows "sum_of st_balance (filter (\<lambda>r. st_productId r = p) (stock_rows tz n None d)) =
    sum_of pb_quantityLeft (filter (\<lambda>b. pb_productId b = p) (ProductBatch d))"
  using assms by (rule balances_of_books)

lemma sold_db_books: "books sold_db" and sold_db_linked: "linked sold_db" and sold_db_settled: "settled 0 0 sold_db"
proof -
  have "batches_typed (two_batches 5 3)" using two_batches_ready_6 by (simp add: deduct_ready_def)
  then have "stock_ready sold_db"
    by (auto simp: stock_ready_def batches_typed_def batch_typed_def batch_numbers_ok_def dec_fits_def sold_db_def max_batches_def two_batches_def)
  then show "books sold_db"
    by (simp add: books_def items_ready_def booked_def batch_links_def rib_link_def quantity_ready_def sold_db_eval)
  show "linked sold_db" by (simp add: linked_def sold_db_eval)
  show "settled 0 0 sold_db"
    by (simp add: settled_def sold_db_events posted_until_def)
      (simp add: sold_db_eval batch_in_def batch_date_def batch_receipt_def batch_return_def coalesce_opt_def
        until_day_def local_day_def ms_per_day_def)
qed

theorem postings_keep_books_witness:
  "books (fold apply_posting [PostSale 6, UnpostSale 4, PostReturn 9, UnpostSale 6] sold_db)"
  by (rule postings_keep_books[OF sold_db_books])

theorem balances_show_batches_witness:
  "sum_of st_balance (filter (\<lambda>r. st_productId r = 5) (stock_rows 0 0 None sold_db)) = 7"
proof -
  have "sum_of pb_quantityLeft (filter (\<lambda>b. pb_productId b = 5) (ProductBatch sold_db)) = 7" by (simp add: sold_db_eval)
  with balances_show_batches[OF sold_db_books sold_db_linked sold_db_settled] show ?thesis by simp
qed

end
