(* ===== verification/Prices.thy ===== *)
theory Prices
  imports RealizationService Http "HOL-Library.AList"
begin

text \<open>
  Prices: \<open>src/services/priceService.ts\<close> (setting one price), \<open>src/services/priceDocumentService.ts\<close>
  (applying a price document) and \<open>src/controllers/priceDocumentController.ts\<close> (editing, applying and
  copying documents). \<open>Product.prices\<close> is a JSON object from price-type slugs to prices; it is an
  association list here, and every change is recorded as a row of \<open>PriceJournal\<close>.
\<close>

section \<open>The JSON object of prices\<close>

text \<open>\<open>Number(v)\<close> of a stored price.\<close>

fun price_number :: "price_json \<Rightarrow> jsnum" where
  "price_number (PNum x) = x"
| "price_number (PText v) = js_number v"

text \<open>\<open>product.prices || {}\<close> and \<open>Number(prices[slug] || 0)\<close>.\<close>

definition price_object :: "(string \<times> price_json) list option \<Rightarrow> (string \<times> price_json) list" where
  "price_object prices = coalesce prices []"

definition current_price :: "(string \<times> price_json) list \<Rightarrow> string \<Rightarrow> jsnum" where
  "current_price prices slug = (case map_of prices slug of None \<Rightarrow> 0 | Some v \<Rightarrow> price_number v)"

definition set_prices :: "ident \<Rightarrow> (string \<times> price_json) list \<Rightarrow> db \<Rightarrow> db" where
  "set_prices i prices d = d\<lparr>Product := map_where (\<lambda>r. prod_id r = i)
     (\<lambda>r. r\<lparr>prod_prices := Some prices, prod_updatedAt := clock d\<rparr>) (Product d)\<rparr>"

definition ins_PriceJournal :: "price_journal \<Rightarrow> db \<Rightarrow> error + db" where
  "ins_PriceJournal r d = rbind (first_error
      [(pred_option (dec_fits 10 2) (pj_oldPrice r), NumericOverflow), (dec_fits 10 2 (pj_newPrice r), NumericOverflow)])
     (\<lambda>_. Inr (d\<lparr>PriceJournal := PriceJournal d @ [r]\<rparr>))"

section \<open>PriceService\<close>

record price_set_params =
  psp_productId :: ident
  psp_newPrice :: jsnum
  psp_priceTypeId :: "ident option"
  psp_userId :: "ident option"
  psp_reason :: "string option"
  psp_effectiveDate :: "timestamp option"

definition target_slug :: "ident option \<Rightarrow> db \<Rightarrow> error + string" where
  "target_slug priceTypeId d = (case priceTypeId of None \<Rightarrow> Inr ''standard''
     | Some t \<Rightarrow> (case find_row pt_id t (PriceType d) of
         None \<Rightarrow> Inl (PriceTypeNotFound t) | Some r \<Rightarrow> Inr (pt_slug r)))"

text \<open>\<open>reason || null\<close>\<close>

definition text_or_null :: "string option \<Rightarrow> string option" where
  "text_or_null v = (case v of Some (c # cs) \<Rightarrow> Some (c # cs) | _ \<Rightarrow> None)"

definition effective_now :: "timestamp option \<Rightarrow> db \<Rightarrow> bool" where
  "effective_now effectiveDate d = (case effectiveDate of None \<Rightarrow> True | Some t \<Rightarrow> t \<le> clock d)"

text \<open>The answer is the pair of the old and the new price.\<close>

definition setPrice :: "price_set_params \<Rightarrow> db \<Rightarrow> error + (jsnum \<times> jsnum) \<times> db" where
  "setPrice p d =
     rbind (target_slug (psp_priceTypeId p) d) (\<lambda>slug.
     case find_row prod_id (psp_productId p) (Product d) of
       None \<Rightarrow> Inl (ProductNotFound (psp_productId p))
     | Some product \<Rightarrow>
         let prices = price_object (prod_prices product); oldPrice = current_price prices slug
         in rbind (ins_PriceJournal
              \<lparr>pj_id = next_uuid d, pj_productId = psp_productId p, pj_priceTypeId = psp_priceTypeId p,
               pj_oldPrice = Some (round_dec 2 (js_text oldPrice)), pj_newPrice = round_dec 2 (js_text (psp_newPrice p)),
               pj_effectiveDate = coalesce (psp_effectiveDate p) (clock d), pj_createdBy = psp_userId p,
               pj_reason = text_or_null (psp_reason p), pj_createdAt = clock d\<rparr>
              (d\<lparr>next_uuid := Suc (next_uuid d)\<rparr>)) (\<lambda>d1.
            Inr ((oldPrice, psp_newPrice p),
              if effective_now (psp_effectiveDate p) d
              then set_prices (psp_productId p) (AList.update slug (PNum (psp_newPrice p)) prices) d1 else d1)))"

text \<open>\<open>getHistory\<close>: newest effective date first, of those the newest row.\<close>

definition getHistory :: "ident \<Rightarrow> db \<Rightarrow> price_journal list" where
  "getHistory productId d = sort_key (\<lambda>r. - pj_effectiveDate r) (sort_key (\<lambda>r. - pj_createdAt r)
     (filter (\<lambda>r. pj_productId r = productId) (PriceJournal d)))"

section \<open>PriceDocumentService\<close>

definition price_items :: "ident \<Rightarrow> db \<Rightarrow> price_document_item list" where
  "price_items i d = filter (\<lambda>r. pdi_documentId r = i) (PriceDocumentItem d)"

definition applied_reason :: string where
  "applied_reason = ''Price Document Applied''"

text \<open>An item of a product that does not exist is skipped.\<close>

definition apply_price_item :: "price_document \<Rightarrow> string \<Rightarrow> price_document_item \<Rightarrow> db \<Rightarrow> error + db" where
  "apply_price_item doc slug item d =
     (case find_row prod_id (pdi_productId item) (Product d) of
        None \<Rightarrow> Inr d
      | Some product \<Rightarrow>
          let prices = price_object (prod_prices product)
          in rbind (ins_PriceJournal
               \<lparr>pj_id = next_uuid d, pj_productId = pdi_productId item, pj_priceTypeId = pd_targetPriceTypeId doc,
                pj_oldPrice = Some (round_dec 2 (js_text (current_price prices slug))),
                pj_newPrice = round_dec 2 (pdi_price item), pj_effectiveDate = pd_date doc, pj_createdBy = None,
                pj_reason = Some applied_reason, pj_createdAt = pd_date doc\<rparr>
               (d\<lparr>next_uuid := Suc (next_uuid d)\<rparr>)) (\<lambda>d1.
             Inr (set_prices (pdi_productId item) (AList.update slug (PText (pdi_price item)) prices) d1)))"

definition set_price_document_status :: "ident \<Rightarrow> doc_status \<Rightarrow> db \<Rightarrow> db" where
  "set_price_document_status i s d = d\<lparr>PriceDocument := map_where (\<lambda>r. pd_id r = i)
     (\<lambda>r. r\<lparr>pd_status := s, pd_updatedAt := clock d\<rparr>) (PriceDocument d)\<rparr>"

text \<open>The document joined with its target price type.\<close>

definition priced_document :: "ident \<Rightarrow> db \<Rightarrow> (price_document \<times> string) option" where
  "priced_document i d = Option.bind (find_row pd_id i (PriceDocument d)) (\<lambda>doc.
     Option.bind (pd_targetPriceTypeId doc) (\<lambda>t.
     map_option (\<lambda>pt. (doc, pt_slug pt)) (find_row pt_id t (PriceType d))))"

definition price_document_apply_tx :: "ident \<Rightarrow> db \<Rightarrow> error + unit \<times> db" where
  "price_document_apply_tx i d =
     (case priced_document i d of
        None \<Rightarrow> Inl DocumentNotFound
      | Some (doc, slug) \<Rightarrow>
          rbind (for_each (apply_price_item doc slug) (price_items i d) d)
            (\<lambda>d1. Inr ((), set_price_document_status i APPLIED d1)))"

definition price_document_apply :: "ident \<Rightarrow> db \<Rightarrow> (error + unit) \<times> db" where
  "price_document_apply i d = transaction (price_document_apply_tx i) d"

section \<open>priceDocumentController\<close>

record price_document_data =
  pdd_date :: "timestamp option"
  pdd_comment :: "string option"
  pdd_targetPriceTypeId :: "ident option"
  pdd_inputMethod :: "string option"
  pdd_sourcePriceTypeId :: "ident option"
  pdd_markupPercentage :: "jsnum option"
  pdd_roundingMethod :: "string option"
  pdd_roundingValue :: "jsnum option"

record price_item_data =
  pid_productId :: "ident option"
  pid_price :: "jsnum option"

definition rounding_or_none :: "string option \<Rightarrow> string" where
  "rounding_or_none v = (case text_or_null v of None \<Rightarrow> ''NONE'' | Some s \<Rightarrow> s)"

definition markup_fits :: "decimal option \<Rightarrow> error + unit" where
  "markup_fits v = first_error [(case v of None \<Rightarrow> True | Some x \<Rightarrow> dec_fits 10 2 x, NumericOverflow)]"

definition ins_PriceDocument :: "price_document \<Rightarrow> db \<Rightarrow> error + db" where
  "ins_PriceDocument r d = rbind (markup_fits (pd_markupPercentage r))
     (\<lambda>_. Inr (d\<lparr>PriceDocument := PriceDocument d @ [r]\<rparr>))"

definition ins_PriceDocumentItem :: "price_document_item \<Rightarrow> db \<Rightarrow> error + db" where
  "ins_PriceDocumentItem r d = rbind (first_error [(dec_fits 10 2 (pdi_price r), NumericOverflow)])
     (\<lambda>_. Inr (d\<lparr>PriceDocumentItem := PriceDocumentItem d @ [r]\<rparr>))"

definition createDocument_body :: "price_document_data \<Rightarrow> db \<Rightarrow> error + price_document \<times> db" where
  "createDocument_body data d =
     rbind (not_null ''PriceDocument.inputMethod'' (pdd_inputMethod data)) (\<lambda>inputMethod.
     let doc = \<lparr>pd_id = next_uuid d, pd_date = coalesce (pdd_date data) (clock d), pd_status = DRAFT,
           pd_targetPriceTypeId = pdd_targetPriceTypeId data, pd_inputMethod = inputMethod,
           pd_sourcePriceTypeId = pdd_sourcePriceTypeId data,
           pd_markupPercentage = map_option (\<lambda>x. round_dec 2 (js_text x)) (pdd_markupPercentage data),
           pd_roundingMethod = Some (rounding_or_none (pdd_roundingMethod data)),
           pd_roundingValue = map_option js_text (pdd_roundingValue data), pd_comment = pdd_comment data,
           pd_createdAt = clock d, pd_updatedAt = clock d\<rparr>
     in rbind (ins_PriceDocument doc (d\<lparr>next_uuid := Suc (next_uuid d)\<rparr>)) (\<lambda>d1. Inr (doc, d1)))"

definition createDocument :: "price_document_data \<Rightarrow> db \<Rightarrow> price_document reply \<times> db" where
  "createDocument data d = map_prod (catch_reply 201 (\<lambda>e. (500, Text ''Failed to create price document''))) id
     (transaction (createDocument_body data) d)"

definition type_name :: "db \<Rightarrow> ident option \<Rightarrow> string option" where
  "type_name d = join_name pt_id pt_name (PriceType d)"

definition getDocuments :: "db \<Rightarrow> (price_document \<times> string option) list reply" where
  "getDocuments d = reply_ok 200 (map (\<lambda>r. (r, type_name d (pd_targetPriceTypeId r)))
     (sort_key (\<lambda>r. - pd_date r) (sort_key (\<lambda>r. - pd_createdAt r) (PriceDocument d))))"

record price_item_view =
  piv_row :: price_document_item
  piv_productName :: string
  piv_unit :: string

record price_document_view =
  pdv_row :: price_document
  pdv_targetName :: "string option"
  pdv_sourceName :: "string option"
  pdv_items :: "price_item_view list"

text \<open>
  \<open>ORDER BY p.name\<close> is a parameter: the collation of the database.
\<close>

definition price_item_views :: "ident \<Rightarrow> db \<Rightarrow> price_item_view list" where
  "price_item_views i d = List.map_filter (\<lambda>r. map_option
     (\<lambda>p. \<lparr>piv_row = r, piv_productName = prod_name p, piv_unit = prod_unit p\<rparr>)
     (find_row prod_id (pdi_productId r) (Product d))) (price_items i d)"

definition getDocument ::
  "(string \<Rightarrow> nat) \<Rightarrow> ident \<Rightarrow> db \<Rightarrow> price_document_view reply" where
  "getDocument collate i d = (case find_row pd_id i (PriceDocument d) of
     None \<Rightarrow> reply_error 404 (Text ''Document not found'')
   | Some doc \<Rightarrow> reply_ok 200
       \<lparr>pdv_row = doc, pdv_targetName = type_name d (pd_targetPriceTypeId doc),
        pdv_sourceName = type_name d (pd_sourcePriceTypeId doc),
        pdv_items = sort_key (\<lambda>v. collate (piv_productName v)) (price_item_views i d)\<rparr>)"

text \<open>The check that a document is still a draft is commented out in the source.\<close>

definition updateDocument_body :: "ident \<Rightarrow> price_document_data \<Rightarrow> db \<Rightarrow> error + price_document option \<times> db" where
  "updateDocument_body i data d =
     (let markup = map_option (\<lambda>x. round_dec 2 (js_text x)) (pdd_markupPercentage data)
      in rbind (markup_fits markup) (\<lambda>_.
         let d1 = d\<lparr>PriceDocument := map_where (\<lambda>r. pd_id r = i) (\<lambda>r. r\<lparr>
               pd_date := coalesce (pdd_date data) (pd_date r),
               pd_comment := coalesce_opt (pdd_comment data) (pd_comment r),
               pd_targetPriceTypeId := coalesce_opt (pdd_targetPriceTypeId data) (pd_targetPriceTypeId r),
               pd_inputMethod := coalesce (pdd_inputMethod data) (pd_inputMethod r),
               pd_sourcePriceTypeId := pdd_sourcePriceTypeId data, pd_markupPercentage := markup,
               pd_roundingMethod := coalesce_opt (pdd_roundingMethod data) (pd_roundingMethod r),
               pd_roundingValue := map_option js_text (pdd_roundingValue data),
               pd_updatedAt := clock d\<rparr>) (PriceDocument d)\<rparr>
         in Inr (find_row pd_id i (PriceDocument d1), d1)))"

definition updateDocument :: "ident \<Rightarrow> price_document_data \<Rightarrow> db \<Rightarrow> price_document option reply \<times> db" where
  "updateDocument i data d = (case find_row pd_id i (PriceDocument d) of
     None \<Rightarrow> (reply_error 404 (Text ''Document not found''), d)
   | Some doc \<Rightarrow> map_prod (catch_reply 200 (\<lambda>e. (500, Text ''Failed to update price document''))) id
       (transaction (updateDocument_body i data) d))"

definition write_price_item :: "ident \<Rightarrow> ident option \<times> decimal option \<Rightarrow> db \<Rightarrow> error + db" where
  "write_price_item i = (\<lambda>(productId, price) d.
     rbind (not_null ''PriceDocumentItem.productId'' productId) (\<lambda>p.
     rbind (not_null ''PriceDocumentItem.price'' price) (\<lambda>x.
     ins_PriceDocumentItem
       \<lparr>pdi_id = next_uuid d, pdi_documentId = i, pdi_productId = p, pdi_price = round_dec 2 x\<rparr>
       (d\<lparr>next_uuid := Suc (next_uuid d)\<rparr>))))"

definition sent_price :: "price_item_data \<Rightarrow> ident option \<times> decimal option" where
  "sent_price x = (pid_productId x, map_option js_text (pid_price x))"

definition updateDocumentItems_body :: "ident \<Rightarrow> price_item_data list \<Rightarrow> db \<Rightarrow> error + unit \<times> db" where
  "updateDocumentItems_body i items d =
     (case find_row pd_id i (PriceDocument d) of
        None \<Rightarrow> Inl DocumentNotFound
      | Some doc \<Rightarrow>
          rbind (for_each (write_price_item i) (map sent_price items)
              (d\<lparr>PriceDocumentItem := filter (\<lambda>r. pdi_documentId r \<noteq> i) (PriceDocumentItem d)\<rparr>))
            (\<lambda>d1. Inr ((), d1)))"

definition updateDocumentItems :: "ident \<Rightarrow> price_item_data list \<Rightarrow> db \<Rightarrow> unit reply \<times> db" where
  "updateDocumentItems i items d = map_prod (catch_reply 200 (\<lambda>e. (500, ErrorMessage e))) id
     (transaction (updateDocumentItems_body i items) d)"

text \<open>The handler repeats the statements of \<open>PriceDocumentService.apply\<close>.\<close>

definition applyDocument :: "ident \<Rightarrow> db \<Rightarrow> unit reply \<times> db" where
  "applyDocument i d = map_prod (catch_reply 200 (\<lambda>e. (500, ErrorMessage e))) id
     (transaction (price_document_apply_tx i) d)"

text \<open>
  \<open>locale_date\<close> is \<open>Date.prototype.toLocaleDateString()\<close>, which depends on the locale of the server.
\<close>

definition copy_comment :: "(timestamp \<Rightarrow> string) \<Rightarrow> price_document \<Rightarrow> string" where
  "copy_comment locale_date doc =
     js_trim (''Copy of ('' @ locale_date (pd_date doc) @ '') '' @ coalesce (pd_comment doc) '''')"

definition copyDocument_body ::
  "(timestamp \<Rightarrow> string) \<Rightarrow> ident \<Rightarrow> db \<Rightarrow> error + price_document \<times> db" where
  "copyDocument_body locale_date i d =
     (case find_row pd_id i (PriceDocument d) of
        None \<Rightarrow> Inl DocumentNotFound
      | Some doc \<Rightarrow>
          let new = doc\<lparr>pd_id := next_uuid d, pd_date := clock d, pd_status := DRAFT,
                pd_comment := Some (copy_comment locale_date doc),
                pd_roundingMethod := Some (rounding_or_none (pd_roundingMethod doc)),
                pd_createdAt := clock d, pd_updatedAt := clock d\<rparr>
          in rbind (ins_PriceDocument new (d\<lparr>next_uuid := Suc (next_uuid d)\<rparr>)) (\<lambda>d1.
             rbind (for_each (write_price_item (pd_id new))
                 (map (\<lambda>r. (Some (pdi_productId r), Some (pdi_price r))) (price_items i d1)) d1) (\<lambda>d2.
             Inr (new, d2))))"

definition copyDocument ::
  "(timestamp \<Rightarrow> string) \<Rightarrow> ident \<Rightarrow> db \<Rightarrow> price_document reply \<times> db" where
  "copyDocument locale_date i d = map_prod (catch_reply 201 (\<lambda>e. (500, ErrorMessage e))) id
     (transaction (copyDocument_body locale_date i) d)"

section \<open>PriceController\<close>

record price_request =
  prq_productId :: "ident option"
  prq_price :: "jsnum option"
  prq_priceTypeId :: "ident option"
  prq_reason :: "string option"
  prq_effectiveDate :: "timestamp option"

text \<open>
  \<open>req.dbClient\<close> is set nowhere, so the handler asks \<open>require\<close> for the pool: \<open>has_require\<close> says whether
  the module system of the running server defines it.
\<close>

definition setPrice_handler ::
  "bool \<Rightarrow> req_user option \<Rightarrow> price_request \<Rightarrow> db \<Rightarrow> (jsnum \<times> jsnum) reply \<times> db" where
  "setPrice_handler has_require user req d =
     (case (prq_productId req, prq_price req) of
        (Some p, Some x) \<Rightarrow>
          if has_require
          then map_prod (catch_reply 200 (\<lambda>e. (500, Text ''Failed to set price''))) id
                 (transaction (setPrice \<lparr>psp_productId = p, psp_newPrice = x, psp_priceTypeId = prq_priceTypeId req,
                    psp_userId = user_id user, psp_reason = prq_reason req,
                    psp_effectiveDate = prq_effectiveDate req\<rparr>) d)
          else (reply_error 500 (Text ''Failed to set price''), d)
      | _ \<Rightarrow> (reply_error 400 (Text ''Missing required fields: productId, price''), d))"

definition getHistory_handler :: "ident \<Rightarrow> db \<Rightarrow> price_journal list reply" where
  "getHistory_handler productId d = reply_ok 200 (getHistory productId d)"

section \<open>What applying a document does to the prices\<close>

text \<open>The last item of a product wins.\<close>

definition final_price :: "price_document_item list \<Rightarrow> ident \<Rightarrow> decimal option" where
  "final_price items p = map_of (rev (map (\<lambda>x. (pdi_productId x, pdi_price x)) items)) p"

definition priced :: "string \<Rightarrow> timestamp \<Rightarrow> decimal option \<Rightarrow> product \<Rightarrow> product" where
  "priced slug t v r = (case v of None \<Rightarrow> r | Some x \<Rightarrow>
     r\<lparr>prod_prices := Some (AList.update slug (PText x) (price_object (prod_prices r))), prod_updatedAt := t\<rparr>)"

lemma final_price_Nil [simp]: "final_price [] p = None"
  by (simp add: final_price_def)

lemma final_price_Cons [simp]:
  "final_price (x # xs) p = (case final_price xs p of Some v \<Rightarrow> Some v
     | None \<Rightarrow> if pdi_productId x = p then Some (pdi_price x) else None)"
  by (simp add: final_price_def map_add_def split: option.split)

lemma priced_None [simp]: "priced slug t None r = r"
  by (simp add: priced_def)

lemma prod_id_priced [simp]: "prod_id (priced slug t v r) = prod_id r"
  by (simp add: priced_def split: option.split)

lemma priced_twice: "priced slug t (Some w) (priced slug t (Some v) r) = priced slug t (Some w) r"
  by (simp add: priced_def price_object_def coalesce_def)

lemma priced_price:
  "current_price (price_object (prod_prices (priced slug t (Some x) r))) slug = js_number x"
  by (simp add: priced_def price_object_def coalesce_def current_price_def update_conv')

lemma apply_item_rows:
  assumes "apply_price_item doc slug item d = Inr d'" and "distinct (map prod_id (Product d))"
  shows "Product d' = map (\<lambda>r. priced slug (clock d) (final_price [item] (prod_id r)) r) (Product d)"
    and "clock d' = clock d"
proof -
  show "clock d' = clock d"
    using assms(1)
    by (auto simp: apply_price_item_def ins_PriceJournal_def set_prices_def Let_def split: option.splits)
  show "Product d' = map (\<lambda>r. priced slug (clock d) (final_price [item] (prod_id r)) r) (Product d)"
  proof (cases "find_row prod_id (pdi_productId item) (Product d)")
    case None
    then have "pdi_productId item \<notin> prod_id ` set (Product d)" by (simp add: find_row_None_iff)
    then have "\<forall>r \<in> set (Product d). pdi_productId item \<noteq> prod_id r" by auto
    then show ?thesis using assms(1) None by (simp add: apply_price_item_def map_idI)
  next
    case (Some p)
    have "p = r" if "r \<in> set (Product d)" "prod_id r = pdi_productId item" for r
      using find_row_distinct[OF assms(2) that(1)] that(2) Some by simp
    then show ?thesis
      using assms(1) Some
      by (auto simp: apply_price_item_def ins_PriceJournal_def set_prices_def map_where_def priced_def Let_def)
  qed
qed

lemma apply_items_rows:
  assumes "for_each (apply_price_item doc slug) items d = Inr d'" and "distinct (map prod_id (Product d))"
  shows "Product d' = map (\<lambda>r. priced slug (clock d) (final_price items (prod_id r)) r) (Product d)"
  using assms
proof (induction items arbitrary: d)
  case (Cons x xs)
  from Cons.prems(1) obtain d1 where d1: "apply_price_item doc slug x d = Inr d1"
    "for_each (apply_price_item doc slug) xs d1 = Inr d'" by auto
  note r = apply_item_rows[OF d1(1) Cons.prems(2)]
  have "map prod_id (Product d1) = map prod_id (Product d)" by (simp add: r(1))
  with Cons.prems(2) have "distinct (map prod_id (Product d1))" by metis
  from Cons.IH[OF d1(2) this]
  have "Product d' = map (\<lambda>r. priced slug (clock d) (final_price xs (prod_id r)) r) (Product d1)"
    unfolding r(2) .
  then show ?case by (auto simp: r priced_twice split: option.split)
qed (simp add: map_idI)

text \<open>The journal rows of one product are a chain: each starts at the price the one before it set.\<close>

definition price_typed :: "price_document_item \<Rightarrow> bool" where
  "price_typed x \<longleftrightarrow> on_grid 2 (pdi_price x) \<and> \<bar>pdi_price x\<bar> < 10 ^ 8"

definition price_history :: "ident \<Rightarrow> price_journal list \<Rightarrow> (decimal option \<times> decimal) list" where
  "price_history p rows = map (\<lambda>r. (pj_oldPrice r, pj_newPrice r)) (filter (\<lambda>r. pj_productId r = p) rows)"

fun price_chain :: "decimal \<Rightarrow> decimal list \<Rightarrow> (decimal option \<times> decimal) list" where
  "price_chain x [] = []"
| "price_chain x (y # ys) = (Some x, y) # price_chain y ys"

definition prices_of :: "ident \<Rightarrow> price_document_item list \<Rightarrow> decimal list" where
  "prices_of p items = map pdi_price (filter (\<lambda>x. pdi_productId x = p) items)"

definition shown_price :: "string \<Rightarrow> product \<Rightarrow> decimal" where
  "shown_price slug r = round_dec 2 (js_text (current_price (price_object (prod_prices r)) slug))"

lemma apply_item_journal:
  assumes "apply_price_item doc slug x d = Inr d'" and "distinct (map prod_id (Product d))"
    and "r \<in> set (Product d)" and "price_typed x"
  shows "\<exists>rows. PriceJournal d' = PriceJournal d @ rows \<and>
    price_history (prod_id r) rows =
      (if pdi_productId x = prod_id r then [(Some (shown_price slug r), pdi_price x)] else []) \<and>
    (\<forall>j \<in> set rows. pj_effectiveDate j = pd_date doc \<and> pj_createdAt j = pd_date doc)"
proof (cases "find_row prod_id (pdi_productId x) (Product d)")
  case None
  then have "pdi_productId x \<noteq> prod_id r" using assms(3) by (auto simp: find_row_None_iff)
  then show ?thesis using assms(1) None by (simp add: apply_price_item_def price_history_def)
next
  case (Some p)
  have "round_dec 2 (pdi_price x) = pdi_price x" using assms(4) by (simp add: price_typed_def)
  moreover have "p = r" if "pdi_productId x = prod_id r"
    using find_row_distinct[OF assms(2,3)] that Some by simp
  ultimately show ?thesis
    using assms(1) Some
    by (auto simp: apply_price_item_def ins_PriceJournal_def set_prices_def price_history_def shown_price_def Let_def)
qed

lemma shown_price_priced:
  assumes "price_typed x"
  shows "shown_price slug (priced slug t (Some (pdi_price x)) r) = pdi_price x"
  using assms column_exact[of 2 "pdi_price x"] by (simp add: shown_price_def priced_price price_typed_def)

lemma price_history_append [simp]: "price_history p (xs @ ys) = price_history p xs @ price_history p ys"
  by (simp add: price_history_def)

lemma apply_items_journal:
  assumes "for_each (apply_price_item doc slug) items d = Inr d'" and "distinct (map prod_id (Product d))"
    and "r \<in> set (Product d)" and "\<forall>x \<in> set items. price_typed x"
  shows "\<exists>rows. PriceJournal d' = PriceJournal d @ rows \<and>
    price_history (prod_id r) rows = price_chain (shown_price slug r) (prices_of (prod_id r) items) \<and>
    (\<forall>j \<in> set rows. pj_effectiveDate j = pd_date doc \<and> pj_createdAt j = pd_date doc)"
  using assms
proof (induction items arbitrary: d r)
  case Nil
  then show ?case by (simp add: price_history_def prices_of_def)
next
  case (Cons x xs)
  from Cons.prems(1) obtain d1 where d1: "apply_price_item doc slug x d = Inr d1"
    "for_each (apply_price_item doc slug) xs d1 = Inr d'" by auto
  from Cons.prems(4) have x: "price_typed x" and xs: "\<forall>x \<in> set xs. price_typed x" by auto
  note rows = apply_item_rows[OF d1(1) Cons.prems(2)]
  let ?r = "priced slug (clock d) (final_price [x] (prod_id r)) r"
  have r: "?r \<in> set (Product d1)" using Cons.prems(3) by (auto simp: rows(1))
  have "map prod_id (Product d1) = map prod_id (Product d)" by (simp add: rows(1))
  with Cons.prems(2) have dis: "distinct (map prod_id (Product d1))" by metis
  obtain js where "PriceJournal d' = PriceJournal d1 @ js"
    "price_history (prod_id r) js = price_chain (shown_price slug ?r) (prices_of (prod_id r) xs)"
    "\<forall>j \<in> set js. pj_effectiveDate j = pd_date doc \<and> pj_createdAt j = pd_date doc"
    using Cons.IH[OF d1(2) dis r xs] unfolding prod_id_priced by blast
  moreover obtain j where "PriceJournal d1 = PriceJournal d @ j"
    "price_history (prod_id r) j = (if pdi_productId x = prod_id r then [(Some (shown_price slug r), pdi_price x)] else [])"
    "\<forall>j \<in> set j. pj_effectiveDate j = pd_date doc \<and> pj_createdAt j = pd_date doc"
    using apply_item_journal[OF d1(1) Cons.prems(2,3) x] by blast
  ultimately show ?case
    by (intro exI[of _ "j @ js"]) (auto simp: prices_of_def shown_price_priced[OF x])
qed

section \<open>What the price services promise\<close>

text \<open>
  C20: applying a price document sets the target price of every product it lists, and of no other: the
  product's JSON object gets the price of the last item of that product under the slug of the target price
  type and keeps every other price; the document becomes APPLIED. Items of unknown products are skipped.
\<close>

theorem apply_sets_prices:
  assumes "price_document_apply_tx i d = Inr (u, d')" and "distinct (map prod_id (Product d))"
  shows "\<exists>doc slug. priced_document i d = Some (doc, slug) \<and>
    Product d' = map (\<lambda>r. priced slug (clock d) (final_price (price_items i d) (prod_id r)) r) (Product d) \<and>
    (\<forall>r \<in> set (PriceDocument d'). pd_id r = i \<longrightarrow> pd_status r = APPLIED)"
proof -
  from assms(1) obtain doc slug d1 where p: "priced_document i d = Some (doc, slug)"
    and d1: "for_each (apply_price_item doc slug) (price_items i d) d = Inr d1"
    and d': "d' = set_price_document_status i APPLIED d1"
    by (auto simp: price_document_apply_tx_def split: option.splits)
  have "Product d' = Product d1" by (simp add: d' set_price_document_status_def)
  note rows = this[unfolded apply_items_rows[OF d1 assms(2)]]
  have "\<forall>r \<in> set (PriceDocument d'). pd_id r = i \<longrightarrow> pd_status r = APPLIED"
    by (simp add: d' set_price_document_status_def set_map_where ball_Un)
  with p rows show ?thesis by blast
qed

definition milk :: product where
  "milk = (named_product 5 ''milk'' ''l'')\<lparr>prod_prices := Some [(''standard'', PNum 30)]\<rparr>"

definition priced_db :: db where
  "priced_db = empty_db\<lparr>Product := [milk], PriceType := [named_price_type 2 ''Shop'' ''shop''],
     PriceDocument := [\<lparr>pd_id = 1, pd_date = 70, pd_status = DRAFT, pd_targetPriceTypeId = Some 2,
       pd_inputMethod = ''MANUAL'', pd_sourcePriceTypeId = None, pd_markupPercentage = None,
       pd_roundingMethod = None, pd_roundingValue = None, pd_comment = None, pd_createdAt = 90,
       pd_updatedAt = 90\<rparr>],
     PriceDocumentItem := [\<lparr>pdi_id = 10, pdi_documentId = 1, pdi_productId = 5, pdi_price = 40\<rparr>,
       \<lparr>pdi_id = 11, pdi_documentId = 1, pdi_productId = 6, pdi_price = 50\<rparr>,
       \<lparr>pdi_id = 12, pdi_documentId = 1, pdi_productId = 5, pdi_price = 42\<rparr>], clock := 100\<rparr>"

lemmas price_eval =
  price_document_apply_tx_def priced_document_def price_items_def apply_price_item_def ins_PriceJournal_def
  first_error_def dec_fits_def set_prices_def set_price_document_status_def price_object_def coalesce_def
  current_price_def applied_reason_def priced_db_def milk_def empty_db_def

lemma priced_db_applies: "\<exists>d'. price_document_apply_tx 1 priced_db = Inr ((), d')"
proof -
  have n: "js_text (fl 40) = 40" by code_simp
  show ?thesis by (simp add: price_eval js_number_def n del: One_nat_def)
qed

theorem apply_sets_prices_witness:
  "\<exists>d'. price_document_apply_tx 1 priced_db = Inr ((), d') \<and>
     map prod_prices (Product d') = [Some [(''standard'', PNum 30), (''shop'', PText 42)]]"
proof -
  from priced_db_applies obtain d' where d': "price_document_apply_tx 1 priced_db = Inr ((), d')" by blast
  have "distinct (map prod_id (Product priced_db))" by (simp add: priced_db_def)
  from apply_sets_prices[OF d' this] show ?thesis using d'
    by (auto simp: priced_def price_eval)
qed

text \<open>
  C21: the journal is a chain. For every product, the rows that applying a document adds start from the price
  the product had, each next row starts from the price the one before it set, and the new prices are the
  document's items of that product in order; every row carries the date of the document.
\<close>

theorem apply_journal_chain:
  assumes "price_document_apply_tx i d = Inr (u, d')" and "distinct (map prod_id (Product d))"
    and "r \<in> set (Product d)" and "\<forall>x \<in> set (PriceDocumentItem d). price_typed x"
  shows "\<exists>doc slug rows. priced_document i d = Some (doc, slug) \<and> PriceJournal d' = PriceJournal d @ rows \<and>
    price_history (prod_id r) rows =
      price_chain (shown_price slug r) (prices_of (prod_id r) (price_items i d)) \<and>
    (\<forall>j \<in> set rows. pj_effectiveDate j = pd_date doc \<and> pj_createdAt j = pd_date doc)"
proof -
  from assms(1) obtain doc slug d1 where p: "priced_document i d = Some (doc, slug)"
    and d1: "for_each (apply_price_item doc slug) (price_items i d) d = Inr d1"
    and d': "PriceJournal d' = PriceJournal d1"
    by (auto simp: price_document_apply_tx_def set_price_document_status_def split: option.splits)
  have "\<forall>x \<in> set (price_items i d). price_typed x" using assms(4) by (simp add: price_items_def)
  from apply_items_journal[OF d1 assms(2,3) this] p d' show ?thesis by auto
qed

theorem apply_journal_chain_witness:
  "\<exists>d'. price_document_apply_tx 1 priced_db = Inr ((), d') \<and>
     price_history 5 (PriceJournal d') = [(Some 0, 40), (Some 40, 42)]"
proof -
  from priced_db_applies obtain d' where d': "price_document_apply_tx 1 priced_db = Inr ((), d')" by blast
  have "price_history (prod_id milk) (PriceJournal d') = [(Some 0, 40), (Some 40, 42)]"
    using apply_journal_chain[OF d', of milk]
    by (auto simp: price_typed_def priced_db_def empty_db_def milk_def shown_price_def prices_of_def
        price_items_def price_object_def coalesce_def current_price_def priced_document_def)
  then show ?thesis using d' by (auto simp: milk_def)
qed

text \<open>
  A price set for the future is only recorded. \<open>setPrice\<close> always appends the journal row, and touches
  the product exactly if the effective date has come; then the price read back is the one that was set.
\<close>

theorem setPrice_future_only_recorded:
  assumes "setPrice p d = Inr ((old, new), d')" and "target_slug (psp_priceTypeId p) d = Inr slug"
    and "distinct (map prod_id (Product d))" and "r \<in> set (Product d)" and "prod_id r = psp_productId p"
  shows "new = psp_newPrice p \<and> old = current_price (price_object (prod_prices r)) slug \<and>
    length (PriceJournal d') = Suc (length (PriceJournal d)) \<and>
    (\<not> effective_now (psp_effectiveDate p) d \<longrightarrow> Product d' = Product d) \<and>
    (effective_now (psp_effectiveDate p) d \<longrightarrow>
      (\<forall>r' \<in> set (Product d'). prod_id r' = psp_productId p \<longrightarrow>
         current_price (price_object (prod_prices r')) slug = psp_newPrice p))"
proof -
  have f: "find_row prod_id (psp_productId p) (Product d) = Some r"
    using find_row_distinct[OF assms(3,4)] assms(5) by simp
  show ?thesis using assms(1,2)
    by (auto simp: setPrice_def f ins_PriceJournal_def set_prices_def set_map_where price_object_def coalesce_def
        current_price_def update_conv' Let_def split: if_splits)
qed

definition price_change :: "timestamp option \<Rightarrow> price_set_params" where
  "price_change t = \<lparr>psp_productId = 5, psp_newPrice = 40, psp_priceTypeId = None, psp_userId = None,
     psp_reason = None, psp_effectiveDate = t\<rparr>"

theorem setPrice_future_only_recorded_witness:
  "(\<exists>d'. setPrice (price_change (Some 500)) priced_db = Inr ((30, 40), d') \<and> Product d' = [milk]) \<and>
   (\<exists>d'. setPrice (price_change None) priced_db = Inr ((30, 40), d') \<and> Product d' \<noteq> [milk])"
proof -
  have n: "js_text 30 = 30" "js_text 40 = 40" by code_simp+
  have m: "target_slug (psp_priceTypeId (price_change t)) priced_db = Inr ''standard''"
    "distinct (map prod_id (Product priced_db))" "milk \<in> set (Product priced_db)"
    "prod_id milk = psp_productId (price_change t)" "Product priced_db = [milk]" for t
    by (simp_all add: price_change_def target_slug_def priced_db_def milk_def)
  have e: "\<exists>d'. setPrice (price_change t) priced_db = Inr ((30, 40), d')" if "t = None \<or> t = Some 500" for t
    using that by (auto simp: setPrice_def target_slug_def price_change_def price_eval n effective_now_def Let_def)
  have now: "effective_now (psp_effectiveDate (price_change None)) priced_db"
    and later: "\<not> effective_now (psp_effectiveDate (price_change (Some 500))) priced_db"
    by (simp_all add: effective_now_def price_change_def priced_db_def)
  from e obtain d1 d2 where
    d1: "setPrice (price_change (Some 500)) priced_db = Inr ((30, 40), d1)" and
    d2: "setPrice (price_change None) priced_db = Inr ((30, 40), d2)" by blast
  have "Product d1 = [milk]"
    using setPrice_future_only_recorded[OF d1 m(1-4)] later m(5) by simp
  moreover have "Product d2 \<noteq> [milk]"
    using setPrice_future_only_recorded[OF d2 m(1-4)] now
    by (auto simp: price_change_def milk_def price_object_def coalesce_def current_price_def)
  ultimately show ?thesis using d1 d2 by blast
qed

end
