(* ===== verification/Reposting.thy ===== *)
theory Reposting
  imports RealizationService GoodsReceiptService BuyerReturnService Prices "HOL-Library.Product_Lexorder" "HOL-Library.Multiset"
begin

text \<open>
  \<open>src/services/documentRepostingService.ts\<close> and \<open>src/routes/repost.ts\<close>: the bulk job that unposts the
  selected documents, newest first and sales before the receipts they sold from, and posts them again in
  the order of their dates, in one transaction and under the lock \<open>document_operations\<close>. The log messages
  are not part of the state.
\<close>

section \<open>Options and selection\<close>

datatype repost_action = REPOST | POST | UNPOST

record repost_options =
  ro_startDate :: "timestamp option"
  ro_endDate :: "timestamp option"
  ro_types :: "doc_type list option"
  ro_action :: "repost_action option"

record doc_ref =
  ref_type :: doc_type
  ref_id :: ident
  ref_date :: timestamp
  ref_created :: timestamp

definition action_of :: "repost_options \<Rightarrow> repost_action" where
  "action_of opts = coalesce (ro_action opts) REPOST"

text \<open>The status that a document of the type has when it is not posted, and when it is.\<close>

fun open_status :: "doc_type \<Rightarrow> doc_status" where
  "open_status GOODS_RECEIPT = SAVED"
| "open_status _ = DRAFT"

fun done_status :: "doc_type \<Rightarrow> doc_status" where
  "done_status PRICE_DOCUMENT = APPLIED"
| "done_status _ = POSTED"

definition wanted_status :: "repost_options \<Rightarrow> doc_type \<Rightarrow> doc_status" where
  "wanted_status opts ty = (if action_of opts = POST then open_status ty else done_status ty)"

definition include_type :: "repost_options \<Rightarrow> doc_type \<Rightarrow> bool" where
  "include_type opts ty = (case ro_types opts of None \<Rightarrow> True | Some ts \<Rightarrow> ts = [] \<or> List.member ts ty)"

definition in_period :: "repost_options \<Rightarrow> timestamp \<Rightarrow> bool" where
  "in_period opts t \<longleftrightarrow>
     (case ro_startDate opts of None \<Rightarrow> True | Some s \<Rightarrow> s \<le> t) \<and>
     (case ro_endDate opts of None \<Rightarrow> True | Some e \<Rightarrow> t \<le> end_of_day e)"

text \<open>\<open>ORDER BY date DESC, "createdAt" DESC\<close>\<close>

definition newest_first :: "doc_ref list \<Rightarrow> doc_ref list" where
  "newest_first rs = sort_key (\<lambda>r. - ref_date r) (sort_key (\<lambda>r. - ref_created r) rs)"

definition documents :: "repost_options \<Rightarrow> db \<Rightarrow> doc_type \<Rightarrow> doc_ref list" where
  "documents opts d ty = (case ty of
     REALIZATION \<Rightarrow> map (\<lambda>r. \<lparr>ref_type = ty, ref_id = rl_id r, ref_date = rl_date r, ref_created = rl_createdAt r\<rparr>)
       (filter (\<lambda>r. rl_status r = wanted_status opts ty \<and> \<not> rl_isDeleted r) (Realization d))
   | BUYER_RETURN \<Rightarrow> map (\<lambda>r. \<lparr>ref_type = ty, ref_id = br_id r, ref_date = br_date r, ref_created = br_createdAt r\<rparr>)
       (filter (\<lambda>r. br_status r = wanted_status opts ty) (BuyerReturn d))
   | GOODS_RECEIPT \<Rightarrow> map (\<lambda>r. \<lparr>ref_type = ty, ref_id = gr_id r, ref_date = gr_date r, ref_created = gr_createdAt r\<rparr>)
       (filter (\<lambda>r. gr_status r = wanted_status opts ty \<and> \<not> gr_isDeleted r) (GoodsReceipt d))
   | PRICE_DOCUMENT \<Rightarrow> map (\<lambda>r. \<lparr>ref_type = ty, ref_id = pd_id r, ref_date = pd_date r, ref_created = pd_createdAt r\<rparr>)
       (filter (\<lambda>r. pd_status r = wanted_status opts ty) (PriceDocument d)))"

definition selected :: "repost_options \<Rightarrow> db \<Rightarrow> doc_type \<Rightarrow> doc_ref list" where
  "selected opts d ty = (if include_type opts ty
     then newest_first (filter (\<lambda>r. in_period opts (ref_date r)) (documents opts d ty)) else [])"

section \<open>The two phases\<close>

definition wrap_error :: "(error \<Rightarrow> error) \<Rightarrow> error + 'a \<Rightarrow> error + 'a" where
  "wrap_error f r = (case r of Inl e \<Rightarrow> Inl (f e) | Inr x \<Rightarrow> Inr x)"

definition reset_price_document :: "doc_ref \<Rightarrow> db \<Rightarrow> db" where
  "reset_price_document row d =
     d\<lparr>PriceJournal := filter (\<lambda>j. \<not> (pj_reason j = Some applied_reason \<and> pj_createdAt j = ref_created row))
         (PriceJournal d),
       PriceDocument := map_where (\<lambda>r. pd_id r = ref_id row) (\<lambda>r. r\<lparr>pd_status := DRAFT\<rparr>) (PriceDocument d)\<rparr>"

definition unpost_document :: "doc_ref \<Rightarrow> db \<Rightarrow> error + db" where
  "unpost_document row d = (case ref_type row of
     REALIZATION \<Rightarrow> rbind (realization_unpost_tx (ref_id row) d) (\<lambda>(_, d'). Inr d')
   | BUYER_RETURN \<Rightarrow> rbind (buyer_return_unpost_tx (ref_id row) d) (\<lambda>(_, d'). Inr d')
   | GOODS_RECEIPT \<Rightarrow> rbind (receipt_unpost_tx (ref_id row) d) (\<lambda>(_, d'). Inr d')
   | PRICE_DOCUMENT \<Rightarrow> Inr (reset_price_document row d))"

definition unpost_step :: "doc_ref \<Rightarrow> db \<Rightarrow> error + db" where
  "unpost_step row d = wrap_error (RepostUnpostFailed (ref_type row) (ref_id row)) (unpost_document row d)"

definition unpost_order :: "repost_options \<Rightarrow> db \<Rightarrow> doc_ref list" where
  "unpost_order opts d = concat (map (selected opts d) [REALIZATION, BUYER_RETURN, GOODS_RECEIPT, PRICE_DOCUMENT])"

fun type_weight :: "doc_type \<Rightarrow> nat" where
  "type_weight GOODS_RECEIPT = 1"
| "type_weight PRICE_DOCUMENT = 2"
| "type_weight BUYER_RETURN = 3"
| "type_weight REALIZATION = 4"

definition post_key :: "doc_ref \<Rightarrow> int \<times> nat \<times> int" where
  "post_key r = (ref_date r, type_weight (ref_type r), ref_created r)"

definition post_order :: "repost_options \<Rightarrow> db \<Rightarrow> doc_ref list" where
  "post_order opts d = sort_key post_key (unpost_order opts d)"

definition post_document :: "doc_ref \<Rightarrow> db \<Rightarrow> error + db" where
  "post_document doc d = (case ref_type doc of
     GOODS_RECEIPT \<Rightarrow> rbind (receipt_post_tx (ref_id doc) d) (\<lambda>(_, d'). Inr d')
   | PRICE_DOCUMENT \<Rightarrow> rbind (price_document_apply_tx (ref_id doc) d) (\<lambda>(_, d'). Inr d')
   | BUYER_RETURN \<Rightarrow> rbind (buyer_return_post_tx (ref_id doc) d) (\<lambda>(_, d'). Inr d')
   | REALIZATION \<Rightarrow> rbind (realization_post_tx (ref_id doc) d) (\<lambda>(_, d'). Inr d'))"

definition post_step :: "doc_ref \<Rightarrow> db \<Rightarrow> error + db" where
  "post_step doc d = wrap_error (RepostPostFailed (ref_type doc) (ref_id doc)) (post_document doc d)"

text \<open>The documents are fetched once, before anything is unposted.\<close>

definition repost_body :: "repost_options \<Rightarrow> db \<Rightarrow> error + unit \<times> db" where
  "repost_body opts d =
     rbind (if action_of opts \<in> {REPOST, UNPOST} then for_each unpost_step (unpost_order opts d) d else Inr d) (\<lambda>d1.
     rbind (if action_of opts \<in> {REPOST, POST} then for_each post_step (post_order opts d) d1 else Inr d1) (\<lambda>d2.
     Inr ((), d2)))"

section \<open>The lock\<close>

definition is_locked :: "db \<Rightarrow> bool" where
  "is_locked d = (case DocumentLock d of None \<Rightarrow> False | Some l \<Rightarrow> dl_isLocked l)"

definition acquire_lock :: "ident option \<Rightarrow> db \<Rightarrow> db" where
  "acquire_lock userId d = d\<lparr>DocumentLock := map_option (\<lambda>l. l\<lparr>dl_isLocked := True, dl_lockedBy := userId,
     dl_lockedAt := Some (clock d), dl_reason := Some ''Bulk document reposting''\<rparr>) (DocumentLock d)\<rparr>"

definition release_lock :: "db \<Rightarrow> db" where
  "release_lock d = d\<lparr>DocumentLock := map_option (\<lambda>l. l\<lparr>dl_isLocked := False, dl_lockedBy := None,
     dl_lockedAt := None, dl_reason := None\<rparr>) (DocumentLock d)\<rparr>"

text \<open>The \<open>finally\<close> block releases the lock on every path, also when the run found it taken.\<close>

definition repost_run :: "ident option \<Rightarrow> repost_options \<Rightarrow> db \<Rightarrow> (error + unit) \<times> db" where
  "repost_run userId opts d =
     map_prod id release_lock
       (if is_locked d then (Inl SystemLocked, d) else transaction (repost_body opts) (acquire_lock userId d))"

text \<open>The route answers before the run starts.\<close>

definition repost_route :: "req_user option \<Rightarrow> repost_options \<Rightarrow> db \<Rightarrow> string reply \<times> ((error + unit) \<times> db)" where
  "repost_route user opts d =
     (reply_ok 200 ''Reposting process started. Connect to SSE for logs.'', repost_run (user_id user) opts d)"

section \<open>The order of the two phases\<close>

lemma mset_newest_first [simp]: "mset (newest_first rs) = mset rs"
  by (simp add: newest_first_def)

lemma mset_post_order: "mset (post_order opts d) = mset (unpost_order opts d)"
  by (simp add: post_order_def)

lemma sorted_post_order: "sorted (map post_key (post_order opts d))"
  by (simp add: post_order_def)

lemma selected_type: "r \<in> set (selected opts d ty) \<Longrightarrow> ref_type r = ty"
proof -
  assume "r \<in> set (selected opts d ty)"
  then have "r \<in> set (documents opts d ty)"
    by (auto simp: selected_def newest_first_def split: if_splits)
  then show "ref_type r = ty" by (cases ty) (auto simp: documents_def)
qed

section \<open>Statuses\<close>

definition doc_statuses :: "db \<Rightarrow> doc_type \<Rightarrow> (ident \<times> doc_status) list" where
  "doc_statuses d ty = (case ty of
     REALIZATION \<Rightarrow> map (\<lambda>r. (rl_id r, rl_status r)) (Realization d)
   | BUYER_RETURN \<Rightarrow> map (\<lambda>r. (br_id r, br_status r)) (BuyerReturn d)
   | GOODS_RECEIPT \<Rightarrow> map (\<lambda>r. (gr_id r, gr_status r)) (GoodsReceipt d)
   | PRICE_DOCUMENT \<Rightarrow> map (\<lambda>r. (pd_id r, pd_status r)) (PriceDocument d))"

definition set_statuses :: "ident set \<Rightarrow> doc_status \<Rightarrow> (ident \<times> doc_status) list \<Rightarrow> (ident \<times> doc_status) list" where
  "set_statuses I s = map (\<lambda>(j, t). (j, if j \<in> I then s else t))"

lemma set_statuses_empty [simp]: "set_statuses {} s ps = ps"
  by (simp add: set_statuses_def)

lemma set_statuses_union: "set_statuses J s (set_statuses I s ps) = set_statuses (I \<union> J) s ps"
  by (auto simp: set_statuses_def)

lemma set_statuses_over: "I \<subseteq> J \<Longrightarrow> set_statuses J t (set_statuses I s ps) = set_statuses J t ps"
  by (auto simp: set_statuses_def)

lemma doc_statuses_cong:
  assumes "Realization d' = Realization d" "BuyerReturn d' = BuyerReturn d" "GoodsReceipt d' = GoodsReceipt d"
    "PriceDocument d' = PriceDocument d"
  shows "doc_statuses d' = doc_statuses d"
  using assms by (intro ext) (simp add: doc_statuses_def split: doc_type.split)

text \<open>
  A kind of document that can be posted and unposted: each of the two operations sets the status of that
  document, and no other document of any kind changes its status.
\<close>

locale document_kind =
  fixes post unpost :: "doc_ref \<Rightarrow> db \<Rightarrow> error + db" and ty :: doc_type
  assumes post_sets: "post r d = Inr d' \<Longrightarrow>
      doc_statuses d' = (doc_statuses d)(ty := set_statuses {ref_id r} (done_status ty) (doc_statuses d ty))"
    and unpost_sets: "unpost r d = Inr d' \<Longrightarrow>
      doc_statuses d' = (doc_statuses d)(ty := set_statuses {ref_id r} (open_status ty) (doc_statuses d ty))"
begin

lemma unpost_all:
  "for_each unpost rs d = Inr d' \<Longrightarrow>
   doc_statuses d' = (doc_statuses d)(ty := set_statuses (ref_id ` set rs) (open_status ty) (doc_statuses d ty))"
proof (induction rs arbitrary: d)
  case (Cons r rs)
  then obtain d1 where d1: "unpost r d = Inr d1" "for_each unpost rs d1 = Inr d'" by auto
  from Cons.IH[OF d1(2)] unpost_sets[OF d1(1)] show ?case by (auto simp: set_statuses_union fun_eq_iff)
qed simp

end

lemma doc_statuses_upd:
  "(\<And>r. rl_id (f r) = rl_id r) \<Longrightarrow> (\<And>r. rl_id r = i \<Longrightarrow> rl_status (f r) = s) \<Longrightarrow>
   Realization d' = map_where (\<lambda>r. rl_id r = i) f (Realization d) \<Longrightarrow> BuyerReturn d' = BuyerReturn d \<Longrightarrow>
   GoodsReceipt d' = GoodsReceipt d \<Longrightarrow> PriceDocument d' = PriceDocument d \<Longrightarrow>
   doc_statuses d' = (doc_statuses d)(REALIZATION := set_statuses {i} s (doc_statuses d REALIZATION))"
  "(\<And>r. br_id (g r) = br_id r) \<Longrightarrow> (\<And>r. br_id r = i \<Longrightarrow> br_status (g r) = s) \<Longrightarrow>
   BuyerReturn d' = map_where (\<lambda>r. br_id r = i) g (BuyerReturn d) \<Longrightarrow> Realization d' = Realization d \<Longrightarrow>
   GoodsReceipt d' = GoodsReceipt d \<Longrightarrow> PriceDocument d' = PriceDocument d \<Longrightarrow>
   doc_statuses d' = (doc_statuses d)(BUYER_RETURN := set_statuses {i} s (doc_statuses d BUYER_RETURN))"
  "(\<And>r. gr_id (h r) = gr_id r) \<Longrightarrow> (\<And>r. gr_id r = i \<Longrightarrow> gr_status (h r) = s) \<Longrightarrow>
   GoodsReceipt d' = map_where (\<lambda>r. gr_id r = i) h (GoodsReceipt d) \<Longrightarrow> Realization d' = Realization d \<Longrightarrow>
   BuyerReturn d' = BuyerReturn d \<Longrightarrow> PriceDocument d' = PriceDocument d \<Longrightarrow>
   doc_statuses d' = (doc_statuses d)(GOODS_RECEIPT := set_statuses {i} s (doc_statuses d GOODS_RECEIPT))"
  "(\<And>r. pd_id (k r) = pd_id r) \<Longrightarrow> (\<And>r. pd_id r = i \<Longrightarrow> pd_status (k r) = s) \<Longrightarrow>
   PriceDocument d' = map_where (\<lambda>r. pd_id r = i) k (PriceDocument d) \<Longrightarrow> Realization d' = Realization d \<Longrightarrow>
   BuyerReturn d' = BuyerReturn d \<Longrightarrow> GoodsReceipt d' = GoodsReceipt d \<Longrightarrow>
   doc_statuses d' = (doc_statuses d)(PRICE_DOCUMENT := set_statuses {i} s (doc_statuses d PRICE_DOCUMENT))"
  by (intro ext; simp add: doc_statuses_def set_statuses_def map_where_def split: doc_type.split)+

text \<open>The tables of document headers.\<close>

definition headers :: "db \<Rightarrow> realization list \<times> buyer_return list \<times> goods_receipt list \<times> price_document list" where
  "headers d = (Realization d, BuyerReturn d, GoodsReceipt d, PriceDocument d)"

lemma headers_stock: "d'\<lparr>ProductBatch := []\<rparr> = d\<lparr>ProductBatch := []\<rparr> \<Longrightarrow> headers d' = headers d"
  by (drule arg_cong[where f = headers]) (simp add: headers_def)

lemma headers_sell: "for_each (sell_item w) items (c, d) = Inr (c', d') \<Longrightarrow> headers d' = headers d"
  by (drule sell_items_rest, drule arg_cong[where f = headers]) (simp add: headers_def sale_rest_def)

lemma headers_take_back: "for_each (take_back_item i t) items (c, d) = Inr (c', d') \<Longrightarrow> headers d' = headers d"
  by (drule take_back_items, elim exE conjE, drule arg_cong[where f = headers])
    (simp add: headers_def buyer_rest_def)

lemma headers_stock_items:
  assumes "for_each (stock_receipt_item i t) items d = Inr d'"
  shows "headers d' = headers d"
  using assms
  by (rule for_each_frame) (auto simp: stock_receipt_item_def addStock_def ins_ProductBatch_def headers_def Let_def)

lemma headers_return:
  assumes "returnStock i d = Inr (links, d')"
  shows "headers d' = headers d"
proof -
  from assms have "for_each (\<lambda>rib. return_to_batch (rib_productBatchId rib) (rib_quantity rib)) links d = Inr d'"
    by (auto simp: returnStock_def Let_def)
  then show ?thesis
    by (rule for_each_frame) (auto simp: return_to_batch_def upd_ProductBatch_def headers_def)
qed

lemma headers_price_items:
  assumes "for_each (apply_price_item doc slug) items d = Inr d'"
  shows "headers d' = headers d"
  using assms
  by (rule for_each_frame)
    (auto simp: apply_price_item_def ins_PriceJournal_def set_prices_def headers_def Let_def split: option.splits)

lemma headers_order_status [simp]: "headers (set_order_status oid s d) = headers d"
  by (simp add: set_order_status_def upd_Order_status_def headers_def split: option.split)

lemma headers_del_batches [simp]:
  "headers (del_ProductBatch P d) = headers d" "headers (del_RealizationItemBatches i d) = headers d"
  "headers (del_BuyerReturnItemBatches i d) = headers d"
  "headers (foldl (\<lambda>e l. del_ProductBatch (Q l) e) d ls) = headers d"
proof -
  show "headers (del_ProductBatch P d) = headers d" for P d by (simp add: del_ProductBatch_def headers_def Let_def)
  then show "headers (foldl (\<lambda>e l. del_ProductBatch (Q l) e) d ls) = headers d" by (induction ls arbitrary: d) simp_all
qed (simp_all add: del_RealizationItemBatches_def del_BuyerReturnItemBatches_def headers_def Let_def)

lemma headersD:
  assumes "headers d' = headers d"
  shows "Realization d' = Realization d" "BuyerReturn d' = BuyerReturn d" "GoodsReceipt d' = GoodsReceipt d"
    "PriceDocument d' = PriceDocument d"
  using assms by (simp_all add: headers_def)

lemma headers_statuses:
  assumes "headers d' = headers d"
  shows "doc_statuses d' = doc_statuses d"
  by (rule doc_statuses_cong) (use headersD[OF assms] in simp_all)

section \<open>The four kinds of documents\<close>

definition post_realization_doc :: "doc_ref \<Rightarrow> db \<Rightarrow> error + db" where
  "post_realization_doc r d = rbind (realization_post_tx (ref_id r) d) (\<lambda>(_, d'). Inr d')"

definition unpost_realization_doc :: "doc_ref \<Rightarrow> db \<Rightarrow> error + db" where
  "unpost_realization_doc r d = rbind (realization_unpost_tx (ref_id r) d) (\<lambda>(_, d'). Inr d')"

lemma upd_Realization_headers:
  assumes "upd_Realization (\<lambda>r. rl_id r = i) f d1 = Inr d2" "headers d1 = headers d" "headers d' = headers d2"
    and "\<And>r. rl_id (f r) = rl_id r" "\<And>r. rl_id r = i \<Longrightarrow> rl_status (f r) = s"
  shows "doc_statuses d' = (doc_statuses d)(REALIZATION := set_statuses {i} s (doc_statuses d REALIZATION))"
  by (rule doc_statuses_upd(1)[where f = f, OF assms(4,5)])
    (use assms(1) headersD[OF assms(2)] headersD[OF assms(3)] in \<open>auto simp: upd_Realization_def update_table_Inr_iff\<close>)

interpretation sale_kind: document_kind post_realization_doc unpost_realization_doc REALIZATION
proof unfold_locales
  fix r d d'
  assume "post_realization_doc r d = Inr d'"
  then obtain profit where "realization_post_tx (ref_id r) d = Inr (profit, d')"
    by (auto simp: post_realization_doc_def)
  then show "doc_statuses d' = (doc_statuses d)
      (REALIZATION := set_statuses {ref_id r} (done_status REALIZATION) (doc_statuses d REALIZATION))"
    by (rule realization_post_tx_E) (erule upd_Realization_headers[OF _ headers_sell], simp_all)
next
  fix r d d'
  assume "unpost_realization_doc r d = Inr d'"
  then obtain doc :: realization and links d1 d2 where s: "returnStock (ref_id r) d = Inr (links, d1)"
    "upd_Realization (\<lambda>x. rl_id x = ref_id r)
       (\<lambda>x. x\<lparr>rl_status := DRAFT, rl_profit := 0, rl_updatedAt := clock d1\<rparr>)
       (del_RealizationItemBatches (ref_id r) d1) = Inr d2"
    "d' = set_order_status (rl_orderId doc) ''ACCEPTED'' d2"
    by (auto simp: unpost_realization_doc_def realization_unpost_tx_def split: option.splits if_splits)
  show "doc_statuses d' = (doc_statuses d)
      (REALIZATION := set_statuses {ref_id r} (open_status REALIZATION) (doc_statuses d REALIZATION))"
    by (rule upd_Realization_headers[OF s(2)]) (simp_all add: s(3) headers_return[OF s(1)])
qed

definition post_buyer_return_doc :: "doc_ref \<Rightarrow> db \<Rightarrow> error + db" where
  "post_buyer_return_doc r d = rbind (buyer_return_post_tx (ref_id r) d) (\<lambda>(_, d'). Inr d')"

definition unpost_buyer_return_doc :: "doc_ref \<Rightarrow> db \<Rightarrow> error + db" where
  "unpost_buyer_return_doc r d = rbind (buyer_return_unpost_tx (ref_id r) d) (\<lambda>(_, d'). Inr d')"

lemma upd_BuyerReturn_headers:
  assumes "upd_BuyerReturn (\<lambda>r. br_id r = i) f d1 = Inr d'" "headers d1 = headers d"
    and "\<And>r. br_id (f r) = br_id r" "\<And>r. br_id r = i \<Longrightarrow> br_status (f r) = s"
  shows "doc_statuses d' = (doc_statuses d)(BUYER_RETURN := set_statuses {i} s (doc_statuses d BUYER_RETURN))"
  by (rule doc_statuses_upd(2)[where g = f, OF assms(3,4)])
    (use assms(1) headersD[OF assms(2)] in \<open>auto simp: upd_BuyerReturn_Inr\<close>)

interpretation return_kind: document_kind post_buyer_return_doc unpost_buyer_return_doc BUYER_RETURN
proof unfold_locales
  fix r d d'
  assume "post_buyer_return_doc r d = Inr d'"
  then obtain doc :: buyer_return and profit d1 where s: "for_each (take_back_item (ref_id r) (br_date doc)) (buyer_items (ref_id r) d) (0, d) = Inr (profit, d1)"
    "upd_BuyerReturn (\<lambda>x. br_id x = ref_id r)
       (\<lambda>x. x\<lparr>br_status := POSTED, br_profit := round_dec 2 (js_text profit), br_updatedAt := clock d1\<rparr>) d1 = Inr d'"
    by (auto simp: post_buyer_return_doc_def buyer_return_post_tx_def split: option.splits if_splits)
  show "doc_statuses d' = (doc_statuses d)
      (BUYER_RETURN := set_statuses {ref_id r} (done_status BUYER_RETURN) (doc_statuses d BUYER_RETURN))"
    by (rule upd_BuyerReturn_headers[OF s(2) headers_take_back[OF s(1)]]) simp_all
next
  fix r d d'
  assume "unpost_buyer_return_doc r d = Inr d'"
  then obtain d1 and ls :: "buyer_return_item_batch list" where s: "upd_BuyerReturn (\<lambda>x. br_id x = ref_id r)
       (\<lambda>x. x\<lparr>br_status := DRAFT, br_profit := 0, br_updatedAt := clock
           (foldl (\<lambda>e l. del_ProductBatch (\<lambda>b. pb_id b = brib_productBatchId l) e) d1 ls)\<rparr>)
       (del_BuyerReturnItemBatches (ref_id r)
           (foldl (\<lambda>e l. del_ProductBatch (\<lambda>b. pb_id b = brib_productBatchId l) e) d1 ls)) = Inr d'"
    "headers d1 = headers d"
    by (simp add: unpost_buyer_return_doc_def buyer_return_unpost_tx_def Let_def split: option.splits if_splits)
  show "doc_statuses d' = (doc_statuses d)
      (BUYER_RETURN := set_statuses {ref_id r} (open_status BUYER_RETURN) (doc_statuses d BUYER_RETURN))"
    by (rule upd_BuyerReturn_headers[OF s(1)]) (simp_all add: s(2))
qed

definition post_receipt_doc :: "doc_ref \<Rightarrow> db \<Rightarrow> error + db" where
  "post_receipt_doc r d = rbind (receipt_post_tx (ref_id r) d) (\<lambda>(_, d'). Inr d')"

definition unpost_receipt_doc :: "doc_ref \<Rightarrow> db \<Rightarrow> error + db" where
  "unpost_receipt_doc r d = rbind (receipt_unpost_tx (ref_id r) d) (\<lambda>(_, d'). Inr d')"

lemma set_receipt_status_headers:
  assumes "set_receipt_status i s d1 = Inr d'" "headers d1 = headers d"
  shows "doc_statuses d' = (doc_statuses d)(GOODS_RECEIPT := set_statuses {i} s (doc_statuses d GOODS_RECEIPT))"
  by (rule doc_statuses_upd(3)[where h = "\<lambda>r. r\<lparr>gr_status := s, gr_updatedAt := clock d1\<rparr>"])
    (use assms(1) headersD[OF assms(2)] in \<open>auto simp: set_receipt_status_def upd_GoodsReceipt_def update_table_Inr_iff\<close>)

interpretation receipt_kind: document_kind post_receipt_doc unpost_receipt_doc GOODS_RECEIPT
proof unfold_locales
  fix r d d'
  assume "post_receipt_doc r d = Inr d'"
  then obtain doc :: goods_receipt and d1 where s: "for_each (stock_receipt_item (ref_id r) (gr_date doc)) (receipt_items (ref_id r) d) d = Inr d1"
    "set_receipt_status (ref_id r) POSTED d1 = Inr d'"
    by (auto simp: post_receipt_doc_def receipt_post_tx_def split: option.splits if_splits)
  show "doc_statuses d' = (doc_statuses d)
      (GOODS_RECEIPT := set_statuses {ref_id r} (done_status GOODS_RECEIPT) (doc_statuses d GOODS_RECEIPT))"
    using set_receipt_status_headers[OF s(2) headers_stock_items[OF s(1)]] by simp
next
  fix r d d'
  assume "unpost_receipt_doc r d = Inr d'"
  then have s: "set_receipt_status (ref_id r) SAVED (del_ProductBatch (\<lambda>b. pb_goodsReceiptId b = Some (ref_id r)) d) = Inr d'"
    by (auto simp: unpost_receipt_doc_def receipt_unpost_tx_def split: option.splits if_splits)
  show "doc_statuses d' = (doc_statuses d)
      (GOODS_RECEIPT := set_statuses {ref_id r} (open_status GOODS_RECEIPT) (doc_statuses d GOODS_RECEIPT))"
    using set_receipt_status_headers[OF s] by simp
qed

definition post_price_doc :: "doc_ref \<Rightarrow> db \<Rightarrow> error + db" where
  "post_price_doc r d = rbind (price_document_apply_tx (ref_id r) d) (\<lambda>(_, d'). Inr d')"

definition unpost_price_doc :: "doc_ref \<Rightarrow> db \<Rightarrow> error + db" where
  "unpost_price_doc r d = Inr (reset_price_document r d)"

interpretation price_kind: document_kind post_price_doc unpost_price_doc PRICE_DOCUMENT
proof unfold_locales
  fix r d d'
  assume "post_price_doc r d = Inr d'"
  then obtain doc slug d1 where s: "for_each (apply_price_item doc slug) (price_items (ref_id r) d) d = Inr d1"
    "d' = set_price_document_status (ref_id r) APPLIED d1"
    by (auto simp: post_price_doc_def price_document_apply_tx_def split: option.splits)
  show "doc_statuses d' = (doc_statuses d)
      (PRICE_DOCUMENT := set_statuses {ref_id r} (done_status PRICE_DOCUMENT) (doc_statuses d PRICE_DOCUMENT))"
    by (rule doc_statuses_upd(4)[where k = "\<lambda>r. r\<lparr>pd_status := APPLIED, pd_updatedAt := clock d1\<rparr>"])
      (use headersD[OF headers_price_items[OF s(1)]] s(2) in \<open>simp_all add: set_price_document_status_def\<close>)
next
  fix r d d'
  assume "unpost_price_doc r d = Inr d'"
  then have d': "d' = reset_price_document r d" by (simp add: unpost_price_doc_def)
  show "doc_statuses d' = (doc_statuses d)
      (PRICE_DOCUMENT := set_statuses {ref_id r} (open_status PRICE_DOCUMENT) (doc_statuses d PRICE_DOCUMENT))"
    by (rule doc_statuses_upd(4)[where k = "\<lambda>r. r\<lparr>pd_status := DRAFT\<rparr>"]) (simp_all add: d' reset_price_document_def)
qed

section \<open>What a run does to the statuses\<close>

lemma wrap_error_Inr [simp]: "wrap_error f r = Inr x \<longleftrightarrow> r = Inr x"
  by (auto simp: wrap_error_def split: sum.splits)

lemma unpost_step_kinds:
  assumes "unpost_step r d = Inr d'"
  shows "ref_type r = REALIZATION \<Longrightarrow> unpost_realization_doc r d = Inr d'"
    and "ref_type r = BUYER_RETURN \<Longrightarrow> unpost_buyer_return_doc r d = Inr d'"
    and "ref_type r = GOODS_RECEIPT \<Longrightarrow> unpost_receipt_doc r d = Inr d'"
    and "ref_type r = PRICE_DOCUMENT \<Longrightarrow> unpost_price_doc r d = Inr d'"
  using assms
  by (simp_all add: unpost_step_def unpost_document_def unpost_realization_doc_def unpost_buyer_return_doc_def
      unpost_receipt_doc_def unpost_price_doc_def)

lemma post_step_sets:
  assumes "post_step r d = Inr d'"
  shows "doc_statuses d' = (doc_statuses d)
    (ref_type r := set_statuses {ref_id r} (done_status (ref_type r)) (doc_statuses d (ref_type r)))"
proof (cases "ref_type r")
  case REALIZATION
  with assms have "post_realization_doc r d = Inr d'"
    by (simp add: post_step_def post_document_def post_realization_doc_def)
  from sale_kind.post_sets[OF this] REALIZATION show ?thesis by simp
next
  case BUYER_RETURN
  with assms have "post_buyer_return_doc r d = Inr d'"
    by (simp add: post_step_def post_document_def post_buyer_return_doc_def)
  from return_kind.post_sets[OF this] BUYER_RETURN show ?thesis by simp
next
  case GOODS_RECEIPT
  with assms have "post_receipt_doc r d = Inr d'"
    by (simp add: post_step_def post_document_def post_receipt_doc_def)
  from receipt_kind.post_sets[OF this] GOODS_RECEIPT show ?thesis by simp
next
  case PRICE_DOCUMENT
  with assms have "post_price_doc r d = Inr d'"
    by (simp add: post_step_def post_document_def post_price_doc_def)
  from price_kind.post_sets[OF this] PRICE_DOCUMENT show ?thesis by simp
qed

definition ids_of :: "doc_type \<Rightarrow> doc_ref list \<Rightarrow> ident set" where
  "ids_of ty rs = ref_id ` {r \<in> set rs. ref_type r = ty}"

lemma ids_of_simps [simp]:
  "ids_of ty [] = {}" "ids_of ty (r # rs) = (if ref_type r = ty then {ref_id r} else {}) \<union> ids_of ty rs"
  by (auto simp: ids_of_def)

lemma post_phase_sets:
  "for_each post_step rs d = Inr d' \<Longrightarrow>
     doc_statuses d' ty = set_statuses (ids_of ty rs) (done_status ty) (doc_statuses d ty)"
proof (induction rs arbitrary: d)
  case (Cons r rs)
  then obtain d1 where d1: "post_step r d = Inr d1" "for_each post_step rs d1 = Inr d'" by auto
  from Cons.IH[OF d1(2)] post_step_sets[OF d1(1)] show ?case by (simp add: set_statuses_union)
qed simp

lemma for_each_weaken:
  "for_each f xs s = Inr s' \<Longrightarrow> (\<And>x t t'. x \<in> set xs \<Longrightarrow> f x t = Inr t' \<Longrightarrow> g x t = Inr t') \<Longrightarrow> for_each g xs s = Inr s'"
proof (induction xs arbitrary: s)
  case (Cons x xs)
  then obtain t where "f x s = Inr t" "for_each f xs t = Inr s'" by auto
  with Cons.IH Cons.prems(2) show ?case by auto
qed simp

definition picked :: "repost_options \<Rightarrow> db \<Rightarrow> doc_type \<Rightarrow> ident set" where
  "picked opts d ty = ref_id ` set (selected opts d ty)"

lemma unpost_kind_sets:
  assumes "for_each unpost_step (selected opts d0 ty) d = Inr d'"
  shows "doc_statuses d' = (doc_statuses d)(ty := set_statuses (picked opts d0 ty) (open_status ty) (doc_statuses d ty))"
proof (cases ty)
  case REALIZATION
  have "for_each unpost_realization_doc (selected opts d0 ty) d = Inr d'"
    using assms by (rule for_each_weaken) (use selected_type unpost_step_kinds(1) REALIZATION in blast)
  from sale_kind.unpost_all[OF this] REALIZATION show ?thesis by (simp add: picked_def)
next
  case BUYER_RETURN
  have "for_each unpost_buyer_return_doc (selected opts d0 ty) d = Inr d'"
    using assms by (rule for_each_weaken) (use selected_type unpost_step_kinds(2) BUYER_RETURN in blast)
  from return_kind.unpost_all[OF this] BUYER_RETURN show ?thesis by (simp add: picked_def)
next
  case GOODS_RECEIPT
  have "for_each unpost_receipt_doc (selected opts d0 ty) d = Inr d'"
    using assms by (rule for_each_weaken) (use selected_type unpost_step_kinds(3) GOODS_RECEIPT in blast)
  from receipt_kind.unpost_all[OF this] GOODS_RECEIPT show ?thesis by (simp add: picked_def)
next
  case PRICE_DOCUMENT
  have "for_each unpost_price_doc (selected opts d0 ty) d = Inr d'"
    using assms by (rule for_each_weaken) (use selected_type unpost_step_kinds(4) PRICE_DOCUMENT in blast)
  from price_kind.unpost_all[OF this] PRICE_DOCUMENT show ?thesis by (simp add: picked_def)
qed

lemma unpost_phase_sets:
  assumes "for_each unpost_step (unpost_order opts d) d = Inr d'"
  shows "doc_statuses d' ty = set_statuses (picked opts d ty) (open_status ty) (doc_statuses d ty)"
proof -
  from assms obtain d1 d2 d3 where
    "for_each unpost_step (selected opts d REALIZATION) d = Inr d1"
    "for_each unpost_step (selected opts d BUYER_RETURN) d1 = Inr d2"
    "for_each unpost_step (selected opts d GOODS_RECEIPT) d2 = Inr d3"
    "for_each unpost_step (selected opts d PRICE_DOCUMENT) d3 = Inr d'"
    by (auto simp: unpost_order_def for_each_append)
  from this[THEN unpost_kind_sets] show ?thesis by (cases ty) simp_all
qed

lemma ids_of_post_order: "ids_of ty (post_order opts d) = picked opts d ty"
proof -
  have "set (post_order opts d) = (\<Union>t. set (selected opts d t))"
    by (auto simp: post_order_def unpost_order_def) (metis doc_type.exhaust)
  then show ?thesis using selected_type by (auto simp: ids_of_def picked_def)
qed

definition final_status :: "repost_action \<Rightarrow> doc_type \<Rightarrow> doc_status" where
  "final_status a ty = (if a = UNPOST then open_status ty else done_status ty)"

lemma repost_body_sets:
  assumes "repost_body opts d = Inr ((), d')"
  shows "doc_statuses d' ty =
    set_statuses (picked opts d ty) (final_status (action_of opts) ty) (doc_statuses d ty)"
proof -
  from assms obtain d1 where
    d1: "(if action_of opts \<in> {REPOST, UNPOST} then for_each unpost_step (unpost_order opts d) d else Inr d) = Inr d1"
    and d2: "(if action_of opts \<in> {REPOST, POST} then for_each post_step (post_order opts d) d1 else Inr d1) = Inr d'"
    by (auto simp: repost_body_def)
  show ?thesis
  proof (cases "action_of opts")
    case REPOST
    with d1 d2 have "for_each unpost_step (unpost_order opts d) d = Inr d1"
      "for_each post_step (post_order opts d) d1 = Inr d'" by simp_all
    from unpost_phase_sets[OF this(1), of ty] post_phase_sets[OF this(2), of ty] REPOST show ?thesis
      by (simp add: ids_of_post_order set_statuses_over final_status_def)
  next
    case POST
    with d1 d2 have "d1 = d" "for_each post_step (post_order opts d) d1 = Inr d'" by simp_all
    with post_phase_sets[OF this(2), of ty] POST show ?thesis by (simp add: ids_of_post_order final_status_def)
  next
    case UNPOST
    with d1 d2 have "for_each unpost_step (unpost_order opts d) d = Inr d1" "d' = d1" by simp_all
    with unpost_phase_sets[OF this(1), of ty] UNPOST show ?thesis by (simp add: final_status_def)
  qed
qed

lemma doc_statuses_lock [simp]:
  "doc_statuses (release_lock d) = doc_statuses d" "doc_statuses (acquire_lock u d) = doc_statuses d"
  by (rule doc_statuses_cong; simp add: release_lock_def acquire_lock_def)+

lemma picked_lock [simp]: "picked opts (acquire_lock u d) = picked opts d"
  by (rule ext) (simp add: picked_def selected_def documents_def acquire_lock_def cong: doc_type.case_cong)

text \<open>Documents are picked by their status.\<close>

lemma picked_status:
  assumes "i \<in> picked opts d ty" "distinct (map fst (doc_statuses d ty))" "(i, s) \<in> set (doc_statuses d ty)"
  shows "s = wanted_status opts ty"
proof -
  from assms(1) obtain r where r: "r \<in> set (documents opts d ty)" "ref_id r = i"
    by (auto simp: picked_def selected_def newest_first_def split: if_splits)
  then have "(i, wanted_status opts ty) \<in> set (doc_statuses d ty)"
    by (cases ty) (auto simp: documents_def doc_statuses_def)
  with assms(2,3) show ?thesis by (blast dest: eq_key_imp_eq_value)
qed

section \<open>What a run promises\<close>

lemma is_locked_release [simp]: "\<not> is_locked (release_lock d)"
  by (simp add: is_locked_def release_lock_def split: option.split)

definition unpost_rank :: "doc_type \<Rightarrow> nat" where
  "unpost_rank ty = (case ty of REALIZATION \<Rightarrow> 0 | BUYER_RETURN \<Rightarrow> 1 | GOODS_RECEIPT \<Rightarrow> 2 | PRICE_DOCUMENT \<Rightarrow> 3)"

lemma sorted_const: "(\<And>x. x \<in> set xs \<Longrightarrow> f x = c) \<Longrightarrow> sorted (map f xs)"
  by (induction xs) auto

lemma sorted_unpost_order: "sorted (map (\<lambda>r. unpost_rank (ref_type r)) (unpost_order opts d))"
proof -
  have "sorted (map (\<lambda>r. unpost_rank (ref_type r)) (selected opts d ty))" for ty
    by (rule sorted_const[of _ _ "unpost_rank ty"]) (simp add: selected_type)
  then show ?thesis
    by (auto simp: unpost_order_def sorted_append unpost_rank_def dest!: selected_type)
qed

text \<open>
  A run posts what it unposted, in the order of the dates. Posting goes through the same documents as
  unposting; a document is posted only after every document of an earlier date, and within one date receipts
  come first, then price documents, returns and sales, each kind in the order of creation. Unposting goes
  kind by kind: sales, returns, receipts, price documents.
\<close>

theorem repost_order:
  "mset (post_order opts d) = mset (unpost_order opts d) \<and>
   sorted (map (\<lambda>r. (ref_date r, type_weight (ref_type r), ref_created r)) (post_order opts d)) \<and>
   sorted (map (\<lambda>r. unpost_rank (ref_type r)) (unpost_order opts d))"
  using mset_post_order sorted_post_order[unfolded post_key_def] sorted_unpost_order by blast

text \<open>
  C13: a successful run puts exactly the selected documents into the target status of its action (open after
  UNPOST, done after POST and REPOST), and the status of every other document of the four kinds is as it was.
\<close>

theorem repost_sets_statuses:
  assumes "repost_run userId opts d = (Inr (), d')"
  shows "doc_statuses d' ty =
    set_statuses (picked opts d ty) (final_status (action_of opts) ty) (doc_statuses d ty)"
proof -
  from assms obtain d1 where "repost_body opts (acquire_lock userId d) = Inr ((), d1)" "d' = release_lock d1"
    by (auto simp: repost_run_def transaction_Inr map_prod_def split: if_splits prod.splits)
  from repost_body_sets[OF this(1), of ty] this(2) show ?thesis by simp
qed

definition sales_only :: "repost_action \<Rightarrow> repost_options" where
  "sales_only a = \<lparr>ro_startDate = None, ro_endDate = None, ro_types = Some [REALIZATION], ro_action = Some a\<rparr>"

lemma sales_only_post:
  "action_of (sales_only POST) = POST"
  "unpost_order (sales_only POST) (acquire_lock None draft_sale_db) =
     [\<lparr>ref_type = REALIZATION, ref_id = 4, ref_date = 30, ref_created = 30\<rparr>]"
  "acquire_lock None draft_sale_db = draft_sale_db" "\<not> is_locked draft_sale_db"
  by (simp_all add: sales_only_def action_of_def coalesce_def unpost_order_def selected_def include_type_def
      newest_first_def in_period_def documents_def wanted_status_def acquire_lock_def draft_sale_db_def
      two_batches_def empty_db_def is_locked_def)

lemma draft_sale_statuses:
  "doc_statuses draft_sale_db REALIZATION = [(4, DRAFT)]" "doc_statuses draft_sale_db GOODS_RECEIPT = [(1, POSTED)]"
  "picked (sales_only POST) draft_sale_db REALIZATION = {4}" "picked (sales_only POST) draft_sale_db GOODS_RECEIPT = {}"
  "final_status (action_of (sales_only POST)) REALIZATION = POSTED"
  by (simp_all add: doc_statuses_def draft_sale_db_def two_batches_def empty_db_def picked_def sales_only_def
      selected_def include_type_def newest_first_def in_period_def documents_def wanted_status_def action_of_def
      coalesce_def final_status_def)

theorem repost_sets_statuses_witness:
  "\<exists>d'. repost_run None (sales_only POST) draft_sale_db = (Inr (), d') \<and>
     doc_statuses d' REALIZATION = [(4, POSTED)] \<and> doc_statuses d' GOODS_RECEIPT = [(1, POSTED)]"
proof -
  from draft_sale_post obtain d1 where "realization_post_tx 4 draft_sale_db = Inr (11, d1)" by blast
  then have "repost_body (sales_only POST) draft_sale_db = Inr ((), d1)"
    using sales_only_post
    by (simp add: repost_body_def post_order_def post_step_def wrap_error_def post_document_def)
  then have run: "repost_run None (sales_only POST) draft_sale_db = (Inr (), release_lock d1)"
    using sales_only_post(3,4) by (simp add: repost_run_def transaction_def)
  show ?thesis
    using run repost_sets_statuses[OF run, of REALIZATION] repost_sets_statuses[OF run, of GOODS_RECEIPT]
    by (simp add: draft_sale_statuses set_statuses_def)
qed

text \<open>
  C14: reposting does not change what is posted. Whether the run succeeds, fails or is refused, after a REPOST
  every receipt, sale, return and price document has the status it had before. (The keys of each table are distinct.)
\<close>

theorem repost_restores_statuses:
  assumes "action_of opts = REPOST" and "\<forall>ty. distinct (map fst (doc_statuses d ty))"
  shows "doc_statuses (snd (repost_run userId opts d)) ty = doc_statuses d ty"
proof (cases "is_locked d \<or> (\<exists>e. repost_body opts (acquire_lock userId d) = Inl e)")
  case True
  then show ?thesis by (auto simp: repost_run_def transaction_def)
next
  case False
  then obtain d1 where "repost_body opts (acquire_lock userId d) = Inr ((), d1)" "\<not> is_locked d"
    by (cases "repost_body opts (acquire_lock userId d)") auto
  from repost_body_sets[OF this(1), of ty] this have
    run: "snd (repost_run userId opts d) = release_lock d1" and
    sets: "doc_statuses d1 ty = set_statuses (picked opts d ty) (done_status ty) (doc_statuses d ty)"
    using assms(1) by (simp_all add: repost_run_def transaction_def final_status_def)
  have "s = done_status ty" if "i \<in> picked opts d ty" "(i, s) \<in> set (doc_statuses d ty)" for i s
    using picked_status[OF that(1) _ that(2)] assms by (simp add: wanted_status_def)
  then have "set_statuses (picked opts d ty) (done_status ty) (doc_statuses d ty) = doc_statuses d ty"
    unfolding set_statuses_def by (intro map_idI) auto
  then show ?thesis using run sets by simp
qed

theorem repost_restores_statuses_witness:
  "doc_statuses (snd (repost_run None (sales_only REPOST) draft_sale_db)) REALIZATION = [(4, DRAFT)]"
proof -
  have dis: "\<forall>ty. distinct (map fst (doc_statuses draft_sale_db ty))"
  proof
    fix ty
    show "distinct (map fst (doc_statuses draft_sale_db ty))"
      by (cases ty) (simp_all add: doc_statuses_def draft_sale_db_def two_batches_def empty_db_def)
  qed
  have "action_of (sales_only REPOST) = REPOST" by (simp add: sales_only_def action_of_def coalesce_def)
  from repost_restores_statuses[OF this dis, of None REALIZATION] show ?thesis
    by (simp only: doc_statuses_def) (simp add: draft_sale_db_def)
qed

text \<open>
  A run is all or nothing. A run that fails, at whatever document, leaves every table as it was but for
  the lock, and after every run the lock is free.
\<close>

theorem failed_repost_changes_nothing:
  assumes "repost_run userId opts d = (Inl e, d')"
  shows "d'\<lparr>DocumentLock := None\<rparr> = d\<lparr>DocumentLock := None\<rparr> \<and> \<not> is_locked d'"
proof -
  from assms have "d' = release_lock d \<or> d' = release_lock (acquire_lock userId d)"
    by (auto simp: repost_run_def transaction_Inl map_prod_def split: if_splits prod.splits)
  then show ?thesis by (auto simp: release_lock_def acquire_lock_def is_locked_def split: option.split)
qed

definition locked_db :: db where
  "locked_db = draft_sale_db\<lparr>DocumentLock := Some \<lparr>dl_isLocked = True, dl_lockedBy = Some 2,
     dl_lockedAt = Some 5, dl_reason = Some ''Bulk document reposting''\<rparr>\<rparr>"

theorem failed_repost_changes_nothing_witness:
  "\<exists>d'. repost_run None (sales_only REPOST) locked_db = (Inl SystemLocked, d') \<and> \<not> is_locked d' \<and>
     Realization d' = Realization locked_db"
proof -
  have run: "repost_run None (sales_only REPOST) locked_db = (Inl SystemLocked, release_lock locked_db)"
    by (simp add: repost_run_def is_locked_def locked_db_def)
  from failed_repost_changes_nothing[OF this] run show ?thesis by (auto simp: release_lock_def)
qed

definition ref_of_price :: "price_document \<Rightarrow> doc_ref" where
  "ref_of_price doc = \<lparr>ref_type = PRICE_DOCUMENT, ref_id = pd_id doc, ref_date = pd_date doc, ref_created = pd_createdAt doc\<rparr>"

lemma apply_items_dates:
  assumes "for_each (apply_price_item doc slug) items d = Inr d'"
  shows "\<exists>rows. PriceJournal d' = PriceJournal d @ rows \<and> (\<forall>j \<in> set rows. pj_createdAt j = pd_date doc)"
  using assms
proof (induction items arbitrary: d)
  case (Cons x xs)
  then obtain d1 where d1: "apply_price_item doc slug x d = Inr d1" "for_each (apply_price_item doc slug) xs d1 = Inr d'"
    by auto
  from d1(1) obtain js where "PriceJournal d1 = PriceJournal d @ js" "\<forall>j \<in> set js. pj_createdAt j = pd_date doc"
    by (auto simp: apply_price_item_def ins_PriceJournal_def set_prices_def Let_def split: option.splits)
  moreover from Cons.IH[OF d1(2)] obtain ks where "PriceJournal d' = PriceJournal d1 @ ks"
    "\<forall>j \<in> set ks. pj_createdAt j = pd_date doc" by blast
  ultimately show ?case by (intro exI[of _ "js @ ks"]) auto
qed simp

text \<open>
  Reposting a price document loses the thread of the journal. Applying writes journal rows with the
  document's date, resetting deletes the rows whose time stamp is the document's creation time: if the two
  differ, every row that applying added survives the reset, and applying again adds the changes once more.
\<close>

theorem reset_misses_journal:
  assumes "price_document_apply_tx i d = Inr (u, d1)" and "priced_document i d = Some (doc, slug)"
    and "pd_createdAt doc \<noteq> pd_date doc"
  shows "\<exists>rows. PriceJournal d1 = PriceJournal d @ rows \<and>
    (\<exists>old. PriceJournal (reset_price_document (ref_of_price doc) d1) = old @ rows)"
proof -
  from assms(1,2) obtain d2 where "for_each (apply_price_item doc slug) (price_items i d) d = Inr d2"
    and d1: "d1 = set_price_document_status i APPLIED d2"
    by (auto simp: price_document_apply_tx_def)
  from apply_items_dates[OF this(1)] obtain rows where rows: "PriceJournal d1 = PriceJournal d @ rows"
    "\<forall>j \<in> set rows. pj_createdAt j = pd_date doc"
    by (auto simp: d1 set_price_document_status_def)
  have "filter (\<lambda>j. \<not> (pj_reason j = Some applied_reason \<and> pj_createdAt j = ref_created (ref_of_price doc))) rows = rows"
    using rows(2) assms(3) by (simp add: filter_id_conv ref_of_price_def)
  then show ?thesis using rows(1) by (auto simp: reset_price_document_def)
qed

theorem reset_misses_journal_witness:
  "\<exists>d1. price_document_apply_tx 1 priced_db = Inr ((), d1) \<and> PriceJournal d1 \<noteq> [] \<and>
     PriceJournal (reset_price_document (ref_of_price (PriceDocument priced_db ! 0)) d1) = PriceJournal d1"
proof -
  from priced_db_applies obtain d1 where d1: "price_document_apply_tx 1 priced_db = Inr ((), d1)" by blast
  have p: "priced_document 1 priced_db = Some (PriceDocument priced_db ! 0, ''shop'')"
    "pd_createdAt (PriceDocument priced_db ! 0) \<noteq> pd_date (PriceDocument priced_db ! 0)"
    by (simp_all add: priced_document_def priced_db_def)
  from reset_misses_journal[OF d1 p] obtain rows old where r: "PriceJournal d1 = PriceJournal priced_db @ rows"
    "PriceJournal (reset_price_document (ref_of_price (PriceDocument priced_db ! 0)) d1) = old @ rows" by blast
  have "length (PriceJournal (reset_price_document x d1)) \<le> length (PriceJournal d1)" for x
    by (simp add: reset_price_document_def)
  from this[of "ref_of_price (PriceDocument priced_db ! 0)"] r have "old = []"
    by (simp add: priced_db_def empty_db_def)
  moreover have "PriceJournal d1 \<noteq> []"
  proof -
    have n: "js_text (fl 40) = 40" by code_simp
    show ?thesis using d1 by (auto simp: price_eval js_number_def n simp del: One_nat_def)
  qed
  ultimately show ?thesis using d1 r by (auto simp: priced_db_def empty_db_def)
qed

section \<open>Two runs at once\<close>

text \<open>
  The check of the lock and the update that takes it are two statements, and the route starts a run for every
  request. A system of runs over one database, each at a point of \<open>run\<close>: before the check, between check and
  update, before the transaction, after it, refused by the check, and after the \<open>finally\<close> block. The runs
  interleave at these points; \<open>u\<close> and \<open>os\<close> give the user and the options of each run.
\<close>

datatype phase = Started | Checked | Working | Worked | Refused | Finished

type_synonym system = "db \<times> (nat \<Rightarrow> phase)"

inductive run_step :: "(nat \<Rightarrow> ident option) \<Rightarrow> (nat \<Rightarrow> repost_options) \<Rightarrow> nat \<Rightarrow> system \<Rightarrow> system \<Rightarrow> bool"
  for u :: "nat \<Rightarrow> ident option" and os :: "nat \<Rightarrow> repost_options" where
  check_free: "ph p = Started \<Longrightarrow> \<not> is_locked d \<Longrightarrow> run_step u os p (d, ph) (d, ph(p := Checked))"
| check_taken: "ph p = Started \<Longrightarrow> is_locked d \<Longrightarrow> run_step u os p (d, ph) (d, ph(p := Refused))"
| take_lock: "ph p = Checked \<Longrightarrow> run_step u os p (d, ph) (acquire_lock (u p) d, ph(p := Working))"
| work: "ph p = Working \<Longrightarrow>
    run_step u os p (d, ph) (snd (transaction (repost_body (os p)) d), ph(p := Worked))"
| unlock: "ph p = Worked \<or> ph p = Refused \<Longrightarrow> run_step u os p (d, ph) (release_lock d, ph(p := Finished))"

inductive_cases run_stepE [elim!]: "run_step u os p (d, ph) s"

inductive reaches :: "(nat \<Rightarrow> ident option) \<Rightarrow> (nat \<Rightarrow> repost_options) \<Rightarrow> nat list \<Rightarrow> system \<Rightarrow> system \<Rightarrow> bool"
  for u :: "nat \<Rightarrow> ident option" and os :: "nat \<Rightarrow> repost_options" where
  stop: "reaches u os [] s s"
| more: "run_step u os p s t \<Longrightarrow> reaches u os ps t v \<Longrightarrow> reaches u os (p # ps) s v"

inductive_simps reaches_simps [simp]: "reaches u os [] s t" "reaches u os (p # ps) s t"

text \<open>Where a run that is alone stands, in terms of the database \<open>d0\<close> that it started from.\<close>

definition alone_at :: "ident option \<Rightarrow> repost_options \<Rightarrow> db \<Rightarrow> db \<Rightarrow> phase \<Rightarrow> bool" where
  "alone_at user opts d0 d ph \<longleftrightarrow> (case ph of
     Started \<Rightarrow> d = d0
   | Checked \<Rightarrow> d = d0 \<and> \<not> is_locked d0
   | Working \<Rightarrow> d = acquire_lock user d0 \<and> \<not> is_locked d0
   | Worked \<Rightarrow> d = snd (transaction (repost_body opts) (acquire_lock user d0)) \<and> \<not> is_locked d0
   | Refused \<Rightarrow> d = d0 \<and> is_locked d0
   | Finished \<Rightarrow> d = snd (repost_run user opts d0))"

lemma alone_step:
  "run_step u os p (d, ph) (d', ph') \<Longrightarrow> alone_at (u p) (os p) d0 d (ph p) \<Longrightarrow>
   alone_at (u p) (os p) d0 d' (ph' p)"
  by (auto simp: alone_at_def repost_run_def)

lemma alone_reaches:
  "reaches u os ps s t \<Longrightarrow> set ps \<subseteq> {p} \<Longrightarrow> alone_at (u p) (os p) d0 (fst s) (snd s p) \<Longrightarrow>
   alone_at (u p) (os p) d0 (fst t) (snd t p)"
proof (induction rule: reaches.induct)
  case (more q s t ps v)
  then show ?case using alone_step[of u os p "fst s" "snd s" "fst t" "snd t" d0] by simp
qed

text \<open>
  Without a second run, the steps are the function: a run that takes all its steps with no other run in
  between ends with the database that \<open>repost_run\<close> computes from the one it started on.
\<close>

theorem lone_run_refines_repost:
  assumes "reaches u os ps (d, ph) (d', ph')" and "set ps \<subseteq> {p}" and "ph p = Started" and "ph' p = Finished"
  shows "d' = snd (repost_run (u p) (os p) d)"
  using alone_reaches[OF assms(1,2), of d] assms(3,4) by (simp add: alone_at_def)

lemma lone_run_completes:
  "\<not> is_locked d \<Longrightarrow> \<exists>d' ph'. reaches u os [0, 0, 0, 0] (d, \<lambda>_. Started) (d', ph') \<and> ph' 0 = Finished"
  by (intro exI conjI, (rule more check_free take_lock work unlock stop | simp)+)

theorem lone_run_refines_repost_witness:
  "\<exists>d' ph'. reaches (\<lambda>_. None) (\<lambda>_. sales_only POST) [0, 0, 0, 0] (draft_sale_db, \<lambda>_. Started) (d', ph') \<and>
     d' = snd (repost_run None (sales_only POST) draft_sale_db)"
proof -
  obtain d' ph' where r: "reaches (\<lambda>_. None) (\<lambda>_. sales_only POST) [0, 0, 0, 0] (draft_sale_db, \<lambda>_. Started) (d', ph')"
    "ph' 0 = Finished"
    using lone_run_completes[OF sales_only_post(4), of "\<lambda>_. None" "\<lambda>_. sales_only POST"] by blast
  from lone_run_refines_repost[OF r(1) _ _ r(2)] have "d' = snd (repost_run None (sales_only POST) draft_sale_db)"
    by simp
  with r(1) show ?thesis by blast
qed

lemma locked_after_acquire [simp]: "is_locked (acquire_lock user d) \<longleftrightarrow> DocumentLock d \<noteq> None"
  by (simp add: is_locked_def acquire_lock_def split: option.split)

text \<open>
  C15: the lock does not exclude a second run. Whenever the lock row exists and is free, three requests are
  enough: while the first run is at work, the second one is refused and its \<open>finally\<close> block releases the
  first one's lock, and the third passes the check, so that two runs are about to work at the same time.
\<close>

theorem refused_run_frees_lock:
  assumes "DocumentLock d \<noteq> None" and "\<not> is_locked d"
  shows "\<exists>d' ph'. reaches u os [0, 0, 1, 1, 2, 2] (d, \<lambda>_. Started) (d', ph') \<and>
    ph' 0 = Working \<and> ph' 1 = Finished \<and> ph' 2 = Working"
proof -
  let ?d1 = "acquire_lock (u 0) d"
  let ?p1 = "(\<lambda>_. Started)(0 := Checked)" and ?p2 = "(\<lambda>_. Started)(0 := Checked, 0 := Working)"
  have "run_step u os 0 (d, \<lambda>_. Started) (d, ?p1)" using assms(2) by (intro check_free) simp_all
  moreover have "run_step u os 0 (d, ?p1) (?d1, ?p2)" by (intro take_lock) simp
  moreover have "run_step u os 1 (?d1, ?p2) (?d1, ?p2(1 := Refused))"
    using assms(1) by (intro check_taken) simp_all
  moreover have "run_step u os 1 (?d1, ?p2(1 := Refused)) (release_lock ?d1, ?p2(1 := Refused, 1 := Finished))"
    by (intro unlock) simp
  moreover have "run_step u os 2 (release_lock ?d1, ?p2(1 := Refused, 1 := Finished))
      (release_lock ?d1, ?p2(1 := Refused, 1 := Finished, 2 := Checked))"
    by (intro check_free) simp_all
  moreover have "run_step u os 2 (release_lock ?d1, ?p2(1 := Refused, 1 := Finished, 2 := Checked))
      (acquire_lock (u 2) (release_lock ?d1), ?p2(1 := Refused, 1 := Finished, 2 := Checked, 2 := Working))"
    by (intro take_lock) simp
  ultimately have "reaches u os [0, 0, 1, 1, 2, 2] (d, \<lambda>_. Started)
      (acquire_lock (u 2) (release_lock ?d1), ?p2(1 := Refused, 1 := Finished, 2 := Checked, 2 := Working))"
    by (intro more[OF _ more[OF _ more[OF _ more[OF _ more[OF _ more[OF _ stop]]]]]])
  then show ?thesis by (intro exI conjI) (assumption, simp_all)
qed

definition free_lock_db :: db where
  "free_lock_db = draft_sale_db\<lparr>DocumentLock := Some \<lparr>dl_isLocked = False, dl_lockedBy = None,
     dl_lockedAt = None, dl_reason = None\<rparr>\<rparr>"

theorem refused_run_frees_lock_witness:
  "\<exists>d' ph'. reaches (\<lambda>_. None) (\<lambda>_. sales_only REPOST) [0, 0, 1, 1, 2, 2] (free_lock_db, \<lambda>_. Started) (d', ph') \<and>
     ph' 0 = Working \<and> ph' 1 = Finished \<and> ph' 2 = Working"
  by (rule refused_run_frees_lock) (simp_all add: free_lock_db_def is_locked_def)

text \<open>The steps a run still has to take, at most.\<close>

fun steps_left :: "phase \<Rightarrow> nat" where
  "steps_left Started = 4"
| "steps_left Checked = 3"
| "steps_left Working = 2"
| "steps_left Worked = 1"
| "steps_left Refused = 1"
| "steps_left Finished = 0"

lemma step_uses_one:
  "run_step u os q (d, ph) (d', ph') \<Longrightarrow>
   steps_left (ph' p) + (if q = p then 1 else 0) \<le> steps_left (ph p)"
  by auto

lemma reaches_uses:
  "reaches u os ps s t \<Longrightarrow> steps_left (snd t p) + count_list ps p \<le> steps_left (snd s p)"
proof (induction rule: reaches.induct)
  case (more q s t ps v)
  then show ?case using step_uses_one[of u os q "fst s" "snd s" "fst t" "snd t" p] by auto
qed simp

text \<open>
  Every run comes to its end. However the runs interleave, none takes more than four steps, and as long
  as it has not finished it can take its next step, whatever the others did to the lock and to the tables.
\<close>

theorem runs_terminate:
  assumes "reaches u os ps (d, \<lambda>_. Started) (d', ph')"
  shows "count_list ps p \<le> 4 \<and> (ph' p = Finished \<or> (\<exists>s. run_step u os p (d', ph') s))"
proof
  show "count_list ps p \<le> 4" using reaches_uses[OF assms, of p] by simp
  show "ph' p = Finished \<or> (\<exists>s. run_step u os p (d', ph') s)"
    by (cases "ph' p"; cases "is_locked d'") (blast intro: run_step.intros)+
qed

theorem runs_terminate_witness:
  "\<exists>d' ph'. reaches (\<lambda>_. None) (\<lambda>_. sales_only POST) [0, 0, 0, 0] (draft_sale_db, \<lambda>_. Started) (d', ph') \<and>
     (ph' 1 = Finished \<or> (\<exists>s. run_step (\<lambda>_. None) (\<lambda>_. sales_only POST) 1 (d', ph') s))"
proof -
  obtain d' ph' where "reaches (\<lambda>_. None) (\<lambda>_. sales_only POST) [0, 0, 0, 0] (draft_sale_db, \<lambda>_. Started) (d', ph')"
    using lone_run_completes[OF sales_only_post(4), of "\<lambda>_. None" "\<lambda>_. sales_only POST"] by blast
  from this runs_terminate[OF this, of 1, THEN conjunct2] show ?thesis by (intro exI conjI)
qed

end
