(* ===== verification/DocumentLedger.thy ===== *)
theory DocumentLedger
  imports StockLedger Reposting
begin

text \<open>
  The ledger over all documents that move stock: goods receipts and buyer returns bring batches in, realizations
  and supplier returns take from them. No sequence of postings and unpostings leaves a batch with less than
  nothing or with more than it held.
\<close>

section \<open>Documents, items and links\<close>

text \<open>
  The rows of one kind of outgoing document by their keys: the documents with their status, the items with their
  document, and the items the links belong to. Keys are unique and below the supply, every item has its document,
  and only posted documents have links.
\<close>

definition owned :: "(ident \<times> doc_status) list \<Rightarrow> (ident \<times> ident) list \<Rightarrow> ident list \<Rightarrow> ident \<Rightarrow> bool" where
  "owned docs items links n \<longleftrightarrow> distinct (map fst docs) \<and> distinct (map fst items) \<and>
     (\<forall>x \<in> set docs. fst x < n) \<and> (\<forall>x \<in> set items. fst x < n \<and> snd x \<in> fst ` set docs) \<and>
     (\<forall>k \<in> set links. \<exists>x \<in> set items. fst x = k \<and> (snd x, POSTED) \<in> set docs)"

lemma owned_iff:
  "owned docs items links n \<longleftrightarrow> distinct (map fst docs) \<and> distinct (map fst items) \<and>
     (\<forall>i s. (i, s) \<in> set docs \<longrightarrow> i < n) \<and> (\<forall>k i. (k, i) \<in> set items \<longrightarrow> k < n \<and> (\<exists>s. (i, s) \<in> set docs)) \<and>
     (\<forall>k. k \<in> set links \<longrightarrow> (\<exists>i. (k, i) \<in> set items \<and> (i, POSTED) \<in> set docs))"
proof -
  have "(\<exists>x \<in> set items. fst x = k \<and> (snd x, POSTED) \<in> set docs) \<longleftrightarrow>
      (\<exists>i. (k, i) \<in> set items \<and> (i, POSTED) \<in> set docs)" for k by (metis fst_conv prod.collapse snd_conv)
  moreover have "i \<in> fst ` set docs \<longleftrightarrow> (\<exists>s. (i, s) \<in> set docs)" for i by force
  ultimately show ?thesis by (simp add: owned_def split_paired_Ball_Sigma Ball_def)
qed

lemma key_unique: "distinct (map fst xs) \<Longrightarrow> (k, a) \<in> set xs \<Longrightarrow> (k, b) \<in> set xs \<Longrightarrow> a = b"
  by (meson eq_key_imp_eq_value)

lemma owned_more:
  assumes "owned docs items links n" and "n \<le> m" and "set links' \<subseteq> set links"
  shows "owned docs items links' m"
  using assms unfolding owned_iff by (meson less_le_trans subsetD)

lemma owned_new_doc:
  assumes "owned docs items links n" and "s \<noteq> POSTED"
  shows "owned (docs @ [(n, s)]) items links (Suc n)"
proof -
  have "n \<notin> fst ` set docs" using assms(1) by (auto simp: owned_iff)
  moreover have "\<forall>i t. (i, t) \<in> set (docs @ [(n, s)]) \<longrightarrow> i < Suc n" using assms(1) by (auto simp: owned_iff less_Suc_eq)
  moreover have "\<forall>k i. (k, i) \<in> set items \<longrightarrow> k < Suc n \<and> (\<exists>t. (i, t) \<in> set (docs @ [(n, s)]))"
    using assms(1) unfolding owned_iff set_append by (meson UnI1 less_SucI)
  moreover have "\<forall>k. k \<in> set links \<longrightarrow> (\<exists>i. (k, i) \<in> set items \<and> (i, POSTED) \<in> set (docs @ [(n, s)]))"
    using assms(1) unfolding owned_iff set_append by (meson UnI1)
  ultimately show ?thesis using assms(1) by (simp add: owned_iff)
qed

lemma owned_new_item:
  assumes "owned docs items links n" and "i \<in> fst ` set docs"
  shows "owned docs (items @ [(n, i)]) links (Suc n)"
proof -
  have "n \<notin> fst ` set items" using assms(1) unfolding owned_iff by fastforce
  moreover have "\<forall>j t. (j, t) \<in> set docs \<longrightarrow> j < Suc n" using assms(1) unfolding owned_iff by (meson less_SucI)
  moreover have "\<forall>k j. (k, j) \<in> set (items @ [(n, i)]) \<longrightarrow> k < Suc n \<and> (\<exists>t. (j, t) \<in> set docs)"
    using assms unfolding owned_iff by (auto simp: less_Suc_eq)
  moreover have "\<forall>k. k \<in> set links \<longrightarrow> (\<exists>j. (k, j) \<in> set (items @ [(n, i)]) \<and> (j, POSTED) \<in> set docs)"
    using assms(1) unfolding owned_iff set_append by (meson UnI1)
  ultimately show ?thesis using assms(1) by (simp add: owned_iff)
qed

text \<open>The items of a document that is not posted have no links.\<close>

lemma owned_open:
  assumes "owned docs items links n" and "(i, s) \<in> set docs" and "s \<noteq> POSTED" and "k \<in> set links"
  shows "(k, i) \<notin> set items"
proof
  assume k: "(k, i) \<in> set items"
  obtain j where j: "(k, j) \<in> set items" "(j, POSTED) \<in> set docs" using assms(1,4) by (auto simp: owned_iff)
  have "distinct (map fst items)" "distinct (map fst docs)" using assms(1) by (auto simp: owned_iff)
  with k j assms(2,3) show False by (metis key_unique)
qed

lemma owned_clear:
  assumes "owned docs items links n" and "(i, s) \<in> set docs" and "s \<noteq> POSTED"
  shows "owned docs (filter (\<lambda>x. snd x \<noteq> i) items) links n"
proof -
  have "distinct (map fst (filter (\<lambda>x. snd x \<noteq> i) items))" using assms(1) by (simp add: owned_iff distinct_map_filter)
  moreover have "\<exists>j. (k, j) \<in> set (filter (\<lambda>x. snd x \<noteq> i) items) \<and> (j, POSTED) \<in> set docs" if "k \<in> set links" for k
    using owned_open[OF assms that] assms(1) that unfolding owned_iff by auto
  ultimately show ?thesis using assms(1) by (auto simp: owned_iff)
qed

lemma owned_drop:
  assumes "owned docs items links n" and "(i, s) \<in> set docs" and "s \<noteq> POSTED"
  shows "owned (filter (\<lambda>x. fst x \<noteq> i) docs) (filter (\<lambda>x. snd x \<noteq> i) items) links n"
proof -
  have "distinct (map fst (filter (\<lambda>x. fst x \<noteq> i) docs))" using assms(1) by (simp add: owned_iff distinct_map_filter)
  moreover have "\<exists>j. (k, j) \<in> set (filter (\<lambda>x. snd x \<noteq> i) items) \<and> (j, POSTED) \<in> set (filter (\<lambda>x. fst x \<noteq> i) docs)"
    if "k \<in> set links" for k
    using owned_open[OF assms that] assms(1) that unfolding owned_iff by auto
  ultimately show ?thesis using owned_clear[OF assms] by (auto simp: owned_iff)
qed

lemma fst_set_statuses [simp]: "map fst (set_statuses I s docs) = map fst docs"
  by (induction docs) (auto simp: set_statuses_def)

lemma mem_set_statuses: "(j, t) \<in> set (set_statuses {i} s docs) \<longleftrightarrow>
    (\<exists>t'. (j, t') \<in> set docs \<and> t = (if j = i then s else t'))"
  by (force simp: set_statuses_def)

lemma owned_statuses:
  assumes "owned docs items links n" and "n \<le> m"
    and "\<And>k. k \<in> set links' \<Longrightarrow> \<exists>j. (k, j) \<in> set items \<and> (j, POSTED) \<in> set (set_statuses {i} s docs)"
  shows "owned (set_statuses {i} s docs) items links' m"
proof -
  have "j < m" if "(j, t) \<in> set (set_statuses {i} s docs)" for j t
    using that assms(1,2) unfolding owned_iff mem_set_statuses by (meson less_le_trans)
  moreover have "k < m \<and> (\<exists>t. (j, t) \<in> set (set_statuses {i} s docs))" if kj: "(k, j) \<in> set items" for k j
  proof
    show "k < m" using kj assms(1,2) unfolding owned_iff by (meson less_le_trans)
    obtain t where "(j, t) \<in> set docs" using kj assms(1) unfolding owned_iff by blast
    then show "\<exists>t. (j, t) \<in> set (set_statuses {i} s docs)" by (auto simp: mem_set_statuses)
  qed
  ultimately show ?thesis using assms(1,3) unfolding owned_iff fst_set_statuses by blast
qed

lemma owned_post:
  assumes "owned docs items links n" and "n \<le> m" and "\<forall>k \<in> set links'. k \<in> set links \<or> (k, i) \<in> set items"
  shows "owned (set_statuses {i} POSTED docs) items links' m"
proof (rule owned_statuses[OF assms(1,2)])
  fix k assume "k \<in> set links'"
  with assms(3) consider "k \<in> set links" | "(k, i) \<in> set items" by blast
  then show "\<exists>j. (k, j) \<in> set items \<and> (j, POSTED) \<in> set (set_statuses {i} POSTED docs)"
    using assms(1) unfolding owned_iff mem_set_statuses by cases metis+
qed

lemma owned_unpost:
  assumes "owned docs items links n" and "\<forall>k \<in> set links'. k \<in> set links \<and> (k, i) \<notin> set items"
  shows "owned (set_statuses {i} s docs) items links' n"
proof (rule owned_statuses[OF assms(1) order_refl])
  fix k assume "k \<in> set links'"
  with assms(2) have k: "k \<in> set links" "(k, i) \<notin> set items" by blast+
  then obtain j where "(k, j) \<in> set items" "(j, POSTED) \<in> set docs" using assms(1) by (auto simp: owned_iff)
  with k(2) show "\<exists>j. (k, j) \<in> set items \<and> (j, POSTED) \<in> set (set_statuses {i} s docs)"
    by (auto simp: mem_set_statuses)
qed

abbreviation sale_keys :: "db \<Rightarrow> (ident \<times> doc_status) list" where
  "sale_keys d \<equiv> map (\<lambda>r. (rl_id r, rl_status r)) (Realization d)"

abbreviation return_keys :: "db \<Rightarrow> (ident \<times> doc_status) list" where
  "return_keys d \<equiv> map (\<lambda>r. (sr_id r, sr_status r)) (SupplierReturn d)"

definition sale_side :: "db \<Rightarrow> bool" where
  "sale_side d \<longleftrightarrow> owned (sale_keys d) (map (\<lambda>r. (ri_id r, ri_realizationId r)) (RealizationItem d))
     (map rib_realizationItemId (RealizationItemBatch d)) (next_uuid d)"

definition return_side :: "db \<Rightarrow> bool" where
  "return_side d \<longleftrightarrow> owned (return_keys d) (map (\<lambda>r. (sri_id r, sri_supplierReturnId r)) (SupplierReturnItem d))
     (map srib_supplierReturnItemId (SupplierReturnItemBatch d)) (next_uuid d)"

section \<open>The ledger of all documents\<close>

definition links_sound :: "db \<Rightarrow> bool" where
  "links_sound d \<longleftrightarrow> list_all (\<lambda>l. 0 \<le> snd l \<and> List.member (map pb_id (ProductBatch d)) (fst l)) (batch_links d)"

definition batches_sound :: "db \<Rightarrow> bool" where
  "batches_sound d \<longleftrightarrow> list_all (\<lambda>b. pb_id b < next_uuid d \<and> 0 \<le> pb_quantityLeft b) (ProductBatch d)"

definition intake_ready :: "db \<Rightarrow> bool" where
  "intake_ready d \<longleftrightarrow> list_all (\<lambda>r. quantity_ready (gri_quantity r)) (GoodsReceiptItem d) \<and>
     list_all (\<lambda>r. quantity_ready (bri_quantity r)) (BuyerReturnItem d)"

definition ledger :: "db \<Rightarrow> bool" where
  "ledger d \<longleftrightarrow> books d \<and> links_sound d \<and> batches_sound d \<and> intake_ready d \<and> sale_side d \<and> return_side d"

definition outgoing_tables ::
  "db \<Rightarrow> (ident \<times> doc_status) list \<times> realization_item_batch list \<times> (ident \<times> doc_status) list \<times>
     supplier_return_item_batch list" where
  "outgoing_tables d = (sale_keys d, RealizationItemBatch d, return_keys d, SupplierReturnItemBatch d)"

text \<open>What the ledger reads.\<close>

lemma ledger_cong:
  assumes "ProductBatch d' = ProductBatch d" "outgoing_tables d' = outgoing_tables d" "item_tables d' = item_tables d"
    "next_uuid d' = next_uuid d"
  shows "ledger d' = ledger d"
  using assms by (simp add: ledger_def books_def stock_ready_def batches_typed_def items_ready_def booked_def
      links_sound_def batches_sound_def intake_ready_def sale_side_def return_side_def item_tables_def outgoing_tables_def
      batch_links_def)

lemma sides_more:
  assumes "ledger d" and "sale_keys d' = sale_keys d" "return_keys d' = return_keys d"
    "item_tables d' = item_tables d" "next_uuid d \<le> next_uuid d'"
    "set (RealizationItemBatch d') \<subseteq> set (RealizationItemBatch d)"
    "set (SupplierReturnItemBatch d') \<subseteq> set (SupplierReturnItemBatch d)"
  shows "sale_side d' \<and> return_side d'"
proof -
  have "set (map rib_realizationItemId (RealizationItemBatch d')) \<subseteq> set (map rib_realizationItemId (RealizationItemBatch d))"
    "set (map srib_supplierReturnItemId (SupplierReturnItemBatch d')) \<subseteq>
     set (map srib_supplierReturnItemId (SupplierReturnItemBatch d))"
    using assms(6,7) by auto
  note sub = this
  have items: "RealizationItem d' = RealizationItem d" "SupplierReturnItem d' = SupplierReturnItem d"
    using assms(4) by (simp_all add: item_tables_def)
  have "sale_side d" "return_side d" using assms(1) by (simp_all add: ledger_def)
  then show ?thesis unfolding sale_side_def return_side_def assms(2,3) items
    using owned_more[OF _ assms(5) sub(1)] owned_more[OF _ assms(5) sub(2)] by blast
qed

lemma moved_nonneg: "\<forall>l \<in> set ls. 0 \<le> snd l \<Longrightarrow> 0 \<le> moved k ls"
  by (induction ls) auto

lemma ledger_left_le_total:
  assumes "ledger d" and "b \<in> set (ProductBatch d)"
  shows "0 \<le> pb_quantityLeft b \<and> pb_quantityLeft b \<le> pb_quantityTotal b \<and>
    pb_quantityLeft b = pb_quantityTotal b - moved (pb_id b) (batch_links d)"
  using assms moved_nonneg[of "batch_links d" "pb_id b"]
  by (auto simp: ledger_def books_def booked_def links_sound_def batches_sound_def list_all_iff)

section \<open>Documents that take out\<close>

lemma ledger_shifted:
  assumes "ledger d" and "books d'" and "shifted f (ProductBatch d) (ProductBatch d')"
    and "\<forall>b \<in> set (ProductBatch d'). 0 \<le> pb_quantityLeft b"
    and "\<forall>l \<in> set (batch_links d'). 0 \<le> snd l \<and> fst l \<in> pb_id ` set (ProductBatch d)"
    and "item_tables d' = item_tables d" and "next_uuid d \<le> next_uuid d'" and "sale_side d'" and "return_side d'"
  shows "ledger d' \<and> length (ProductBatch d') = length (ProductBatch d)"
proof -
  have ids: "map pb_id (ProductBatch d') = map pb_id (ProductBatch d)" by (rule shifted_ids[OF assms(3)])
  then have set: "pb_id ` set (ProductBatch d') = pb_id ` set (ProductBatch d)" by (metis list.set_map)
  have "pb_id b < next_uuid d'" if "b \<in> set (ProductBatch d')" for b
  proof -
    have "pb_id b \<in> pb_id ` set (ProductBatch d)" using that set by blast
    then have "pb_id b < next_uuid d" using assms(1) by (auto simp: ledger_def batches_sound_def list_all_iff)
    with assms(7) show ?thesis by simp
  qed
  moreover have "length (ProductBatch d') = length (ProductBatch d)" using arg_cong[OF ids, of length] by simp
  moreover have "intake_ready d'" using assms(1,6) by (simp add: ledger_def intake_ready_def item_tables_def)
  ultimately show ?thesis using assms(2,4,5,8,9) set
    by (simp add: ledger_def links_sound_def batches_sound_def list_all_iff)
qed

lemma ledger_parts:
  assumes "ledger d"
  shows "books d" "\<forall>b \<in> set (ProductBatch d). 0 \<le> pb_quantityLeft b \<and> pb_id b < next_uuid d"
    "\<forall>l \<in> set (batch_links d). 0 \<le> snd l \<and> fst l \<in> pb_id ` set (ProductBatch d)"
  using assms by (auto simp: ledger_def links_sound_def batches_sound_def list_all_iff)

lemma returned_nonneg:
  assumes "shifted (\<lambda>k. moved k ls) (ProductBatch d) (ProductBatch d')" and "ledger d"
    and "set ls \<subseteq> set (batch_links d)"
  shows "\<forall>b \<in> set (ProductBatch d'). 0 \<le> pb_quantityLeft b"
proof
  fix b' assume "b' \<in> set (ProductBatch d')"
  with assms(1) obtain b where b: "b \<in> set (ProductBatch d)" "shift_batch (moved (pb_id b) ls) b b'"
    by (rule shifted_memD)
  have "0 \<le> moved (pb_id b) ls" using assms(3) ledger_parts(3)[OF assms(2)] by (intro moved_nonneg) blast
  then show "0 \<le> pb_quantityLeft b'"
    using ledger_parts(2)[OF assms(2)] b shift_batch_left[OF b(2)] by fastforce
qed

text \<open>The supply of ids only grows.\<close>

lemma issue_items_supply:
  assumes "for_each (issue_item ins w) xs d = Inr d'"
    and ins: "\<And>item x t t'. ins item x t = Inr t' \<Longrightarrow> next_uuid t \<le> next_uuid t'"
  shows "next_uuid d \<le> next_uuid d'"
  using assms(1)
proof (rule for_each_invariant[where P = "\<lambda>t. next_uuid d \<le> next_uuid t"])
  fix x t t' assume t: "next_uuid d \<le> next_uuid t" "issue_item ins w x t = Inr t'"
  then obtain ds e where e: "deductStock (fst (snd x)) (js_number (snd (snd x))) w t = Inr (ds, e)"
    "for_each (ins (fst x)) ds e = Inr t'" by (cases x) (auto simp: issue_item_def)
  have "next_uuid e = next_uuid t" using arg_cong[OF deductStock_rest[OF e(1)], of next_uuid] by simp
  moreover from e(2) have "next_uuid e \<le> next_uuid t'"
    by (rule for_each_invariant[where P = "\<lambda>u. next_uuid e \<le> next_uuid u"]) (use ins in fastforce)+
  ultimately show "next_uuid d \<le> next_uuid t'" using t(1) by simp
qed simp

definition ledger_step :: "nat \<Rightarrow> db \<Rightarrow> db \<Rightarrow> bool" where
  "ledger_step n d d' \<longleftrightarrow> ledger d' \<and> item_tables d' = item_tables d \<and>
     length (ProductBatch d') \<le> length (ProductBatch d) + n"

lemma realization_post_step:
  assumes "realization_post_tx i d = Inr (p, d')" and "ledger d"
  shows "ledger_step 0 d d'"
proof -
  note old = ledger_parts[OF assms(2)]
  obtain new where new: "RealizationItemBatch d' = RealizationItemBatch d @ new"
    "\<forall>l \<in> set new. rib_realizationItemId l \<in> ri_id ` set (realization_items i d)"
    "\<forall>l \<in> set new. on_grid 3 (rib_quantity l) \<and> 0 \<le> rib_quantity l \<and> rib_productBatchId l \<in> pb_id ` set (ProductBatch d)"
    "shifted (\<lambda>k. - moved k (map rib_link new)) (ProductBatch d) (ProductBatch d')"
    "(\<forall>b \<in> set (ProductBatch d). 0 \<le> pb_quantityLeft b) \<longrightarrow> (\<forall>b \<in> set (ProductBatch d'). 0 \<le> pb_quantityLeft b)"
    by (rule realization_post_effect[OF assms(1) books_sale_ready[OF old(1)]]) blast
  obtain doc where doc: "find_row rl_id i (Realization d) = Some doc"
    using assms(1) by (auto elim: realization_post_tx_E)
  note fr = realization_post_frame(1)[OF assms(1) doc]
  have rest: "item_tables d' = item_tables d" "SupplierReturnItemBatch d' = SupplierReturnItemBatch d"
    "SupplierReturn d' = SupplierReturn d"
    unfolding item_tables_def by (subst fr, simp)+
  have docs: "sale_keys d' = set_statuses {i} POSTED (sale_keys d)"
    by (subst fr) (simp add: set_statuses_def map_where_def)
  obtain c d1 where run: "for_each (sell_item (rl_warehouseId doc)) (realization_items i d) (0, d) = Inr (c, d1)"
    "next_uuid d' = next_uuid d1"
    using assms(1) doc by (auto elim!: realization_post_tx_E simp: upd_Realization_Inr)
  have grows: "next_uuid d \<le> next_uuid d'" unfolding run(2)
    by (rule issue_items_supply[OF sell_items_db[OF run(1)]]) (auto dest: record_sale_Inr)
  have items: "RealizationItem d' = RealizationItem d" "SupplierReturnItem d' = SupplierReturnItem d"
    using rest(1) by (simp_all add: item_tables_def)
  have sides: "sale_side d" "return_side d" using assms(2) by (simp_all add: ledger_def)
  have "books d'" by (rule realization_post_books[OF assms(1) old(1)])
  moreover have "\<forall>l \<in> set (batch_links d'). 0 \<le> snd l \<and> fst l \<in> pb_id ` set (ProductBatch d)"
    using old(3) new(3) by (auto simp: batch_links_def new(1) rest rib_link_def)
  moreover have "sale_side d'" unfolding sale_side_def docs
    by (rule owned_post[OF sides(1)[unfolded sale_side_def, folded items] grows])
      (use new(2) in \<open>auto simp: new(1) items realization_items_def\<close>)
  moreover have "return_side d'"
    using sides(2) grows items unfolding return_side_def rest by (auto elim: owned_more)
  ultimately show ?thesis using ledger_shifted[OF assms(2) _ new(4)] new(5) old(2) rest grows
    by (simp add: ledger_step_def)
qed

lemma realization_unpost_step:
  assumes "realization_unpost_tx i d = Inr (u, d')" and "ledger d"
  shows "ledger_step 0 d d'"
proof -
  note old = ledger_parts[OF assms(2)]
  note e = realization_unpost_effect[OF assms(1) old(1)]
  have "set (map rib_link (realization_links i d)) \<subseteq> set (batch_links d)"
    by (auto simp: batch_links_def realization_links_def)
  note nonneg = returned_nonneg[OF e(1) assms(2) this]
  have items: "RealizationItem d' = RealizationItem d" "SupplierReturnItem d' = SupplierReturnItem d"
    using e(3) by (simp_all add: item_tables_def)
  have sides: "sale_side d" "return_side d" using assms(2) by (simp_all add: ledger_def)
  have "books d'" by (rule realization_unpost_books[OF assms(1) old(1)])
  moreover have "\<forall>l \<in> set (batch_links d'). 0 \<le> snd l \<and> fst l \<in> pb_id ` set (ProductBatch d)"
    using old(3) by (auto simp: batch_links_def e(5,7))
  moreover have "sale_keys d' = set_statuses {i} DRAFT (sale_keys d)"
    using fun_cong[OF sale_kind.unpost_sets, of "\<lparr>ref_type = REALIZATION, ref_id = i, ref_date = 0, ref_created = 0\<rparr>" d d' REALIZATION]
      assms(1) by (simp add: doc_statuses_def unpost_realization_doc_def)
  then have "sale_side d'" unfolding sale_side_def
    using sides(1) items e(4) by (auto simp: sale_side_def e(7) realization_items_def intro!: owned_unpost)
  moreover have "return_side d'" using sides(2) items e(4) by (simp add: return_side_def e(5,6))
  ultimately show ?thesis using ledger_shifted[OF assms(2) _ e(1) nonneg] e(3,4) by (simp add: ledger_step_def)
qed

lemma supplier_return_post_step:
  assumes "supplier_return_post_body i d = Inr (i', d')" and "ledger d"
  shows "ledger_step 0 d d'"
proof -
  note old = ledger_parts[OF assms(2)]
  obtain new n where new: "SupplierReturnItemBatch d' = SupplierReturnItemBatch d @ new"
    "\<forall>l \<in> set new. srib_supplierReturnItemId l \<in> sri_id ` set (supplier_items i d)"
    "\<forall>l \<in> set new. on_grid 3 (srib_quantity l) \<and> 0 \<le> srib_quantity l \<and> srib_productBatchId l \<in> pb_id ` set (ProductBatch d)"
    "shifted (\<lambda>k. - moved k (map srib_link new)) (ProductBatch d) (ProductBatch d')"
    "(\<forall>b \<in> set (ProductBatch d). 0 \<le> pb_quantityLeft b) \<longrightarrow> (\<forall>b \<in> set (ProductBatch d'). 0 \<le> pb_quantityLeft b)"
    and d': "d' = d\<lparr>ProductBatch := ProductBatch d', SupplierReturnItemBatch := SupplierReturnItemBatch d', next_uuid := n,
      SupplierReturn := map_where (\<lambda>r. sr_id r = i)
        (\<lambda>r. r\<lparr>sr_status := POSTED, sr_updatedAt := clock d\<rparr>) (SupplierReturn d)\<rparr>"
    by (rule supplier_post_effect[OF assms(1) books_supplier_ready[OF old(1)]]) blast
  have rest: "item_tables d' = item_tables d" "RealizationItemBatch d' = RealizationItemBatch d"
    "Realization d' = Realization d"
    unfolding item_tables_def by (subst d', simp)+
  have docs: "return_keys d' = set_statuses {i} POSTED (return_keys d)"
    by (subst d') (simp add: set_statuses_def map_where_def)
  obtain w d1 where run: "for_each (issue_item record_return w) (supplier_lines (supplier_items i d)) d = Inr d1"
    "next_uuid d' = next_uuid d1"
    using assms(1) by (auto simp: supplier_return_post_body_def set_supplier_status_def upd_SupplierReturn_Inr
        split: option.splits if_splits)
  have grows: "next_uuid d \<le> next_uuid d'" unfolding run(2)
    by (rule issue_items_supply[OF run(1)]) (auto dest: record_return_Inr)
  have items: "RealizationItem d' = RealizationItem d" "SupplierReturnItem d' = SupplierReturnItem d"
    using rest(1) by (simp_all add: item_tables_def)
  have sides: "sale_side d" "return_side d" using assms(2) by (simp_all add: ledger_def)
  have "books d'" by (rule supplier_return_post_books[OF assms(1) old(1)])
  moreover have "\<forall>l \<in> set (batch_links d'). 0 \<le> snd l \<and> fst l \<in> pb_id ` set (ProductBatch d)"
    using old(3) new(3) by (auto simp: batch_links_def new(1) rest srib_link_def)
  moreover have "return_side d'" unfolding return_side_def docs
    by (rule owned_post[OF sides(2)[unfolded return_side_def, folded items] grows])
      (use new(2) in \<open>auto simp: new(1) items supplier_items_def\<close>)
  moreover have "sale_side d'"
    using sides(1) grows items unfolding sale_side_def rest by (auto elim: owned_more)
  ultimately show ?thesis using ledger_shifted[OF assms(2) _ new(4)] new(5) old(2) rest grows
    by (simp add: ledger_step_def)
qed

lemma supplier_return_unpost_step:
  assumes "supplier_return_unpost_body i d = Inr (i', d')" and "ledger d"
  shows "ledger_step 0 d d'"
proof -
  note old = ledger_parts[OF assms(2)]
  note e = supplier_unpost_effect[OF assms(1) old(1)]
  have "set (map srib_link (supplier_links i d)) \<subseteq> set (batch_links d)"
    by (auto simp: batch_links_def supplier_links_def)
  note nonneg = returned_nonneg[OF e(1) assms(2) this]
  have items: "RealizationItem d' = RealizationItem d" "SupplierReturnItem d' = SupplierReturnItem d"
    using e(3) by (simp_all add: item_tables_def)
  have sides: "sale_side d" "return_side d" using assms(2) by (simp_all add: ledger_def)
  have "books d'" by (rule supplier_return_unpost_books[OF assms(1) old(1)])
  moreover have "\<forall>l \<in> set (batch_links d'). 0 \<le> snd l \<and> fst l \<in> pb_id ` set (ProductBatch d)"
    using old(3) by (auto simp: batch_links_def e(5,8))
  moreover have "return_keys d' = set_statuses {i} DRAFT (return_keys d)"
    by (simp add: e(7) set_statuses_def map_where_def)
  then have "return_side d'" unfolding return_side_def
    using sides(2) items e(4) by (auto simp: return_side_def e(8) supplier_items_def intro!: owned_unpost)
  moreover have "sale_side d'" using sides(1) items e(4) by (simp add: sale_side_def e(5,6))
  ultimately show ?thesis using ledger_shifted[OF assms(2) _ e(1) nonneg] e(3,4) by (simp add: ledger_step_def)
qed

section \<open>Documents that bring in\<close>

text \<open>
  The interface of a step that stocks one item: it appends one batch under the next free id, full, and leaves the
  items and the links of the outgoing documents alone, or it finds nothing to stock.
\<close>

definition stocked :: "bool \<Rightarrow> db \<Rightarrow> db \<Rightarrow> bool" where
  "stocked ready d d' \<longleftrightarrow> (\<exists>b. ProductBatch d' = ProductBatch d @ [b] \<and> pb_id b = next_uuid d \<and> batch_typed b \<and>
     pb_quantityLeft b = pb_quantityTotal b \<and> (ready \<longrightarrow> 0 \<le> pb_quantityLeft b)) \<and>
     next_uuid d < next_uuid d' \<and> item_tables d' = item_tables d \<and> outgoing_tables d' = outgoing_tables d"

locale incoming =
  fixes state_db :: "'s \<Rightarrow> db" and step :: "'x \<Rightarrow> 's \<Rightarrow> error + 's" and ready :: "'x \<Rightarrow> bool"
  assumes step_stocks: "step x s = Inr s' \<Longrightarrow> state_db s' = state_db s \<or> stocked (ready x) (state_db s) (state_db s')"

lemma stocked_ledger:
  assumes "stocked True d d'" and "ledger d" and "length (ProductBatch d) < max_batches"
  shows "ledger_step 1 d d'"
proof -
  note old = ledger_parts[OF assms(2)]
  obtain b where b: "ProductBatch d' = ProductBatch d @ [b]" "pb_id b = next_uuid d" "batch_typed b"
    "pb_quantityLeft b = pb_quantityTotal b" "0 \<le> pb_quantityLeft b" and more: "next_uuid d < next_uuid d'"
    "item_tables d' = item_tables d" "batch_links d' = batch_links d" and out: "outgoing_tables d' = outgoing_tables d"
    using assms(1) by (auto simp: stocked_def outgoing_tables_def batch_links_def)
  have free: "next_uuid d \<notin> pb_id ` set (ProductBatch d)" using old(2) by force
  then have "moved (next_uuid d) (batch_links d) = 0" using old(3) by (intro moved_absent) force
  then have "booked d'" using old(1) by (simp add: books_def booked_def b more)
  moreover have "stock_ready d'"
    using old(1) free assms(3) b(2,3) by (simp add: books_def stock_ready_def batches_typed_def b(1))
  ultimately have "books d'" using old(1) more by (simp add: books_def items_ready_def item_tables_def)
  moreover have "links_sound d'" using old(3) by (auto simp: links_sound_def list_all_iff b more)
  moreover have "batches_sound d'" using old(2) more(1) b(2,5) by (auto simp: batches_sound_def list_all_iff b(1))
  moreover have "intake_ready d'" using assms(2) more(2) by (simp add: ledger_def intake_ready_def item_tables_def)
  moreover have "sale_side d' \<and> return_side d'"
    using sides_more[OF assms(2), of d'] more(1,2) out by (simp add: outgoing_tables_def)
  ultimately show ?thesis using more(2) by (simp add: ledger_step_def ledger_def b(1))
qed

context incoming begin

lemma steps_keep_ledger:
  assumes "for_each step xs s = Inr s'" and "ledger (state_db s)"
    and "length (ProductBatch (state_db s)) + length xs \<le> max_batches" and "\<forall>x \<in> set xs. ready x"
  shows "ledger_step (length xs) (state_db s) (state_db s')"
  using assms
proof (induction xs arbitrary: s)
  case (Cons x xs)
  then obtain t where t: "step x s = Inr t" "for_each step xs t = Inr s'" by auto
  have one: "ledger_step 1 (state_db s) (state_db t)"
    using step_stocks[OF t(1)] Cons.prems(2-4) stocked_ledger[of "state_db s" "state_db t"] by (auto simp: ledger_step_def)
  with Cons.prems(3,4) have "ledger_step (length xs) (state_db t) (state_db s')"
    by (intro Cons.IH[OF t(2)]) (simp_all add: ledger_step_def)
  with one show ?case by (simp add: ledger_step_def)
qed (simp add: ledger_step_def)

end

lemma addStock_stocks:
  assumes "addStock p x e r t b d = Inr (row, d')"
  shows "stocked (0 \<le> x) d d' \<and> next_uuid d' = Suc (next_uuid d)"
proof -
  have row: "pb_quantityLeft row = round_dec 3 (js_text x)" "batch_typed row"
    using assms by (auto simp: addStock_def ins_ProductBatch_def Let_def batch_typed_def)
  have "0 \<le> pb_quantityLeft row" if "0 \<le> x"
    using that by (simp add: row(1) js_text_nonneg round_dec_nonneg)
  moreover have a: "ProductBatch d' = ProductBatch d @ [row]" "pb_quantityLeft row = pb_quantityTotal row"
    "pb_id row = next_uuid d" and d': "d' = d\<lparr>ProductBatch := ProductBatch d', next_uuid := Suc (next_uuid d)\<rparr>"
    using addStock_appends[OF assms] by blast+
  moreover have "item_tables d' = item_tables d" "outgoing_tables d' = outgoing_tables d" "next_uuid d' = Suc (next_uuid d)"
    by (subst d', simp add: item_tables_def outgoing_tables_def)+
  ultimately show ?thesis using row(2) by (auto simp: stocked_def)
qed

lemma stocked_weaker: "stocked P d d' \<Longrightarrow> (Q \<Longrightarrow> P) \<Longrightarrow> stocked Q d d'"
  by (auto simp: stocked_def)

lemma addStock_column:
  assumes "addStock p (js_number q) e r t b d = Inr (row, d')"
  shows "stocked (quantity_ready q) d d' \<and> next_uuid d' = Suc (next_uuid d)"
  using addStock_stocks[OF assms] stocked_weaker[of "0 \<le> js_number q" d d' "quantity_ready q"] fl_nonneg[of q]
  by (auto simp: quantity_ready_def js_number_def)

interpretation receipts_in: incoming "\<lambda>d. d" "stock_receipt_item i date" "\<lambda>r. quantity_ready (gri_quantity r)"
  by unfold_locales (auto simp: stock_receipt_item_def dest!: addStock_column)

interpretation returns_in: incoming snd "take_back_item i date" "\<lambda>r. quantity_ready (bri_quantity r)"
proof
  fix x s s' assume run: "take_back_item i date x s = Inr s'"
  obtain c d where s: "s = (c, d)" by (cases s)
  from run obtain row d1 where a: "addStock (bri_productId x) (js_number (bri_quantity x)) (last_cost_price d (bri_productId x))
      None (Some date) (Some i) d = Inr (row, d1)"
    and d': "ProductBatch (snd s') = ProductBatch d1 \<and> next_uuid (snd s') = Suc (next_uuid d1) \<and>
      item_tables (snd s') = item_tables d1 \<and> outgoing_tables (snd s') = outgoing_tables d1"
    by (auto simp: take_back_item_def Let_def s ins_BuyerReturnItemBatch_def item_tables_def outgoing_tables_def)
  from d' addStock_column[OF a] show "snd s' = snd s \<or> stocked (quantity_ready (bri_quantity x)) (snd s) (snd s')"
    by (simp add: s stocked_def)
qed

lemma ledger_step_cong:
  assumes "ProductBatch d'' = ProductBatch d'" "outgoing_tables d'' = outgoing_tables d'" "item_tables d'' = item_tables d'"
    "next_uuid d'' = next_uuid d'"
  shows "ledger_step n d d'' = ledger_step n d d'"
  using ledger_cong[OF assms] assms by (simp add: ledger_step_def)

lemma intake_quantities:
  assumes "ledger d"
  shows "\<forall>r \<in> set (receipt_items i d). quantity_ready (gri_quantity r)"
    and "\<forall>r \<in> set (buyer_items i d). quantity_ready (bri_quantity r)"
  using assms by (auto simp: ledger_def intake_ready_def list_all_iff receipt_items_def buyer_items_def)

lemma receipt_post_step:
  assumes "receipt_post_tx i d = Inr (p, d')" and "ledger d"
    and "length (ProductBatch d) + length (receipt_items i d) \<le> max_batches"
  shows "ledger_step (length (receipt_items i d)) d d'"
proof -
  obtain date d1 where p: "for_each (stock_receipt_item i date) (receipt_items i d) d = Inr d1"
    "set_receipt_status i POSTED d1 = Inr d'"
    using assms(1) by (auto simp: receipt_post_tx_def split: option.splits if_splits)
  have "ledger_step (length (receipt_items i d)) d d1"
    by (rule receipts_in.steps_keep_ledger[OF p(1) assms(2,3) intake_quantities(1)[OF assms(2)]])
  moreover have "ledger_step (length (receipt_items i d)) d d' = ledger_step (length (receipt_items i d)) d d1"
    using p(2) by (intro ledger_step_cong) (auto simp: set_receipt_status_def upd_GoodsReceipt_def outgoing_tables_def item_tables_def)
  ultimately show ?thesis by simp
qed

lemma buyer_return_post_step:
  assumes "buyer_return_post_tx i d = Inr (p, d')" and "ledger d"
    and "length (ProductBatch d) + length (buyer_items i d) \<le> max_batches"
  shows "ledger_step (length (buyer_items i d)) d d'"
proof -
  obtain date c d1 f where p: "for_each (take_back_item i date) (buyer_items i d) (0, d) = Inr (c, d1)"
    "upd_BuyerReturn (\<lambda>r. br_id r = i) f d1 = Inr d'"
    using assms(1) by (auto simp: buyer_return_post_tx_def split: option.splits if_splits)
  have "ledger_step (length (buyer_items i d)) d d1"
    using returns_in.steps_keep_ledger[OF p(1)] assms(2,3) intake_quantities(2)[OF assms(2)] by simp
  moreover have "ledger_step (length (buyer_items i d)) d d' = ledger_step (length (buyer_items i d)) d d1"
    using p(2) by (intro ledger_step_cong) (auto simp: upd_BuyerReturn_Inr outgoing_tables_def item_tables_def)
  ultimately show ?thesis by simp
qed

section \<open>Deleting batches\<close>

lemma moved_filter: "(\<And>l. l \<in> set ls \<Longrightarrow> fst l = k \<Longrightarrow> P l) \<Longrightarrow> moved k (filter P ls) = moved k ls"
  by (induction ls) auto

lemma del_batch_links:
  "batch_links (del_ProductBatch P d) =
     filter (\<lambda>l. fst l \<notin> pb_id ` {b \<in> set (ProductBatch d). P b}) (batch_links d)"
  by (simp add: batch_links_def del_ProductBatch_def Let_def filter_map o_def rib_link_def srib_link_def)

lemma del_ProductBatch_step:
  assumes "ledger d"
  shows "ledger_step 0 d (del_ProductBatch P d)"
proof -
  note old = ledger_parts[OF assms]
  let ?e = "del_ProductBatch P d"
  have e: "ProductBatch ?e = filter (\<lambda>b. \<not> P b) (ProductBatch d)" "item_tables ?e = item_tables d"
    "next_uuid ?e = next_uuid d"
    by (simp_all add: del_ProductBatch_def Let_def item_tables_def)
  have dist: "distinct (map pb_id (ProductBatch d))" using old(1) by (simp add: books_def stock_ready_def batches_typed_def)
  have kept: "pb_id b \<notin> pb_id ` {c \<in> set (ProductBatch d). P c}" if "b \<in> set (ProductBatch d)" "\<not> P b" for b
    using that dist by (auto simp: distinct_map dest: inj_onD)
  have "moved (pb_id b) (batch_links ?e) = moved (pb_id b) (batch_links d)" if "b \<in> set (ProductBatch d)" "\<not> P b" for b
    unfolding del_batch_links using kept[OF that] by (intro moved_filter) auto
  then have "booked ?e" using old(1) by (auto simp: books_def booked_def e(1) list_all_iff)
  moreover have "stock_ready ?e"
    using old(1) dist le_trans[OF length_filter_le[of "\<lambda>b. \<not> P b" "ProductBatch d"]]
    by (auto simp: books_def stock_ready_def batches_typed_def e(1) distinct_map intro: inj_on_subset)
  ultimately have "books ?e" using old(1) e(2)
    by (auto simp: books_def items_ready_def item_tables_def del_batch_links list_all_iff)
  moreover have "fst l \<in> pb_id ` {b \<in> set (ProductBatch d). \<not> P b}" if "l \<in> set (batch_links ?e)" for l
    using that old(3) unfolding del_batch_links by fastforce
  then have "links_sound ?e" using old(3) by (auto simp: links_sound_def list_all_iff del_batch_links e(1))
  moreover have "batches_sound ?e" using old(2) by (auto simp: batches_sound_def list_all_iff e(1,3))
  moreover have "intake_ready ?e" using assms e(2) by (simp add: ledger_def intake_ready_def item_tables_def)
  moreover have "sale_side ?e \<and> return_side ?e"
    by (rule sides_more[OF assms]) (auto simp: del_ProductBatch_def Let_def item_tables_def)
  ultimately show ?thesis by (simp add: ledger_step_def ledger_def e)
qed

lemma receipt_unpost_step:
  assumes "receipt_unpost_tx i d = Inr (p, d')" and "ledger d"
  shows "ledger_step 0 d d'"
proof -
  let ?e = "del_ProductBatch (\<lambda>b. pb_goodsReceiptId b = Some i) d"
  have p: "set_receipt_status i SAVED ?e = Inr d'"
    using assms(1) by (auto simp: receipt_unpost_tx_def split: option.splits if_splits)
  have "ledger_step 0 d d' = ledger_step 0 d ?e"
    using p by (intro ledger_step_cong) (auto simp: set_receipt_status_def upd_GoodsReceipt_def outgoing_tables_def item_tables_def)
  then show ?thesis using del_ProductBatch_step[OF assms(2)] by simp
qed

lemma ledger_step_trans: "ledger_step m d e \<Longrightarrow> ledger_step n e f \<Longrightarrow> ledger_step (m + n) d f"
  by (simp add: ledger_step_def)

lemma del_batches_step: "ledger d \<Longrightarrow> ledger_step 0 d (foldl (\<lambda>e l. del_ProductBatch (P l) e) d ls)"
proof (induction ls arbitrary: d)
  case (Cons l ls)
  from del_ProductBatch_step[OF Cons.prems, of "P l"] have one: "ledger_step 0 d (del_ProductBatch (P l) d)" .
  then have "ledger (del_ProductBatch (P l) d)" by (simp add: ledger_step_def)
  from ledger_step_trans[OF one Cons.IH[OF this]] show ?case by simp
qed (simp add: ledger_step_def)

lemma buyer_return_unpost_step:
  assumes "buyer_return_unpost_tx i d = Inr (p, d')" and "ledger d"
  shows "ledger_step 0 d d'"
proof -
  define d1 where "d1 = del_ProductBatch (\<lambda>b. pb_buyerReturnId b = Some i) d"
  define d2 where "d2 = foldl (\<lambda>e l. del_ProductBatch (\<lambda>b. pb_id b = brib_productBatchId l) e) d1 (buyer_links i d1)"
  obtain f where p: "upd_BuyerReturn (\<lambda>r. br_id r = i) f (del_BuyerReturnItemBatches i d2) = Inr d'"
    using assms(1) by (auto simp: buyer_return_unpost_tx_def d1_def d2_def Let_def split: option.splits if_splits)
  have one: "ledger_step 0 d d1" unfolding d1_def by (rule del_ProductBatch_step[OF assms(2)])
  then have "ledger_step 0 d1 d2" unfolding d2_def by (intro del_batches_step) (simp add: ledger_step_def)
  from ledger_step_trans[OF one this] have "ledger_step 0 d d2" by simp
  moreover have "ledger_step 0 d d' = ledger_step 0 d d2"
    using p by (intro ledger_step_cong)
      (auto simp: upd_BuyerReturn_Inr outgoing_tables_def item_tables_def del_BuyerReturnItemBatches_def Let_def)
  ultimately show ?thesis by simp
qed

end
