(* ===== verification/RealizationRoutes.thy ===== *)
theory RealizationRoutes
  imports RealizationService DocNumber Http
begin

text \<open>
  \<open>src/routes/realization.ts\<close>: listing, reading, creating (by hand or from an order), editing, posting,
  unposting and soft-deleting realizations. Users who are not administrators are restricted to their
  warehouse when they list, read and create.
\<close>

section \<open>Requests\<close>

record sale_item_data =
  sid_productId :: "ident option"
  sid_quantity :: "jsnum option"
  sid_sellPrice :: "jsnum option"
  sid_price :: "jsnum option"
  sid_total :: "jsnum option"

record sale_data =
  sd_date :: "timestamp option"
  sd_counterpartyId :: "ident option"
  sd_warehouseId :: "ident option"
  sd_amount :: "jsnum option"
  sd_comment :: "string option"
  sd_items :: "sale_item_data list option"
  sd_salesType :: "string option"

text \<open>The default sales type, in UTF-8.\<close>

definition cash_sales_type :: string where
  "cash_sales_type = map char_of [208, 147, 208, 190, 209, 130, 209, 150, 208, 178, 208, 186, 208, 190,
     208, 178, 208, 184, 208, 185 :: nat]"

section \<open>List and details\<close>

record sale_view =
  sv_row :: realization
  sv_counterpartyName :: "string option"
  sv_warehouseName :: "string option"

definition sale_row :: "db \<Rightarrow> realization \<Rightarrow> sale_view" where
  "sale_row d r =
     \<lparr>sv_row = r, sv_counterpartyName = join_name cp_id cp_name (Counterparty d) (rl_counterpartyId r),
      sv_warehouseName = join_name wh_id wh_name (Warehouse d) (rl_warehouseId r)\<rparr>"

definition list_realizations :: "req_user option \<Rightarrow> bool \<Rightarrow> db \<Rightarrow> sale_view list reply" where
  "list_realizations user includeDeleted d = reply_ok 200
     (map (sale_row d) (sort_key (\<lambda>r. - rl_date r)
       (filter (\<lambda>r. (case restricted_to user of None \<Rightarrow> True | Some w \<Rightarrow> rl_warehouseId r = Some w) \<and>
                    (includeDeleted \<or> \<not> rl_isDeleted r)) (Realization d))))"

definition ordered_sale_items :: "ident \<Rightarrow> db \<Rightarrow> realization_item list" where
  "ordered_sale_items i d =
     sort_key ri_sortOrder (sort_key ri_createdAt (realization_items i d))"

definition get_realization ::
  "req_user option \<Rightarrow> ident \<Rightarrow> db \<Rightarrow> (sale_view \<times> (realization_item \<times> string option) list) reply" where
  "get_realization user i d =
     (case find_row rl_id i (filter (\<lambda>r. case restricted_to user of None \<Rightarrow> True
              | Some w \<Rightarrow> rl_warehouseId r = Some w) (Realization d)) of
        None \<Rightarrow> reply_error 404 (Text ''Realization not found or access denied'')
      | Some r \<Rightarrow> reply_ok 200 (sale_row d r,
          map (\<lambda>x. (x, join_name prod_id prod_name (Product d) (Some (ri_productId x))))
            (ordered_sale_items i d)))"

section \<open>Create\<close>

text \<open>\<open>a || b\<close> on optional numbers: a missing number and zero are falsy.\<close>

definition js_or :: "jsnum option \<Rightarrow> jsnum option \<Rightarrow> jsnum option" where
  "js_or a b = (case a of None \<Rightarrow> b | Some x \<Rightarrow> if x = 0 then b else Some x)"

definition insert_sale_item :: "ident \<Rightarrow> nat \<times> sale_item_data \<Rightarrow> db \<Rightarrow> error + db" where
  "insert_sale_item i = (\<lambda>(index, item) d.
     rbind (not_null ''RealizationItem.productId'' (sid_productId item)) (\<lambda>productId.
     rbind (not_null ''RealizationItem.quantity'' (sid_quantity item)) (\<lambda>quantity.
     rbind (not_null ''RealizationItem.price'' (js_or (sid_sellPrice item) (sid_price item))) (\<lambda>price.
     rbind (not_null ''RealizationItem.total'' (sid_total item)) (\<lambda>total.
     ins_RealizationItem
       \<lparr>ri_id = next_uuid d, ri_realizationId = i, ri_productId = productId,
        ri_quantity = round_dec 3 (js_text quantity), ri_price = round_dec 2 (js_text price),
        ri_total = round_dec 2 (js_text total), ri_sortOrder = index, ri_createdAt = clock d\<rparr>
       (d\<lparr>next_uuid := Suc (next_uuid d)\<rparr>))))))"

definition insert_sale_items :: "ident \<Rightarrow> sale_item_data list \<Rightarrow> db \<Rightarrow> error + db" where
  "insert_sale_items i items = for_each (insert_sale_item i) (zip [0..<length items] items)"

definition next_sale_number :: "db \<Rightarrow> string" where
  "next_sale_number d = generateDocNumber (tz_offset d) (map rl_number (Realization d)) (clock d)"

definition create_realization_body :: "req_user option \<Rightarrow> sale_data \<Rightarrow> db \<Rightarrow> error + ident \<times> db" where
  "create_realization_body user data d =
     (let i = next_uuid d
      in rbind (not_null ''Realization.amount'' (sd_amount data)) (\<lambda>amount.
         rbind (ins_Realization
             \<lparr>rl_id = i, rl_number = next_sale_number d, rl_date = coalesce (sd_date data) (clock d),
              rl_counterpartyId = sd_counterpartyId data,
              rl_warehouseId = forced_warehouse user (sd_warehouseId data), rl_status = DRAFT,
              rl_amount = round_dec 2 (js_text amount), rl_currency = ''UAH'', rl_comment = sd_comment data,
              rl_salesType = Some (coalesce (sd_salesType data) cash_sales_type), rl_orderId = None,
              rl_profit = 0, rl_paidAmount = 0, rl_createdBy = user_id user, rl_isDeleted = False,
              rl_createdAt = clock d, rl_updatedAt = clock d\<rparr>
             (d\<lparr>next_uuid := Suc i\<rparr>)) (\<lambda>d1.
         rbind (case sd_items data of None \<Rightarrow> Inr d1 | Some items \<Rightarrow> insert_sale_items i items d1) (\<lambda>d2.
         Inr (i, d2)))))"

definition create_realization :: "req_user option \<Rightarrow> sale_data \<Rightarrow> db \<Rightarrow> ident reply \<times> db" where
  "create_realization user data d =
     map_prod (catch_reply 201 (\<lambda>e. (500, ErrorMessage e))) id (transaction (create_realization_body user data) d)"

section \<open>Create from an order\<close>

text \<open>
  A line of the order with the values the code handles: the parameter sent to SQL (the text of a number,
  or the text of a DECIMAL column) and what \<open>Number(...)\<close> makes of it.
\<close>

record order_line =
  ol_productId :: "ident option"
  ol_quantity :: "(decimal \<times> jsnum) option"
  ol_sellPrice :: "(decimal \<times> jsnum) option"

definition json_value :: "jsnum \<Rightarrow> decimal \<times> jsnum" where
  "json_value x = (js_text x, x)"

definition column_value :: "decimal \<Rightarrow> decimal \<times> jsnum" where
  "column_value x = (x, js_number x)"

definition json_line :: "order_json_item \<Rightarrow> order_line" where
  "json_line i =
     \<lparr>ol_productId = (case oji_productId i of None \<Rightarrow> oji_id i | Some p \<Rightarrow> Some p),
      ol_quantity = map_option json_value (case oji_quantity i of None \<Rightarrow> oji_count i | Some q \<Rightarrow> q),
      ol_sellPrice = map_option json_value (case oji_sellPrice i of None \<Rightarrow> oji_price i | Some q \<Rightarrow> q)\<rparr>"

definition table_line :: "order_item \<Rightarrow> order_line" where
  "table_line r = \<lparr>ol_productId = Some (oi_productId r), ol_quantity = Some (column_value (oi_quantity r)),
     ol_sellPrice = Some (column_value (oi_sellPrice r))\<rparr>"

definition order_lines :: "order \<Rightarrow> db \<Rightarrow> order_line list" where
  "order_lines order d =
     (case ord_items order of
        Some (i # is) \<Rightarrow> map json_line (i # is)
      | _ \<Rightarrow> map table_line (filter (\<lambda>r. oi_orderId r = ord_id order) (OrderItem d)))"

text \<open>\<open>v || d\<close> on optional strings.\<close>

definition string_or :: "string option \<Rightarrow> string \<Rightarrow> string" where
  "string_or v d = (case v of None \<Rightarrow> d | Some s \<Rightarrow> if s = [] then d else s)"

definition sale_place :: "order \<Rightarrow> db \<Rightarrow> ident option \<times> string" where
  "sale_place order d =
     (let (w, t) = (case Option.bind (ord_counterpartyId order) (\<lambda>c. find_row cp_id c (Counterparty d)) of
            None \<Rightarrow> (None, cash_sales_type)
          | Some cp \<Rightarrow> (cp_warehouseId cp, string_or (cp_defaultSalesType cp) cash_sales_type))
      in (case w of Some x \<Rightarrow> Some x
          | None \<Rightarrow> (case Warehouse d of [] \<Rightarrow> None | wh # _ \<Rightarrow> Some (wh_id wh)), t))"

definition insert_order_line :: "ident \<Rightarrow> nat \<times> order_line \<Rightarrow> db \<Rightarrow> error + db" where
  "insert_order_line i = (\<lambda>(index, l) d.
     rbind (not_null ''RealizationItem.productId'' (ol_productId l)) (\<lambda>productId.
     rbind (not_null ''RealizationItem.quantity'' (ol_quantity l)) (\<lambda>quantity.
     rbind (not_null ''RealizationItem.price'' (ol_sellPrice l)) (\<lambda>price.
     ins_RealizationItem
       \<lparr>ri_id = next_uuid d, ri_realizationId = i, ri_productId = productId,
        ri_quantity = round_dec 3 (fst quantity), ri_price = round_dec 2 (fst price),
        ri_total = round_dec 2 (js_text (js_mul (snd quantity) (snd price))), ri_sortOrder = index,
        ri_createdAt = clock d\<rparr>
       (d\<lparr>next_uuid := Suc (next_uuid d)\<rparr>)))))"

definition from_order_body :: "req_user option \<Rightarrow> ident \<Rightarrow> db \<Rightarrow> error + ident \<times> db" where
  "from_order_body user orderId d =
     (case find_row ord_id orderId (Orders d) of
        None \<Rightarrow> Inl OrderNotFound
      | Some order \<Rightarrow>
          let items = order_lines order d; (warehouseId, salesType) = sale_place order d; i = next_uuid d
          in rbind (ins_Realization
               \<lparr>rl_id = i, rl_number = next_sale_number d, rl_date = clock d,
                rl_counterpartyId = ord_counterpartyId order, rl_warehouseId = warehouseId,
                rl_status = DRAFT, rl_amount = round_dec 2 (ord_total order),
                rl_currency = ord_currency order, rl_comment = None, rl_salesType = Some salesType,
                rl_orderId = Some orderId, rl_profit = 0, rl_paidAmount = 0, rl_createdBy = user_id user,
                rl_isDeleted = False, rl_createdAt = clock d, rl_updatedAt = clock d\<rparr>
               (d\<lparr>next_uuid := Suc i\<rparr>)) (\<lambda>d1.
             rbind (for_each (insert_order_line i) (zip [0..<length items] items)
                      (upd_Order_status orderId ''ACCEPTED'' d1)) (\<lambda>d2.
             Inr (i, d2))))"

definition from_order :: "req_user option \<Rightarrow> ident \<Rightarrow> db \<Rightarrow> ident reply \<times> db" where
  "from_order user orderId d =
     map_prod (catch_reply 201 (\<lambda>e. (500, ErrorMessage e))) id (transaction (from_order_body user orderId) d)"

section \<open>Edit, post, unpost, delete\<close>

definition edit_realization_body :: "ident \<Rightarrow> sale_data \<Rightarrow> db \<Rightarrow> error + unit \<times> db" where
  "edit_realization_body i data d =
     (case find_row rl_id i (Realization d) of
        None \<Rightarrow> Inl RealizationNotFound
      | Some r \<Rightarrow>
          if rl_status r = POSTED then Inl CannotEditPostedRealization
          else rbind (upd_Realization (\<lambda>r. rl_id r = i)
               (\<lambda>r. r\<lparr>rl_date := coalesce (sd_date data) (rl_date r),
                      rl_counterpartyId := coalesce_opt (sd_counterpartyId data) (rl_counterpartyId r),
                      rl_warehouseId := coalesce_opt (sd_warehouseId data) (rl_warehouseId r),
                      rl_comment := coalesce_opt (sd_comment data) (rl_comment r),
                      rl_amount := coalesce (map_option (\<lambda>x. round_dec 2 (js_text x)) (sd_amount data))
                                     (rl_amount r),
                      rl_salesType := coalesce_opt (sd_salesType data) (rl_salesType r),
                      rl_updatedAt := clock d\<rparr>) d) (\<lambda>d1.
             rbind (case sd_items data of None \<Rightarrow> Inr d1
                    | Some items \<Rightarrow> insert_sale_items i items (del_RealizationItems i d1)) (\<lambda>d2.
             Inr ((), d2))))"

definition edit_realization :: "ident \<Rightarrow> sale_data \<Rightarrow> db \<Rightarrow> unit reply \<times> db" where
  "edit_realization i data d =
     map_prod (catch_reply 200 (\<lambda>e. (500, ErrorMessage e))) id (transaction (edit_realization_body i data) d)"

definition stock_or_message :: "error \<Rightarrow> http_error" where
  "stock_or_message e = (case e of InsufficientStock p n m \<Rightarrow> StockError e | _ \<Rightarrow> ErrorMessage e)"

definition post_realization :: "ident \<Rightarrow> db \<Rightarrow> jsnum reply \<times> db" where
  "post_realization i d =
     map_prod (catch_reply 200 (\<lambda>e. (400, stock_or_message e))) id (realization_post i d)"

definition unpost_realization :: "ident \<Rightarrow> db \<Rightarrow> unit reply \<times> db" where
  "unpost_realization i d =
     map_prod (catch_reply 200 (\<lambda>e. (400, ErrorMessage e))) id (realization_unpost i d)"

definition delete_realization_body :: "ident \<Rightarrow> db \<Rightarrow> error + unit \<times> db" where
  "delete_realization_body i d =
     (case find_row rl_id i (Realization d) of
        None \<Rightarrow> Inl RealizationNotFound
      | Some r \<Rightarrow>
          if rl_status r = POSTED then Inl CannotDeletePostedRealization
          else rbind (upd_Realization (\<lambda>r. rl_id r = i)
                 (\<lambda>r. r\<lparr>rl_isDeleted := True, rl_updatedAt := clock d\<rparr>) d) (\<lambda>d1. Inr ((), d1)))"

definition delete_realization :: "ident \<Rightarrow> db \<Rightarrow> unit reply \<times> db" where
  "delete_realization i d =
     map_prod (catch_reply 200 (\<lambda>e. (400, ErrorMessage e))) id (transaction (delete_realization_body i) d)"

section \<open>What is written is what is read\<close>

lemma sort_key_sorted: "sorted (map f xs) \<Longrightarrow> sort_key f xs = xs"
  by (induction xs) (auto simp: insort_is_Cons)

lemma ins_RealizationItem_Inr:
  "ins_RealizationItem r d = Inr d' \<Longrightarrow> d' = d\<lparr>RealizationItem := RealizationItem d @ [r]\<rparr>"
  by (auto simp: ins_RealizationItem_def)

text \<open>The columns of a line that the client sent.\<close>

definition line_columns :: "realization_item \<Rightarrow> ident \<times> decimal \<times> decimal \<times> decimal" where
  "line_columns r = (ri_productId r, ri_quantity r, ri_price r, ri_total r)"

definition sent_columns :: "sale_item_data \<Rightarrow> ident \<times> decimal \<times> decimal \<times> decimal" where
  "sent_columns x = (the (sid_productId x), round_dec 3 (js_text (the (sid_quantity x))),
     round_dec 2 (js_text (the (js_or (sid_sellPrice x) (sid_price x)))), round_dec 2 (js_text (the (sid_total x))))"

definition ordered_columns :: "order_line \<Rightarrow> ident \<times> decimal \<times> decimal \<times> decimal" where
  "ordered_columns l = (the (ol_productId l), round_dec 3 (fst (the (ol_quantity l))),
     round_dec 2 (fst (the (ol_sellPrice l))),
     round_dec 2 (js_text (js_mul (snd (the (ol_quantity l))) (snd (the (ol_sellPrice l))))))"

text \<open>A loop that appends one row per element, in order.\<close>

lemma append_rows_loop:
  assumes "for_each (f i) (zip [k..<k + length xs] xs) d = Inr d'"
    and "\<And>n x e e'. f i (n, x) e = Inr e' \<Longrightarrow> \<exists>r. RealizationItem e' = RealizationItem e @ [r] \<and>
      ri_realizationId r = i \<and> ri_sortOrder r = n \<and> ri_createdAt r = clock e \<and> line_columns r = g x \<and>
      clock e' = clock e \<and> Realization e' = Realization e"
  shows "\<exists>rs. RealizationItem d' = RealizationItem d @ rs \<and> map line_columns rs = map g xs \<and>
    (\<forall>r \<in> set rs. ri_realizationId r = i \<and> ri_createdAt r = clock d) \<and>
    map ri_sortOrder rs = [k..<k + length xs] \<and> Realization d' = Realization d"
  using assms(1)
proof (induction xs arbitrary: k d)
  case (Cons x xs)
  have "zip [k..<k + length (x # xs)] (x # xs) = (k, x) # zip [Suc k..<Suc k + length xs] xs"
    by (subst upt_conv_Cons) auto
  with Cons.prems obtain e where e: "f i (k, x) d = Inr e"
    "for_each (f i) (zip [Suc k..<Suc k + length xs] xs) e = Inr d'" by auto
  from assms(2)[OF e(1)] obtain r where r: "RealizationItem e = RealizationItem d @ [r]"
    "ri_realizationId r = i" "ri_sortOrder r = k" "ri_createdAt r = clock d" "line_columns r = g x"
    "clock e = clock d" "Realization e = Realization d" by blast
  from Cons.IH[OF e(2)] obtain rs where rs: "RealizationItem d' = RealizationItem e @ rs"
    "map line_columns rs = map g xs" "\<forall>r \<in> set rs. ri_realizationId r = i \<and> ri_createdAt r = clock e"
    "map ri_sortOrder rs = [Suc k..<Suc k + length xs]" "Realization d' = Realization e" by blast
  have "[k..<k + length (x # xs)] = k # [Suc k..<Suc k + length xs]" by (subst upt_conv_Cons) auto
  then show ?case using r rs by (intro exI[of _ "r # rs"]) auto
qed simp

lemma appended_lines_ordered:
  assumes "RealizationItem d' = RealizationItem d @ rs" "map line_columns rs = cs"
    and "\<forall>r \<in> set rs. ri_realizationId r = i \<and> ri_createdAt r = t" "map ri_sortOrder rs = [0..<n]"
    and "\<forall>r \<in> set (RealizationItem d). ri_realizationId r \<noteq> i"
  shows "map line_columns (ordered_sale_items i d') = cs"
proof -
  have "realization_items i d' = rs"
    using assms(1,3,5) by (simp add: realization_items_def filter_id_conv filter_empty_conv)
  moreover have "sort_key ri_createdAt rs = rs"
  proof (rule sort_key_sorted)
    have "map ri_createdAt rs = map (\<lambda>_. t) rs" using assms(3) by simp
    then show "sorted (map ri_createdAt rs)" by (simp add: sorted_iff_nth_mono)
  qed
  moreover have "sort_key ri_sortOrder rs = rs" by (rule sort_key_sorted) (simp add: assms(4))
  ultimately show ?thesis using assms(2) by (simp add: ordered_sale_items_def)
qed

lemma insert_sale_item_row:
  assumes "insert_sale_item i (n, x) e = Inr e'"
  shows "\<exists>r. RealizationItem e' = RealizationItem e @ [r] \<and>
      ri_realizationId r = i \<and> ri_sortOrder r = n \<and> ri_createdAt r = clock e \<and> line_columns r = sent_columns x \<and>
      clock e' = clock e \<and> Realization e' = Realization e"
  using assms
  by (auto simp: insert_sale_item_def line_columns_def sent_columns_def dest!: ins_RealizationItem_Inr)

lemma insert_order_line_row:
  assumes "insert_order_line i (n, x) e = Inr e'"
  shows "\<exists>r. RealizationItem e' = RealizationItem e @ [r] \<and>
      ri_realizationId r = i \<and> ri_sortOrder r = n \<and> ri_createdAt r = clock e \<and> line_columns r = ordered_columns x \<and>
      clock e' = clock e \<and> Realization e' = Realization e"
  using assms
  by (auto simp: insert_order_line_def line_columns_def ordered_columns_def dest!: ins_RealizationItem_Inr)

lemma reply_Inr: "map_prod (catch_reply c f) id (transaction body d) = ((c', Inr x), d') \<longleftrightarrow>
    c' = c \<and> body d = Inr (x, d')"
  by (auto simp: transaction_def catch_reply_def split: sum.splits prod.splits)

lemma ins_Realization_frame:
  "ins_Realization r d = Inr d' \<Longrightarrow> RealizationItem d' = RealizationItem d \<and>
     Realization d' = Realization d @ [r] \<and> clock d' = clock d"
  by (auto simp: ins_Realization_def)

lemma upd_Order_status_frame [simp]:
  "RealizationItem (upd_Order_status i s d) = RealizationItem d"
  "Realization (upd_Order_status i s d) = Realization d"
  by (simp_all add: upd_Order_status_def)

lemma create_realization_lines:
  assumes "create_realization user data d = ((201, Inr i), d')" "sd_items data = Some items"
    and "\<forall>r \<in> set (RealizationItem d). ri_realizationId r < next_uuid d"
  shows "map line_columns (ordered_sale_items i d') = map sent_columns items"
proof -
  from assms(1,2) obtain r d1 where d1: "i = next_uuid d" "RealizationItem d1 = RealizationItem d"
    "insert_sale_items i items d1 = Inr d'"
    by (auto simp: create_realization_def reply_Inr create_realization_body_def Let_def
        dest!: ins_Realization_frame)
  have "for_each (insert_sale_item i) (zip [0..<0 + length items] items) d1 = Inr d'"
    using d1(3) by (simp add: insert_sale_items_def)
  from append_rows_loop[where f = insert_sale_item and g = sent_columns, OF this insert_sale_item_row] obtain rs where
    "RealizationItem d' = RealizationItem d1 @ rs" "map line_columns rs = map sent_columns items"
    "\<forall>r \<in> set rs. ri_realizationId r = i \<and> ri_createdAt r = clock d1"
    "map ri_sortOrder rs = [0..<length items]" by auto
  then show ?thesis
    using assms(3) d1(1,2) by (intro appended_lines_ordered[of d' d1 rs]) auto
qed

lemma from_order_lines:
  assumes "from_order user orderId d = ((201, Inr i), d')"
    and "find_row ord_id orderId (Orders d) = Some order"
    and "\<forall>r \<in> set (RealizationItem d). ri_realizationId r < next_uuid d"
  shows "map line_columns (ordered_sale_items i d') = map ordered_columns (order_lines order d)"
proof -
  from assms(1,2) obtain d0 where d0: "i = next_uuid d" "RealizationItem d0 = RealizationItem d"
    "for_each (insert_order_line i) (zip [0..<length (order_lines order d)] (order_lines order d))
       (upd_Order_status orderId ''ACCEPTED'' d0) = Inr d'"
    by (auto simp: from_order_def reply_Inr from_order_body_def Let_def split: prod.splits
        dest!: ins_Realization_frame)
  define d1 where "d1 = upd_Order_status orderId ''ACCEPTED'' d0"
  then have d1: "i = next_uuid d" "RealizationItem d1 = RealizationItem d"
    "for_each (insert_order_line i) (zip [0..<length (order_lines order d)] (order_lines order d)) d1 = Inr d'"
    using d0 by simp_all
  have "for_each (insert_order_line i) (zip [0..<0 + length (order_lines order d)] (order_lines order d)) d1 = Inr d'"
    using d1(3) by simp
  from append_rows_loop[where f = insert_order_line and g = ordered_columns, OF this insert_order_line_row] obtain rs where
    "RealizationItem d' = RealizationItem d1 @ rs" "map line_columns rs = map ordered_columns (order_lines order d)"
    "\<forall>r \<in> set rs. ri_realizationId r = i \<and> ri_createdAt r = clock d1"
    "map ri_sortOrder rs = [0..<length (order_lines order d)]" by auto
  then show ?thesis
    using assms(3) d1(1,2) by (intro appended_lines_ordered[of d' d1 rs]) auto
qed

lemma insert_sale_items_Realization:
  "insert_sale_items i xs d = Inr d' \<Longrightarrow> Realization d' = Realization d"
  unfolding insert_sale_items_def
  by (erule for_each_frame) (auto dest!: insert_sale_item_row)

lemma create_realization_warehouse:
  assumes "create_realization user data d = ((201, Inr k), d')" "restricted_to user = Some w"
  shows "\<exists>r. Realization d' = Realization d @ [r] \<and> rl_warehouseId r = Some w"
proof -
  from assms obtain r d1 where "ins_Realization r (d\<lparr>next_uuid := Suc (next_uuid d)\<rparr>) = Inr d1"
    "rl_warehouseId r = Some w"
    "(case sd_items data of None \<Rightarrow> Inr d1 | Some items \<Rightarrow> insert_sale_items k items d1) = Inr d'"
    by (auto simp: create_realization_def reply_Inr create_realization_body_def Let_def forced_warehouse_def)
  then show ?thesis
    by (auto split: option.splits dest!: ins_Realization_frame insert_sale_items_Realization)
qed

section \<open>What the realization routes promise\<close>

definition sale_request :: sale_data where
  "sale_request = \<lparr>sd_date = None, sd_counterpartyId = None, sd_warehouseId = Some 8, sd_amount = Some 11,
     sd_comment = None, sd_items = Some
       [\<lparr>sid_productId = Some 5, sid_quantity = Some 2, sid_sellPrice = Some 4, sid_price = None, sid_total = Some 8\<rparr>,
        \<lparr>sid_productId = Some 6, sid_quantity = Some 1, sid_sellPrice = Some 0, sid_price = Some 3, sid_total = Some 3\<rparr>],
     sd_salesType = None\<rparr>"

definition seller :: req_user where
  "seller = \<lparr>ru_id = Some 2, ru_role = ''manager'', ru_warehouseId = Some 7\<rparr>"

lemmas route_eval = create_realization_def reply_Inr create_realization_body_def sale_request_def seller_def
  ins_Realization_def insert_sale_items_def insert_sale_item_def js_or_def ins_RealizationItem_def
  forced_warehouse_def restricted_to_def realization_ok_def coalesce_def user_id_def

lemma js_text_8: "js_text 8 = 8"
  by code_simp

lemma sale_request_created: "\<exists>d'. create_realization (Some seller) sale_request draft_sale_db = ((201, Inr 1000), d')"
  by (simp add: route_eval sale_eval sale_numbers js_text_8 del: One_nat_def)

text \<open>
  What a client creates is what it reads back. After a realization is created by hand, its items, in
  the order the details handler returns them, are the items of the request in their order, each with the
  product, quantity, price and total the request names, rounded to the scale of the columns.
\<close>

theorem create_realization_roundtrip:
  assumes "create_realization user data d = ((201, Inr i), d')" and "sd_items data = Some items"
    and "\<forall>r \<in> set (RealizationItem d). ri_realizationId r < next_uuid d"
  shows "map line_columns (ordered_sale_items i d') = map sent_columns items"
  using assms by (rule create_realization_lines)

theorem create_realization_roundtrip_witness:
  "\<exists>d'. create_realization (Some seller) sale_request draft_sale_db = ((201, Inr 1000), d') \<and>
     map line_columns (ordered_sale_items 1000 d') = [(5, 2, 4, 8), (6, 1, 3, 3)]"
proof -
  obtain d' where d': "create_realization (Some seller) sale_request draft_sale_db = ((201, Inr 1000), d')"
    using sale_request_created by blast
  have "\<forall>r \<in> set (RealizationItem draft_sale_db). ri_realizationId r < next_uuid draft_sale_db"
    by (simp add: draft_sale_db_def two_batches_def empty_db_def)
  with create_realization_roundtrip[OF d'] have "map line_columns (ordered_sale_items 1000 d') =
      map sent_columns (the (sd_items sale_request))" by (simp add: sale_request_def)
  also have "\<dots> = [(5, 2, 4, 8), (6, 1, 3, 3)]"
    by (simp add: sale_request_def sent_columns_def js_or_def sale_numbers js_text_8)
  finally show ?thesis by (intro exI[of _ d'] conjI d')
qed

definition order_db :: db where
  "order_db = draft_sale_db\<lparr>RealizationItem := [], Orders :=
     [\<lparr>ord_id = 9, ord_userId = 2, ord_counterpartyId = None, ord_status = ''NEW'', ord_total = 10,
       ord_currency = ''UAH'', ord_items = Some
         [\<lparr>oji_id = None, oji_productId = Some 5, oji_count = None, oji_quantity = Some (Some 3), oji_price = Some 9,
           oji_sellPrice = Some (Some 2)\<rparr>,
          \<lparr>oji_id = Some 6, oji_productId = None, oji_count = Some 1, oji_quantity = None, oji_price = Some 4,
           oji_sellPrice = None\<rparr>], ord_comment = None, ord_docNumber = None, ord_warehouseId = None,
        ord_isDeleted = False, ord_createdAt = 1, ord_updatedAt = 1\<rparr>]\<rparr>"

lemma order_numbers: "js_text 6 = 6" "fl 6 = 6"
  by code_simp+

lemma order_db_realized: "\<exists>d'. from_order None 9 order_db = ((201, Inr 1000), d')"
  by (simp add: from_order_def reply_Inr from_order_body_def order_db_def order_lines_def json_line_def
      json_value_def sale_place_def insert_order_line_def ins_RealizationItem_def ins_Realization_def
      realization_ok_def user_id_def sale_eval sale_numbers order_numbers del: One_nat_def)

text \<open>
  A realization made from an order carries the order's lines: the JSON lines in their order (product or
  id, quantity or count, sell price or price), or the rows of \<open>OrderItem\<close> when the order has no JSON, with
  the total of each line computed from its quantity and price.
\<close>

theorem from_order_roundtrip:
  assumes "from_order user orderId d = ((201, Inr i), d')"
    and "find_row ord_id orderId (Orders d) = Some order"
    and "\<forall>r \<in> set (RealizationItem d). ri_realizationId r < next_uuid d"
  shows "map line_columns (ordered_sale_items i d') = map ordered_columns (order_lines order d)"
  using assms by (rule from_order_lines)

theorem from_order_roundtrip_witness:
  "\<exists>d'. from_order None 9 order_db = ((201, Inr 1000), d') \<and>
     map line_columns (ordered_sale_items 1000 d') = [(5, 3, 2, 6), (6, 1, 4, 4)]"
proof -
  obtain d' where d': "from_order None 9 order_db = ((201, Inr 1000), d')" using order_db_realized by blast
  have "find_row ord_id 9 (Orders order_db) = Some (Orders order_db ! 0)"
    "\<forall>r \<in> set (RealizationItem order_db). ri_realizationId r < next_uuid order_db"
    by (simp_all add: order_db_def draft_sale_db_def two_batches_def empty_db_def)
  with from_order_roundtrip[OF d'] have "map line_columns (ordered_sale_items 1000 d') =
      map ordered_columns (order_lines (Orders order_db ! 0) order_db)" by blast
  also have "\<dots> = [(5, 3, 2, 6), (6, 1, 4, 4)]"
    by (simp add: order_db_def order_lines_def json_line_def json_value_def ordered_columns_def js_mul_def
        sale_numbers order_numbers)
  finally show ?thesis by (intro exI[of _ d'] conjI d')
qed

text \<open>
  The warehouse restriction. A user who is not an administrator and has a warehouse is shown only the
  realizations of that warehouse, is told of any other that it does not exist, and can create only in it.
\<close>

theorem realizations_of_own_warehouse:
  assumes "restricted_to user = Some w" and "distinct (map rl_id (Realization d))"
  shows "(\<forall>v \<in> set (projr (snd (list_realizations user deleted d))). rl_warehouseId (sv_row v) = Some w) \<and>
    (\<forall>r \<in> set (Realization d). rl_warehouseId r \<noteq> Some w \<longrightarrow> fst (get_realization user (rl_id r) d) = 404) \<and>
    (\<forall>data k d'. create_realization user data d = ((201, Inr k), d') \<longrightarrow>
       (\<exists>r. Realization d' = Realization d @ [r] \<and> rl_warehouseId r = Some w))"
proof (intro conjI ballI impI allI)
  show "rl_warehouseId (sv_row v) = Some w" if "v \<in> set (projr (snd (list_realizations user deleted d)))" for v
    using that assms(1) by (auto simp: list_realizations_def reply_ok_def sale_row_def)
next
  fix r assume r: "r \<in> set (Realization d)" "rl_warehouseId r \<noteq> Some w"
  have "find_row rl_id (rl_id r) (filter (\<lambda>r. rl_warehouseId r = Some w) (Realization d)) = None"
    unfolding find_row_None_iff using assms(2) r by (auto simp: distinct_map dest: inj_onD)
  then show "fst (get_realization user (rl_id r) d) = 404"
    using assms(1) by (simp add: get_realization_def reply_error_def)
next
  fix data k d' assume "create_realization user data d = ((201, Inr k), d')"
  then show "\<exists>r. Realization d' = Realization d @ [r] \<and> rl_warehouseId r = Some w"
    using assms(1) by (rule create_realization_warehouse)
qed

theorem realizations_of_own_warehouse_witness:
  "fst (get_realization (Some (seller\<lparr>ru_warehouseId := Some 8\<rparr>)) 4 draft_sale_db) = 404"
proof -
  have "restricted_to (Some (seller\<lparr>ru_warehouseId := Some 8\<rparr>)) = Some 8"
    by (simp add: restricted_to_def seller_def)
  moreover have "distinct (map rl_id (Realization draft_sale_db))" by (simp add: draft_sale_db_def)
  ultimately have "\<forall>r \<in> set (Realization draft_sale_db). rl_warehouseId r \<noteq> Some 8 \<longrightarrow>
      fst (get_realization (Some (seller\<lparr>ru_warehouseId := Some 8\<rparr>)) (rl_id r) draft_sale_db) = 404"
    using realizations_of_own_warehouse by blast
  then show ?thesis by (simp add: draft_sale_db_def)
qed

end
