(* ===== verification/DocumentLife.thy ===== *)
theory DocumentLife
  imports DocumentLedger RealizationRoutes
begin

text \<open>
  The life of the documents on the ledger: creating, editing, deleting, posting and unposting goods receipts,
  realizations, supplier returns and buyer returns, and the bulk reposting of them, as one step function over the
  shared database, with the ledger as its invariant.
\<close>

section \<open>Changes beside the stock\<close>

text \<open>The batches and the outgoing documents stay; the items of the incoming documents may change.\<close>

definition beside :: "db \<Rightarrow> db \<Rightarrow> bool" where
  "beside d d' \<longleftrightarrow> ProductBatch d' = ProductBatch d \<and> outgoing_tables d' = outgoing_tables d \<and>
     RealizationItem d' = RealizationItem d \<and> SupplierReturnItem d' = SupplierReturnItem d \<and> next_uuid d \<le> next_uuid d'"

lemma beside_refl [simp]: "beside d d"
  by (simp add: beside_def)

lemma beside_trans: "beside d e \<Longrightarrow> beside e f \<Longrightarrow> beside d f"
  by (auto simp: beside_def)

lemma beside_ledger:
  assumes "beside d d'" and "ledger d" and "intake_ready d'"
  shows "ledger d'"
proof -
  have b: "ProductBatch d' = ProductBatch d" "RealizationItem d' = RealizationItem d" "SupplierReturnItem d' = SupplierReturnItem d"
    "sale_keys d' = sale_keys d" "return_keys d' = return_keys d" "RealizationItemBatch d' = RealizationItemBatch d"
    "SupplierReturnItemBatch d' = SupplierReturnItemBatch d" "next_uuid d \<le> next_uuid d'"
    using assms(1) by (auto simp: beside_def outgoing_tables_def)
  have "books d'" using assms(2)
    by (simp add: ledger_def books_def stock_ready_def batches_typed_def items_ready_def booked_def batch_links_def b)
  moreover have "links_sound d'" using assms(2) by (simp add: ledger_def links_sound_def batch_links_def b)
  moreover have "batches_sound d'" using assms(2) b(8) by (auto simp: ledger_def batches_sound_def list_all_iff b(1))
  moreover have "sale_side d'" "return_side d'"
    using assms(2) owned_more[OF _ b(8) order_refl] unfolding ledger_def sale_side_def return_side_def b by blast+
  ultimately show ?thesis using assms(3) by (simp add: ledger_def)
qed

lemma beside_step:
  assumes "beside d d'" and "ledger d" and "item_tables d' = item_tables d"
  shows "ledger_step 0 d d'"
proof -
  have "intake_ready d'" using assms(2,3) by (simp add: ledger_def intake_ready_def item_tables_def)
  with beside_ledger[OF assms(1,2)] assms(1,3) show ?thesis by (simp add: ledger_step_def beside_def)
qed

section \<open>Reposting\<close>

lemma price_apply_step:
  assumes "price_document_apply_tx i d = Inr (x, d')" and "ledger d"
  shows "ledger_step 0 d d'"
proof (rule beside_step[OF _ assms(2)])
  obtain doc slug d1 where p: "for_each (apply_price_item doc slug) (price_items i d) d = Inr d1"
    "d' = set_price_document_status i APPLIED d1"
    using assms(1) by (auto simp: price_document_apply_tx_def split: option.splits)
  have "beside d d1 \<and> item_tables d1 = item_tables d"
    by (rule for_each_invariant[OF p(1), where P = "\<lambda>e. beside d e \<and> item_tables e = item_tables d"])
      (auto simp: apply_price_item_def ins_PriceJournal_def set_prices_def beside_def outgoing_tables_def item_tables_def
        Let_def split: option.splits)
  then show "beside d d'" "item_tables d' = item_tables d"
    by (simp_all add: p(2) set_price_document_status_def beside_def outgoing_tables_def item_tables_def)
qed

lemma unpost_step_ledger:
  assumes "unpost_step r d = Inr d'" and "ledger d"
  shows "ledger_step 0 d d'"
proof (cases "ref_type r")
  case PRICE_DOCUMENT
  with assms(1) have "d' = reset_price_document r d" by (simp add: unpost_step_def unpost_document_def)
  then show ?thesis
    by (intro beside_step[OF _ assms(2)]) (simp_all add: reset_price_document_def beside_def outgoing_tables_def item_tables_def)
qed (use assms in \<open>auto simp: unpost_step_def unpost_document_def dest: realization_unpost_step buyer_return_unpost_step
    receipt_unpost_step\<close>)

text \<open>How many batches posting a document adds.\<close>

definition doc_intake :: "db \<Rightarrow> doc_ref \<Rightarrow> nat" where
  "doc_intake d r = (case ref_type r of GOODS_RECEIPT \<Rightarrow> length (receipt_items (ref_id r) d)
     | BUYER_RETURN \<Rightarrow> length (buyer_items (ref_id r) d) | _ \<Rightarrow> 0)"

lemma doc_intake_cong: "item_tables d' = item_tables d \<Longrightarrow> doc_intake d' = doc_intake d"
  by (auto simp: doc_intake_def item_tables_def receipt_items_def buyer_items_def fun_eq_iff split: doc_type.split)

lemma post_step_ledger:
  assumes "post_step r d = Inr d'" and "ledger d" and "length (ProductBatch d) + doc_intake d r \<le> max_batches"
  shows "ledger_step (doc_intake d r) d d'"
  using assms
  by (cases "ref_type r") (auto simp: post_step_def post_document_def doc_intake_def
      dest: realization_post_step buyer_return_post_step receipt_post_step price_apply_step)

lemma unpost_phase_ledger:
  assumes "for_each unpost_step rs d = Inr d'" and "ledger d"
  shows "ledger_step 0 d d'"
  by (rule for_each_invariant[OF assms(1), where P = "ledger_step 0 d"])
    (use assms(2) in \<open>auto simp: ledger_step_def dest!: unpost_step_ledger\<close>)

lemma post_phase_ledger:
  assumes "for_each post_step rs d = Inr d'" and "ledger d"
    and "length (ProductBatch d) + sum_list (map (doc_intake d) rs) \<le> max_batches"
  shows "ledger_step (sum_list (map (doc_intake d) rs)) d d'"
  using assms
proof (induction rs arbitrary: d)
  case (Cons r rs)
  then obtain e where e: "post_step r d = Inr e" "for_each post_step rs e = Inr d'" by auto
  have one: "ledger_step (doc_intake d r) d e" using post_step_ledger[OF e(1) Cons.prems(2)] Cons.prems(3) by simp
  then have i: "doc_intake e = doc_intake d" by (intro doc_intake_cong) (simp add: ledger_step_def)
  have "ledger_step (sum_list (map (doc_intake e) rs)) e d'"
    using one Cons.prems(3) by (intro Cons.IH[OF e(2)]) (simp_all add: ledger_step_def i)
  from ledger_step_trans[OF one this] show ?case by (simp add: i)
qed (simp add: ledger_step_def)

lemma repost_body_ledger:
  assumes "repost_body opts d = Inr (u, d')" and "ledger d"
    and "length (ProductBatch d) + sum_list (map (doc_intake d) (post_order opts d)) \<le> max_batches"
  shows "ledger d'"
proof -
  obtain d1 where p: "(if action_of opts \<in> {REPOST, UNPOST} then for_each unpost_step (unpost_order opts d) d else Inr d) = Inr d1"
    "(if action_of opts \<in> {REPOST, POST} then for_each post_step (post_order opts d) d1 else Inr d1) = Inr d'"
    using assms(1) by (auto simp: repost_body_def)
  have one: "ledger_step 0 d d1"
    using p(1) unpost_phase_ledger[OF _ assms(2)] assms(2) by (auto simp: ledger_step_def split: if_splits)
  then have i: "doc_intake d1 = doc_intake d" by (intro doc_intake_cong) (simp add: ledger_step_def)
  show ?thesis
    using p(2) one post_phase_ledger[of "post_order opts d" d1 d'] assms(3)
    by (auto simp: ledger_step_def i split: if_splits)
qed

lemma lock_ledger [simp]: "ledger (acquire_lock u d) = ledger d" "ledger (release_lock d) = ledger d"
  by (rule ledger_cong; simp add: acquire_lock_def release_lock_def outgoing_tables_def item_tables_def)+

lemma repost_run_ledger:
  assumes "ledger d" and "length (ProductBatch d) + sum_list (map (doc_intake d) (post_order opts d)) \<le> max_batches"
  shows "ledger (snd (repost_run u opts d))"
proof (cases "is_locked d")
  case True
  with assms(1) show ?thesis by (simp add: repost_run_def)
next
  case False
  let ?a = "acquire_lock u d"
  have "documents opts ?a ty = documents opts d ty" for ty
    by (cases ty) (simp_all add: documents_def acquire_lock_def)
  then have "post_order opts ?a = post_order opts d" by (simp add: post_order_def unpost_order_def selected_def)
  moreover have "doc_intake ?a = doc_intake d" by (rule doc_intake_cong) (simp add: item_tables_def acquire_lock_def)
  moreover have "ProductBatch ?a = ProductBatch d" by (simp add: acquire_lock_def)
  ultimately have same: "doc_intake ?a = doc_intake d" "post_order opts ?a = post_order opts d" "ProductBatch ?a = ProductBatch d"
    by blast+
  have "ledger d1" if "repost_body opts ?a = Inr (x, d1)" for x d1
    using repost_body_ledger[OF that] assms by (simp add: same)
  then have "ledger (snd (transaction (repost_body opts) ?a))"
    using assms(1) by (auto simp: transaction_def split: sum.split)
  with False show ?thesis by (simp add: repost_run_def)
qed

section \<open>Drafts of incoming documents\<close>

text \<open>A quantity that is not negative and fits its column is one the stock can work with.\<close>

lemma stored_quantity_ready:
  assumes "0 \<le> x" and "dec_fits 10 3 (round_dec 3 x)"
  shows "quantity_ready (round_dec 3 x)"
  using assms round_dec_nonneg[of x 3] by (simp add: quantity_ready_def dec_fits_def)

definition drafted :: "db \<Rightarrow> db \<Rightarrow> bool" where
  "drafted d d' \<longleftrightarrow> beside d d' \<and> (intake_ready d \<longrightarrow> intake_ready d')"

lemma drafted_refl [simp]: "drafted d d"
  by (simp add: drafted_def)

lemma drafted_trans: "drafted d e \<Longrightarrow> drafted e f \<Longrightarrow> drafted d f"
  unfolding drafted_def using beside_trans by blast

lemma drafted_ledger: "drafted d d' \<Longrightarrow> ledger d \<Longrightarrow> ledger d'"
  unfolding drafted_def using beside_ledger ledger_def by blast

lemma drafted_loop:
  assumes "for_each f xs s = Inr s'" and "\<And>x t t'. x \<in> set xs \<Longrightarrow> f x t = Inr t' \<Longrightarrow> drafted (g t) (g t')"
  shows "drafted (g s) (g s')"
  by (rule for_each_invariant[OF assms(1), where P = "\<lambda>t. drafted (g s) (g t)"])
    (auto intro: drafted_trans assms(2))

lemmas draft_defs = drafted_def beside_def outgoing_tables_def intake_ready_def

lemma insert_receipt_items_drafted:
  assumes "insert_receipt_items i items d = Inr d'" and "\<forall>x \<in> set items. 0 \<le> rid_quantity x"
  shows "drafted d d'"
  using assms(1) unfolding insert_receipt_items_def
proof (rule drafted_loop[where g = "\<lambda>d. d"])
  fix x t t' assume x: "x \<in> set (zip [0..<length items] items)" and run: "insert_receipt_item i x t = Inr t'"
  obtain k item where kx: "x = (k, item)" by (cases x)
  then have "0 \<le> js_text (rid_quantity item)" using x assms(2) set_zip_rightD js_text_nonneg by fastforce
  then show "drafted t t'" using run
    by (auto simp: kx insert_receipt_item_def ins_GoodsReceiptItem_def draft_defs intro: stored_quantity_ready)
qed

lemma receipt_create_ledger:
  assumes "receipt_create_body data u d = Inr (i, d')" and "ledger d" and "\<forall>x \<in> set (rd_items data). 0 \<le> rid_quantity x"
  shows "ledger d'"
proof -
  obtain r d1 where p: "ins_GoodsReceipt r (d\<lparr>next_uuid := Suc (next_uuid d)\<rparr>) = Inr d1"
    "insert_receipt_items (next_uuid d) (rd_items data) d1 = Inr d'"
    using assms(1) by (auto simp: receipt_create_body_def Let_def)
  have "drafted d d1" using p(1) by (auto simp: ins_GoodsReceipt_def draft_defs)
  with insert_receipt_items_drafted[OF p(2) assms(3)] drafted_trans drafted_ledger[OF _ assms(2)] show ?thesis by blast
qed

lemma insert_buyer_item_drafted:
  assumes "insert_buyer_item i (k, x) (c, d) = Inr (c', d')" and "0 \<le> rtd_quantity x"
  shows "drafted d d'"
  using assms stored_quantity_ready[OF js_text_nonneg[OF assms(2)]]
  by (auto simp: insert_buyer_item_def ins_BuyerReturnItem_def Let_def draft_defs)

lemma write_buyer_items_drafted:
  assumes "write_buyer_items i items d = Inr d'" and "\<forall>x \<in> set items. 0 \<le> rtd_quantity x"
  shows "drafted d d'"
proof -
  obtain c d1 where p: "for_each (insert_buyer_item i) (zip [0..<length items] items) (0, d) = Inr (c, d1)"
    "upd_BuyerReturn (\<lambda>r. br_id r = i) (\<lambda>r. r\<lparr>br_totalAmount := round_dec 2 (js_text c)\<rparr>) d1 = Inr d'"
    using assms(1) by (auto simp: write_buyer_items_def)
  have "drafted (snd (0 :: jsnum, d)) (snd (c, d1))"
  proof (rule drafted_loop[OF p(1), where g = snd])
    fix x t t' assume x: "x \<in> set (zip [0..<length items] items)" "insert_buyer_item i x t = Inr t'"
    obtain k item where kx: "x = (k, item)" by (cases x)
    then have "0 \<le> rtd_quantity item" using x(1) assms(2) by (auto dest: set_zip_rightD)
    with x(2) show "drafted (snd t) (snd t')"
      by (cases t; cases t') (auto simp: kx dest: insert_buyer_item_drafted)
  qed
  moreover have "drafted d1 d'" using p(2) by (auto simp: upd_BuyerReturn_Inr draft_defs)
  ultimately show ?thesis using drafted_trans by simp
qed

lemma buyer_create_ledger:
  assumes "buyer_return_create_body data u d = Inr (i, d')" and "ledger d" and "\<forall>x \<in> set (rtn_items data). 0 \<le> rtd_quantity x"
  shows "ledger d'"
proof -
  obtain r d1 where p: "ins_BuyerReturn r (d\<lparr>next_uuid := Suc (next_uuid d)\<rparr>) = Inr d1"
    "write_buyer_items (next_uuid d) (rtn_items data) d1 = Inr d'"
    using assms(1) by (auto simp: buyer_return_create_body_def Let_def)
  have "drafted d d1" using p(1) by (auto simp: ins_BuyerReturn_def draft_defs)
  with write_buyer_items_drafted[OF p(2) assms(3)] drafted_trans drafted_ledger[OF _ assms(2)] show ?thesis by blast
qed

lemma buyer_update_ledger:
  assumes "buyer_return_update_body i data d = Inr (j, d')" and "ledger d" and "\<forall>x \<in> set (rtn_items data). 0 \<le> rtd_quantity x"
  shows "ledger d'"
proof -
  obtain f d1 where p: "upd_BuyerReturn (\<lambda>r. br_id r = i) f d = Inr d1"
    "write_buyer_items i (rtn_items data) (del_BuyerReturnItems i d1) = Inr d'"
    using assms(1) by (auto simp: buyer_return_update_body_def split: option.splits if_splits)
  have "drafted d (del_BuyerReturnItems i d1)"
    using p(1) by (auto simp: upd_BuyerReturn_Inr del_BuyerReturnItems_def Let_def draft_defs list_all_iff)
  with write_buyer_items_drafted[OF p(2) assms(3)] drafted_trans drafted_ledger[OF _ assms(2)] show ?thesis by blast
qed

text \<open>Batches rewritten in place: each keeps its key and what is gone from it.\<close>

lemma rewritten_ledger:
  assumes "ledger d" and "ProductBatch d' = map f (ProductBatch d)"
    and "\<forall>b \<in> set (ProductBatch d). pb_id (f b) = pb_id b \<and> batch_typed (f b) \<and> 0 \<le> pb_quantityLeft (f b) \<and>
      pb_quantityTotal (f b) - pb_quantityLeft (f b) = pb_quantityTotal b - pb_quantityLeft b"
    and "outgoing_tables d' = outgoing_tables d" "RealizationItem d' = RealizationItem d"
    "SupplierReturnItem d' = SupplierReturnItem d" "next_uuid d' = next_uuid d" and "intake_ready d'"
  shows "ledger d'"
proof -
  note old = ledger_parts[OF assms(1)]
  have ids: "map pb_id (map f (ProductBatch d)) = map pb_id (ProductBatch d)" using assms(3) by simp
  then have set: "pb_id ` set (map f (ProductBatch d)) = pb_id ` set (ProductBatch d)" by (metis list.set_map)
  have t: "sale_keys d' = sale_keys d" "return_keys d' = return_keys d" "RealizationItemBatch d' = RealizationItemBatch d"
    "SupplierReturnItemBatch d' = SupplierReturnItemBatch d"
    using assms(4) by (auto simp: outgoing_tables_def)
  have links: "batch_links d' = batch_links d" by (simp add: batch_links_def t)
  have "booked d'"
    unfolding booked_def list_all_iff assms(2) links
  proof
    fix b' assume "b' \<in> set (map f (ProductBatch d))"
    then obtain b where b: "b \<in> set (ProductBatch d)" "b' = f b" by auto
    then have "pb_quantityLeft b = pb_quantityTotal b - moved (pb_id b) (batch_links d)"
      using old(1) by (auto simp: books_def booked_def list_all_iff)
    moreover have "pb_id (f b) = pb_id b"
      "pb_quantityTotal (f b) - pb_quantityLeft (f b) = pb_quantityTotal b - pb_quantityLeft b"
      using assms(3) b(1) by blast+
    ultimately show "pb_quantityLeft b' = pb_quantityTotal b' - moved (pb_id b') (batch_links d)"
      by (simp add: b(2))
  qed
  moreover have "stock_ready d'"
    using old(1) assms(3) unfolding books_def stock_ready_def batches_typed_def assms(2) ids by simp
  ultimately have "books d'" using old(1) by (simp add: books_def items_ready_def links assms(5,6))
  moreover have "links_sound d'" using old(3)
    unfolding links_sound_def list_all_iff links assms(2) List.member_iff list.set_map[of pb_id] set by blast
  moreover have "batches_sound d'" using old(2) assms(3) by (simp add: batches_sound_def list_all_iff assms(2,7))
  moreover have "sale_side d'" "return_side d'"
    using assms(1) by (simp_all add: ledger_def sale_side_def return_side_def t assms(5-7))
  ultimately show ?thesis using assms(8) by (simp add: ledger_def)
qed

lemma ledger_batch: "ledger d \<Longrightarrow> b \<in> set (ProductBatch d) \<Longrightarrow> batch_typed b \<and> 0 \<le> pb_quantityLeft b \<and> whole_batch b"
  using ledger_left_le_total[of d b] by (auto simp: ledger_def books_def stock_ready_def batches_typed_def whole_batch_def)

text \<open>Deleting a document detaches its batches, which keep their quantities.\<close>

lemma receipt_delete_ledger:
  assumes "receipt_delete_body i d = Inr (u, d')" and "ledger d"
  shows "ledger d'"
proof (rule rewritten_ledger[OF assms(2), where f = "\<lambda>b. if pb_goodsReceiptId b = Some i then b\<lparr>pb_goodsReceiptId := None\<rparr> else b"])
  have d': "d' = del_GoodsReceipt i (del_GoodsReceiptItems i d)"
    using assms(1) by (auto simp: receipt_delete_body_def split: option.splits if_splits)
  show "ProductBatch d' = map (\<lambda>b. if pb_goodsReceiptId b = Some i then b\<lparr>pb_goodsReceiptId := None\<rparr> else b) (ProductBatch d)"
    "outgoing_tables d' = outgoing_tables d" "RealizationItem d' = RealizationItem d"
    "SupplierReturnItem d' = SupplierReturnItem d" "next_uuid d' = next_uuid d"
    by (simp_all add: d' del_GoodsReceipt_def del_GoodsReceiptItems_def map_where_def outgoing_tables_def)
  show "intake_ready d'" using assms(2)
    by (auto simp: d' del_GoodsReceipt_def del_GoodsReceiptItems_def ledger_def intake_ready_def list_all_iff)
qed (use ledger_batch[OF assms(2)] in \<open>simp add: batch_typed_def batch_numbers_ok_def\<close>)

lemma buyer_delete_ledger:
  assumes "buyer_return_delete_body i d = Inr (u, d')" and "ledger d"
  shows "ledger d'"
proof (rule rewritten_ledger[OF assms(2), where f = "\<lambda>b. if pb_buyerReturnId b = Some i then b\<lparr>pb_buyerReturnId := None\<rparr> else b"])
  have d': "d' = del_BuyerReturn i (del_BuyerReturnItems i d)"
    using assms(1) by (auto simp: buyer_return_delete_body_def split: option.splits if_splits)
  show "ProductBatch d' = map (\<lambda>b. if pb_buyerReturnId b = Some i then b\<lparr>pb_buyerReturnId := None\<rparr> else b) (ProductBatch d)"
    "outgoing_tables d' = outgoing_tables d" "RealizationItem d' = RealizationItem d"
    "SupplierReturnItem d' = SupplierReturnItem d" "next_uuid d' = next_uuid d"
    by (simp_all add: d' del_BuyerReturn_def del_BuyerReturnItems_def map_where_def outgoing_tables_def Let_def)
  show "intake_ready d'" using assms(2)
    by (auto simp: d' del_BuyerReturn_def del_BuyerReturnItems_def ledger_def intake_ready_def list_all_iff Let_def)
qed (use ledger_batch[OF assms(2)] in \<open>simp add: batch_typed_def batch_numbers_ok_def\<close>)

section \<open>Editing receipts\<close>

lemma reconcile_product_ledger:
  assumes "reconcile_product i inc (old_batch_of b) d = Inr e" and "ledger d" and "b \<in> set (ProductBatch d)"
    and "\<forall>x \<in> snd ` set inc. grid_quantity x"
  shows "ledger_step 0 d e"
proof -
  note whole = ledger_batch[OF assms(2,3)]
  have "distinct (map pb_id (ProductBatch d))"
    using assms(2) by (simp add: ledger_def books_def stock_ready_def batches_typed_def)
  then have uniq: "c = b" if "c \<in> set (ProductBatch d)" "pb_id c = pb_id b" for c
    using assms(3) that by (auto simp: distinct_map dest: inj_onD)
  from assms(1) whole[THEN conjunct2, THEN conjunct2] assms(4) show ?thesis
  proof (cases rule: reconcile_product_cases)
    case del
    with del_ProductBatch_step[OF assms(2)] show ?thesis by simp
  next
    case (upd q p x)
    let ?f = "\<lambda>c. if pb_id c = pb_id b then requantified q p (clock d) b c else c"
    have "batch_typed (requantified q p (clock d) b b)"
      using upd(1,2,5) assms(3) whole by (auto simp: batch_typed_def)
    then have "pb_id (?f c) = pb_id c \<and> batch_typed (?f c) \<and> 0 \<le> pb_quantityLeft (?f c) \<and>
        pb_quantityTotal (?f c) - pb_quantityLeft (?f c) = pb_quantityTotal c - pb_quantityLeft c"
      if "c \<in> set (ProductBatch d)" for c
      using uniq[OF that] upd(3) ledger_batch[OF assms(2) that] by auto
    then have "ledger e"
      by (intro rewritten_ledger[OF assms(2), where f = ?f])
        (use assms(2) in \<open>simp_all add: upd(4) map_where_def outgoing_tables_def intake_ready_def ledger_def\<close>)
    then show ?thesis by (simp add: ledger_step_def upd(4) item_tables_def)
  qed
qed

lemma reconcile_loop_ledger:
  assumes "for_each (reconcile_product i inc) (map old_batch_of bs) d = Inr e" and "ledger d"
    and "\<forall>b \<in> set bs. b \<in> set (ProductBatch d) \<and> pb_goodsReceiptId b = Some i"
    and "distinct (map pb_productId bs)" and "\<forall>x \<in> snd ` set inc. grid_quantity x"
  shows "ledger_step 0 d e"
  using assms(1-4)
proof (induction bs arbitrary: d)
  case (Cons b bs)
  from Cons.prems(1) obtain c where c: "reconcile_product i inc (old_batch_of b) d = Inr c"
    "for_each (reconcile_product i inc) (map old_batch_of bs) c = Inr e" by auto
  have b: "b \<in> set (ProductBatch d)" "pb_goodsReceiptId b = Some i" using Cons.prems(3) by auto
  note one = reconcile_product_ledger[OF c(1) Cons.prems(2) b(1) assms(5)]
  have ids: "distinct (map pb_id (ProductBatch d))"
    using Cons.prems(2) by (simp add: ledger_def books_def stock_ready_def batches_typed_def)
  note keep = reconcile_product_keeps[OF c(1) b _ ids assms(5)]
  have "\<forall>b' \<in> set bs. b' \<in> set (ProductBatch c) \<and> pb_goodsReceiptId b' = Some i"
  proof
    fix b' assume b': "b' \<in> set bs"
    then have "pb_productId b' \<noteq> pb_productId b" using Cons.prems(4) by (rule distinct_map_tail[rotated])
    then show "b' \<in> set (ProductBatch c) \<and> pb_goodsReceiptId b' = Some i"
      using keep Cons.prems(3) b' ledger_batch[OF Cons.prems(2) b(1)] by simp
  qed
  with Cons.IH[OF c(2)] one Cons.prems(4) have "ledger_step 0 c e" by (simp add: ledger_step_def)
  from ledger_step_trans[OF one this] show ?case by simp
qed (simp add: ledger_step_def)

interpretation edits_in: incoming "\<lambda>d. d" "add_new_product i date old" "\<lambda>x. grid_quantity (snd x)"
proof
  fix x d d' assume run: "add_new_product i date old x d = Inr d'"
  show "d' = d \<or> stocked (grid_quantity (snd x)) d d'"
  proof (cases "map_of old (fst x)")
    case None
    with run obtain row where "addStock (fst x) (rid_quantity (snd x)) (rid_price (snd x)) (Some i) (Some date) None d = Inr (row, d')"
      by (auto simp: add_new_product_def split: prod.splits)
    then have "stocked (grid_quantity (snd x)) d d'"
      by (rule stocked_weaker[OF addStock_stocks[THEN conjunct1]]) (auto simp: grid_quantity_def js_number_def intro: fl_nonneg)
    then show ?thesis ..
  qed (use run in \<open>auto simp: add_new_product_def split: prod.splits\<close>)
qed

text \<open>A receipt can be edited once posted when it names each product once, before and after.\<close>

definition receipt_editable :: "ident \<Rightarrow> receipt_data \<Rightarrow> db \<Rightarrow> bool" where
  "receipt_editable i data d \<longleftrightarrow> list_all (\<lambda>x. 0 \<le> rid_quantity x) (rd_items data) \<and>
     (case find_row gr_id i (GoodsReceipt d) of None \<Rightarrow> True | Some doc \<Rightarrow> gr_status doc = POSTED \<longrightarrow>
        distinct (map rid_productId (rd_items data)) \<and> list_all grid_quantity (rd_items data) \<and>
        distinct (map pb_productId (filter (\<lambda>b. pb_goodsReceiptId b = Some i) (ProductBatch d))) \<and>
        length (ProductBatch d) + length (rd_items data) \<le> max_batches)"

lemma posted_edit_ledger:
  assumes "for_each (reconcile_product i (incoming_items items)) (old_batches i d) d = Inr d2"
    and "for_each (add_new_product i t (old_batches i d)) (incoming_items items) d2 = Inr d3"
    and "ledger d" and "distinct (map rid_productId items)" and "\<forall>x \<in> set items. grid_quantity x"
    and "distinct (map pb_productId (filter (\<lambda>b. pb_goodsReceiptId b = Some i) (ProductBatch d)))"
    and "length (ProductBatch d) + length items \<le> max_batches"
  shows "ledger d3"
proof -
  let ?old = "filter (\<lambda>b. pb_goodsReceiptId b = Some i) (ProductBatch d)"
  have inc: "incoming_items items = map (\<lambda>x. (rid_productId x, x)) items"
    using fold_add_incoming[OF assms(4), of "[]"] by (simp add: incoming_items_def)
  have old: "old_batches i d = map old_batch_of ?old"
    using fold_add_old_batch[OF assms(6), of "[]"] by (simp add: old_batches_def)
  have one: "ledger_step 0 d d2"
    by (rule reconcile_loop_ledger[OF assms(1)[unfolded old] assms(3) _ assms(6)]) (use assms(5) in \<open>auto simp: inc\<close>)
  with edits_in.steps_keep_ledger[OF assms(2)] assms(5,7) show ?thesis by (simp add: ledger_step_def inc)
qed

lemma receipt_update_ledger:
  assumes "receipt_update_body i data d = Inr (j, d')" and "ledger d" and "receipt_editable i data d"
  shows "ledger d'"
proof -
  obtain doc where doc: "find_row gr_id i (GoodsReceipt d) = Some doc"
    using assms(1) by (auto simp: receipt_update_body_def split: option.splits)
  from assms(1) doc obtain f t d1 d2 where p: "upd_GoodsReceipt (\<lambda>r. gr_id r = i) f d = Inr d1"
    "(if gr_status doc = POSTED then rbind (for_each (reconcile_product i (incoming_items (rd_items data))) (old_batches i d1) d1)
        (for_each (add_new_product i t (old_batches i d1)) (incoming_items (rd_items data))) else Inr d1) = Inr d2"
    "insert_receipt_items i (rd_items data) (del_GoodsReceiptItems i d2) = Inr d'"
    unfolding receipt_update_body_def Let_def by auto
  have pb: "ProductBatch d1 = ProductBatch d" using upd_GoodsReceipt_frame[OF p(1)] by simp
  have "drafted d d1" using p(1) by (auto simp: upd_GoodsReceipt_def draft_defs)
  then have "ledger d1" using assms(2) drafted_ledger by blast
  then have "ledger d2"
    using p(2) assms(3) doc posted_edit_ledger[of i "rd_items data" d1 _ t d2]
    by (auto simp: receipt_editable_def pb list_all_iff split: if_splits)
  moreover have "drafted d2 (del_GoodsReceiptItems i d2)" by (auto simp: del_GoodsReceiptItems_def draft_defs list_all_iff)
  moreover have "drafted (del_GoodsReceiptItems i d2) d'"
    by (rule insert_receipt_items_drafted[OF p(3)]) (use assms(3) in \<open>simp add: receipt_editable_def list_all_iff\<close>)
  ultimately show ?thesis using drafted_ledger by blast
qed

section \<open>Drafts of outgoing documents\<close>

definition quantities_ready :: "db \<Rightarrow> bool" where
  "quantities_ready d \<longleftrightarrow> list_all (\<lambda>r. quantity_ready (ri_quantity r)) (RealizationItem d) \<and>
     list_all (\<lambda>r. quantity_ready (sri_quantity r)) (SupplierReturnItem d)"

text \<open>The stock and the links stay; documents and items come and go within the rules of ownership.\<close>

definition redrafted :: "db \<Rightarrow> db \<Rightarrow> bool" where
  "redrafted d d' \<longleftrightarrow> ProductBatch d' = ProductBatch d \<and> RealizationItemBatch d' = RealizationItemBatch d \<and>
     SupplierReturnItemBatch d' = SupplierReturnItemBatch d \<and> GoodsReceiptItem d' = GoodsReceiptItem d \<and>
     BuyerReturnItem d' = BuyerReturnItem d \<and> next_uuid d \<le> next_uuid d' \<and> (quantities_ready d \<longrightarrow> quantities_ready d') \<and>
     (sale_side d \<longrightarrow> sale_side d') \<and> (return_side d \<longrightarrow> return_side d')"

lemma redrafted_refl [simp]: "redrafted d d"
  by (simp add: redrafted_def)

lemma redrafted_trans: "redrafted d e \<Longrightarrow> redrafted e f \<Longrightarrow> redrafted d f"
  by (auto simp: redrafted_def)

lemma redrafted_ledger:
  assumes "redrafted d d'" and "ledger d"
  shows "ledger d'"
proof -
  note r = assms(1)[unfolded redrafted_def]
  have links: "batch_links d' = batch_links d" using r by (simp add: batch_links_def)
  have sides: "sale_side d'" "return_side d'" using r assms(2) by (simp_all add: ledger_def)
  have "distinct (map ri_id (RealizationItem d'))" "distinct (map sri_id (SupplierReturnItem d'))"
    using sides by (simp_all add: sale_side_def return_side_def owned_def o_def)
  moreover have "quantities_ready d" using assms(2) by (simp add: ledger_def books_def items_ready_def quantities_ready_def)
  ultimately have "items_ready d'" using r by (simp add: items_ready_def quantities_ready_def)
  then have "books d'" using assms(2) r links
    by (simp add: ledger_def books_def stock_ready_def batches_typed_def booked_def)
  moreover have "links_sound d'" using assms(2) r links by (simp add: ledger_def links_sound_def)
  moreover have "batches_sound d'" using assms(2) r by (auto simp: ledger_def batches_sound_def list_all_iff)
  moreover have "intake_ready d'" using assms(2) r by (simp add: ledger_def intake_ready_def)
  ultimately show ?thesis using sides by (simp add: ledger_def)
qed

lemma redrafted_loop:
  assumes "for_each f xs s = Inr s'" and "\<And>x t t'. x \<in> set xs \<Longrightarrow> f x t = Inr t' \<Longrightarrow> redrafted (g t) (g t')"
  shows "redrafted (g s) (g s')"
  by (rule for_each_invariant[OF assms(1), where P = "\<lambda>t. redrafted (g s) (g t)"])
    (auto intro: redrafted_trans assms(2))

subsection \<open>Realizations\<close>

lemma sale_side_frame [simp]:
  "sale_side (d\<lparr>SupplierReturn := a\<rparr>) = sale_side d" "sale_side (d\<lparr>SupplierReturnItem := b\<rparr>) = sale_side d"
  "sale_side (d\<lparr>SupplierReturnItemBatch := c\<rparr>) = sale_side d" "sale_side (d\<lparr>Orders := os\<rparr>) = sale_side d"
  "return_side (d\<lparr>Realization := e\<rparr>) = return_side d" "return_side (d\<lparr>RealizationItem := f\<rparr>) = return_side d"
  "return_side (d\<lparr>RealizationItemBatch := g\<rparr>) = return_side d" "return_side (d\<lparr>Orders := os\<rparr>) = return_side d"
  by (simp_all add: sale_side_def return_side_def)

lemma sides_supply:
  "sale_side d \<Longrightarrow> sale_side (d\<lparr>next_uuid := Suc (next_uuid d)\<rparr>)"
  "return_side d \<Longrightarrow> return_side (d\<lparr>next_uuid := Suc (next_uuid d)\<rparr>)"
  unfolding sale_side_def return_side_def by (auto elim!: owned_more)

lemma new_sale_redrafted:
  assumes "ins_Realization r (d\<lparr>next_uuid := Suc (next_uuid d)\<rparr>) = Inr d'" and "rl_id r = next_uuid d" and "rl_status r = DRAFT"
  shows "redrafted d d'"
proof -
  have d': "d' = d\<lparr>next_uuid := Suc (next_uuid d), Realization := Realization d @ [r]\<rparr>"
    using assms(1) by (auto simp: ins_Realization_def)
  have "sale_side d'" if "sale_side d"
    using owned_new_doc[OF that[unfolded sale_side_def], of DRAFT] by (simp add: d' sale_side_def assms(2,3))
  then show ?thesis using sides_supply(2)[of d]
    by (simp add: redrafted_def d' quantities_ready_def)
qed

lemma new_sale_item_redrafted:
  assumes "ins_RealizationItem r (d\<lparr>next_uuid := Suc (next_uuid d)\<rparr>) = Inr d'" and "ri_id r = next_uuid d"
    and "on_grid 3 (ri_quantity r)" and "0 \<le> ri_quantity r"
  shows "redrafted d d'"
proof -
  have d': "d' = d\<lparr>next_uuid := Suc (next_uuid d), RealizationItem := RealizationItem d @ [r]\<rparr>"
    and ok: "dec_fits 10 3 (ri_quantity r)" "ri_realizationId r \<in> rl_id ` set (Realization d)"
    using assms(1) by (auto simp: ins_RealizationItem_def)
  have "ri_realizationId r \<in> fst ` set (sale_keys d)" using ok(2) by force
  then have "sale_side d'" if "sale_side d"
    using owned_new_item[OF that[unfolded sale_side_def]] by (simp add: d' sale_side_def assms(2))
  moreover have "quantity_ready (ri_quantity r)" using assms(3,4) ok(1) by (simp add: quantity_ready_def dec_fits_def)
  ultimately show ?thesis using sides_supply(2)[of d] by (simp add: redrafted_def d' quantities_ready_def)
qed

lemma edited_sale_redrafted:
  assumes "upd_Realization P f d = Inr d'" and "\<And>r. rl_id (f r) = rl_id r \<and> rl_status (f r) = rl_status r"
  shows "redrafted d d' \<and> sale_keys d' = sale_keys d"
proof -
  have d': "d' = d\<lparr>Realization := map_where P f (Realization d)\<rparr>" using assms(1) by (simp add: upd_Realization_Inr)
  have "sale_keys d' = sale_keys d" using assms(2) by (simp add: d' map_where_def)
  then show ?thesis by (simp add: redrafted_def sale_side_def d' quantities_ready_def)
qed

lemma cleared_sale_redrafted:
  assumes "sale_side d" and "(i, s) \<in> set (sale_keys d)" and "s \<noteq> POSTED"
  shows "redrafted d (del_RealizationItems i d)"
proof -
  note own = assms(1)[unfolded sale_side_def]
  have "rib_realizationItemId l \<notin> ri_id ` {r \<in> set (RealizationItem d). ri_realizationId r = i}"
    if "l \<in> set (RealizationItemBatch d)" for l
    using owned_open[OF own assms(2,3), of "rib_realizationItemId l"] that by auto
  then have links: "RealizationItemBatch (del_RealizationItems i d) = RealizationItemBatch d"
    by (auto simp: del_RealizationItems_def Let_def filter_id_conv)
  moreover have "sale_side (del_RealizationItems i d)"
    using owned_clear[OF own assms(2,3)] links unfolding sale_side_def
    by (simp add: del_RealizationItems_def Let_def filter_map o_def)
  ultimately show ?thesis
    by (auto simp: redrafted_def del_RealizationItems_def Let_def quantities_ready_def list_all_iff)
qed

lemma insert_sale_items_redrafted:
  assumes "insert_sale_items i items d = Inr d'" and "\<forall>x \<in> set items. 0 \<le> coalesce (sid_quantity x) 0"
  shows "redrafted d d'"
  using assms(1) unfolding insert_sale_items_def
proof (rule redrafted_loop[where g = "\<lambda>d. d"])
  fix x t t' assume x: "x \<in> set (zip [0..<length items] items)" and run: "insert_sale_item i x t = Inr t'"
  obtain k item where kx: "x = (k, item)" by (cases x)
  then have "0 \<le> coalesce (sid_quantity item) 0" using x assms(2) by (auto dest: set_zip_rightD)
  then show "redrafted t t'" using run unfolding kx insert_sale_item_def
    by (auto simp: coalesce_def round_dec_nonneg js_text_nonneg elim!: new_sale_item_redrafted)
qed

lemma sale_create_ledger:
  assumes "create_realization_body user data d = Inr (i, d')" and "ledger d"
    and "\<forall>x \<in> set (coalesce (sd_items data) []). 0 \<le> coalesce (sid_quantity x) 0"
  shows "ledger d'"
proof -
  obtain r d1 where p: "ins_Realization r (d\<lparr>next_uuid := Suc (next_uuid d)\<rparr>) = Inr d1" "rl_id r = next_uuid d" "rl_status r = DRAFT"
    "(case sd_items data of None \<Rightarrow> Inr d1 | Some items \<Rightarrow> insert_sale_items (next_uuid d) items d1) = Inr d'"
    using assms(1) unfolding create_realization_body_def Let_def by auto
  have "redrafted d1 d'"
    using p(4) assms(3) insert_sale_items_redrafted by (auto simp: coalesce_def split: option.splits)
  with new_sale_redrafted[OF p(1-3)] redrafted_trans redrafted_ledger[OF _ assms(2)] show ?thesis by blast
qed

lemma sale_from_order_ledger:
  assumes "from_order_body user k d = Inr (i, d')" and "ledger d"
    and "\<forall>order. find_row ord_id k (Orders d) = Some order \<longrightarrow>
      (\<forall>l \<in> set (order_lines order d). 0 \<le> fst (coalesce (ol_quantity l) (0, 0)))"
  shows "ledger d'"
proof -
  obtain order where order: "find_row ord_id k (Orders d) = Some order"
    using assms(1) by (auto simp: from_order_body_def split: option.splits)
  let ?lines = "order_lines order d"
  from assms(1) order obtain r d1 where p: "ins_Realization r (d\<lparr>next_uuid := Suc (next_uuid d)\<rparr>) = Inr d1"
    "rl_id r = next_uuid d" "rl_status r = DRAFT"
    "for_each (insert_order_line (next_uuid d)) (zip [0..<length ?lines] ?lines) (upd_Order_status k ''ACCEPTED'' d1) = Inr d'"
    unfolding from_order_body_def Let_def by (auto split: prod.splits)
  have "redrafted (upd_Order_status k ''ACCEPTED'' d1) d'"
  proof (rule redrafted_loop[OF p(4), where g = "\<lambda>d. d"])
    fix x t t' assume x: "x \<in> set (zip [0..<length ?lines] ?lines)" and run: "insert_order_line (next_uuid d) x t = Inr t'"
    obtain n l where nl: "x = (n, l)" by (cases x)
    then have "0 \<le> fst (coalesce (ol_quantity l) (0, 0))" using x assms(3) order by (auto dest: set_zip_rightD)
    then show "redrafted t t'" using run unfolding nl insert_order_line_def
      by (auto simp: coalesce_def round_dec_nonneg elim!: new_sale_item_redrafted)
  qed
  moreover have "redrafted d1 (upd_Order_status k ''ACCEPTED'' d1)"
    by (simp add: redrafted_def upd_Order_status_def quantities_ready_def)
  ultimately show ?thesis
    using new_sale_redrafted[OF p(1-3)] redrafted_trans redrafted_ledger[OF _ assms(2)] by blast
qed

lemma sale_edit_ledger:
  assumes "edit_realization_body i data d = Inr (u, d')" and "ledger d"
    and "\<forall>x \<in> set (coalesce (sd_items data) []). 0 \<le> coalesce (sid_quantity x) 0"
  shows "ledger d'"
proof -
  obtain r where r: "find_row rl_id i (Realization d) = Some r" "rl_status r \<noteq> POSTED"
    using assms(1) by (auto simp: edit_realization_body_def split: option.splits if_splits)
  from assms(1) r obtain f d1 where p: "upd_Realization (\<lambda>r. rl_id r = i) f d = Inr d1"
    "\<And>r. rl_id (f r) = rl_id r \<and> rl_status (f r) = rl_status r"
    "(case sd_items data of None \<Rightarrow> Inr d1 | Some items \<Rightarrow> insert_sale_items i items (del_RealizationItems i d1)) = Inr d'"
    unfolding edit_realization_body_def by auto
  note e = edited_sale_redrafted[OF p(1,2)]
  have "(i, rl_status r) \<in> set (sale_keys d1)" using e find_row_Some[OF r(1)] by force
  moreover have "sale_side d1" using e assms(2) by (simp add: redrafted_def ledger_def)
  ultimately have clear: "redrafted d1 (del_RealizationItems i d1)" using r(2) cleared_sale_redrafted by blast
  have "redrafted d1 d'"
    using p(3) assms(3) insert_sale_items_redrafted redrafted_trans[OF clear] by (auto simp: coalesce_def split: option.splits)
  with e redrafted_trans redrafted_ledger[OF _ assms(2)] show ?thesis by blast
qed

lemma sale_delete_ledger:
  assumes "delete_realization_body i d = Inr (u, d')" and "ledger d"
  shows "ledger d'"
proof -
  obtain f where "upd_Realization (\<lambda>r. rl_id r = i) f d = Inr d'" "\<And>r. rl_id (f r) = rl_id r \<and> rl_status (f r) = rl_status r"
    using assms(1) unfolding delete_realization_body_def by (auto split: option.splits if_splits)
  from edited_sale_redrafted[OF this] redrafted_ledger[OF _ assms(2)] show ?thesis by blast
qed

subsection \<open>Supplier returns\<close>

lemma new_return_redrafted:
  assumes "ins_SupplierReturn r (d\<lparr>next_uuid := Suc (next_uuid d)\<rparr>) = Inr d'" and "sr_id r = next_uuid d" and "sr_status r = DRAFT"
  shows "redrafted d d'"
proof -
  have d': "d' = d\<lparr>next_uuid := Suc (next_uuid d), SupplierReturn := SupplierReturn d @ [r]\<rparr>"
    using assms(1) by (auto simp: ins_SupplierReturn_def)
  have "return_side d'" if "return_side d"
    using owned_new_doc[OF that[unfolded return_side_def], of DRAFT] by (simp add: d' return_side_def assms(2,3))
  then show ?thesis using sides_supply(1)[of d]
    by (simp add: redrafted_def d' quantities_ready_def)
qed

lemma new_return_item_redrafted:
  assumes "ins_SupplierReturnItem r (d\<lparr>next_uuid := Suc (next_uuid d)\<rparr>) = Inr d'" and "sri_id r = next_uuid d"
    and "on_grid 3 (sri_quantity r)" and "0 \<le> sri_quantity r"
  shows "redrafted d d'"
proof -
  have d': "d' = d\<lparr>next_uuid := Suc (next_uuid d), SupplierReturnItem := SupplierReturnItem d @ [r]\<rparr>"
    and ok: "dec_fits 10 3 (sri_quantity r)" "sri_supplierReturnId r \<in> sr_id ` set (SupplierReturn d)"
    using assms(1) by (auto simp: ins_SupplierReturnItem_def)
  have "sri_supplierReturnId r \<in> fst ` set (return_keys d)" using ok(2) by force
  then have "return_side d'" if "return_side d"
    using owned_new_item[OF that[unfolded return_side_def]] by (simp add: d' return_side_def assms(2))
  moreover have "quantity_ready (sri_quantity r)" using assms(3,4) ok(1) by (simp add: quantity_ready_def dec_fits_def)
  ultimately show ?thesis using sides_supply(1)[of d] by (simp add: redrafted_def d' quantities_ready_def)
qed

lemma edited_return_redrafted:
  assumes "upd_SupplierReturn P f d = Inr d'" and "\<And>r. sr_id (f r) = sr_id r \<and> sr_status (f r) = sr_status r"
  shows "redrafted d d' \<and> return_keys d' = return_keys d"
proof -
  have d': "d' = d\<lparr>SupplierReturn := map_where P f (SupplierReturn d)\<rparr>" using assms(1) by (simp add: upd_SupplierReturn_Inr)
  have "return_keys d' = return_keys d" using assms(2) by (simp add: d' map_where_def)
  then show ?thesis by (simp add: redrafted_def return_side_def d' quantities_ready_def)
qed

lemma open_return_links:
  assumes "return_side d" and "(i, s) \<in> set (return_keys d)" and "s \<noteq> POSTED"
  shows "SupplierReturnItemBatch (del_SupplierReturnItems i d) = SupplierReturnItemBatch d"
proof -
  have "srib_supplierReturnItemId l \<notin> sri_id ` {r \<in> set (SupplierReturnItem d). sri_supplierReturnId r = i}"
    if "l \<in> set (SupplierReturnItemBatch d)" for l
    using owned_open[OF assms(1)[unfolded return_side_def] assms(2,3), of "srib_supplierReturnItemId l"] that by auto
  then show ?thesis by (auto simp: del_SupplierReturnItems_def Let_def filter_id_conv)
qed

lemma cleared_return_redrafted:
  assumes "return_side d" and "(i, s) \<in> set (return_keys d)" and "s \<noteq> POSTED"
  shows "redrafted d (del_SupplierReturnItems i d)" and "redrafted d (del_SupplierReturn i d)"
proof -
  note links = open_return_links[OF assms] and own = assms(1)[unfolded return_side_def]
  have items: "SupplierReturnItem (del_SupplierReturnItems i d) = filter (\<lambda>r. sri_supplierReturnId r \<noteq> i) (SupplierReturnItem d)"
    by (simp add: del_SupplierReturnItems_def Let_def)
  have frame: "ProductBatch (del_SupplierReturnItems i d) = ProductBatch d" "SupplierReturn (del_SupplierReturnItems i d) = SupplierReturn d"
    "RealizationItemBatch (del_SupplierReturnItems i d) = RealizationItemBatch d"
    "GoodsReceiptItem (del_SupplierReturnItems i d) = GoodsReceiptItem d" "BuyerReturnItem (del_SupplierReturnItems i d) = BuyerReturnItem d"
    "RealizationItem (del_SupplierReturnItems i d) = RealizationItem d" "Realization (del_SupplierReturnItems i d) = Realization d"
    "next_uuid (del_SupplierReturnItems i d) = next_uuid d"
    by (simp_all add: del_SupplierReturnItems_def Let_def)
  have "return_side (del_SupplierReturnItems i d)"
    using owned_clear[OF own assms(2,3)] by (simp add: return_side_def links items frame filter_map o_def)
  then show "redrafted d (del_SupplierReturnItems i d)"
    by (auto simp: redrafted_def links items frame quantities_ready_def list_all_iff sale_side_def)
  have "return_side (del_SupplierReturn i d)"
    using owned_drop[OF own assms(2,3)]
    by (simp add: return_side_def del_SupplierReturn_def Let_def links items frame filter_map o_def)
  then show "redrafted d (del_SupplierReturn i d)"
    by (auto simp: redrafted_def del_SupplierReturn_def Let_def links items frame quantities_ready_def list_all_iff sale_side_def)
qed

lemma write_supplier_items_redrafted:
  assumes "write_supplier_items i items d = Inr d'" and "\<forall>x \<in> set items. 0 \<le> rtd_quantity x"
  shows "redrafted d d'"
proof -
  obtain c d1 f where p: "for_each (insert_supplier_item i) (zip [0..<length items] items) (0, d) = Inr (c, d1)"
    "upd_SupplierReturn (\<lambda>r. sr_id r = i) f d1 = Inr d'" "\<And>r. sr_id (f r) = sr_id r \<and> sr_status (f r) = sr_status r"
    using assms(1) by (auto simp: write_supplier_items_def)
  have "redrafted (snd (0 :: jsnum, d)) (snd (c, d1))"
  proof (rule redrafted_loop[OF p(1), where g = snd])
    fix x t t' assume x: "x \<in> set (zip [0..<length items] items)" "insert_supplier_item i x t = Inr t'"
    obtain k item where kx: "x = (k, item)" by (cases x)
    then have "0 \<le> rtd_quantity item" using x(1) assms(2) by (auto dest: set_zip_rightD)
    with x(2) show "redrafted (snd t) (snd t')" unfolding kx insert_supplier_item_def Let_def
      by (auto simp: round_dec_nonneg js_text_nonneg elim!: new_return_item_redrafted split: prod.splits)
  qed
  then show ?thesis using edited_return_redrafted[OF p(2,3)] redrafted_trans by auto
qed

lemma supplier_create_ledger:
  assumes "supplier_return_create_body data u d = Inr (i, d')" and "ledger d" and "\<forall>x \<in> set (rtn_items data). 0 \<le> rtd_quantity x"
  shows "ledger d'"
proof -
  obtain r d1 where p: "ins_SupplierReturn r (d\<lparr>next_uuid := Suc (next_uuid d)\<rparr>) = Inr d1" "sr_id r = next_uuid d" "sr_status r = DRAFT"
    "write_supplier_items (next_uuid d) (rtn_items data) d1 = Inr d'"
    using assms(1) unfolding supplier_return_create_body_def Let_def by auto
  from new_return_redrafted[OF p(1-3)] write_supplier_items_redrafted[OF p(4) assms(3)] redrafted_trans
    redrafted_ledger[OF _ assms(2)] show ?thesis by blast
qed

lemma supplier_update_ledger:
  assumes "supplier_return_update_body i data d = Inr (j, d')" and "ledger d" and "\<forall>x \<in> set (rtn_items data). 0 \<le> rtd_quantity x"
  shows "ledger d'"
proof -
  obtain r where r: "find_row sr_id i (SupplierReturn d) = Some r" "sr_status r \<noteq> POSTED"
    using assms(1) by (auto simp: supplier_return_update_body_def split: option.splits if_splits)
  from assms(1) r obtain f d1 where p: "upd_SupplierReturn (\<lambda>r. sr_id r = i) f d = Inr d1"
    "\<And>r. sr_id (f r) = sr_id r \<and> sr_status (f r) = sr_status r"
    "write_supplier_items i (rtn_items data) (del_SupplierReturnItems i d1) = Inr d'"
    unfolding supplier_return_update_body_def by auto
  note e = edited_return_redrafted[OF p(1,2)]
  have "(i, sr_status r) \<in> set (return_keys d1)" using e find_row_Some[OF r(1)] by force
  moreover have "return_side d1" using e assms(2) by (simp add: redrafted_def ledger_def)
  ultimately have "redrafted d1 (del_SupplierReturnItems i d1)" using r(2) cleared_return_redrafted(1) by blast
  with e write_supplier_items_redrafted[OF p(3) assms(3)] redrafted_trans redrafted_ledger[OF _ assms(2)] show ?thesis by blast
qed

lemma supplier_delete_ledger:
  assumes "supplier_return_delete_body i d = Inr (u, d')" and "ledger d"
  shows "ledger d'"
proof -
  obtain r where r: "find_row sr_id i (SupplierReturn d) = Some r" "sr_status r \<noteq> POSTED"
    and d': "d' = del_SupplierReturn i (del_SupplierReturnItems i d)"
    using assms(1) by (auto simp: supplier_return_delete_body_def split: option.splits if_splits)
  have key: "(i, sr_status r) \<in> set (return_keys d)" using find_row_Some[OF r(1)] by force
  have side: "return_side d" using assms(2) by (simp add: ledger_def)
  note c = cleared_return_redrafted[OF side key r(2)]
  have "return_side (del_SupplierReturnItems i d)" using c(1) side by (simp add: redrafted_def)
  moreover have "return_keys (del_SupplierReturnItems i d) = return_keys d" by (simp add: del_SupplierReturnItems_def Let_def)
  ultimately have "redrafted (del_SupplierReturnItems i d) d'"
    unfolding d' using key r(2) by (intro cleared_return_redrafted(2)) simp_all
  with c(1) redrafted_trans redrafted_ledger[OF _ assms(2)] show ?thesis by blast
qed

section \<open>Runs of operations\<close>

text \<open>The requests that write documents and move stock: the services' functions and the bulk job.\<close>

datatype document_op =
    CreateReceipt receipt_data ident | EditReceipt ident receipt_data | PostReceipt ident | UnpostReceipt ident | DeleteReceipt ident
  | CreateRealization "req_user option" sale_data | RealizationFromOrder "req_user option" ident | EditRealization ident sale_data
  | PostRealization ident | UnpostRealization ident | DeleteRealization ident
  | CreateSupplierReturn return_data ident | EditSupplierReturn ident return_data | PostSupplierReturn ident | UnpostSupplierReturn ident | DeleteSupplierReturn ident
  | CreateBuyerReturn return_data ident | EditBuyerReturn ident return_data | PostBuyerReturn ident | UnpostBuyerReturn ident | DeleteBuyerReturn ident
  | Repost "ident option" repost_options

fun apply_op :: "document_op \<Rightarrow> db \<Rightarrow> db" where
  "apply_op (CreateReceipt data u) d = snd (receipt_create data u d)"
| "apply_op (EditReceipt i data) d = snd (receipt_update i data d)"
| "apply_op (PostReceipt i) d = snd (receipt_post i d)"
| "apply_op (UnpostReceipt i) d = snd (receipt_unpost i d)"
| "apply_op (DeleteReceipt i) d = snd (receipt_delete i d)"
| "apply_op (CreateRealization user data) d = snd (create_realization user data d)"
| "apply_op (RealizationFromOrder user k) d = snd (from_order user k d)"
| "apply_op (EditRealization i data) d = snd (edit_realization i data d)"
| "apply_op (PostRealization i) d = snd (post_realization i d)"
| "apply_op (UnpostRealization i) d = snd (unpost_realization i d)"
| "apply_op (DeleteRealization i) d = snd (delete_realization i d)"
| "apply_op (CreateSupplierReturn data u) d = snd (supplier_return_create data u d)"
| "apply_op (EditSupplierReturn i data) d = snd (supplier_return_update i data d)"
| "apply_op (PostSupplierReturn i) d = snd (supplier_return_post i d)"
| "apply_op (UnpostSupplierReturn i) d = snd (supplier_return_unpost i d)"
| "apply_op (DeleteSupplierReturn i) d = snd (supplier_return_delete i d)"
| "apply_op (CreateBuyerReturn data u) d = snd (buyer_return_create data u d)"
| "apply_op (EditBuyerReturn i data) d = snd (buyer_return_update i data d)"
| "apply_op (PostBuyerReturn i) d = snd (buyer_return_post i d)"
| "apply_op (UnpostBuyerReturn i) d = snd (buyer_return_unpost i d)"
| "apply_op (DeleteBuyerReturn i) d = snd (buyer_return_delete i d)"
| "apply_op (Repost u opts) d = snd (repost_run u opts d)"

text \<open>
  What an operation needs: the quantities of a request are not negative, which no handler checks, a posted receipt
  is edited product by product, and the table of batches stays within the bound of the arithmetic.
\<close>

definition room :: "nat \<Rightarrow> db \<Rightarrow> bool" where
  "room n d \<longleftrightarrow> length (ProductBatch d) + n \<le> max_batches"

definition sale_quantities :: "sale_data \<Rightarrow> bool" where
  "sale_quantities data \<longleftrightarrow> list_all (\<lambda>x. 0 \<le> coalesce (sid_quantity x) 0) (coalesce (sd_items data) [])"

definition return_quantities :: "return_data \<Rightarrow> bool" where
  "return_quantities data \<longleftrightarrow> list_all (\<lambda>x. 0 \<le> rtd_quantity x) (rtn_items data)"

fun op_ready :: "document_op \<Rightarrow> db \<Rightarrow> bool" where
  "op_ready (CreateReceipt data u) d = list_all (\<lambda>x. 0 \<le> rid_quantity x) (rd_items data)"
| "op_ready (EditReceipt i data) d = receipt_editable i data d"
| "op_ready (PostReceipt i) d = room (length (receipt_items i d)) d"
| "op_ready (CreateRealization user data) d = sale_quantities data"
| "op_ready (RealizationFromOrder user k) d = (case find_row ord_id k (Orders d) of None \<Rightarrow> True
     | Some order \<Rightarrow> list_all (\<lambda>l. 0 \<le> fst (coalesce (ol_quantity l) (0, 0))) (order_lines order d))"
| "op_ready (EditRealization i data) d = sale_quantities data"
| "op_ready (CreateSupplierReturn data u) d = return_quantities data"
| "op_ready (EditSupplierReturn i data) d = return_quantities data"
| "op_ready (CreateBuyerReturn data u) d = return_quantities data"
| "op_ready (EditBuyerReturn i data) d = return_quantities data"
| "op_ready (PostBuyerReturn i) d = room (length (buyer_items i d)) d"
| "op_ready (Repost u opts) d = room (sum_list (map (doc_intake d) (post_order opts d))) d"
| "op_ready _ d = True"

fun ops_ready :: "document_op list \<Rightarrow> db \<Rightarrow> bool" where
  "ops_ready [] d = True"
| "ops_ready (x # xs) d = (op_ready x d \<and> ops_ready xs (apply_op x d))"

lemma transaction_ledger:
  assumes "ledger d" and "\<And>x d'. body d = Inr (x, d') \<Longrightarrow> ledger d'"
  shows "ledger (snd (transaction body d))"
  using assms by (auto simp: transaction_def split: sum.split)

lemma snd_map_prod_id [simp]: "snd (map_prod f id x) = snd x"
  by (cases x) simp

lemmas op_defs =
  receipt_create_def receipt_update_def receipt_post_def receipt_unpost_def receipt_delete_def
  create_realization_def from_order_def edit_realization_def post_realization_def unpost_realization_def delete_realization_def
  realization_post_def realization_unpost_def
  supplier_return_create_def supplier_return_update_def supplier_return_post_def supplier_return_unpost_def supplier_return_delete_def
  buyer_return_create_def buyer_return_update_def buyer_return_post_def buyer_return_unpost_def buyer_return_delete_def

lemma ledger_step_ledger: "ledger_step n d d' \<Longrightarrow> ledger d'"
  by (simp add: ledger_step_def)

lemmas posting_steps = realization_post_step realization_unpost_step supplier_return_post_step supplier_return_unpost_step
  receipt_post_step receipt_unpost_step buyer_return_post_step buyer_return_unpost_step

lemmas draft_steps = receipt_create_ledger receipt_update_ledger receipt_delete_ledger sale_create_ledger sale_from_order_ledger
  sale_edit_ledger sale_delete_ledger supplier_create_ledger supplier_update_ledger supplier_delete_ledger
  buyer_create_ledger buyer_update_ledger buyer_delete_ledger

lemma apply_op_ledger:
  assumes "ledger d" and "op_ready x d"
  shows "ledger (apply_op x d)"
proof (cases x)
  case (Repost u opts)
  with assms show ?thesis by (simp add: repost_run_ledger room_def)
qed (use assms(2) in \<open>auto simp: op_defs room_def list_all_iff sale_quantities_def return_quantities_def
    intro!: transaction_ledger[OF assms(1)]
    dest: draft_steps[OF _ assms(1)] posting_steps[OF _ assms(1), THEN ledger_step_ledger]\<close>)

lemma ops_keep_ledger:
  assumes "ledger d" and "ops_ready ops d"
  shows "ledger (fold apply_op ops d)"
  using assms by (induction ops arbitrary: d) (simp_all add: apply_op_ledger)

text \<open>A database without documents and stock, as the migrations leave it.\<close>

lemma fresh_ledger:
  assumes "ProductBatch d = []" "item_tables d = ([], [], [], [])" "outgoing_tables d = ([], [], [], [])"
  shows "ledger d"
  using assms by (simp add: ledger_def books_def stock_ready_def batches_typed_def items_ready_def booked_def batch_links_def
      links_sound_def batches_sound_def intake_ready_def sale_side_def return_side_def owned_def item_tables_def outgoing_tables_def)

lemma owned_links:
  assumes "owned docs items links n"
  shows "set links \<subseteq> fst ` set items" and "snd ` set items \<subseteq> fst ` set docs"
  using assms by (force simp: owned_iff)+

lemma ledger_linked:
  assumes "ledger d"
  shows "linked d"
proof -
  have s: "owned (sale_keys d) (map (\<lambda>r. (ri_id r, ri_realizationId r)) (RealizationItem d))
      (map rib_realizationItemId (RealizationItemBatch d)) (next_uuid d)"
    and r: "owned (return_keys d) (map (\<lambda>r. (sri_id r, sri_supplierReturnId r)) (SupplierReturnItem d))
      (map srib_supplierReturnItemId (SupplierReturnItemBatch d)) (next_uuid d)"
    using assms by (simp_all add: ledger_def sale_side_def return_side_def)
  have "distinct (map rl_id (Realization d))" "distinct (map sr_id (SupplierReturn d))"
    using s r by (simp_all add: owned_def o_def)
  moreover have "rib_realizationItemId ` set (RealizationItemBatch d) \<subseteq> ri_id ` set (RealizationItem d)"
    "ri_realizationId ` set (RealizationItem d) \<subseteq> rl_id ` set (Realization d)"
    using owned_links[OF s] by (simp_all add: image_image)
  moreover have "srib_supplierReturnItemId ` set (SupplierReturnItemBatch d) \<subseteq> sri_id ` set (SupplierReturnItem d)"
    "sri_supplierReturnId ` set (SupplierReturnItem d) \<subseteq> sr_id ` set (SupplierReturn d)"
    using owned_links[OF r] by (simp_all add: image_image)
  ultimately show ?thesis by (simp add: linked_def list_all_iff image_subset_iff)
qed

section \<open>What the documents promise together\<close>


text \<open>
  C9: the report follows the documents. After a run of requests in order, as in the property before, suppose that
  every posted document is dated on or before the day of the report and that every batch came with a document dated
  so (\<open>settled\<close>). Then the balances of a product over all warehouses add up to what is left in its batches.
\<close>

theorem report_follows_documents:
  assumes "ledger d" and "ops_ready ops d" and "settled tz n (fold apply_op ops d)"
  shows "sum_of st_balance (filter (\<lambda>r. st_productId r = p) (stock_rows tz n None (fold apply_op ops d))) =
    sum_of pb_quantityLeft (filter (\<lambda>b. pb_productId b = p) (ProductBatch (fold apply_op ops d)))"
proof -
  have "ledger (fold apply_op ops d)" by (rule ops_keep_ledger[OF assms(1,2)])
  then show ?thesis using balances_of_books[OF _ ledger_linked assms(3)] by (simp add: ledger_def)
qed

definition sold_by :: "ident \<Rightarrow> db \<Rightarrow> decimal" where
  "sold_by item d = sum_list (map rib_quantity (filter (\<lambda>l. rib_realizationItemId l = item) (RealizationItemBatch d)))"

lemma unmoved_links:
  assumes "\<forall>l \<in> set ls. 0 \<le> snd l" and "moved k ls = 0" and "l \<in> set ls" and "fst l = k"
  shows "snd l = 0"
proof -
  have "sum_list (map snd (filter (\<lambda>l. fst l = k) ls)) = 0" using assms(2) by (simp add: moved_def)
  moreover have "0 \<le> x" if "x \<in> set (map snd (filter (\<lambda>l. fst l = k) ls))" for x using that assms(1) by auto
  ultimately have "\<forall>x \<in> set (map snd (filter (\<lambda>l. fst l = k) ls)). x = 0" using sum_list_nonneg_eq_0_iff by blast
  moreover have "snd l \<in> set (map snd (filter (\<lambda>l. fst l = k) ls))" using assms(3,4) by auto
  ultimately show ?thesis by blast
qed

lemma sum_without_zeros:
  "(\<And>l. l \<in> set ls \<Longrightarrow> \<not> P l \<Longrightarrow> f l = (0 :: decimal)) \<Longrightarrow> sum_list (map f (filter Q (filter P ls))) = sum_list (map f (filter Q ls))"
  by (induction ls) auto

text \<open>
  C31: unposting a receipt forgets no sale. On the ledger, when a goods receipt is unposted its batches are deleted, the
  other batches stay as they are, and every realization item still has exactly the goods linked to it that it had, because
  a batch anything was sold from refuses the unposting.
\<close>

theorem receipt_unpost_keeps_sales:
  assumes "ledger d" and "receipt_unpost_tx i d = Inr (x, d')"
  shows "ProductBatch d' = filter (\<lambda>b. pb_goodsReceiptId b \<noteq> Some i) (ProductBatch d) \<and> sold_by item d' = sold_by item d"
proof -
  let ?P = "\<lambda>b. pb_goodsReceiptId b = Some i"
  have full: "\<not> pb_quantityLeft b < pb_quantityTotal b" if "b \<in> set (ProductBatch d)" "?P b" for b
    using assms(2) that by (auto simp: receipt_unpost_tx_def filter_empty_conv split: option.splits if_splits)
  have "rib_quantity l = 0" if l: "l \<in> set (RealizationItemBatch d)" "rib_productBatchId l \<in> pb_id ` set (filter ?P (ProductBatch d))" for l
  proof -
    from l(2) obtain b where b: "b \<in> set (ProductBatch d)" "?P b" "pb_id b = rib_productBatchId l" by auto
    have "moved (pb_id b) (batch_links d) = 0" using full[OF b(1,2)] ledger_left_le_total[OF assms(1) b(1)] by simp
    from unmoved_links[OF _ this, of "rib_link l"] ledger_parts(3)[OF assms(1)] l(1) b(3) show ?thesis
      by (simp add: rib_link_def batch_links_def)
  qed
  note zero = this
  have links: "RealizationItemBatch d' = filter (\<lambda>l. rib_productBatchId l \<notin> pb_id ` set (filter ?P (ProductBatch d))) (RealizationItemBatch d)"
    using assms(2) by (auto simp: receipt_unpost_tx_def set_receipt_status_def upd_GoodsReceipt_def del_ProductBatch_def Let_def
        split: option.splits if_splits)
  have "ProductBatch d' = filter (\<lambda>b. pb_goodsReceiptId b \<noteq> Some i) (ProductBatch d)"
    using assms(2) by (auto simp: receipt_unpost_tx_def set_receipt_status_def upd_GoodsReceipt_def del_ProductBatch_def Let_def
        split: option.splits if_splits)
  moreover have "sold_by item d' = sold_by item d"
    unfolding sold_by_def links by (rule sum_without_zeros) (use zero in blast)
  ultimately show ?thesis by blast
qed

text \<open>Two batches, one of them sold from, a saved receipt of three pieces, a posted and a draft realization.\<close>

definition busy_db :: db where
  "busy_db = sold_db\<lparr>
     GoodsReceipt := GoodsReceipt sold_db @
       [\<lparr>gr_id = 9, gr_number = ''R9'', gr_docNumber = None, gr_date = 30, gr_warehouseId = Some 7, gr_providerId = None,
         gr_status = SAVED, gr_comment = None, gr_createdBy = None, gr_paidAmount = 0,
         gr_isDeleted = False, gr_createdAt = 30, gr_updatedAt = 30\<rparr>],
     GoodsReceiptItem :=
       [\<lparr>gri_id = 1, gri_goodsReceiptId = 9, gri_productId = 5, gri_quantity = 3, gri_price = 4,
         gri_total = 12, gri_sortOrder = 0, gri_createdAt = 30\<rparr>]\<rparr>"

lemma busy_db_ledger: "ledger busy_db"
proof -
  have "books busy_db"
    using sold_db_books
    by (simp add: books_def stock_ready_def batches_typed_def items_ready_def booked_def batch_links_def busy_db_def)
  moreover have "links_sound busy_db" "batches_sound busy_db" "intake_ready busy_db" "sale_side busy_db" "return_side busy_db"
    by (simp_all add: links_sound_def batches_sound_def intake_ready_def sale_side_def return_side_def owned_def batch_links_def
        rib_link_def quantity_ready_def busy_db_def sold_db_eval)
  ultimately show ?thesis by (simp add: ledger_def)
qed

definition busy_day :: "document_op list" where
  "busy_day = [PostReceipt 9, PostRealization 6, UnpostRealization 4, UnpostReceipt 9, CreateRealization (Some seller) sale_request,
     DeleteReceipt 9, PostSupplierReturn 3, DeleteRealization 4]"

lemma busy_day_ready: "ops_ready busy_day busy_db"
proof -
  have "length (receipt_items 9 busy_db) = 1" "length (ProductBatch busy_db) = 2"
    by (simp_all add: receipt_items_def busy_db_def sold_db_eval)
  then show ?thesis by (simp add: busy_day_def room_def max_batches_def sale_quantities_def sale_request_def coalesce_def)
qed


theorem report_follows_documents_witness:
  "sum_of st_balance (filter (\<lambda>r. st_productId r = 5) (stock_rows 0 0 None (fold apply_op [UnpostReceipt 9, DeleteReceipt 9] busy_db))) = 7"
proof -
  let ?d = "fold apply_op [UnpostReceipt 9, DeleteReceipt 9] busy_db"
  have run: "?d = sold_db"
    by (simp add: receipt_unpost_def receipt_unpost_tx_def receipt_delete_def receipt_delete_body_def transaction_def
        del_GoodsReceipt_def del_GoodsReceiptItems_def busy_db_def sold_db_eval)
  have "settled 0 0 ?d" unfolding run by (rule sold_db_settled)
  moreover have "ops_ready [UnpostReceipt 9, DeleteReceipt 9] busy_db" by simp
  moreover have "sum_of pb_quantityLeft (filter (\<lambda>b. pb_productId b = 5) (ProductBatch ?d)) = 7"
    unfolding run by (simp add: sold_db_eval)
  ultimately show ?thesis using report_follows_documents[OF busy_db_ledger] by metis
qed

text \<open>The unsold batch now belongs to the second receipt, which is posted.\<close>

definition two_receipts_db :: db where
  "two_receipts_db = busy_db\<lparr>GoodsReceipt := map_where (\<lambda>r. gr_id r = 9) (\<lambda>r. r\<lparr>gr_status := POSTED\<rparr>) (GoodsReceipt busy_db),
     ProductBatch := map_where (\<lambda>b. pb_id b = 2) (\<lambda>b. b\<lparr>pb_goodsReceiptId := Some 9\<rparr>) (ProductBatch busy_db)\<rparr>"

lemma two_receipts_ledger: "ledger two_receipts_db"
proof (rule rewritten_ledger[OF busy_db_ledger, where f = "\<lambda>b. if pb_id b = 2 then b\<lparr>pb_goodsReceiptId := Some 9\<rparr> else b"])
  show "intake_ready two_receipts_db"
    using busy_db_ledger by (simp add: two_receipts_db_def ledger_def intake_ready_def)
qed (use ledger_batch[OF busy_db_ledger] in \<open>simp_all add: two_receipts_db_def map_where_def outgoing_tables_def batch_typed_def
    batch_numbers_ok_def\<close>)

theorem receipt_unpost_keeps_sales_witness:
  "\<exists>d'. receipt_unpost_tx 9 two_receipts_db = Inr ((9, SAVED), d') \<and> sold_by 2 d' = 1 \<and> map pb_id (ProductBatch d') = [1]"
proof -
  have "\<exists>d'. receipt_unpost_tx 9 two_receipts_db = Inr ((9, SAVED), d')"
    by (simp add: receipt_unpost_tx_def set_receipt_status_def upd_GoodsReceipt_def update_table_def goods_receipt_ok_def
        first_error_def dec_fits_def del_ProductBatch_def two_receipts_db_def busy_db_def sold_db_eval)
  then obtain d' where d': "receipt_unpost_tx 9 two_receipts_db = Inr ((9, SAVED), d')" by blast
  moreover have "sold_by 2 two_receipts_db = 1" by (simp add: sold_by_def two_receipts_db_def busy_db_def sold_db_eval)
  moreover have "map pb_id (filter (\<lambda>b. pb_goodsReceiptId b \<noteq> Some 9) (ProductBatch two_receipts_db)) = [1]"
    by (simp add: two_receipts_db_def busy_db_def sold_db_eval)
  ultimately show ?thesis using receipt_unpost_keeps_sales[OF two_receipts_ledger d'] by auto
qed

end
