(* ===== verification/Finance.thy ===== *)
theory Finance
  imports Prices DocNumber
begin

text \<open>
  \<open>src/routes/finance.ts\<close>: cashboxes, transaction categories and cash transactions. An incoming payment is
  allocated to the counterparty's unpaid realizations, an outgoing one to the provider's unpaid goods
  receipts, oldest document first; changing or deleting a transaction takes its allocations back.
  \<open>collate\<close> stands for the collation of the database in \<open>ORDER BY name\<close>.
\<close>

section \<open>Cashboxes and categories\<close>

definition list_cashboxes :: "(string \<Rightarrow> nat) \<Rightarrow> db \<Rightarrow> cashbox list reply" where
  "list_cashboxes collate d = reply_ok 200 (sort_key (\<lambda>r. collate (cb_name r)) (Cashbox d))"

definition or_text :: "string option \<Rightarrow> string \<Rightarrow> string" where
  "or_text v x = (case text_or_null v of None \<Rightarrow> x | Some s \<Rightarrow> s)"

definition server_error :: "error \<Rightarrow> nat \<times> http_error" where
  "server_error e = (500, Text ''Server error'')"

definition create_cashbox ::
  "string option \<Rightarrow> string option \<Rightarrow> string option \<Rightarrow> ident option \<Rightarrow> db \<Rightarrow> cashbox reply \<times> db" where
  "create_cashbox name type currency organizationId d =
     map_prod (catch_reply 201 server_error) id (transaction (\<lambda>d.
       rbind (not_null ''Cashbox.name'' name) (\<lambda>name.
       let row = \<lparr>cb_id = next_uuid d, cb_name = name, cb_type = or_text type ''CASH'',
             cb_currency = or_text currency ''UAH'', cb_organizationId = organizationId\<rparr>
       in Inr (row, d\<lparr>next_uuid := Suc (next_uuid d), Cashbox := Cashbox d @ [row]\<rparr>))) d)"

definition update_cashbox ::
  "ident \<Rightarrow> string option \<Rightarrow> string option \<Rightarrow> db \<Rightarrow> cashbox reply \<times> db" where
  "update_cashbox i name type d =
     (if find_row cb_id i (Cashbox d) = None
      then (reply_error 404 (Text ''Cashbox not found''), d)
      else map_prod (catch_reply 200 server_error) id (transaction (\<lambda>d.
        rbind (not_null ''Cashbox.name'' name) (\<lambda>name.
        rbind (not_null ''Cashbox.type'' type) (\<lambda>type.
        let rows = map_where (\<lambda>r. cb_id r = i) (\<lambda>r. r\<lparr>cb_name := name, cb_type := type\<rparr>) (Cashbox d)
        in Inr (the (find_row cb_id i rows), d\<lparr>Cashbox := rows\<rparr>)))) d))"

definition list_categories :: "(string \<Rightarrow> nat) \<Rightarrow> db \<Rightarrow> transaction_category list reply" where
  "list_categories collate d = reply_ok 200 (sort_key (\<lambda>r. collate (tc_name r)) (TransactionCategory d))"

definition create_category :: "string option \<Rightarrow> string option \<Rightarrow> db \<Rightarrow> transaction_category reply \<times> db" where
  "create_category name type d =
     map_prod (catch_reply 201 server_error) id (transaction (\<lambda>d.
       rbind (not_null ''TransactionCategory.name'' name) (\<lambda>name.
       let row = \<lparr>tc_id = next_uuid d, tc_name = name, tc_type = or_text type ''OUTCOME''\<rparr>
       in Inr (row, d\<lparr>next_uuid := Suc (next_uuid d),
            TransactionCategory := TransactionCategory d @ [row]\<rparr>))) d)"

definition update_category ::
  "ident \<Rightarrow> string option \<Rightarrow> string option \<Rightarrow> db \<Rightarrow> transaction_category reply \<times> db" where
  "update_category i name type d =
     (if find_row tc_id i (TransactionCategory d) = None
      then (reply_error 404 (Text ''Category not found''), d)
      else map_prod (catch_reply 200 server_error) id (transaction (\<lambda>d.
        rbind (not_null ''TransactionCategory.name'' name) (\<lambda>name.
        rbind (not_null ''TransactionCategory.type'' type) (\<lambda>type.
        let rows = map_where (\<lambda>r. tc_id r = i) (\<lambda>r. r\<lparr>tc_name := name, tc_type := type\<rparr>)
              (TransactionCategory d)
        in Inr (the (find_row tc_id i rows), d\<lparr>TransactionCategory := rows\<rparr>)))) d))"

section \<open>Cash transactions\<close>

record transaction_view =
  tv_row :: cash_transaction
  tv_cashboxName :: string
  tv_categoryName :: "string option"
  tv_counterpartyName :: "string option"

definition list_transactions :: "db \<Rightarrow> transaction_view list reply" where
  "list_transactions d = reply_ok 200 (List.map_filter (\<lambda>t. map_option
     (\<lambda>c. \<lparr>tv_row = t, tv_cashboxName = cb_name c,
        tv_categoryName = join_name tc_id tc_name (TransactionCategory d) (ct_categoryId t),
        tv_counterpartyName = join_name cp_id cp_name (Counterparty d) (ct_counterpartyId t)\<rparr>)
     (find_row cb_id (ct_cashboxId t) (Cashbox d)))
     (sort_key (\<lambda>t. - ct_date t) (filter (\<lambda>t. \<not> ct_isDeleted t) (CashTransaction d))))"

record transaction_data =
  td_date :: "timestamp option"
  td_type :: "string option"
  td_cashboxId :: "ident option"
  td_amount :: "jsnum option"
  td_categoryId :: "ident option"
  td_counterpartyId :: "ident option"
  td_comment :: "string option"

definition cash_transaction_ok :: "db \<Rightarrow> cash_transaction \<Rightarrow> (bool \<times> sql_error) list" where
  "cash_transaction_ok d r =
     [(dec_fits 10 2 (ct_amount r), NumericOverflow),
      (List.member (map cb_id (Cashbox d)) (ct_cashboxId r),
       ForeignKeyViolation ''CashTransaction.cashboxId''),
      (fk_ok (map tc_id (TransactionCategory d)) (ct_categoryId r),
       ForeignKeyViolation ''CashTransaction.categoryId''),
      (fk_ok (map cp_id (Counterparty d)) (ct_counterpartyId r),
       ForeignKeyViolation ''CashTransaction.counterpartyId''),
      (fk_ok (map usr_id (Users d)) (ct_createdBy r), ForeignKeyViolation ''CashTransaction.createdBy'')]"

definition ins_CashTransaction :: "cash_transaction \<Rightarrow> db \<Rightarrow> error + db" where
  "ins_CashTransaction r d = rbind (first_error (cash_transaction_ok d r))
     (\<lambda>_. Inr (d\<lparr>CashTransaction := CashTransaction d @ [r]\<rparr>))"

definition upd_CashTransaction ::
  "(cash_transaction \<Rightarrow> bool) \<Rightarrow> (cash_transaction \<Rightarrow> cash_transaction) \<Rightarrow> db \<Rightarrow> error + db" where
  "upd_CashTransaction P f d =
     rbind (update_table P f (cash_transaction_ok d) (CashTransaction d))
       (\<lambda>rows. Inr (d\<lparr>CashTransaction := rows\<rparr>))"

definition ins_PaymentAllocation :: "payment_allocation \<Rightarrow> db \<Rightarrow> error + db" where
  "ins_PaymentAllocation r d = rbind (first_error
      [(dec_fits 10 2 (pa_amount r), NumericOverflow),
       (List.member (map ct_id (CashTransaction d)) (pa_cashTransactionId r),
        ForeignKeyViolation ''PaymentAllocation.cashTransactionId'')])
     (\<lambda>_. Inr (d\<lparr>PaymentAllocation := PaymentAllocation d @ [r]\<rparr>))"

section \<open>Allocation of a payment\<close>

text \<open>A document with a debt: key, amount and what is paid of it.\<close>

type_synonym unpaid = "ident \<times> decimal \<times> decimal"

definition unpaid_realizations :: "ident \<Rightarrow> db \<Rightarrow> unpaid list" where
  "unpaid_realizations counterpartyId d = map (\<lambda>r. (rl_id r, rl_amount r, rl_paidAmount r))
     (sort_key rl_date (filter (\<lambda>r. rl_counterpartyId r = Some counterpartyId \<and> rl_status r = POSTED \<and>
        rl_paidAmount r < rl_amount r) (Realization d)))"

definition receipt_amount :: "db \<Rightarrow> ident \<Rightarrow> decimal" where
  "receipt_amount d i = sum_list (map gri_total (filter (\<lambda>r. gri_goodsReceiptId r = i) (GoodsReceiptItem d)))"

definition unpaid_receipts :: "ident \<Rightarrow> db \<Rightarrow> unpaid list" where
  "unpaid_receipts providerId d = map (\<lambda>r. (gr_id r, receipt_amount d (gr_id r), gr_paidAmount r))
     (sort_key gr_date (filter (\<lambda>r. gr_providerId r = Some providerId \<and> gr_status r = POSTED \<and>
        gr_paidAmount r < receipt_amount d (gr_id r)) (GoodsReceipt d)))"

definition allocation_row :: "ident \<Rightarrow> doc_type \<Rightarrow> ident \<Rightarrow> jsnum \<Rightarrow> db \<Rightarrow> payment_allocation" where
  "allocation_row t ty i x d = \<lparr>pa_id = next_uuid d, pa_cashTransactionId = t, pa_documentId = i,
     pa_documentType = ty, pa_amount = round_dec 2 (js_text x)\<rparr>"

definition pay_realization :: "ident \<Rightarrow> ident \<Rightarrow> jsnum \<Rightarrow> db \<Rightarrow> error + db" where
  "pay_realization t i x d =
     rbind (ins_PaymentAllocation (allocation_row t REALIZATION i x d) (d\<lparr>next_uuid := Suc (next_uuid d)\<rparr>))
       (upd_Realization (\<lambda>r. rl_id r = i)
          (\<lambda>r. r\<lparr>rl_paidAmount := round_dec 2 (rl_paidAmount r + js_text x)\<rparr>))"

definition pay_receipt :: "ident \<Rightarrow> ident \<Rightarrow> jsnum \<Rightarrow> db \<Rightarrow> error + db" where
  "pay_receipt t i x d =
     rbind (ins_PaymentAllocation (allocation_row t GOODS_RECEIPT i x d) (d\<lparr>next_uuid := Suc (next_uuid d)\<rparr>))
       (upd_GoodsReceipt (\<lambda>r. gr_id r = i)
          (\<lambda>r. r\<lparr>gr_paidAmount := round_dec 2 (gr_paidAmount r + js_text x)\<rparr>))"

fun allocate_loop :: "(ident \<Rightarrow> jsnum \<Rightarrow> db \<Rightarrow> error + db) \<Rightarrow> unpaid list \<Rightarrow> jsnum \<Rightarrow> db \<Rightarrow> error + db" where
  "allocate_loop pay [] remaining d = Inr d"
| "allocate_loop pay ((i, amount, paid) # docs) remaining d =
     (if remaining \<le> 0 then Inr d
      else let docDebt = js_sub (js_number amount) (js_number paid); allocate = min docDebt remaining
           in if 0 < allocate
              then rbind (pay i allocate d) (allocate_loop pay docs (js_sub remaining allocate))
              else allocate_loop pay docs remaining d)"

definition allocate_payment :: "ident \<Rightarrow> string \<Rightarrow> ident option \<Rightarrow> jsnum \<Rightarrow> db \<Rightarrow> error + db" where
  "allocate_payment t type counterpartyId amount d =
     (case counterpartyId of
        None \<Rightarrow> Inr d
      | Some c \<Rightarrow>
          if amount \<le> 0 then Inr d
          else if type = ''INCOME'' then allocate_loop (pay_realization t) (unpaid_realizations c d) amount d
          else if type = ''OUTCOME'' then allocate_loop (pay_receipt t) (unpaid_receipts c d) amount d
          else Inr d)"

section \<open>The handlers of cash transactions\<close>

definition create_transaction_body ::
  "req_user option \<Rightarrow> transaction_data \<Rightarrow> db \<Rightarrow> error + cash_transaction \<times> db" where
  "create_transaction_body user data d =
     (case Option.bind (td_cashboxId data) (\<lambda>c. find_row cb_id c (Cashbox d)) of
        None \<Rightarrow> Inl CashboxNotFound
      | Some cashbox \<Rightarrow>
          rbind (not_null ''CashTransaction.type'' (td_type data)) (\<lambda>type.
          rbind (not_null ''CashTransaction.amount'' (td_amount data)) (\<lambda>amount.
          let date = coalesce (td_date data) (clock d);
              row = \<lparr>ct_id = next_uuid d, ct_date = date,
                ct_number = generateDocNumber (tz_offset d) (map ct_number (CashTransaction d)) date,
                ct_type = type, ct_cashboxId = cb_id cashbox, ct_amount = round_dec 2 (js_text amount),
                ct_categoryId = td_categoryId data, ct_counterpartyId = td_counterpartyId data,
                ct_comment = td_comment data, ct_createdBy = user_id user, ct_isDeleted = False\<rparr>
          in rbind (ins_CashTransaction row (d\<lparr>next_uuid := Suc (next_uuid d)\<rparr>)) (\<lambda>d1.
             rbind (allocate_payment (ct_id row) type (td_counterpartyId data) amount d1) (\<lambda>d2.
             Inr (row, d2))))))"

definition create_transaction ::
  "req_user option \<Rightarrow> transaction_data \<Rightarrow> db \<Rightarrow> cash_transaction reply \<times> db" where
  "create_transaction user data d =
     map_prod (catch_reply 201 (\<lambda>e. (500, ErrorMessage e))) id (transaction (create_transaction_body user data) d)"

definition revert_allocation :: "payment_allocation \<Rightarrow> db \<Rightarrow> error + db" where
  "revert_allocation a d = (case pa_documentType a of
     REALIZATION \<Rightarrow> upd_Realization (\<lambda>r. rl_id r = pa_documentId a)
       (\<lambda>r. r\<lparr>rl_paidAmount := round_dec 2 (rl_paidAmount r - pa_amount a)\<rparr>) d
   | GOODS_RECEIPT \<Rightarrow> upd_GoodsReceipt (\<lambda>r. gr_id r = pa_documentId a)
       (\<lambda>r. r\<lparr>gr_paidAmount := round_dec 2 (gr_paidAmount r - pa_amount a)\<rparr>) d
   | _ \<Rightarrow> Inr d)"

definition allocations_of :: "ident \<Rightarrow> db \<Rightarrow> payment_allocation list" where
  "allocations_of t d = filter (\<lambda>a. pa_cashTransactionId a = t) (PaymentAllocation d)"

definition revert_allocations :: "ident \<Rightarrow> db \<Rightarrow> error + db" where
  "revert_allocations t d =
     rbind (for_each revert_allocation (allocations_of t d) d) (\<lambda>d1.
     Inr (d1\<lparr>PaymentAllocation := filter (\<lambda>a. pa_cashTransactionId a \<noteq> t) (PaymentAllocation d1)\<rparr>))"

definition update_transaction_body ::
  "ident \<Rightarrow> transaction_data \<Rightarrow> db \<Rightarrow> error + cash_transaction option \<times> db" where
  "update_transaction_body i data d =
     (if find_row ct_id i (filter (\<lambda>r. \<not> ct_isDeleted r) (CashTransaction d)) = None
      then Inl TransactionNotFound
      else rbind (revert_allocations i d) (\<lambda>d1.
           rbind (not_null ''CashTransaction.type'' (td_type data)) (\<lambda>type.
           rbind (not_null ''CashTransaction.cashboxId'' (td_cashboxId data)) (\<lambda>cashboxId.
           rbind (not_null ''CashTransaction.amount'' (td_amount data)) (\<lambda>amount.
           rbind (upd_CashTransaction (\<lambda>r. ct_id r = i)
               (\<lambda>r. r\<lparr>ct_date := coalesce (td_date data) (clock d), ct_type := type, ct_cashboxId := cashboxId,
                  ct_amount := round_dec 2 (js_text amount), ct_categoryId := td_categoryId data,
                  ct_counterpartyId := td_counterpartyId data, ct_comment := td_comment data\<rparr>) d1) (\<lambda>d2.
           rbind (allocate_payment i type (td_counterpartyId data) amount d2) (\<lambda>d3.
           Inr (find_row ct_id i (CashTransaction d2), d3))))))))"

definition update_transaction ::
  "ident \<Rightarrow> transaction_data \<Rightarrow> db \<Rightarrow> cash_transaction option reply \<times> db" where
  "update_transaction i data d =
     map_prod (catch_reply 200 (\<lambda>e. (500, ErrorMessage e))) id (transaction (update_transaction_body i data) d)"

definition delete_transaction_body :: "ident \<Rightarrow> db \<Rightarrow> error + unit \<times> db" where
  "delete_transaction_body i d =
     rbind (revert_allocations i d) (\<lambda>d1.
     Inr ((), d1\<lparr>CashTransaction := map_where (\<lambda>r. ct_id r = i) (\<lambda>r. r\<lparr>ct_isDeleted := True\<rparr>)
       (CashTransaction d1)\<rparr>))"

definition delete_transaction :: "ident \<Rightarrow> db \<Rightarrow> unit reply \<times> db" where
  "delete_transaction i d =
     map_prod (catch_reply 200 server_error) id (transaction (delete_transaction_body i) d)"

end
