(* ===== verification/PaymentLedger.thy ===== *)
theory PaymentLedger
  imports Finance
begin

text \<open>
  What the payment handlers promise. The ledger invariant \<open>balanced\<close>: the paid amount of every document
  is the sum of its allocations. The allocation loop, which runs on binary64 numbers, computes the exact
  first-in-first-out allocation of the amount over the debts. Both loops (sales and receipts) are one
  interface, the locale \<open>payable\<close>.
\<close>

section \<open>The ledger\<close>

definition paid_realizations :: "db \<Rightarrow> (ident \<times> decimal) list" where
  "paid_realizations d = map (\<lambda>r. (rl_id r, rl_paidAmount r)) (Realization d)"

definition paid_receipts :: "db \<Rightarrow> (ident \<times> decimal) list" where
  "paid_receipts d = map (\<lambda>r. (gr_id r, gr_paidAmount r)) (GoodsReceipt d)"

definition allocated :: "payment_allocation list \<Rightarrow> doc_type \<Rightarrow> ident \<Rightarrow> decimal" where
  "allocated as ty i =
     sum_list (map pa_amount (filter (\<lambda>a. pa_documentType a = ty \<and> pa_documentId a = i) as))"

definition amount_ok :: "decimal \<Rightarrow> bool" where
  "amount_ok x \<longleftrightarrow> on_grid 2 x \<and> 0 \<le> x"

definition balanced :: "db \<Rightarrow> bool" where
  "balanced d \<longleftrightarrow> (\<forall>a \<in> set (PaymentAllocation d). amount_ok (pa_amount a)) \<and>
     (\<forall>(i, p) \<in> set (paid_realizations d). p = allocated (PaymentAllocation d) REALIZATION i) \<and>
     (\<forall>(i, p) \<in> set (paid_receipts d). p = allocated (PaymentAllocation d) GOODS_RECEIPT i)"

lemma allocated_Nil [simp]: "allocated [] ty i = 0"
  by (simp add: allocated_def)

lemma allocated_Cons [simp]: "allocated (a # as) ty i =
    (if pa_documentType a = ty \<and> pa_documentId a = i then pa_amount a else 0) + allocated as ty i"
  by (simp add: allocated_def)

lemma allocated_append [simp]: "allocated (as @ bs) ty i = allocated as ty i + allocated bs ty i"
  by (induction as) auto

lemma amount_ok_allocated: "\<forall>a \<in> set as. amount_ok (pa_amount a) \<Longrightarrow> amount_ok (allocated as ty i)"
  by (induction as) (auto simp: amount_ok_def on_grid_add)

lemma allocated_filter:
  "allocated (filter P as) ty i + allocated (filter (\<lambda>a. \<not> P a) as) ty i = allocated as ty i"
  by (induction as) auto

section \<open>Numbers\<close>

text \<open>
  Amounts stay below \<open>10^8\<close> (DECIMAL(10,2)), where one rounding is off by at most \<open>pay_eps\<close>. A loop over at
  most \<open>max_documents\<close> documents stays within the distance at which the column recovers the exact cents.
\<close>

definition pay_eps :: rat where "pay_eps = 1 / 2 ^ 26"
definition max_documents :: nat where "max_documents = 50000"

definition pay_near :: "nat \<Rightarrow> jsnum \<Rightarrow> decimal \<Rightarrow> bool" where
  "pay_near k r R \<longleftrightarrow> 0 \<le> r \<and> \<bar>r - R\<bar> \<le> (4 * of_nat k + 1) * pay_eps"

lemma pay_eps_small: "0 < pay_eps" "pay_eps \<le> 1 / 100000"
  by (simp_all add: pay_eps_def)

lemma fl_pay: "\<bar>x\<bar> \<le> 2 ^ 27 \<Longrightarrow> \<bar>fl x - x\<bar> \<le> pay_eps"
  using fl_error_le[of x "2 ^ 27"] by (simp add: pay_eps_def)

lemma pay_near_start: "0 \<le> R \<Longrightarrow> R \<le> 10 ^ 8 \<Longrightarrow> pay_near 0 (js_number R) R"
  using fl_pay[of R] fl_nonneg[of R] by (simp add: pay_near_def js_number_def)

lemma pay_near_small:
  assumes "pay_near k r R" "k \<le> max_documents"
  shows "\<bar>r - R\<bar> \<le> 3 / 1000"
proof -
  from assms(2) have "(of_nat k :: rat) \<le> of_nat max_documents" by (simp only: of_nat_le_iff)
  then have "(4 * of_nat k + 1) * pay_eps \<le> (4 * 50000 + 1) * pay_eps"
    by (intro mult_right_mono) (simp_all add: max_documents_def pay_eps_def)
  also have "\<dots> \<le> 3 / 1000" by (simp add: pay_eps_def)
  finally show ?thesis using assms(1) by (simp add: pay_near_def)
qed

lemma pay_stored:
  assumes "on_grid 2 T" "\<bar>T\<bar> \<le> 10 ^ 8" "\<bar>x - T\<bar> \<le> 4 / 1000"
  shows "round_dec 2 (js_text x) = T"
    and "on_grid 2 q \<Longrightarrow> round_dec 2 (q + js_text x) = q + T"
proof -
  have "\<bar>x\<bar> \<le> \<bar>T\<bar> + \<bar>x - T\<bar>" by linarith
  then have "\<bar>x\<bar> \<le> 2 ^ 27" using assms(2,3) by simp
  then have "\<bar>x\<bar> / 2 ^ 52 \<le> 1 / 2 ^ 25" by simp
  with js_text_error[of x] have "\<bar>js_text x - x\<bar> \<le> 1 / 2 ^ 25" by linarith
  then have "\<bar>js_text x - x\<bar> < 1 / 10000" by simp
  with assms(3) have "\<bar>js_text x - T\<bar> < 5 / 1000" by linarith
  then have near: "\<bar>js_text x - T\<bar> < 1 / 2 / 10 ^ 2" by simp
  then show "round_dec 2 (js_text x) = T" by (rule round_dec_close[OF assms(1)])
  assume "on_grid 2 q"
  then show "round_dec 2 (q + js_text x) = q + T"
    using near assms(1) by (intro round_dec_close) auto
qed

text \<open>The debt of a document, as the loop computes it.\<close>

definition debt_ok :: "unpaid \<Rightarrow> bool" where
  "debt_ok = (\<lambda>(i, a, p). on_grid 2 a \<and> on_grid 2 p \<and> 0 \<le> p \<and> p < a \<and> a \<le> 10 ^ 8)"

definition debt_of :: "unpaid \<Rightarrow> decimal" where
  "debt_of = (\<lambda>(i, a, p). a - p)"

lemma debt_near:
  assumes "debt_ok (i, a, p)"
  shows "\<bar>js_sub (js_number a) (js_number p) - (a - p)\<bar> \<le> 3 * pay_eps"
    and "0 < js_sub (js_number a) (js_number p)"
proof -
  from assms have a: "\<bar>a\<bar> \<le> 2 ^ 27" "\<bar>p\<bar> \<le> 2 ^ 27" "0 \<le> p" "a \<le> 10 ^ 8" by (auto simp: debt_ok_def)
  have e: "\<bar>fl a - a\<bar> \<le> pay_eps" "\<bar>fl p - p\<bar> \<le> pay_eps" using a fl_pay by blast+
  moreover have "0 \<le> fl p" using a(3) by (rule fl_nonneg)
  moreover have "p < a" using assms by (simp add: debt_ok_def)
  moreover note pay_eps_small
  ultimately have "\<bar>fl a - fl p\<bar> \<le> 10 ^ 8 + 1" using a(3,4) by (simp add: abs_le_iff)
  then have "\<bar>fl (fl a - fl p) - (fl a - fl p)\<bar> \<le> pay_eps" by (intro fl_pay) simp
  with e show d: "\<bar>js_sub (js_number a) (js_number p) - (a - p)\<bar> \<le> 3 * pay_eps"
    by (simp add: js_sub_def js_number_def abs_le_iff)
  have "1 / 10 ^ 2 \<le> a - p" using assms by (intro on_grid_pos_ge) (auto simp: debt_ok_def)
  with d pay_eps_small show "0 < js_sub (js_number a) (js_number p)" by simp
qed

text \<open>One document of the loop.\<close>

lemma pay_step:
  assumes near: "pay_near k r R" and k: "Suc k \<le> max_documents" and doc: "debt_ok (i, a, p)"
    and R: "on_grid 2 R" "0 \<le> R" "R \<le> 10 ^ 8"
  defines "t \<equiv> min (js_sub (js_number a) (js_number p)) r"
  shows "round_dec 2 (js_text t) = min (a - p) R"
    and "on_grid 2 q \<Longrightarrow> round_dec 2 (q + js_text t) = q + min (a - p) R"
    and "pay_near (Suc k) (js_sub r t) (R - min (a - p) R)"
proof -
  let ?f = "js_sub (js_number a) (js_number p)" and ?q = "a - p"
  have small: "\<bar>r - R\<bar> \<le> 3 / 1000" using k by (intro pay_near_small[OF near]) simp
  have q: "on_grid 2 ?q" "0 < ?q" "?q \<le> 10 ^ 8" using doc by (auto simp: debt_ok_def)
  note f = debt_near[OF doc] and eps = pay_eps_small
  have "\<bar>t - min ?q R\<bar> \<le> 4 / 1000 \<and> pay_near (Suc k) (js_sub r t) (R - min ?q R)"
  proof (cases "?f \<le> r")
    case True
    then have t: "t = ?f" by (simp add: t_def)
    have "- (1 / 100) < R - ?q" using True small f eps by linarith
    then have "- (1 / 10 ^ 2) < R - ?q" by simp
    then have "?q \<le> R" using on_grid_nonneg[of 2 "R - ?q"] R q by auto
    moreover have "r \<le> R + 1" using small by linarith
    then have "\<bar>r - t\<bar> \<le> 10 ^ 8 + 1" using True t f(2) R by simp
    then have "\<bar>js_sub r t - (r - t)\<bar> \<le> pay_eps" unfolding js_sub_def[of r] by (intro fl_pay) simp
    moreover have "0 \<le> js_sub r t" unfolding js_sub_def[of r] using True t by (intro fl_nonneg) simp
    ultimately show ?thesis
      using near f eps t unfolding pay_near_def by (simp add: algebra_simps) (simp add: abs_le_iff)
  next
    case False
    then have t: "t = r" by (simp add: t_def)
    have "- (1 / 100) < ?q - R" using False small f eps by linarith
    then have "- (1 / 10 ^ 2) < ?q - R" by simp
    then have "R \<le> ?q" using on_grid_nonneg[of 2 "?q - R"] R q by auto
    then show ?thesis using small eps t by (simp add: pay_near_def js_sub_def)
  qed
  moreover have "on_grid 2 (min ?q R)" "\<bar>min ?q R\<bar> \<le> 10 ^ 8" using R q by (auto simp: min_def)
  ultimately show "pay_near (Suc k) (js_sub r t) (R - min ?q R)"
    "round_dec 2 (js_text t) = min ?q R" "on_grid 2 q \<Longrightarrow> round_dec 2 (q + js_text t) = q + min ?q R"
    using pay_stored[of "min ?q R" t] by auto
qed

section \<open>Paid amounts that rise\<close>

definition raised :: "(ident \<rightharpoonup> decimal) \<Rightarrow> (ident \<times> decimal) list \<Rightarrow> (ident \<times> decimal) list" where
  "raised f = map (\<lambda>(i, p). (i, p + (case f i of None \<Rightarrow> 0 | Some t \<Rightarrow> t)))"

lemma raised_zero: "(\<And>i t. f i = Some t \<Longrightarrow> t = 0) \<Longrightarrow> raised f ps = ps"
  by (induction ps) (auto simp: raised_def split: option.split)

lemma raised_none [simp]: "raised (\<lambda>_. None) ps = ps"
  by (rule raised_zero) simp

lemma map_fst_raised [simp]: "map fst (raised f ps) = map fst ps"
  by (auto simp: raised_def comp_def split_beta)

lemma raised_raised: "f i = None \<Longrightarrow> raised f (raised [i \<mapsto> x] ps) = raised (f(i \<mapsto> x)) ps"
  by (auto simp: raised_def split: option.split)

lemma raised_single:
  assumes "distinct (map fst ps)" "(i, p) \<in> set ps" "g p = p + x"
  shows "map (\<lambda>(j, p). (j, if j = i then g p else p)) ps = raised [i \<mapsto> x] ps"
proof -
  have "q = p" if "(i, q) \<in> set ps" for q using assms(1,2) that by (auto dest: eq_key_imp_eq_value)
  with assms(3) show ?thesis by (auto simp: raised_def)
qed

definition plan_of :: "unpaid list \<Rightarrow> decimal \<Rightarrow> decimal list" where
  "plan_of docs R = fifo_take (map debt_of docs) R"

definition payment_map :: "unpaid list \<Rightarrow> decimal \<Rightarrow> (ident \<rightharpoonup> decimal)" where
  "payment_map docs R = map_of (zip (map fst docs) (plan_of docs R))"

lemma length_plan_of [simp]: "length (plan_of docs R) = length docs"
  by (simp add: plan_of_def)

lemma debt_ok_pos: "\<forall>x \<in> set docs. debt_ok x \<Longrightarrow> \<forall>q \<in> set (map debt_of docs). 0 \<le> q \<and> on_grid 2 q"
  by (auto simp: debt_ok_def debt_of_def)

lemma plan_of_zero:
  assumes "\<forall>x \<in> set docs. debt_ok x"
  shows "plan_of docs 0 = replicate (length docs) 0" and "payment_map docs 0 i = Some t \<Longrightarrow> t = 0"
proof -
  show z: "plan_of docs 0 = replicate (length docs) 0"
    unfolding plan_of_def using debt_ok_pos[OF assms] by (subst fifo_take_zero) auto
  show "payment_map docs 0 i = Some t \<Longrightarrow> t = 0"
    by (auto simp: payment_map_def z dest!: map_of_SomeD set_zip_rightD)
qed

section \<open>The allocation loop\<close>

definition allocation_pair :: "payment_allocation \<Rightarrow> ident \<times> decimal" where
  "allocation_pair a = (pa_documentId a, pa_amount a)"

text \<open>
  The interface of the two kinds of documents that are paid: \<open>pay\<close> records an allocation and raises the paid
  amount of the document, and leaves the other kind alone.
\<close>

locale payable =
  fixes pay :: "ident \<Rightarrow> ident \<Rightarrow> jsnum \<Rightarrow> db \<Rightarrow> error + db" and ty :: doc_type
    and paid :: "db \<Rightarrow> (ident \<times> decimal) list" and other :: "db \<Rightarrow> (ident \<times> decimal) list"
  assumes pay_rows: "pay t i x d = Inr d' \<Longrightarrow>
      PaymentAllocation d' = PaymentAllocation d @ [allocation_row t ty i x d]"
    and pay_paid: "pay t i x d = Inr d' \<Longrightarrow>
      paid d' = map (\<lambda>(j, p). (j, if j = i then round_dec 2 (p + js_text x) else p)) (paid d)"
    and pay_other: "pay t i x d = Inr d' \<Longrightarrow> other d' = other d"
begin

lemma loop_fifo:
  assumes "allocate_loop (pay t) docs r d = Inr d'" and "pay_near k r R" "k + length docs \<le> max_documents"
    and "on_grid 2 R" "0 \<le> R" "R \<le> 10 ^ 8" and "\<forall>x \<in> set docs. debt_ok x" "distinct (map fst docs)"
    and "\<forall>(i, a, p) \<in> set docs. (i, p) \<in> set (paid d)" "distinct (map fst (paid d))"
  shows "\<exists>m rows. PaymentAllocation d' = PaymentAllocation d @ rows \<and> m \<le> length docs \<and>
     map allocation_pair rows = zip (map fst (take m docs)) (plan_of docs R) \<and>
     (\<forall>x \<in> set (drop m (plan_of docs R)). x = 0) \<and>
     (\<forall>a \<in> set rows. pa_cashTransactionId a = t \<and> pa_documentType a = ty) \<and>
     paid d' = raised (payment_map docs R) (paid d) \<and> other d' = other d"
  using assms
proof (induction docs arbitrary: k r R d)
  case Nil
  then show ?case by (intro exI[of _ 0] exI[of _ "[]"]) (simp add: raised_zero payment_map_def plan_of_def)
next
  case (Cons doc docs)
  obtain i a p where doc: "doc = (i, a, p)" by (rule prod_cases3)
  show ?case
  proof (cases "r \<le> 0")
    case True
    with Cons.prems(2) have r0: "r = 0" by (simp add: pay_near_def)
    have "\<bar>r - R\<bar> \<le> 3 / 1000" using Cons.prems(3) by (intro pay_near_small[OF Cons.prems(2)]) simp
    with r0 Cons.prems(5) have "R < 1 / 10 ^ 2" by simp
    then have R0: "R = 0" using on_grid_eq[of 2 R 0] Cons.prems(4,5) by simp
    show ?thesis
      using True Cons.prems(1) plan_of_zero[OF Cons.prems(7)]
      by (intro exI[of _ 0] exI[of _ "[]"]) (auto simp: R0 doc raised_zero)
  next
    case False
    let ?q = "a - p" and ?t = "min (js_sub (js_number a) (js_number p)) r"
    have dok: "debt_ok (i, a, p)" and k: "Suc k \<le> max_documents" using Cons.prems(3,7) doc by auto
    note st = pay_step[OF Cons.prems(2) k dok Cons.prems(4-6)]
    from False debt_near(2)[OF dok] have pos: "0 < ?t" by simp
    with Cons.prems(1) False doc obtain d1 where d1: "pay t i ?t d = Inr d1"
      and run: "allocate_loop (pay t) docs (js_sub r ?t) d1 = Inr d'" by (auto simp: Let_def)
    note e = pay_rows[OF d1] pay_paid[OF d1] pay_other[OF d1]
    have ip: "(i, p) \<in> set (paid d)" and pg: "on_grid 2 p" using Cons.prems(9) doc dok by (auto simp: debt_ok_def)
    have paid1: "paid d1 = raised [i \<mapsto> min ?q R] (paid d)"
      unfolding e(2) by (rule raised_single[OF Cons.prems(10) ip]) (rule st(2)[OF pg])
    have notin: "i \<notin> fst ` set docs" using Cons.prems(8) doc by simp
    have keep: "\<forall>(i, a, p) \<in> set docs. (i, p) \<in> set (paid d1)"
    proof clarify
      fix j b q
      assume j: "(j, b, q) \<in> set docs"
      then have "(j, q) \<in> set (paid d)" using Cons.prems(9) by auto
      moreover have "j \<noteq> i" using notin j by force
      ultimately show "(j, q) \<in> set (paid d1)" unfolding paid1 raised_def by force
    qed
    have dis: "distinct (map fst (paid d1))" using Cons.prems(10) by (simp add: paid1)
    have R': "on_grid 2 (R - min ?q R)" "0 \<le> R - min ?q R" "R - min ?q R \<le> 10 ^ 8"
      using dok Cons.prems(4-6) by (auto simp: min_def debt_ok_def)
    have pre: "Suc k + length docs \<le> max_documents" "\<forall>x \<in> set docs. debt_ok x" "distinct (map fst docs)"
      using Cons.prems by auto
    from Cons.IH[OF run st(3) pre(1) R' pre(2,3) keep dis] obtain m rows where IH:
      "PaymentAllocation d' = PaymentAllocation d1 @ rows" "m \<le> length docs"
      "map allocation_pair rows = zip (map fst (take m docs)) (plan_of docs (R - min ?q R))"
      "\<forall>x \<in> set (drop m (plan_of docs (R - min ?q R))). x = 0"
      "\<forall>a \<in> set rows. pa_cashTransactionId a = t \<and> pa_documentType a = ty"
      "paid d' = raised (payment_map docs (R - min ?q R)) (paid d1)" "other d' = other d1"
      by blast
    have plan: "plan_of (doc # docs) R = min ?q R # plan_of docs (R - min ?q R)"
      by (simp add: plan_of_def doc debt_of_def)
    then have pm: "payment_map (doc # docs) R = (payment_map docs (R - min ?q R))(i \<mapsto> min ?q R)"
      by (simp add: payment_map_def doc)
    have "payment_map docs (R - min ?q R) i = None"
      using notin by (auto simp: payment_map_def map_of_eq_None_iff dest!: set_zip_leftD)
    then have paid': "paid d' = raised (payment_map (doc # docs) R) (paid d)"
      unfolding IH(6) pm paid1 by (rule raised_raised)
    let ?row = "allocation_row t ty i ?t d"
    have "map allocation_pair (?row # rows) = zip (map fst (take (Suc m) (doc # docs))) (plan_of (doc # docs) R)"
      using IH(3) by (simp add: plan[unfolded doc] doc allocation_pair_def allocation_row_def st(1))
    then show ?thesis
      using IH(1,2,4,5,7) e(1,3) paid'
      by (intro exI[of _ "Suc m"] exI[of _ "?row # rows"]) (simp add: plan allocation_row_def)
  qed
qed

lemma loop_keys:
  "allocate_loop (pay t) docs r d = Inr d' \<Longrightarrow> map fst (paid d') = map fst (paid d) \<and> other d' = other d"
proof (induction docs arbitrary: r d)
  case (Cons doc docs)
  obtain i a p where doc: "doc = (i, a, p)" by (rule prod_cases3)
  let ?t = "min (js_sub (js_number a) (js_number p)) r"
  show ?case
  proof (cases "0 < r \<and> 0 < ?t")
    case False
    then have "allocate_loop (pay t) docs r d = Inr d' \<or> d' = d"
      using Cons.prems(1) doc by (auto simp: Let_def not_less split: if_splits)
    then show ?thesis using Cons.IH by blast
  next
    case True
    with Cons.prems(1) doc obtain d1 where d1: "pay t i ?t d = Inr d1"
      and run: "allocate_loop (pay t) docs (js_sub r ?t) d1 = Inr d'" by (auto simp: Let_def)
    from pay_paid[OF d1] have "map fst (paid d1) = map fst (paid d)" by (simp add: comp_def split_beta)
    with Cons.IH[OF run] pay_other[OF d1] show ?thesis by simp
  qed
qed simp

text \<open>Whatever the documents hold, the loop keeps the ledger.\<close>

lemma loop_ledger:
  assumes "allocate_loop (pay t) docs r d = Inr d'" and "\<forall>a \<in> set (PaymentAllocation d). amount_ok (pa_amount a)"
    and "\<forall>(i, p) \<in> set (paid d). p = allocated (PaymentAllocation d) ty i"
  shows "\<exists>rows. PaymentAllocation d' = PaymentAllocation d @ rows \<and> other d' = other d \<and>
    (\<forall>a \<in> set rows. amount_ok (pa_amount a) \<and> pa_documentType a = ty \<and> pa_cashTransactionId a = t) \<and>
    (\<forall>(i, p) \<in> set (paid d'). p = allocated (PaymentAllocation d') ty i)"
  using assms
proof (induction docs arbitrary: r d)
  case Nil
  then show ?case by simp
next
  case (Cons doc docs)
  obtain i a p where doc: "doc = (i, a, p)" by (rule prod_cases3)
  let ?t = "min (js_sub (js_number a) (js_number p)) r"
  show ?case
  proof (cases "0 < r \<and> 0 < ?t")
    case False
    then have "allocate_loop (pay t) docs r d = Inr d' \<or> d' = d"
      using Cons.prems(1) doc by (auto simp: Let_def not_less split: if_splits)
    then show ?thesis
    proof
      assume "allocate_loop (pay t) docs r d = Inr d'"
      from Cons.IH[OF this Cons.prems(2,3)] show ?thesis .
    next
      assume "d' = d"
      with Cons.prems(3) show ?thesis by (intro exI[of _ "[]"]) simp
    qed
  next
    case True
    with Cons.prems(1) doc obtain d1 where d1: "pay t i ?t d = Inr d1"
      and run: "allocate_loop (pay t) docs (js_sub r ?t) d1 = Inr d'" by (auto simp: Let_def)
    note e = pay_rows[OF d1] pay_paid[OF d1] pay_other[OF d1]
    let ?row = "allocation_row t ty i ?t d"
    have x: "0 \<le> js_text ?t" using True by (intro js_text_nonneg) simp
    then have row: "amount_ok (pa_amount ?row)"
      by (simp add: amount_ok_def allocation_row_def round_dec_nonneg)
    have "q = allocated (PaymentAllocation d1) ty j" if "(j, q) \<in> set (paid d1)" for j q
    proof -
      from that obtain q0 where q0: "(j, q0) \<in> set (paid d)"
        "q = (if j = i then round_dec 2 (q0 + js_text ?t) else q0)" by (auto simp: e(2))
      then have "q0 = allocated (PaymentAllocation d) ty j" using Cons.prems(3) by auto
      moreover from this have "amount_ok q0" using amount_ok_allocated[OF Cons.prems(2)] by simp
      ultimately show ?thesis using q0(2) x
        by (cases "j = i") (simp_all add: e(1) allocation_row_def round_dec_add amount_ok_def)
    qed
    then have led: "\<forall>(i, p) \<in> set (paid d1). p = allocated (PaymentAllocation d1) ty i" by blast
    have ok: "\<forall>a \<in> set (PaymentAllocation d1). amount_ok (pa_amount a)" using Cons.prems(2) row by (simp add: e(1))
    from Cons.IH[OF run ok led] obtain rows where "PaymentAllocation d' = PaymentAllocation d1 @ rows"
      "other d' = other d1" "\<forall>a \<in> set rows. amount_ok (pa_amount a) \<and> pa_documentType a = ty \<and> pa_cashTransactionId a = t"
      "\<forall>(i, p) \<in> set (paid d'). p = allocated (PaymentAllocation d') ty i" by blast
    then show ?thesis using e row by (intro exI[of _ "?row # rows"]) (simp add: allocation_row_def)
  qed
qed

end

lemma upd_Realization_paid:
  assumes "upd_Realization (\<lambda>r. rl_id r = i) (\<lambda>r. r\<lparr>rl_paidAmount := g (rl_paidAmount r)\<rparr>) d = Inr d'"
  shows "paid_realizations d' = map (\<lambda>(j, p). (j, if j = i then g p else p)) (paid_realizations d)"
    and "paid_receipts d' = paid_receipts d" and "PaymentAllocation d' = PaymentAllocation d"
  using assms by (auto simp: upd_Realization_def update_table_Inr_iff paid_realizations_def paid_receipts_def map_where_def)

lemma upd_GoodsReceipt_paid:
  assumes "upd_GoodsReceipt (\<lambda>r. gr_id r = i) (\<lambda>r. r\<lparr>gr_paidAmount := g (gr_paidAmount r)\<rparr>) d = Inr d'"
  shows "paid_receipts d' = map (\<lambda>(j, p). (j, if j = i then g p else p)) (paid_receipts d)"
    and "paid_realizations d' = paid_realizations d" and "PaymentAllocation d' = PaymentAllocation d"
  using assms by (auto simp: upd_GoodsReceipt_def update_table_Inr_iff paid_realizations_def paid_receipts_def map_where_def)

lemma ins_PaymentAllocation_Inr:
  "ins_PaymentAllocation r d = Inr d' \<Longrightarrow> PaymentAllocation d' = PaymentAllocation d @ [r] \<and>
     paid_realizations d' = paid_realizations d \<and> paid_receipts d' = paid_receipts d"
  by (auto simp: ins_PaymentAllocation_def paid_realizations_def paid_receipts_def)

lemma paid_next_uuid [simp]:
  "paid_realizations (d\<lparr>next_uuid := n\<rparr>) = paid_realizations d" "paid_receipts (d\<lparr>next_uuid := n\<rparr>) = paid_receipts d"
  by (simp_all add: paid_realizations_def paid_receipts_def)

interpretation income: payable pay_realization REALIZATION paid_realizations paid_receipts
proof unfold_locales
  fix t i x d d'
  assume "pay_realization t i x d = Inr d'"
  then obtain d1 where d1: "ins_PaymentAllocation (allocation_row t REALIZATION i x d) (d\<lparr>next_uuid := Suc (next_uuid d)\<rparr>) = Inr d1"
    and u: "upd_Realization (\<lambda>r. rl_id r = i)
      (\<lambda>r. r\<lparr>rl_paidAmount := round_dec 2 (rl_paidAmount r + js_text x)\<rparr>) d1 = Inr d'"
    by (auto simp: pay_realization_def)
  note e = ins_PaymentAllocation_Inr[OF d1] upd_Realization_paid[of i "\<lambda>p. round_dec 2 (p + js_text x)", OF u]
  show "PaymentAllocation d' = PaymentAllocation d @ [allocation_row t REALIZATION i x d]"
    "paid_realizations d' = map (\<lambda>(j, p). (j, if j = i then round_dec 2 (p + js_text x) else p)) (paid_realizations d)"
    "paid_receipts d' = paid_receipts d"
    using e by simp_all
qed

interpretation outcome: payable pay_receipt GOODS_RECEIPT paid_receipts paid_realizations
proof unfold_locales
  fix t i x d d'
  assume "pay_receipt t i x d = Inr d'"
  then obtain d1 where d1: "ins_PaymentAllocation (allocation_row t GOODS_RECEIPT i x d) (d\<lparr>next_uuid := Suc (next_uuid d)\<rparr>) = Inr d1"
    and u: "upd_GoodsReceipt (\<lambda>r. gr_id r = i)
      (\<lambda>r. r\<lparr>gr_paidAmount := round_dec 2 (gr_paidAmount r + js_text x)\<rparr>) d1 = Inr d'"
    by (auto simp: pay_receipt_def)
  note e = ins_PaymentAllocation_Inr[OF d1] upd_GoodsReceipt_paid[of i "\<lambda>p. round_dec 2 (p + js_text x)", OF u]
  show "PaymentAllocation d' = PaymentAllocation d @ [allocation_row t GOODS_RECEIPT i x d]"
    "paid_receipts d' = map (\<lambda>(j, p). (j, if j = i then round_dec 2 (p + js_text x) else p)) (paid_receipts d)"
    "paid_realizations d' = paid_realizations d"
    using e by simp_all
qed

section \<open>Reverting allocations\<close>

definition lowered :: "payment_allocation list \<Rightarrow> doc_type \<Rightarrow> (ident \<times> decimal) list \<Rightarrow> (ident \<times> decimal) list" where
  "lowered as ty = map (\<lambda>(i, p). (i, p - allocated as ty i))"

definition paid_on_grid :: "(ident \<times> decimal) list \<Rightarrow> bool" where
  "paid_on_grid ps \<longleftrightarrow> (\<forall>(i, p) \<in> set ps. on_grid 2 p)"

lemma lowered_Nil [simp]: "lowered [] ty ps = ps"
  by (simp add: lowered_def map_idI split_beta)

lemma lowered_lowered: "lowered bs ty (lowered as ty ps) = lowered (as @ bs) ty ps"
  by (auto simp: lowered_def)

lemma lowered_other: "pa_documentType a \<noteq> ty \<Longrightarrow> lowered [a] ty ps = ps"
  by (simp add: lowered_def map_idI split_beta)

lemma lowered_grid:
  "paid_on_grid ps \<Longrightarrow> \<forall>a \<in> set as. amount_ok (pa_amount a) \<Longrightarrow> paid_on_grid (lowered as ty ps)"
  using amount_ok_allocated[of as ty] by (fastforce simp: paid_on_grid_def lowered_def amount_ok_def)

lemma lower_one:
  assumes "paid_on_grid ps" "amount_ok (pa_amount a)" "pa_documentType a = ty"
  shows "map (\<lambda>(j, p). (j, if j = pa_documentId a then round_dec 2 (p - pa_amount a) else p)) ps = lowered [a] ty ps"
proof -
  have "round_dec 2 (p - pa_amount a) = p - pa_amount a" if "(j, p) \<in> set ps" for j p
    using assms that by (intro round_dec_id on_grid_diff) (auto simp: paid_on_grid_def amount_ok_def)
  with assms(3) show ?thesis by (auto simp: lowered_def)
qed

lemma revert_allocation_effect:
  assumes "revert_allocation a d = Inr d'" and "amount_ok (pa_amount a)"
    and "paid_on_grid (paid_realizations d)" "paid_on_grid (paid_receipts d)"
  shows "paid_realizations d' = lowered [a] REALIZATION (paid_realizations d) \<and>
    paid_receipts d' = lowered [a] GOODS_RECEIPT (paid_receipts d) \<and> PaymentAllocation d' = PaymentAllocation d"
proof (cases "pa_documentType a")
  case REALIZATION
  with assms(1) have u: "upd_Realization (\<lambda>r. rl_id r = pa_documentId a)
    (\<lambda>r. r\<lparr>rl_paidAmount := round_dec 2 (rl_paidAmount r - pa_amount a)\<rparr>) d = Inr d'"
    by (simp add: revert_allocation_def)
  note e = upd_Realization_paid[of "pa_documentId a" "\<lambda>p. round_dec 2 (p - pa_amount a)", OF u]
  with lower_one[OF assms(3,2) REALIZATION] REALIZATION show ?thesis by (simp add: lowered_other)
next
  case GOODS_RECEIPT
  with assms(1) have u: "upd_GoodsReceipt (\<lambda>r. gr_id r = pa_documentId a)
    (\<lambda>r. r\<lparr>gr_paidAmount := round_dec 2 (gr_paidAmount r - pa_amount a)\<rparr>) d = Inr d'"
    by (simp add: revert_allocation_def)
  note e = upd_GoodsReceipt_paid[of "pa_documentId a" "\<lambda>p. round_dec 2 (p - pa_amount a)", OF u]
  with lower_one[OF assms(4,2) GOODS_RECEIPT] GOODS_RECEIPT show ?thesis by (simp add: lowered_other)
qed (use assms(1) in \<open>simp_all add: revert_allocation_def lowered_other\<close>)

lemma revert_loop_effect:
  assumes "for_each revert_allocation as d = Inr d'" and "\<forall>a \<in> set as. amount_ok (pa_amount a)"
    and "paid_on_grid (paid_realizations d)" "paid_on_grid (paid_receipts d)"
  shows "paid_realizations d' = lowered as REALIZATION (paid_realizations d) \<and>
    paid_receipts d' = lowered as GOODS_RECEIPT (paid_receipts d) \<and> PaymentAllocation d' = PaymentAllocation d"
  using assms
proof (induction as arbitrary: d)
  case (Cons a as)
  from Cons.prems(1) obtain d1 where d1: "revert_allocation a d = Inr d1" "for_each revert_allocation as d1 = Inr d'"
    by auto
  have ok: "amount_ok (pa_amount a)" "\<forall>a \<in> set as. amount_ok (pa_amount a)" using Cons.prems(2) by auto
  note e = revert_allocation_effect[OF d1(1) ok(1) Cons.prems(3,4)]
  have "paid_on_grid (paid_realizations d1)" "paid_on_grid (paid_receipts d1)"
    using e ok(1) Cons.prems(3,4) lowered_grid[of _ "[a]"] by simp_all
  from Cons.IH[OF d1(2) ok(2) this] e show ?case by (simp add: lowered_lowered)
qed simp

definition document_keys :: "db \<Rightarrow> ident list \<times> ident list" where
  "document_keys d = (map fst (paid_realizations d), map fst (paid_receipts d))"

lemma document_keys_eq: "document_keys d = (map rl_id (Realization d), map gr_id (GoodsReceipt d))"
  by (simp add: document_keys_def paid_realizations_def paid_receipts_def comp_def)

lemma balanced_paid:
  assumes "balanced d"
  shows "paid_realizations d = map (\<lambda>i. (i, allocated (PaymentAllocation d) REALIZATION i)) (fst (document_keys d))"
    and "paid_receipts d = map (\<lambda>i. (i, allocated (PaymentAllocation d) GOODS_RECEIPT i)) (snd (document_keys d))"
  using assms by (auto simp: balanced_def document_keys_def intro!: map_idI[symmetric])

lemma balanced_grid:
  assumes "balanced d"
  shows "paid_on_grid (paid_realizations d)" "paid_on_grid (paid_receipts d)"
  using assms amount_ok_allocated[of "PaymentAllocation d"]
  by (fastforce simp: balanced_def paid_on_grid_def amount_ok_def)+

definition without :: "ident \<Rightarrow> payment_allocation list \<Rightarrow> payment_allocation list" where
  "without t = filter (\<lambda>a. pa_cashTransactionId a \<noteq> t)"

lemma allocated_without:
  "allocated (without t as) ty i = allocated as ty i - allocated (filter (\<lambda>a. pa_cashTransactionId a = t) as) ty i"
  using allocated_filter[of "\<lambda>a. pa_cashTransactionId a = t" as ty i] by (simp add: without_def)

lemma revert_allocations_effect:
  assumes "revert_allocations t d = Inr d'" and "balanced d"
  shows "balanced d'" and "PaymentAllocation d' = without t (PaymentAllocation d)"
    and "document_keys d' = document_keys d"
proof -
  from assms(1) obtain d1 where d1: "for_each revert_allocation (allocations_of t d) d = Inr d1"
    and d': "d' = d1\<lparr>PaymentAllocation := without t (PaymentAllocation d1)\<rparr>"
    by (auto simp: revert_allocations_def without_def)
  have ok: "\<forall>a \<in> set (allocations_of t d). amount_ok (pa_amount a)"
    using assms(2) by (auto simp: balanced_def allocations_of_def)
  note e = revert_loop_effect[OF d1 ok balanced_grid[OF assms(2)]]
  have rows: "PaymentAllocation d' = without t (PaymentAllocation d)" using e by (simp add: d')
  have paid: "paid_realizations d' = lowered (allocations_of t d) REALIZATION (paid_realizations d)"
    "paid_receipts d' = lowered (allocations_of t d) GOODS_RECEIPT (paid_receipts d)"
    using e by (simp_all add: d' paid_realizations_def paid_receipts_def)
  show "balanced d'" using assms(2)
    by (auto simp: balanced_def rows paid lowered_def allocated_without allocations_of_def) (auto simp: without_def)
  show "PaymentAllocation d' = without t (PaymentAllocation d)" by (rule rows)
  show "document_keys d' = document_keys d" by (simp add: document_keys_def paid lowered_def comp_def split_beta)
qed

lemma allocate_payment_effect:
  assumes "allocate_payment t type c amount d = Inr d'" and "balanced d"
  shows "balanced d'" and "without t (PaymentAllocation d') = without t (PaymentAllocation d)"
    and "document_keys d' = document_keys d"
proof -
  have "balanced d' \<and> without t (PaymentAllocation d') = without t (PaymentAllocation d) \<and>
    document_keys d' = document_keys d"
  proof -
    have "d' = d \<or> (\<exists>docs. allocate_loop (pay_realization t) docs amount d = Inr d') \<or>
        (\<exists>docs. allocate_loop (pay_receipt t) docs amount d = Inr d')"
      using assms(1) unfolding allocate_payment_def
      by (cases c; simp split: if_splits) blast+
    then consider "d' = d"
      | docs where "allocate_loop (pay_realization t) docs amount d = Inr d'"
      | docs where "allocate_loop (pay_receipt t) docs amount d = Inr d'"
      by blast
    then show ?thesis
    proof cases
      case 1
      with assms(2) show ?thesis by simp
    next
      case 2
      from income.loop_ledger[OF 2] assms(2) obtain rows where r: "PaymentAllocation d' = PaymentAllocation d @ rows"
        "paid_receipts d' = paid_receipts d"
        "\<forall>a \<in> set rows. amount_ok (pa_amount a) \<and> pa_documentType a = REALIZATION \<and> pa_cashTransactionId a = t"
        "\<forall>(i, p) \<in> set (paid_realizations d'). p = allocated (PaymentAllocation d') REALIZATION i"
        by (auto simp: balanced_def)
      have "allocated rows GOODS_RECEIPT i = 0" for i
        using r(3) by (auto simp: allocated_def filter_empty_conv)
      with r assms(2) income.loop_keys[OF 2] show ?thesis
        by (auto simp: balanced_def without_def filter_empty_conv document_keys_def)
    next
      case 3
      from outcome.loop_ledger[OF 3] assms(2) obtain rows where r: "PaymentAllocation d' = PaymentAllocation d @ rows"
        "paid_realizations d' = paid_realizations d"
        "\<forall>a \<in> set rows. amount_ok (pa_amount a) \<and> pa_documentType a = GOODS_RECEIPT \<and> pa_cashTransactionId a = t"
        "\<forall>(i, p) \<in> set (paid_receipts d'). p = allocated (PaymentAllocation d') GOODS_RECEIPT i"
        by (auto simp: balanced_def)
      have "allocated rows REALIZATION i = 0" for i
        using r(3) by (auto simp: allocated_def filter_empty_conv)
      with r assms(2) outcome.loop_keys[OF 3] show ?thesis
        by (auto simp: balanced_def without_def filter_empty_conv document_keys_def)
    qed
  qed
  then show "balanced d'" and "without t (PaymentAllocation d') = without t (PaymentAllocation d)"
    and "document_keys d' = document_keys d" by auto
qed

text \<open>Statements on the table of transactions leave the ledger alone.\<close>

lemma balanced_cong:
  "PaymentAllocation d' = PaymentAllocation d \<Longrightarrow> Realization d' = Realization d \<Longrightarrow> GoodsReceipt d' = GoodsReceipt d \<Longrightarrow>
   balanced d' \<longleftrightarrow> balanced d"
  by (simp add: balanced_def paid_realizations_def paid_receipts_def)

lemma ins_CashTransaction_rows:
  "ins_CashTransaction r d = Inr d' \<Longrightarrow> d' = d\<lparr>CashTransaction := CashTransaction d @ [r]\<rparr>"
  by (auto simp: ins_CashTransaction_def)

lemma upd_CashTransaction_rows:
  "upd_CashTransaction P f d = Inr d' \<Longrightarrow> d' = d\<lparr>CashTransaction := map_where P f (CashTransaction d)\<rparr>"
  by (auto simp: upd_CashTransaction_def update_table_Inr_iff)

lemma create_transaction_E:
  assumes "create_transaction_body user data d = Inr (row, d')"
  obtains type amount d1 where "td_type data = Some type" "td_amount data = Some amount" "ct_id row = next_uuid d"
    "d1 = d\<lparr>next_uuid := Suc (next_uuid d), CashTransaction := CashTransaction d @ [row]\<rparr>"
    "allocate_payment (ct_id row) type (td_counterpartyId data) amount d1 = Inr d'"
  using assms
  by (auto simp: create_transaction_body_def Let_def split: option.splits dest!: ins_CashTransaction_rows)

lemma create_keeps_balance:
  assumes "create_transaction_body user data d = Inr (row, d')" and "balanced d"
  shows "balanced d'" and "without (ct_id row) (PaymentAllocation d') = without (ct_id row) (PaymentAllocation d)"
    and "document_keys d' = document_keys d"
proof -
  from assms(1) obtain type amount d1 where d1: "d1 = d\<lparr>next_uuid := Suc (next_uuid d), CashTransaction := CashTransaction d @ [row]\<rparr>"
    and run: "allocate_payment (ct_id row) type (td_counterpartyId data) amount d1 = Inr d'"
    by (rule create_transaction_E)
  have b: "balanced d1" using assms(2) by (subst balanced_cong[of _ d]) (simp_all add: d1)
  have pa: "PaymentAllocation d1 = PaymentAllocation d" by (simp add: d1)
  have "document_keys d1 = document_keys d" by (simp add: document_keys_eq d1)
  then show "balanced d'" "without (ct_id row) (PaymentAllocation d') = without (ct_id row) (PaymentAllocation d)"
    "document_keys d' = document_keys d"
    using allocate_payment_effect[OF run b] pa by simp_all
qed

lemma update_keeps_balance:
  assumes "update_transaction_body i data d = Inr (row, d')" and "balanced d"
  shows "balanced d'"
proof -
  obtain d1 d2 type amount P f where d1: "revert_allocations i d = Inr d1"
    and d2: "upd_CashTransaction P f d1 = Inr d2"
    and run: "allocate_payment i type (td_counterpartyId data) amount d2 = Inr d'"
    using assms(1)
    by (simp add: update_transaction_body_def split: if_splits) blast
  have "balanced d1" by (rule revert_allocations_effect[OF d1 assms(2)])
  then have "balanced d2" using upd_CashTransaction_rows[OF d2] by (subst balanced_cong[of _ d1]) simp_all
  from allocate_payment_effect(1)[OF run this] show ?thesis .
qed

lemma delete_transaction_E:
  assumes "delete_transaction_body i d = Inr (u, d')"
  obtains d1 where "revert_allocations i d = Inr d1"
    "d' = d1\<lparr>CashTransaction := map_where (\<lambda>r. ct_id r = i) (\<lambda>r. r\<lparr>ct_isDeleted := True\<rparr>) (CashTransaction d1)\<rparr>"
  using assms by (auto simp: delete_transaction_body_def)

lemma delete_keeps_balance:
  assumes "delete_transaction_body i d = Inr (u, d')" and "balanced d"
  shows "balanced d'" and "PaymentAllocation d' = without i (PaymentAllocation d)"
    and "document_keys d' = document_keys d"
proof -
  from assms(1) obtain d1 where d1: "revert_allocations i d = Inr d1"
    and d': "d' = d1\<lparr>CashTransaction := map_where (\<lambda>r. ct_id r = i) (\<lambda>r. r\<lparr>ct_isDeleted := True\<rparr>) (CashTransaction d1)\<rparr>"
    by (rule delete_transaction_E)
  note e = revert_allocations_effect[OF d1 assms(2)]
  show "balanced d'" using e(1) by (subst balanced_cong[of _ d1]) (simp_all add: d')
  show "PaymentAllocation d' = without i (PaymentAllocation d)" using e(2) by (simp add: d')
  show "document_keys d' = document_keys d" using e(3) by (simp add: d' document_keys_eq)
qed

section \<open>What the payment handlers promise\<close>

lemma snd_reply: "snd (map_prod (catch_reply c f) id (transaction body d)) =
    (case body d of Inl e \<Rightarrow> d | Inr (x, d') \<Rightarrow> d')"
  by (simp add: transaction_def split: sum.split prod.split)

text \<open>
  C6: the ledger invariant. If the paid amount of every realization and goods receipt is the sum of its
  payment allocations, it still is after a cash transaction is created, changed or deleted, whatever the
  request holds and whether the handler succeeds or fails.
\<close>

theorem payments_keep_ledger:
  assumes "balanced d"
  shows "balanced (snd (create_transaction user data d)) \<and> balanced (snd (update_transaction i data d)) \<and>
    balanced (snd (delete_transaction i d))"
  unfolding create_transaction_def update_transaction_def delete_transaction_def snd_reply
  using assms create_keeps_balance(1) update_keeps_balance delete_keeps_balance(1)
  by (auto split: sum.split prod.split)

definition owed :: "ident \<Rightarrow> timestamp \<Rightarrow> decimal \<Rightarrow> realization" where
  "owed i date amount = \<lparr>rl_id = i, rl_number = ''1'', rl_date = date, rl_counterpartyId = Some 3,
     rl_warehouseId = None, rl_status = POSTED, rl_amount = amount, rl_currency = ''UAH'', rl_comment = None,
     rl_salesType = None, rl_orderId = None, rl_profit = 0, rl_paidAmount = 0, rl_createdBy = None,
     rl_isDeleted = False, rl_createdAt = 0, rl_updatedAt = 0\<rparr>"

definition debt_db :: db where
  "debt_db = empty_db\<lparr>Realization := [owed 21 10 50, owed 22 5 30],
     Cashbox := [\<lparr>cb_id = 8, cb_name = ''main'', cb_type = ''CASH'', cb_currency = ''UAH'', cb_organizationId = None\<rparr>],
     Counterparty := [named_counterparty 3 ''buyer'']\<rparr>"

definition payment :: "jsnum \<Rightarrow> transaction_data" where
  "payment x = \<lparr>td_date = Some 20, td_type = Some ''INCOME'', td_cashboxId = Some 8, td_amount = Some x,
     td_categoryId = None, td_counterpartyId = Some 3, td_comment = None\<rparr>"

lemma debt_db_facts:
  "balanced debt_db" "distinct (map rl_id (Realization debt_db))"
  "\<forall>r \<in> set (Realization debt_db). on_grid 2 (rl_amount r) \<and> rl_amount r \<le> 10 ^ 8 \<and> amount_ok (rl_paidAmount r)"
  "unpaid_realizations 3 debt_db = [(22, 30, 0), (21, 50, 0)]" "next_uuid debt_db = 1000"
  "PaymentAllocation debt_db = []"
  by (simp_all add: debt_db_def owed_def empty_db_def balanced_def paid_realizations_def paid_receipts_def
      amount_ok_def unpaid_realizations_def)

definition payment_row :: cash_transaction where
  "payment_row = \<lparr>ct_id = 1000, ct_date = 20, ct_number = generateDocNumber 0 [] 20, ct_type = ''INCOME'',
     ct_cashboxId = 8, ct_amount = 40, ct_categoryId = None, ct_counterpartyId = Some 3, ct_comment = None,
     ct_createdBy = None, ct_isDeleted = False\<rparr>"

definition paid_db :: db where
  "paid_db = debt_db\<lparr>Realization := [owed 21 10 50\<lparr>rl_paidAmount := 10\<rparr>, owed 22 5 30\<lparr>rl_paidAmount := 30\<rparr>],
     CashTransaction := [payment_row],
     PaymentAllocation :=
       [\<lparr>pa_id = 1001, pa_cashTransactionId = 1000, pa_documentId = 22, pa_documentType = REALIZATION, pa_amount = 30\<rparr>,
        \<lparr>pa_id = 1002, pa_cashTransactionId = 1000, pa_documentId = 21, pa_documentType = REALIZATION, pa_amount = 10\<rparr>],
     next_uuid := 1003\<rparr>"

lemma payment_runs: "create_transaction_body None (payment 40) debt_db = Inr (payment_row, paid_db)"
proof -
  have n: "js_text 30 = 30" "js_text 40 = 40" "js_text 10 = 10" "fl 30 = 30" "fl 50 = 50" "fl 10 = 10" by code_simp+
  let ?d = "debt_db\<lparr>next_uuid := 1001, CashTransaction := [payment_row]\<rparr>"
  have run: "create_transaction_body None (payment 40) debt_db =
      rbind (allocate_payment 1000 ''INCOME'' (Some 3) 40 ?d) (\<lambda>d2. Inr (payment_row, d2))"
    by (simp add: create_transaction_body_def payment_def ins_CashTransaction_def cash_transaction_ok_def
        first_error_def dec_fits_def Let_def n user_id_def not_null_def coalesce_def debt_db_def empty_db_def payment_row_def)
  have "unpaid_realizations 3 ?d = [(22, 30, 0), (21, 50, 0)]"
    using debt_db_facts(4) by (simp add: unpaid_realizations_def)
  then have "allocate_payment 1000 ''INCOME'' (Some 3) 40 ?d = Inr paid_db"
    by (simp add: allocate_payment_def pay_realization_def allocation_row_def ins_PaymentAllocation_def
        upd_Realization_def update_table_def realization_ok_def first_error_def dec_fits_def debt_db_def paid_db_def
        empty_db_def owed_def js_sub_def js_number_def n Let_def payment_row_def)
  with run show ?thesis by simp
qed

theorem payments_keep_ledger_witness: "balanced (snd (create_transaction None (payment 40) debt_db))"
  using payments_keep_ledger[OF debt_db_facts(1)] by blast

text \<open>An unpaid sale, as the SELECT of the handler describes it, and what is still owed on it.\<close>

definition open_debt :: "ident \<Rightarrow> realization \<Rightarrow> bool" where
  "open_debt c r \<longleftrightarrow> rl_counterpartyId r = Some c \<and> rl_status r = POSTED \<and> rl_paidAmount r < rl_amount r"

definition owing :: "realization \<Rightarrow> decimal" where
  "owing r = rl_amount r - rl_paidAmount r"

definition shares :: "ident \<Rightarrow> decimal \<Rightarrow> db \<Rightarrow> realization \<Rightarrow> decimal" where
  "shares c R d r = (case payment_map (unpaid_realizations c d) R (rl_id r) of None \<Rightarrow> 0 | Some t \<Rightarrow> t)"

lemma allocated_pairs:
  "\<forall>a \<in> set rows. pa_documentType a = ty \<Longrightarrow>
     allocated rows ty i = sum_list (map snd (filter (\<lambda>x. fst x = i) (map allocation_pair rows)))"
  by (induction rows) (auto simp: allocation_pair_def)

lemma sum_snd_map_of:
  "distinct (map fst ps) \<Longrightarrow>
     sum_list (map snd (filter (\<lambda>x. fst x = i) ps)) = (case map_of ps i of None \<Rightarrow> (0::rat) | Some t \<Rightarrow> t)"
proof (induction ps)
  case (Cons p ps)
  have "filter (\<lambda>x. fst x = i) ps = []" if "fst p = i"
    using Cons.prems that by (auto simp: filter_empty_conv image_iff)
  with Cons show ?case by (cases p) auto
qed simp

lemma map_of_zip_prefix:
  assumes "length ks = length ts" "distinct ks" "\<forall>t \<in> set (drop m ts). t = (0::rat)"
  shows "(case map_of (zip (take m ks) ts) i of None \<Rightarrow> 0 | Some t \<Rightarrow> t) =
    (case map_of (zip ks ts) i of None \<Rightarrow> 0 | Some t \<Rightarrow> t)"
proof -
  have "zip ks ts = zip (take m ks) (take m ts) @ zip (drop m ks) (drop m ts)"
    by (simp add: zip_append1[symmetric] take_zip[symmetric] drop_zip[symmetric])
  moreover have "zip (take m ks) (take m ts) = zip (take m ks) ts" using assms(1)
    by (intro nth_equalityI) auto
  moreover have "(case map_of (zip (drop m ks) (drop m ts)) i of None \<Rightarrow> 0 | Some t \<Rightarrow> t) = 0"
    using assms(3) by (auto split: option.split dest!: map_of_SomeD set_zip_rightD)
  ultimately show ?thesis
    using assms(3) by (auto simp: map_add_def split: option.split dest!: map_of_SomeD set_zip_rightD)
qed

lemma share_of_row:
  assumes "map allocation_pair rows = zip (map fst (take m docs)) (plan_of docs R)"
    and "\<forall>x \<in> set (drop m (plan_of docs R)). x = 0" "distinct (map fst docs)"
    and "\<forall>a \<in> set rows. pa_documentType a = ty"
  shows "allocated rows ty i = (case payment_map docs R i of None \<Rightarrow> 0 | Some t \<Rightarrow> t)"
proof -
  have "distinct (map fst (map allocation_pair rows))"
    unfolding assms(1) using assms(3) by (simp add: map_fst_zip_take take_map[symmetric])
  from sum_snd_map_of[OF this] allocated_pairs[OF assms(4)]
  have "allocated rows ty i = (case map_of (zip (take m (map fst docs)) (plan_of docs R)) i of None \<Rightarrow> 0 | Some t \<Rightarrow> t)"
    by (simp add: assms(1) take_map)
  also have "\<dots> = (case payment_map docs R i of None \<Rightarrow> 0 | Some t \<Rightarrow> t)"
    unfolding payment_map_def using assms(2,3) by (intro map_of_zip_prefix) simp_all
  finally show ?thesis .
qed

text \<open>The sales in the order of the SELECT; the share of the k-th is the k-th entry of the exact plan.\<close>

definition debts :: "ident \<Rightarrow> db \<Rightarrow> realization list" where
  "debts c d = sort_key rl_date (filter (open_debt c) (Realization d))"

lemma unpaid_debts:
  "unpaid_realizations c d = map (\<lambda>r. (rl_id r, rl_amount r, rl_paidAmount r)) (debts c d)"
  by (simp add: unpaid_realizations_def debts_def open_debt_def[abs_def])

lemma plan_debts: "plan_of (unpaid_realizations c d) R = fifo_take (map owing (debts c d)) R"
  by (simp add: plan_of_def unpaid_debts debt_of_def owing_def[abs_def] comp_def)

lemma set_debts [simp]: "r \<in> set (debts c d) \<longleftrightarrow> r \<in> set (Realization d) \<and> open_debt c r"
  by (auto simp: debts_def)

lemma distinct_debts: "distinct (map rl_id (Realization d)) \<Longrightarrow> distinct (map rl_id (debts c d))"
  by (auto simp: debts_def distinct_map intro: inj_on_subset)

lemma shares_nth:
  assumes "distinct (map rl_id (Realization d))" "k < length (debts c d)"
  shows "shares c R d (debts c d ! k) = fifo_take (map owing (debts c d)) R ! k"
proof -
  have "map_of (zip (map rl_id (debts c d)) (fifo_take (map owing (debts c d)) R)) (map rl_id (debts c d) ! k) =
      Some (fifo_take (map owing (debts c d)) R ! k)"
    using assms distinct_debts by (intro map_of_zip_nth) auto
  then show ?thesis using assms(2)
    by (simp add: shares_def payment_map_def plan_debts, simp add: unpaid_debts comp_def)
qed

lemma shares_other:
  assumes "distinct (map rl_id (Realization d))" "r \<in> set (Realization d)" "\<not> open_debt c r"
  shows "shares c R d r = 0"
proof -
  have "rl_id r \<notin> set (map rl_id (debts c d))"
    using assms by (auto simp: distinct_map dest: inj_onD)
  then have none: "map_of (zip (map rl_id (debts c d)) (fifo_take (map owing (debts c d)) R)) (rl_id r) = None"
    by (simp add: map_of_zip_is_None)
  show ?thesis by (simp add: shares_def payment_map_def plan_debts, simp add: unpaid_debts comp_def none)
qed

lemma owing_pos: "r \<in> set (debts c d) \<Longrightarrow> 0 \<le> owing r"
  by (simp add: open_debt_def owing_def)

lemma shares_bounds:
  assumes "distinct (map rl_id (Realization d))" "0 \<le> R" "r \<in> set (Realization d)" "open_debt c r"
  shows "0 \<le> shares c R d r \<and> shares c R d r \<le> owing r"
proof -
  from assms(3,4) obtain k where k: "k < length (debts c d)" "r = debts c d ! k" by (metis set_debts in_set_conv_nth)
  have "\<forall>q \<in> set (map owing (debts c d)). 0 \<le> q" using owing_pos by auto
  from fifo_take_bounds[OF assms(2) this] k(1)
  have "0 \<le> fifo_take (map owing (debts c d)) R ! k \<and> fifo_take (map owing (debts c d)) R ! k \<le> owing r"
    by (auto simp: k(2) dest!: list_all2_nthD[where p = k])
  then show ?thesis unfolding k(2) shares_nth[OF assms(1) k(1)] .
qed

lemma shares_oldest_first:
  assumes "distinct (map rl_id (Realization d))" "0 \<le> R" "r \<in> set (debts c d)" "s \<in> set (debts c d)"
    and "rl_date r < rl_date s" "0 < shares c R d s"
  shows "shares c R d r = owing r"
proof -
  from assms(3,4) obtain i j where ij: "i < length (debts c d)" "r = debts c d ! i"
      "j < length (debts c d)" "s = debts c d ! j" by (metis in_set_conv_nth)
  have "sorted (map rl_date (debts c d))" by (simp add: debts_def)
  then have "i < j" using sorted_nth_mono[of "map rl_date (debts c d)" j i] assms(5) ij
    by (fastforce simp: not_less[symmetric])
  moreover have "\<forall>q \<in> set (map owing (debts c d)). 0 \<le> q" using owing_pos by auto
  ultimately have "fifo_take (map owing (debts c d)) R ! i = map owing (debts c d) ! i"
    using fifo_take_oldest_first[OF assms(2), of "map owing (debts c d)" i j] assms(6) ij
    by (simp add: shares_nth[OF assms(1)])
  then show ?thesis using ij(1) by (simp add: ij(2) shares_nth[OF assms(1)])
qed

lemma sum_sort_key: "sum_list (map f (sort_key k xs)) = (\<Sum>x\<leftarrow>xs. f x :: rat)"
proof -
  have "sum_list (map f (insort_key k x ys)) = f x + sum_list (map f ys)" for x ys by (induction ys) auto
  then show ?thesis by (induction xs) (simp_all add: sort_key_simps)
qed

lemma shares_sum:
  assumes "distinct (map rl_id (Realization d))" "0 \<le> R"
  shows "sum_list (map (shares c R d) (Realization d)) =
    min (sum_list (map owing (filter (open_debt c) (Realization d)))) R"
proof -
  have "sum_list (map (shares c R d) (Realization d)) = sum_list (map (shares c R d) (filter (open_debt c) (Realization d)))"
    using shares_other[OF assms(1)] by (intro sum_list_map_filter[symmetric]) auto
  also have "\<dots> = sum_list (map (shares c R d) (debts c d))"
    by (simp add: debts_def sum_sort_key)
  also have "map (shares c R d) (debts c d) = fifo_take (map owing (debts c d)) R"
    by (rule nth_equalityI) (simp_all add: shares_nth[OF assms(1)])
  also have "sum_list \<dots> = min (sum_list (map owing (debts c d))) R"
    using fifo_take_bounds[OF assms(2), of "map owing (debts c d)"] owing_pos[of _ c d] by auto
  also have "sum_list (map owing (debts c d)) = sum_list (map owing (filter (open_debt c) (Realization d)))"
    by (simp add: debts_def sum_sort_key)
  finally show ?thesis .
qed


text \<open>
  C7: an incoming payment pays the oldest debts first. Take a posted realization of the counterparty that is not
  paid in full as a debt. After an INCOME transaction of R is created, the paid amount of a debt lies between
  what it was and the amount of the document, and every other document keeps its own; if anything was paid on a debt,
  every debt with an earlier date is paid in full; all in all R is paid out or, if that is less, every debt; and the new
  allocation rows, all of this transaction, add up for each document to what its paid amount rose by. The handler
  computes in binary64; stored amounts have two decimals and are at most 100 million, and at most
  \<open>max_documents\<close> debts are open.
\<close>

theorem income_pays_oldest_debts:
  assumes "create_transaction_body user data d = Inr (row, d')"
    and "td_type data = Some ''INCOME''" "td_counterpartyId data = Some c" "td_amount data = Some (js_number R)"
    and "on_grid 2 R" "0 < R" "R \<le> 10 ^ 8" and "distinct (map rl_id (Realization d))"
    and "\<forall>r \<in> set (Realization d). on_grid 2 (rl_amount r) \<and> rl_amount r \<le> 10 ^ 8 \<and> amount_ok (rl_paidAmount r)"
    and "length (filter (open_debt c) (Realization d)) \<le> max_documents"
  shows "\<exists>paid rows. paid_realizations d' = map (\<lambda>r. (rl_id r, paid r)) (Realization d) \<and>
    paid_receipts d' = paid_receipts d \<and> PaymentAllocation d' = PaymentAllocation d @ rows \<and>
    (\<forall>r \<in> set (Realization d). if open_debt c r then rl_paidAmount r \<le> paid r \<and> paid r \<le> rl_amount r
       else paid r = rl_paidAmount r) \<and>
    (\<forall>r \<in> set (Realization d). \<forall>s \<in> set (Realization d). open_debt c r \<and> open_debt c s \<and> rl_date r < rl_date s \<and>
       rl_paidAmount s < paid s \<longrightarrow> paid r = rl_amount r) \<and>
    (\<Sum>r\<leftarrow>Realization d. paid r - rl_paidAmount r) = min (\<Sum>r\<leftarrow>filter (open_debt c) (Realization d). owing r) R \<and>
    (\<forall>r \<in> set (Realization d). allocated rows REALIZATION (rl_id r) = paid r - rl_paidAmount r) \<and>
    (\<forall>a \<in> set rows. pa_cashTransactionId a = ct_id row \<and> pa_documentType a = REALIZATION)"
proof -
  let ?docs = "unpaid_realizations c d"
  let ?paid = "\<lambda>r. rl_paidAmount r + shares c R d r"
  from assms(1) obtain type amount d1 where d1: "td_type data = Some type" "td_amount data = Some amount"
      "d1 = d\<lparr>next_uuid := Suc (next_uuid d), CashTransaction := CashTransaction d @ [row]\<rparr>"
    and run: "allocate_payment (ct_id row) type (td_counterpartyId data) amount d1 = Inr d'"
    by (rule create_transaction_E)
  have same: "unpaid_realizations c d1 = ?docs" "paid_realizations d1 = paid_realizations d"
    "PaymentAllocation d1 = PaymentAllocation d" "paid_receipts d1 = paid_receipts d"
    by (simp_all add: d1(3) unpaid_realizations_def paid_realizations_def paid_receipts_def)
  have "0 < js_number R" using fl_pos[OF assms(6)] by (simp add: js_number_def)
  with run d1(1,2) assms(2-4) have loop: "allocate_loop (pay_realization (ct_id row)) ?docs (js_number R) d1 = Inr d'"
    by (simp add: allocate_payment_def same(1))
  have R: "0 \<le> R" using assms(6) by simp
  have ok: "\<forall>x \<in> set ?docs. debt_ok x" using assms(9)
    by (auto simp: unpaid_debts open_debt_def debt_ok_def amount_ok_def)
  have dis: "distinct (map fst ?docs)" using distinct_debts[OF assms(8)] by (simp add: unpaid_debts comp_def)
  have keys: "\<forall>(i, a, p) \<in> set ?docs. (i, p) \<in> set (paid_realizations d1)"
    by (auto simp: d1(3) paid_realizations_def unpaid_debts)
  have dis': "distinct (map fst (paid_realizations d1))" using assms(8) by (simp add: d1(3) paid_realizations_def comp_def)
  have near: "pay_near 0 (js_number R) R" using assms(6,7) by (intro pay_near_start) auto
  have k: "0 + length ?docs \<le> max_documents" using assms(10) by (simp add: unpaid_debts debts_def)
  note fifo = income.loop_fifo[OF loop near k assms(5) R assms(7) ok dis keys dis']
  from fifo obtain m rows where r: "PaymentAllocation d' = PaymentAllocation d @ rows"
    "map allocation_pair rows = zip (map fst (take m ?docs)) (plan_of ?docs R)"
    "\<forall>x \<in> set (drop m (plan_of ?docs R)). x = 0"
    "\<forall>a \<in> set rows. pa_cashTransactionId a = ct_id row \<and> pa_documentType a = REALIZATION"
    "paid_realizations d' = raised (payment_map ?docs R) (paid_realizations d)" "paid_receipts d' = paid_receipts d"
    unfolding same by (elim exE conjE) rule
  have "paid_realizations d' = map (\<lambda>r. (rl_id r, ?paid r)) (Realization d)"
    unfolding r(5) by (simp add: raised_def paid_realizations_def shares_def)
  moreover have "allocated rows REALIZATION (rl_id s) = ?paid s - rl_paidAmount s" for s
    using share_of_row[OF r(2,3) dis, of REALIZATION "rl_id s"] r(4) by (simp add: shares_def)
  moreover have "if open_debt c s then rl_paidAmount s \<le> ?paid s \<and> ?paid s \<le> rl_amount s else ?paid s = rl_paidAmount s"
    if "s \<in> set (Realization d)" for s
    using shares_bounds[OF assms(8) R that, of c] shares_other[OF assms(8) that, of c R] by (auto simp: owing_def)
  moreover have "?paid s = rl_amount s" if "s \<in> set (Realization d)" "s' \<in> set (Realization d)" "open_debt c s" "open_debt c s'"
      "rl_date s < rl_date s'" "rl_paidAmount s' < ?paid s'" for s s'
    using shares_oldest_first[OF assms(8) R, of s c s'] that by (simp add: owing_def)
  moreover have "(\<Sum>r\<leftarrow>Realization d. ?paid r - rl_paidAmount r) = min (\<Sum>r\<leftarrow>filter (open_debt c) (Realization d). owing r) R"
    using shares_sum[OF assms(8) R, of c] by simp
  ultimately show ?thesis using r(1,4,6) by (intro exI[of _ ?paid] exI[of _ rows]) blast
qed


theorem income_pays_oldest_debts_witness:
  "create_transaction_body None (payment 40) debt_db = Inr (payment_row, paid_db) \<and>
     paid_realizations paid_db = [(21, 10), (22, 30)]"
proof -
  have R: "js_number 40 = 40" by (simp add: js_number_def) code_simp
  have owed: "rl_id (owed i t a) = i" "rl_date (owed i t a) = t" "rl_amount (owed i t a) = a" "rl_paidAmount (owed i t a) = 0"
    "open_debt 3 (owed i t a) \<longleftrightarrow> 0 < a" for i t a
    by (simp_all add: owed_def open_debt_def)
  have two: "filter (open_debt 3) (Realization debt_db) = [owed 21 10 50, owed 22 5 30]"
    "Realization debt_db = [owed 21 10 50, owed 22 5 30]"
    by (simp_all add: debt_db_def owed)
  have pre: "td_type (payment 40) = Some ''INCOME''" "td_counterpartyId (payment 40) = Some 3"
    "td_amount (payment 40) = Some (js_number 40)" "on_grid 2 40" "(0::rat) < 40" "(40::rat) \<le> 10 ^ 8"
    "length (filter (open_debt 3) (Realization debt_db)) \<le> max_documents"
    by (simp_all add: payment_def R two max_documents_def)
  from income_pays_oldest_debts[OF payment_runs pre(1-6) debt_db_facts(2,3) pre(7)]
  obtain paid where paid: "paid_realizations paid_db = map (\<lambda>r. (rl_id r, paid r)) (Realization debt_db)"
    "\<forall>r \<in> set (Realization debt_db). if open_debt 3 r then rl_paidAmount r \<le> paid r \<and> paid r \<le> rl_amount r
       else paid r = rl_paidAmount r"
    "\<forall>r \<in> set (Realization debt_db). \<forall>s \<in> set (Realization debt_db). open_debt 3 r \<and> open_debt 3 s \<and>
       rl_date r < rl_date s \<and> rl_paidAmount s < paid s \<longrightarrow> paid r = rl_amount r"
    "(\<Sum>r\<leftarrow>Realization debt_db. paid r - rl_paidAmount r) =
       min (\<Sum>r\<leftarrow>filter (open_debt 3) (Realization debt_db). owing r) 40"
    by blast
  have "paid (owed 21 10 50) + paid (owed 22 5 30) = 40" using paid(4) by (simp add: two owing_def owed)
  moreover have "paid (owed 22 5 30) \<le> 30" using paid(2) by (simp add: two owed)
  moreover have "0 < paid (owed 21 10 50) \<longrightarrow> paid (owed 22 5 30) = 30"
    using paid(3) by (simp add: two owed)
  ultimately have "paid (owed 21 10 50) = 10 \<and> paid (owed 22 5 30) = 30" by linarith
  then show ?thesis using payment_runs by (simp add: paid(1) two owed)
qed

text \<open>
  C35: deleting a cash transaction undoes it. If the paid amounts are the sums of the allocations and no allocation refers to
  the key the new transaction gets,
  creating a transaction and deleting it leaves every allocation and the paid amount of every realization and
  every goods receipt as before.
\<close>

theorem create_then_delete_transaction:
  assumes "create_transaction_body user data d = Inr (row, d1)" and "delete_transaction_body (ct_id row) d1 = Inr (u, d2)"
    and "balanced d" and "\<forall>a \<in> set (PaymentAllocation d). pa_cashTransactionId a \<noteq> next_uuid d"
  shows "PaymentAllocation d2 = PaymentAllocation d \<and> paid_realizations d2 = paid_realizations d \<and>
    paid_receipts d2 = paid_receipts d"
proof -
  note c = create_keeps_balance[OF assms(1,3)]
  note e = delete_keeps_balance[OF assms(2) c(1)]
  have "ct_id row = next_uuid d" by (rule create_transaction_E[OF assms(1)])
  then have "without (ct_id row) (PaymentAllocation d) = PaymentAllocation d"
    using assms(4) by (simp add: without_def)
  then have "PaymentAllocation d2 = PaymentAllocation d" using c(2) e(2) by simp
  moreover have "document_keys d2 = document_keys d" using c(3) e(3) by simp
  ultimately show ?thesis using balanced_paid[OF e(1)] balanced_paid[OF assms(3)] by simp
qed

theorem create_then_delete_transaction_witness:
  "\<exists>d2. delete_transaction_body 1000 paid_db = Inr ((), d2) \<and> paid_realizations paid_db = [(21, 10), (22, 30)] \<and>
     paid_realizations d2 = [(21, 0), (22, 0)]"
proof -
  have "\<exists>d2. delete_transaction_body 1000 paid_db = Inr ((), d2)"
    by (simp add: delete_transaction_body_def revert_allocations_def allocations_of_def revert_allocation_def
        paid_db_def debt_db_def empty_db_def owed_def upd_Realization_def update_table_def realization_ok_def
        first_error_def dec_fits_def)
  then obtain d2 where d2: "delete_transaction_body 1000 paid_db = Inr ((), d2)" by blast
  have "ct_id payment_row = 1000" by (simp add: payment_row_def)
  from create_then_delete_transaction[OF payment_runs d2[folded this] debt_db_facts(1)]
  have "paid_realizations d2 = paid_realizations debt_db" by (simp add: debt_db_facts(6))
  then show ?thesis using d2 by (simp add: paid_realizations_def paid_db_def debt_db_def owed_def)
qed

end
