(* ===== verification/Server.thy ===== *)
theory Server
  imports Auth Reposting
begin

text \<open>
  The chain of \<open>src/index.ts\<close>: the static files, the maintenance lock \<open>src/middleware/lockMiddleware.ts\<close>, the
  routers in the order of their mounts, each with the guard of its \<open>router.use\<close>, the health check and the catch-all
  route. The path matching of Express is the parameter \<open>matches\<close>: whether a mount path applies to the path of a
  request.
\<close>

section \<open>The lock\<close>

definition starts_with :: "string \<Rightarrow> string \<Rightarrow> bool" where
  "starts_with s p \<longleftrightarrow> take (length p) s = p"

definition protected_paths :: "string list" where
  "protected_paths = [''/api/realizations'', ''/api/goods-receipt'', ''/api/buyer-returns'',
     ''/api/price-documents'', ''/api/orders'']"

text \<open>None is \<open>next()\<close>, Some is the body of the 503 answer.\<close>

definition lockMiddleware :: "request \<Rightarrow> db \<Rightarrow> (string \<times> string) option" where
  "lockMiddleware rq d =
     (if List.member [''POST'', ''PUT'', ''PATCH'', ''DELETE''] (rq_method rq) \<and>
         list_ex (starts_with (rq_path rq)) protected_paths
      then (case DocumentLock d of
          None \<Rightarrow> None
        | Some l \<Rightarrow> if dl_isLocked l
            then Some (''System is currently locked for maintenance'',
              coalesce (non_empty (dl_reason l)) ''Document reposting in progress. Please wait.'')
            else None)
      else None)"

section \<open>The mounts\<close>

datatype router = AuthR | SyncR | UsersR | AdminR | RepostR | PriceTypesR | PriceDocumentsR | CounterpartiesR
  | OrganizationR | RealizationsR | GoodsReceiptR | BuyerReturnsR | SupplierReturnsR | ReportsR | FinanceR
  | CollectionScheduleR | PickingListR

definition mounts :: "(string \<times> router) list" where
  "mounts = [(''/api/auth'', AuthR), (''/api'', SyncR), (''/api/admin/users'', UsersR), (''/api/admin'', AdminR),
     (''/api/service/repost-documents'', RepostR), (''/api/admin'', PriceTypesR),
     (''/api/price-documents'', PriceDocumentsR), (''/api'', CounterpartiesR),
     (''/api/organization'', OrganizationR), (''/api/realizations'', RealizationsR),
     (''/api/goods-receipt'', GoodsReceiptR), (''/api/buyer-returns'', BuyerReturnsR),
     (''/api/supplier-returns'', SupplierReturnsR), (''/api/reports'', ReportsR), (''/api/finance'', FinanceR),
     (''/api/collection-schedule'', CollectionScheduleR), (''/api/picking-list'', PickingListR)]"

datatype guard = GUser | GAdmin | GUserAdmin

text \<open>
  \<open>router.use(...)\<close>: runs for every request that reaches the router, handled by it or not. (The route
  \<open>/me/preferences\<close> of the users router stands before its guard and asks for \<open>userAuth\<close>.)
\<close>

fun router_guard :: "router \<Rightarrow> guard option" where
  "router_guard UsersR = Some GUserAdmin"
| "router_guard AdminR = Some GAdmin"
| "router_guard PriceTypesR = Some GAdmin"
| "router_guard CounterpartiesR = Some GAdmin"
| "router_guard BuyerReturnsR = Some GAdmin"
| "router_guard SupplierReturnsR = Some GAdmin"
| "router_guard CollectionScheduleR = Some GAdmin"
| "router_guard GoodsReceiptR = Some GUser"
| "router_guard ReportsR = Some GUser"
| "router_guard PickingListR = Some GUser"
| "router_guard _ = None"

text \<open>The guard that every route of the router names.\<close>

fun route_guard :: "router \<Rightarrow> guard option" where
  "route_guard RepostR = Some GUser"
| "route_guard OrganizationR = Some GUser"
| "route_guard RealizationsR = Some GUser"
| "route_guard FinanceR = Some GUser"
| "route_guard _ = None"

text \<open>A guard sets \<open>req.user\<close> or answers the request.\<close>

definition check ::
  "(string \<Rightarrow> claims option) \<Rightarrow> string option \<Rightarrow> guard option \<Rightarrow> request \<Rightarrow> db \<Rightarrow> claims option \<Rightarrow> claims option reply" where
  "check verify secret g rq d user = (case g of
     None \<Rightarrow> reply_ok 200 user
   | Some GUser \<Rightarrow> map_prod id (map_sum id Some) (userAuth verify rq d)
   | Some GAdmin \<Rightarrow> map_prod id (map_sum id Some) (adminAuth verify secret rq d)
   | Some GUserAdmin \<Rightarrow> (case userAuth verify rq d of
       (_, Inr c) \<Rightarrow> if requireAdmin c then reply_ok 200 (Some c)
         else reply_error 403 (Text ''Access denied: Requires admin'')
     | (code, Inl e) \<Rightarrow> (code, Inl e)))"

text \<open>The way of a request to a route of the router \<open>target\<close>, with the user it carries when it gets there.\<close>

fun pass ::
  "(string \<Rightarrow> string \<Rightarrow> bool) \<Rightarrow> (guard option \<Rightarrow> claims option \<Rightarrow> claims option reply) \<Rightarrow>
   (string \<times> router) list \<Rightarrow> router \<Rightarrow> string \<Rightarrow> claims option \<Rightarrow> claims option reply" where
  "pass matches chk [] target path user = reply_error 404 (Text ''API Endpoint not found'')"
| "pass matches chk ((q, r) # ms) target path user =
     (if matches q path
      then (case chk (router_guard r) user of
          (code, Inl e) \<Rightarrow> (code, Inl e)
        | (_, Inr user') \<Rightarrow>
            if r = target then chk (route_guard r) user' else pass matches chk ms target path user')
      else pass matches chk ms target path user)"

definition admitted ::
  "(string \<Rightarrow> claims option) \<Rightarrow> string option \<Rightarrow> (string \<Rightarrow> string \<Rightarrow> bool) \<Rightarrow> router \<Rightarrow> request \<Rightarrow> db \<Rightarrow>
   claims option reply" where
  "admitted verify secret matches target rq d =
     pass matches (\<lambda>g. check verify secret g rq d) mounts target (rq_path rq) None"

section \<open>Who gets where\<close>

lemma pass_guard:
  assumes "pass matches chk (xs @ (q, r) # ys) target path user = (200, Inr user')"
    and "target \<notin> snd ` set xs" and "matches q path"
  shows "\<exists>u u'. snd (chk (router_guard r) u) = Inr u'"
  using assms(1,2)
proof (induction xs arbitrary: user)
  case Nil
  then have "snd (chk (router_guard r) user) \<noteq> Inl e" for e
    using assms(3) by (cases "chk (router_guard r) user") auto
  then show ?case by (cases "snd (chk (router_guard r) user)") auto
next
  case (Cons x xs)
  then obtain q' r' where x: "x = (q', r')" by (cases x) auto
  with Cons.prems have "r' \<noteq> target" by auto
  with Cons.prems(1) x obtain u where "pass matches chk (xs @ (q, r) # ys) target path u = (200, Inr user')"
    by (auto split: if_splits prod.splits sum.splits)
  from Cons.IH[OF this] Cons.prems(2) show ?case by simp
qed

lemma check_admin_Inr:
  "snd (check verify secret (Some GAdmin) rq d u) = Inr u' \<Longrightarrow> \<exists>c. adminAuth verify secret rq d = (200, Inr c)"
  by (auto simp: check_def adminAuth_def legacy_auth_def reply_ok_def reply_error_def
      split: option.splits if_splits)

lemma admitted_admin:
  assumes "admitted verify secret matches target rq d = (200, Inr user)" and "matches ''/api'' (rq_path rq)"
    and "target \<in> {CounterpartiesR, OrganizationR, RealizationsR, GoodsReceiptR, BuyerReturnsR, SupplierReturnsR,
      ReportsR, FinanceR, CollectionScheduleR, PickingListR}"
  shows "\<exists>c. adminAuth verify secret rq d = (200, Inr c)"
proof -
  have split: "mounts = take 7 mounts @ (''/api'', CounterpartiesR) # drop 8 mounts"
    and early: "snd ` set (take 7 mounts) = {AuthR, SyncR, UsersR, AdminR, RepostR, PriceTypesR, PriceDocumentsR}"
    by (simp_all add: mounts_def)
  from assms(3) have "target \<notin> snd ` set (take 7 mounts)" unfolding early by blast
  moreover have "pass matches (\<lambda>g. check verify secret g rq d)
      (take 7 mounts @ (''/api'', CounterpartiesR) # drop 8 mounts) target (rq_path rq) None = (200, Inr user)"
    using assms(1) unfolding split[symmetric] admitted_def .
  ultimately obtain u u' where "snd (check verify secret (router_guard CounterpartiesR) rq d u) = Inr u'"
    using pass_guard assms(2) by blast
  then show ?thesis using check_admin_Inr by simp
qed

text \<open>
  The router of the counterparties is mounted at \<open>/api\<close>, so its \<open>router.use(adminAuth)\<close> stands before
  every router mounted after it: no request reaches the realizations, receipts, returns, reports, finance or
  organization routes unless it passes \<open>adminAuth\<close>, although most of those routes ask for \<open>userAuth\<close> only.
\<close>

theorem later_routers_need_admin:
  assumes "admitted verify secret matches target rq d = (200, Inr user)" and "matches ''/api'' (rq_path rq)"
    and "target \<in> {CounterpartiesR, OrganizationR, RealizationsR, GoodsReceiptR, BuyerReturnsR, SupplierReturnsR,
      ReportsR, FinanceR, CollectionScheduleR, PickingListR}"
  shows "\<exists>c. adminAuth verify secret rq d = (200, Inr c)"
  using assms by (rule admitted_admin)

definition under :: "string \<Rightarrow> string \<Rightarrow> bool" where
  "under q p \<longleftrightarrow> starts_with p q"

lemma manager_auth:
  "adminAuth (\<lambda>_. Some forged) None (bearer ''t'') staff_db = (200, Inr (refresh_claims staff_db forged))"
  "userAuth (\<lambda>_. Some forged) (bearer ''t'') staff_db = (200, Inr (refresh_claims staff_db forged))"
proof -
  have known: "tk_id forged = Some 3" "find_row usr_id 3 (Users staff_db) = Some manager"
    by (simp_all add: forged_def admin_def manager_def)
  have role: "tk_role (refresh_claims staff_db forged) = Some ''manager''"
    using refresh_known(1)[OF known] by (simp add: manager_def)
  have "bearer_token (bearer ''t'') = Some ''t''" "is_bearer (rq_authorization (bearer ''t''))"
    by (simp_all add: bearer_def is_bearer_def bearer_token_def second_word_def non_empty_def)
  then show "adminAuth (\<lambda>_. Some forged) None (bearer ''t'') staff_db = (200, Inr (refresh_claims staff_db forged))"
    "userAuth (\<lambda>_. Some forged) (bearer ''t'') staff_db = (200, Inr (refresh_claims staff_db forged))"
    using role by (simp_all add: adminAuth_def userAuth_def reply_ok_def)
qed

lemma bearer_path: "rq_path (bearer ''t'') = ''/api/realizations''"
  by (simp add: bearer_def)

lemma manager_admitted:
  "admitted (\<lambda>_. Some forged) None under RealizationsR (bearer ''t'') staff_db =
     (200, Inr (Some (refresh_claims staff_db forged)))"
  by (simp add: admitted_def mounts_def under_def starts_with_def bearer_path check_def manager_auth reply_ok_def)

theorem later_routers_need_admin_witness:
  "\<exists>c. adminAuth (\<lambda>_. Some forged) None (bearer ''t'') staff_db = (200, Inr c)"
  using later_routers_need_admin[OF manager_admitted] by (simp add: under_def starts_with_def bearer_def)

text \<open>
  Two routers are mounted before it. If only \<open>/api\<close> and its own mount path apply to the path, the price
  documents are reached by every request, with no credentials at all, and the reposting routes by every
  user the token of whom verifies, whatever the role.
\<close>

theorem open_routers:
  assumes "matches ''/api/auth'' (rq_path rq) = False" and "matches ''/api/admin'' (rq_path rq) = False"
    and "matches ''/api/admin/users'' (rq_path rq) = False"
  shows "(matches ''/api/price-documents'' (rq_path rq) \<and> \<not> matches ''/api/service/repost-documents'' (rq_path rq) \<longrightarrow>
      admitted verify secret matches PriceDocumentsR rq d = (200, Inr None)) \<and>
    (matches ''/api/service/repost-documents'' (rq_path rq) \<longrightarrow>
      admitted verify secret matches RepostR rq d = map_prod id (map_sum id Some) (userAuth verify rq d))"
  using assms by (simp add: admitted_def mounts_def check_def reply_ok_def)

definition anonymous :: request where
  "anonymous = \<lparr>rq_method = ''POST'', rq_path = ''/api/price-documents/7/apply'', rq_authorization = None,
     rq_adminSecret = None, rq_token = None\<rparr>"

theorem open_routers_witness:
  "admitted (\<lambda>_. None) None under PriceDocumentsR anonymous staff_db = (200, Inr None)"
  using open_routers[of under anonymous "\<lambda>_. None" None staff_db]
  by (simp add: under_def starts_with_def anonymous_def)

lemma starts_with_chain: "starts_with s p \<Longrightarrow> starts_with s q \<Longrightarrow> starts_with p q \<or> starts_with q p"
  unfolding starts_with_def by (metis linear min.absorb1 take_take)

text \<open>
  The lock guards four of the document kinds. While the lock is held, a modifying request under one of
  the protected paths is answered with 503, but every request under the paths of supplier returns, finance,
  administration and synchronisation passes, locked or not, although those handlers change stock, payments
  and orders.
\<close>

theorem lock_gaps:
  assumes "list_ex (starts_with (rq_path rq)) [''/api/supplier-returns'', ''/api/finance'', ''/api/admin'', ''/api/sync'']"
  shows "lockMiddleware rq d = None"
proof -
  have apart: "\<forall>p \<in> set [''/api/supplier-returns'', ''/api/finance'', ''/api/admin'', ''/api/sync''].
      \<forall>q \<in> set protected_paths. \<not> starts_with p q \<and> \<not> starts_with q p"
    unfolding protected_paths_def starts_with_def by simp
  have "\<not> list_ex (starts_with (rq_path rq)) protected_paths"
    using assms apart starts_with_chain unfolding list_ex_iff by blast
  then show ?thesis by (simp add: lockMiddleware_def)
qed

theorem lock_gaps_witness:
  "lockMiddleware (anonymous\<lparr>rq_path := ''/api/supplier-returns/4/post''\<rparr>) locked_db = None \<and>
     lockMiddleware anonymous locked_db \<noteq> None"
  using lock_gaps[of "anonymous\<lparr>rq_path := ''/api/supplier-returns/4/post''\<rparr>" locked_db]
  by (simp add: starts_with_def lockMiddleware_def protected_paths_def anonymous_def locked_db_def)

section \<open>The answer to a request\<close>

text \<open>
  The whole chain of \<open>index.ts\<close>: uploaded files, the lock, the files of the web client, the routers in the order of
  their mounts, the health check and the catch-all route. What a router does with a request it has a route for is the
  subject of the other theories; here it is the answer \<open>Handled\<close>. Parameters: which files the two static
  directories hold, and which requests a router has a route for.
\<close>

datatype response =
    File string
  | Locked string string
  | Refused nat http_error
  | Handled router "claims option"
  | Health timestamp
  | NoEndpoint
  | IndexPage
  | NoClient
  | NotFound

record site =
  site_upload :: "string \<Rightarrow> bool"
  site_client :: "string \<Rightarrow> bool"
  site_index :: bool
  site_route :: "router \<Rightarrow> request \<Rightarrow> bool"

text \<open>\<open>app.get\<close> also answers HEAD.\<close>

definition is_get :: "request \<Rightarrow> bool" where
  "is_get rq \<longleftrightarrow> rq_method rq \<in> {''GET'', ''HEAD''}"

text \<open>A router without a route for the request hands it on, with the user its guard has set.\<close>

fun route ::
  "(string \<Rightarrow> string \<Rightarrow> bool) \<Rightarrow> (guard option \<Rightarrow> claims option \<Rightarrow> claims option reply) \<Rightarrow> (router \<Rightarrow> bool) \<Rightarrow>
   (string \<times> router) list \<Rightarrow> string \<Rightarrow> claims option \<Rightarrow> response option" where
  "route matches chk handles [] path user = None"
| "route matches chk handles ((q, r) # ms) path user =
     (if matches q path
      then (case chk (router_guard r) user of
          (code, Inl e) \<Rightarrow> Some (Refused code e)
        | (_, Inr user') \<Rightarrow>
            if handles r
            then (case chk (route_guard r) user' of
                (code, Inl e) \<Rightarrow> Some (Refused code e)
              | (_, Inr user'') \<Rightarrow> Some (Handled r user''))
            else route matches chk handles ms path user')
      else route matches chk handles ms path user)"

definition catch_all :: "site \<Rightarrow> request \<Rightarrow> response" where
  "catch_all s rq =
     (if is_get rq
      then if starts_with (rq_path rq) ''/api'' then NoEndpoint
        else if site_index s then IndexPage else NoClient
      else NotFound)"

definition serve ::
  "(string \<Rightarrow> claims option) \<Rightarrow> string option \<Rightarrow> (string \<Rightarrow> string \<Rightarrow> bool) \<Rightarrow> site \<Rightarrow> request \<Rightarrow> db \<Rightarrow> response" where
  "serve verify secret matches s rq d =
     (if is_get rq \<and> matches ''/uploads'' (rq_path rq) \<and> site_upload s (rq_path rq) then File (rq_path rq)
      else case lockMiddleware rq d of
        Some (e, reason) \<Rightarrow> Locked e reason
      | None \<Rightarrow>
          if is_get rq \<and> site_client s (rq_path rq) then File (rq_path rq)
          else case route matches (\<lambda>g. check verify secret g rq d) (\<lambda>r. site_route s r rq) mounts (rq_path rq) None of
            Some a \<Rightarrow> a
          | None \<Rightarrow> if is_get rq \<and> rq_path rq = ''/health'' then Health (clock d) else catch_all s rq)"

text \<open>The chain agrees with \<open>admitted\<close>: a request handled by a router is one that router admits.\<close>

lemma route_handled: "route matches chk handles ms path user = Some (Handled r u) \<Longrightarrow> handles r"
  by (induction ms arbitrary: user) (auto split: if_splits prod.splits sum.splits)

lemma route_admits:
  assumes "route matches chk handles ms path user = Some (Handled r u)"
  shows "\<exists>c. pass matches chk ms r path user = (c, Inr u)"
  using assms
proof (induction ms arbitrary: user)
  case (Cons m ms)
  obtain q r' where m: "m = (q, r')" by (cases m)
  have "r' \<noteq> r" if "\<not> handles r'" using that route_handled[OF Cons.prems] by auto
  then show ?case using Cons.prems Cons.IH unfolding m
    by (auto split: if_splits prod.splits sum.splits)
qed simp

lemma check_ok: "check verify secret g rq d user = (c, Inr u) \<Longrightarrow> c = 200"
  by (auto simp: check_def userAuth_def adminAuth_def legacy_auth_def reply_ok_def reply_error_def
      split: option.splits guard.splits if_splits prod.splits sum.splits)

text \<open>A request no router has a route for still meets the guard of every router its path passes.\<close>

lemma route_none_guards:
  assumes "route matches chk handles ms path user = None" and "(q, r) \<in> set ms" and "matches q path"
  shows "\<exists>u u'. snd (chk (router_guard r) u) = Inr u'"
  using assms(1,2)
proof (induction ms arbitrary: user)
  case (Cons m ms)
  show ?case
  proof (cases "m = (q, r)")
    case True
    with Cons.prems(1) assms(3) have "snd (chk (router_guard r) user) \<noteq> Inl e" for e
      by (cases "chk (router_guard r) user") auto
    then show ?thesis by (cases "snd (chk (router_guard r) user)") auto
  next
    case False
    moreover obtain u where "route matches chk handles ms path u = None"
      using Cons.prems(1) by (cases m) (auto split: if_splits prod.splits sum.splits)
    ultimately show ?thesis using Cons.IH Cons.prems(2) by auto
  qed
qed simp

lemma serve_handled:
  assumes "serve verify secret matches s rq d = Handled r user"
  shows "lockMiddleware rq d = None" and "site_route s r rq" and "admitted verify secret matches r rq d = (200, Inr user)"
proof -
  have l: "lockMiddleware rq d = None"
    and h: "route matches (\<lambda>g. check verify secret g rq d) (\<lambda>r. site_route s r rq) mounts (rq_path rq) None = Some (Handled r user)"
    using assms by (auto simp: serve_def catch_all_def split: if_splits option.splits)
  show "lockMiddleware rq d = None" by (rule l)
  show "site_route s r rq" using route_handled[OF h] .
  obtain c where c: "admitted verify secret matches r rq d = (c, Inr user)"
    using route_admits[OF h] by (auto simp: admitted_def)
  have "fst (pass matches (\<lambda>g. check verify secret g rq d) ms r p u) = 200"
    if "pass matches (\<lambda>g. check verify secret g rq d) ms r p u = (c, Inr user)" for ms p u
    using that by (induction ms arbitrary: u) (auto simp: reply_error_def dest: check_ok split: if_splits prod.splits sum.splits)
  with c show "admitted verify secret matches r rq d = (200, Inr user)" by (auto simp: admitted_def)
qed

lemma route_answers:
  "route matches chk handles ms path user = Some a \<Longrightarrow> (\<exists>c e. a = Refused c e) \<or> (\<exists>r u. a = Handled r u)"
  by (induction ms arbitrary: user) (auto split: if_splits prod.splits sum.splits)

text \<open>The router that handles a request is mounted on its way, and its own guards have let the request through.\<close>

lemma route_checks:
  "route matches chk handles ms path user = Some (Handled r u) \<Longrightarrow>
   \<exists>q u1 u2. (q, r) \<in> set ms \<and> matches q path \<and> snd (chk (router_guard r) u1) = Inr u2 \<and> snd (chk (route_guard r) u2) = Inr u"
proof (induction ms arbitrary: user)
  case (Cons m ms)
  obtain q r' where m: "m = (q, r')" by (cases m)
  show ?case
  proof (cases "matches q path \<and> handles r'")
    case True
    with Cons.prems have "r' = r \<and> (\<exists>u2. snd (chk (router_guard r') user) = Inr u2 \<and> snd (chk (route_guard r') u2) = Inr u)"
      unfolding m by (auto split: prod.splits sum.splits)
    with True show ?thesis unfolding m by auto
  next
    case False
    with Cons.prems obtain u' where "route matches chk handles ms path u' = Some (Handled r u)"
      unfolding m by (auto split: if_splits prod.splits sum.splits)
    from Cons.IH[OF this] show ?thesis unfolding m by auto
  qed
qed simp

lemma serve_checks:
  assumes "serve verify secret matches s rq d = Handled r user"
  shows "\<exists>q u1 u2. (q, r) \<in> set mounts \<and> matches q (rq_path rq) \<and>
    snd (check verify secret (router_guard r) rq d u1) = Inr u2 \<and> snd (check verify secret (route_guard r) rq d u2) = Inr user"
proof -
  from assms have "route matches (\<lambda>g. check verify secret g rq d) (\<lambda>r. site_route s r rq) mounts (rq_path rq) None = Some (Handled r user)"
    by (auto simp: serve_def catch_all_def split: if_splits option.splits)
  from route_checks[OF this] show ?thesis .
qed

definition behind_counterparties :: "router set" where
  "behind_counterparties = {CounterpartiesR, OrganizationR, RealizationsR, GoodsReceiptR, BuyerReturnsR, SupplierReturnsR,
     ReportsR, FinanceR, CollectionScheduleR, PickingListR}"

lemma mounts_under_api: "(q, r) \<in> set mounts \<Longrightarrow> r \<in> behind_counterparties \<Longrightarrow> q = ''/api'' \<or> starts_with q ''/api/''"
  by (auto simp: mounts_def behind_counterparties_def starts_with_def)


definition small_site :: site where
  "small_site = \<lparr>site_upload = \<lambda>_. False, site_client = \<lambda>_. False, site_index = True,
     site_route = \<lambda>r rq. r = RealizationsR \<and> rq_path rq = ''/api/realizations''\<rparr>"

text \<open>The matching of Express, by whole segments: the path is the mount path or goes on with a slash.\<close>

definition by_segment :: "string \<Rightarrow> string \<Rightarrow> bool" where
  "by_segment q p \<longleftrightarrow> p = q \<or> starts_with p (q @ ''/'')"

lemma starts_with_trans: "starts_with p q \<Longrightarrow> starts_with q r \<Longrightarrow> starts_with p r"
  unfolding starts_with_def by (metis length_take min.absorb_iff2 min.commute take_take)

lemma by_segment_api:
  assumes "starts_with q ''/api/''" "by_segment q p"
  shows "by_segment ''/api'' p"
proof -
  have "starts_with (q @ ''/'') q" "starts_with q q" by (simp_all add: starts_with_def)
  with assms(2) have "starts_with p q" unfolding by_segment_def using starts_with_trans by blast
  from starts_with_trans[OF this assms(1)] show ?thesis by (simp add: by_segment_def)
qed


text \<open>The gap of the catch-all: it asks for the letters \<open>/api\<close>, the mounts for the segment.\<close>

definition apifoo :: request where
  "apifoo = \<lparr>rq_method = ''GET'', rq_path = ''/apifoo'', rq_authorization = None, rq_adminSecret = None, rq_token = None\<rparr>"

lemma apifoo_meets_no_guard:
  "serve (\<lambda>_. None) None by_segment small_site apifoo staff_db = NoEndpoint \<and>
   fst (adminAuth (\<lambda>_. None) None apifoo staff_db) = 403"
  by (simp add: serve_def small_site_def mounts_def by_segment_def starts_with_def apifoo_def lockMiddleware_def is_get_def
      catch_all_def adminAuth_def legacy_auth_def bearer_token_def is_bearer_def non_empty_def reply_error_def)

text \<open>The web client is never the answer to a path under \<open>/api\<close>.\<close>

lemma client_is_not_api: "serve verify secret matches s rq d = IndexPage \<Longrightarrow> \<not> starts_with (rq_path rq) ''/api''"
  by (auto simp: serve_def catch_all_def split: if_splits option.splits dest: route_answers)

text \<open>While the lock is held it answers before any guard is asked, with the reason, whoever asks.\<close>

lemma lock_answers_first:
  assumes "is_locked d" and "rq_method rq \<in> {''POST'', ''PUT'', ''PATCH'', ''DELETE''}"
    and "list_ex (starts_with (rq_path rq)) protected_paths"
  shows "\<exists>e reason. serve verify secret matches s rq d = Locked e reason"
  using assms by (auto simp: serve_def is_get_def lockMiddleware_def is_locked_def split: option.splits)

end
