(* ===== verification/Sync.thy ===== *)
theory Sync
  imports Auth RealizationRoutes Prices
begin

text \<open>
  \<open>src/routes/sync.ts\<close> and \<open>src/utils/productTransformer.ts\<close>: the routes of the mobile clients. They pull the
  orders and products that changed, push their own changes one by one, or send them in one transaction. None
  of them asks for a token; the user is a field of the request.
\<close>

section \<open>Pull\<close>

definition since :: "timestamp option \<Rightarrow> timestamp" where
  "since lastSync = coalesce lastSync 0"

definition orders_since :: "ident \<Rightarrow> timestamp option \<Rightarrow> db \<Rightarrow> order list" where
  "orders_since userId lastSync d =
     filter (\<lambda>r. ord_userId r = userId \<and> since lastSync \<le> ord_updatedAt r) (Orders d)"

definition sync_pull :: "ident option \<Rightarrow> timestamp option \<Rightarrow> db \<Rightarrow> order list reply" where
  "sync_pull userId lastSync d = (case userId of
     None \<Rightarrow> reply_error 400 (Text ''userId is required'')
   | Some u \<Rightarrow> reply_ok 200 (orders_since u lastSync d))"

section \<open>Products\<close>

record product_view =
  pv_product :: product
  pv_price :: "jsnum option"
  pv_prices :: "(string \<times> price_json) list option"

text \<open>
  The view without \<open>prices\<close>; \<open>pv_product\<close> stands for the other columns. For a user, a product whose prices are
  null passes the test \<open>(prices && prices[priceType]) !== undefined\<close> and then throws.
\<close>

definition user_price :: "(string \<times> price_json) list \<Rightarrow> user \<Rightarrow> jsnum" where
  "user_price prices u = (case map_of prices (string_or (usr_priceType u) ''standard'') of
     Some v \<Rightarrow> price_number v
   | None \<Rightarrow> (case map_of prices ''standard'' of Some v \<Rightarrow> price_number v | None \<Rightarrow> 0))"

definition transformProductForUser :: "product \<Rightarrow> user option \<Rightarrow> error + product_view" where
  "transformProductForUser product user =
     (let public = \<lparr>pv_product = product\<lparr>prod_prices := None\<rparr>, pv_price = None, pv_prices = None\<rparr>
      in case user of
           None \<Rightarrow> Inr public
         | Some u \<Rightarrow> (case prod_prices product of
             None \<Rightarrow> Inl JsTypeError
           | Some prices \<Rightarrow> Inr (public\<lparr>pv_price := Some (user_price prices u)\<rparr>)))"

text \<open>\<open>adminSecret === process.env.ADMIN_SECRET\<close>: two undefined values are equal.\<close>

definition sees_all_prices :: "(string \<Rightarrow> claims option) \<Rightarrow> string option \<Rightarrow> request \<Rightarrow> bool" where
  "sees_all_prices verify secret rq \<longleftrightarrow>
     rq_adminSecret rq = secret \<or> Option.bind (bearer_token rq) verify \<noteq> None"

definition products_user ::
  "(string \<Rightarrow> claims option) \<Rightarrow> string option \<Rightarrow> request \<Rightarrow> ident option \<Rightarrow> db \<Rightarrow> user option" where
  "products_user verify secret rq userId d =
     (let fallback = (if rq_adminSecret rq = secret then None
            else Option.bind (Option.bind (bearer_token rq) verify) tk_id)
      in Option.bind (coalesce_opt userId fallback) (\<lambda>i. find_row usr_id i (Users d)))"

fun collect :: "('a \<Rightarrow> error + 'b) \<Rightarrow> 'a list \<Rightarrow> error + 'b list" where
  "collect f [] = Inr []"
| "collect f (x # xs) = rbind (f x) (\<lambda>y. rbind (collect f xs) (\<lambda>ys. Inr (y # ys)))"

definition get_products ::
  "(string \<Rightarrow> claims option) \<Rightarrow> string option \<Rightarrow> request \<Rightarrow> ident option \<Rightarrow> timestamp option \<Rightarrow> db \<Rightarrow>
   product_view list reply" where
  "get_products verify secret rq userId lastSync d =
     catch_reply 200 (\<lambda>_. (500, Text ''Failed to get products'')) (collect (\<lambda>p.
         rbind (transformProductForUser p (products_user verify secret rq userId d)) (\<lambda>transformed.
         Inr (if sees_all_prices verify secret rq then transformed\<lparr>pv_prices := prod_prices p\<rparr> else transformed)))
       (sort_key prod_updatedAt (filter (\<lambda>p. since lastSync < prod_updatedAt p) (Product d))))"

section \<open>Changes\<close>

text \<open>\<open>data\<close> of a change; a missing or null property is None.\<close>

record order_data =
  od_counterpartyId :: "ident option"
  od_status :: "string option"
  od_total :: "jsnum option"
  od_items :: "order_json_item list option"
  od_isDeleted :: "bool option"
  od_date :: "timestamp option"

record change =
  ch_id :: ident
  ch_operation :: "string option"
  ch_table :: "string option"
  ch_data :: "order_data option"

text \<open>Reading \<open>data.x\<close> of a change without \<open>data\<close> throws.\<close>

definition data_of :: "change \<Rightarrow> error + order_data" where
  "data_of ch = (case ch_data ch of None \<Rightarrow> Inl JsTypeError | Some x \<Rightarrow> Inr x)"

section \<open>Push\<close>

text \<open>INSERT ... ON CONFLICT (id) DO UPDATE: an order that exists keeps its user and its currency.\<close>

definition upsert_order :: "order \<Rightarrow> db \<Rightarrow> error + db" where
  "upsert_order row d =
     (if find_row ord_id (ord_id row) (Orders d) = None
      then rbind (first_error (order_ok row)) (\<lambda>_. Inr (d\<lparr>Orders := Orders d @ [row]\<rparr>))
      else upd_Order (\<lambda>r. ord_id r = ord_id row)
        (\<lambda>r. r\<lparr>ord_counterpartyId := ord_counterpartyId row, ord_status := ord_status row,
           ord_total := ord_total row, ord_items := ord_items row, ord_isDeleted := ord_isDeleted row,
           ord_createdAt := ord_createdAt row, ord_updatedAt := clock d\<rparr>) d)"

definition pushed_order :: "ident \<Rightarrow> ident \<Rightarrow> order_data \<Rightarrow> db \<Rightarrow> order" where
  "pushed_order userId i data d =
     \<lparr>ord_id = i, ord_userId = userId, ord_counterpartyId = od_counterpartyId data,
      ord_status = string_or (od_status data) ''pending'',
      ord_total = round_dec 2 (js_text (coalesce (od_total data) 0)), ord_currency = ''UAH'',
      ord_items = Some (coalesce (od_items data) []), ord_comment = None, ord_docNumber = None, ord_warehouseId = None,
        ord_isDeleted = coalesce (od_isDeleted data) False,
      ord_createdAt = coalesce (od_date data) (clock d), ord_updatedAt = clock d\<rparr>"

definition push_item :: "ident \<Rightarrow> nat \<times> order_json_item \<Rightarrow> db \<Rightarrow> error + db" where
  "push_item i = (\<lambda>(index, item) d.
     rbind (not_null ''OrderItem.productId'' (oji_id item)) (\<lambda>productId.
     rbind (not_null ''OrderItem.quantity'' (oji_count item)) (\<lambda>count.
     rbind (not_null ''OrderItem.sellPrice'' (oji_price item)) (\<lambda>price.
     ins_OrderItem
       \<lparr>oi_id = next_uuid d, oi_orderId = i, oi_productId = productId,
        oi_quantity = round_dec 3 (js_text count), oi_sellPrice = round_dec 2 (js_text price),
        oi_sortOrder = index\<rparr>
       (d\<lparr>next_uuid := Suc (next_uuid d)\<rparr>)))))"

definition push_items :: "ident \<Rightarrow> order_json_item list \<Rightarrow> db \<Rightarrow> error + db" where
  "push_items i items d = for_each (push_item i) (zip [0..<length items] items)
     (del_OrderItems i d)"

definition push_insert_body :: "ident \<Rightarrow> change \<Rightarrow> db \<Rightarrow> error + order option \<times> db" where
  "push_insert_body userId ch d =
     rbind (data_of ch) (\<lambda>data.
     rbind (upsert_order (pushed_order userId (ch_id ch) data d) d) (\<lambda>d1.
     rbind (case od_items data of None \<Rightarrow> Inr d1 | Some items \<Rightarrow> push_items (ch_id ch) items d1) (\<lambda>d2.
     Inr (find_row ord_id (ch_id ch) (Orders d1), d2))))"

text \<open>COALESCE keeps the column where the parameter is null.\<close>

definition changed_order :: "order_data \<Rightarrow> timestamp \<Rightarrow> order \<Rightarrow> order" where
  "changed_order data now r = r\<lparr>
     ord_counterpartyId := coalesce_opt (od_counterpartyId data) (ord_counterpartyId r),
     ord_status := coalesce (od_status data) (ord_status r),
     ord_total := (case od_total data of None \<Rightarrow> ord_total r | Some x \<Rightarrow> round_dec 2 (js_text x)),
     ord_items := coalesce_opt (od_items data) (ord_items r),
     ord_isDeleted := coalesce (od_isDeleted data) (ord_isDeleted r),
     ord_createdAt := coalesce (od_date data) (ord_createdAt r), ord_updatedAt := now\<rparr>"

definition push_update_body :: "change \<Rightarrow> db \<Rightarrow> error + order option \<times> db" where
  "push_update_body ch d =
     rbind (data_of ch) (\<lambda>data.
     rbind (upd_Order (\<lambda>r. ord_id r = ch_id ch) (changed_order data (clock d)) d) (\<lambda>d1.
     Inr (find_row ord_id (ch_id ch) (Orders d1), d1)))"

definition push_delete_body :: "ident \<Rightarrow> change \<Rightarrow> db \<Rightarrow> error + order option \<times> db" where
  "push_delete_body userId ch d =
     (if map_option usr_role (find_row usr_id userId (Users d)) \<noteq> Some ''admin'' then Inl AdminOnlyHardDelete
      else Inr (find_row ord_id (ch_id ch) (Orders d), del_Order (ch_id ch) d))"

text \<open>Any other operation changes nothing and answers without data.\<close>

definition push_operation :: "ident \<Rightarrow> change \<Rightarrow> db \<Rightarrow> error + order option \<times> db" where
  "push_operation userId ch d =
     (if ch_operation ch = Some ''INSERT'' then push_insert_body userId ch d
      else if ch_operation ch = Some ''UPDATE'' then push_update_body ch d
      else if ch_operation ch = Some ''DELETE'' then push_delete_body userId ch d
      else Inr (None, d))"

definition ins_SyncLog :: "ident \<Rightarrow> change \<Rightarrow> db \<Rightarrow> error + db" where
  "ins_SyncLog userId ch d =
     rbind (not_null ''SyncLog.action'' (ch_operation ch)) (\<lambda>action.
     Inr (d\<lparr>next_uuid := Suc (next_uuid d), SyncLog := SyncLog d @
       [\<lparr>sl_id = next_uuid d, sl_userId = userId, sl_action = action, sl_recordId = ch_id ch,
         sl_createdAt = clock d\<rparr>]\<rparr>))"

text \<open>
  The operation commits by itself (a bracket of its own for INSERT, single statements otherwise), then the log
  row is written; an error of either is the answer for this change, and the loop goes on.
\<close>

type_synonym change_result = "ident \<times> (error + order option)"

definition push_change :: "ident \<Rightarrow> change \<Rightarrow> db \<Rightarrow> change_result \<times> db" where
  "push_change userId ch d =
     (case transaction (push_operation userId ch) d of
        (Inl e, d1) \<Rightarrow> ((ch_id ch, Inl e), d1)
      | (Inr row, d1) \<Rightarrow> (case ins_SyncLog userId ch d1 of
           Inl e \<Rightarrow> ((ch_id ch, Inl e), d1)
         | Inr d2 \<Rightarrow> ((ch_id ch, Inr row), d2)))"

fun push_changes :: "ident \<Rightarrow> change list \<Rightarrow> db \<Rightarrow> change_result list \<times> db" where
  "push_changes userId [] d = ([], d)"
| "push_changes userId (ch # chs) d =
     (let (r, d1) = push_change userId ch d; (rs, d2) = push_changes userId chs d1 in (r # rs, d2))"

definition sync_push :: "ident option \<Rightarrow> change list option \<Rightarrow> db \<Rightarrow> change_result list reply \<times> db" where
  "sync_push userId changes d = (case (userId, changes) of
     (Some u, Some chs) \<Rightarrow> map_prod (reply_ok 200) id (push_changes u chs d)
   | _ \<Rightarrow> (reply_error 400 (Text ''userId and changes array are required''), d))"

section \<open>Full synchronisation\<close>

text \<open>
  One transaction around all changes, with a try block around each: after the first statement that fails the
  server refuses every further statement of the transaction, and COMMIT rolls back. The state of the loop is
  the database inside the transaction and whether it is aborted.
\<close>

definition full_update :: "bool \<Rightarrow> change \<Rightarrow> order_data \<Rightarrow> db \<Rightarrow> error + db" where
  "full_update with_counterparty ch data d = upd_Order (\<lambda>r. ord_id r = ch_id ch)
     (changed_order \<lparr>od_counterpartyId = (if with_counterparty then od_counterpartyId data else None),
        od_status = od_status data, od_total = od_total data, od_items = od_items data,
        od_isDeleted = None, od_date = None\<rparr> (clock d)) d"

definition full_insert :: "ident \<Rightarrow> change \<Rightarrow> order_data \<Rightarrow> db \<Rightarrow> error + db" where
  "full_insert userId ch data d =
     (let row = \<lparr>ord_id = ch_id ch, ord_userId = userId, ord_counterpartyId = None,
            ord_status = string_or (od_status data) ''pending'',
            ord_total = round_dec 2 (js_text (coalesce (od_total data) 0)), ord_currency = ''UAH'',
            ord_items = Some (coalesce (od_items data) []), ord_comment = None, ord_docNumber = None, ord_warehouseId = None,
        ord_isDeleted = False,
            ord_createdAt = clock d, ord_updatedAt = clock d\<rparr>
      in ins_Order row d)"

text \<open>The statement of a change: none (\<open>Inr None\<close>), or its effect. A change of the table Order inserts nothing.\<close>

definition full_statement :: "ident \<Rightarrow> change \<Rightarrow> error + (db \<Rightarrow> error + db) option" where
  "full_statement userId ch =
     (let order_table = (ch_table ch = Some ''Order'') in
      if ch_operation ch = Some ''INSERT'' then
        if order_table then Inr None
        else rbind (data_of ch) (\<lambda>data. Inr (Some (full_insert userId ch data)))
      else if ch_operation ch = Some ''UPDATE'' then
        rbind (data_of ch) (\<lambda>data. Inr (Some (full_update order_table ch data)))
      else if ch_operation ch = Some ''DELETE'' then Inr (Some (\<lambda>d. Inr (del_Order (ch_id ch) d)))
      else Inr None)"

definition full_change :: "ident \<Rightarrow> change \<Rightarrow> db \<times> bool \<Rightarrow> (ident \<times> (error + unit)) \<times> db \<times> bool" where
  "full_change userId ch = (\<lambda>(d, aborted). case full_statement userId ch of
     Inl e \<Rightarrow> ((ch_id ch, Inl e), d, aborted)
   | Inr None \<Rightarrow> ((ch_id ch, Inr ()), d, aborted)
   | Inr (Some stmt) \<Rightarrow>
       if aborted then ((ch_id ch, Inl (SqlError TransactionAborted)), d, True)
       else (case stmt d of
           Inl e \<Rightarrow> ((ch_id ch, Inl e), d, True)
         | Inr d' \<Rightarrow> ((ch_id ch, Inr ()), d', False)))"

fun full_changes :: "ident \<Rightarrow> change list \<Rightarrow> db \<times> bool \<Rightarrow> (ident \<times> (error + unit)) list \<times> db \<times> bool" where
  "full_changes userId [] s = ([], s)"
| "full_changes userId (ch # chs) s =
     (let (r, s1) = full_change userId ch s; (rs, s2) = full_changes userId chs s1 in (r # rs, s2))"

definition sync_full ::
  "ident option \<Rightarrow> timestamp option \<Rightarrow> change list option \<Rightarrow> db \<Rightarrow>
   ((ident \<times> (error + unit)) list \<times> order list) reply \<times> db" where
  "sync_full userId lastSync changes d = (case userId of
     None \<Rightarrow> (reply_error 400 (Text ''userId is required''), d)
   | Some u \<Rightarrow>
       let (results, d1, aborted) = full_changes u (coalesce changes []) (d, False);
           d2 = (if aborted then d else d1)
       in (reply_ok 200 (results, orders_since u lastSync d2), d2))"

section \<open>Status\<close>

definition sync_status :: "ident \<Rightarrow> db \<Rightarrow> sync_log list reply" where
  "sync_status userId d =
     reply_ok 200 (take 10 (sort_key (\<lambda>r. - sl_createdAt r) (filter (\<lambda>r. sl_userId r = userId) (SyncLog d))))"

section \<open>What a push does\<close>

text \<open>The columns of an order item that come from the change.\<close>

definition item_values :: "order_item \<Rightarrow> ident \<times> decimal \<times> decimal \<times> nat" where
  "item_values r = (oi_productId r, oi_quantity r, oi_sellPrice r, oi_sortOrder r)"

definition sent_values :: "nat \<times> order_json_item \<Rightarrow> ident \<times> decimal \<times> decimal \<times> nat" where
  "sent_values = (\<lambda>(index, item). (the (oji_id item), round_dec 3 (js_text (the (oji_count item))),
     round_dec 2 (js_text (the (oji_price item))), index))"

lemma push_item_row:
  assumes "push_item i x d = Inr d'"
  shows "\<exists>r n. d' = d\<lparr>OrderItem := OrderItem d @ [r], next_uuid := n\<rparr> \<and> oi_orderId r = i \<and> item_values r = sent_values x"
proof -
  obtain index item where x: "x = (index, item)" by (cases x)
  from assms obtain p q c where "oji_id item = Some p" "oji_count item = Some q" "oji_price item = Some c"
    "ins_OrderItem \<lparr>oi_id = next_uuid d, oi_orderId = i, oi_productId = p, oi_quantity = round_dec 3 (js_text q),
       oi_sellPrice = round_dec 2 (js_text c), oi_sortOrder = index\<rparr> (d\<lparr>next_uuid := Suc (next_uuid d)\<rparr>) = Inr d'"
    by (auto simp: x push_item_def)
  then show ?thesis
    by (intro exI[of _ "\<lparr>oi_id = next_uuid d, oi_orderId = i, oi_productId = p, oi_quantity = round_dec 3 (js_text q),
       oi_sellPrice = round_dec 2 (js_text c), oi_sortOrder = index\<rparr>"] exI[of _ "Suc (next_uuid d)"])
      (auto simp: x ins_OrderItem_def item_values_def sent_values_def)
qed

lemma push_item_rows:
  assumes "for_each (push_item i) xs d = Inr d'"
  shows "\<exists>rs n. d' = d\<lparr>OrderItem := OrderItem d @ rs, next_uuid := n\<rparr> \<and> (\<forall>r \<in> set rs. oi_orderId r = i) \<and>
    map item_values rs = map sent_values xs"
  using assms
proof (induction xs arbitrary: d)
  case Nil
  then show ?case by (intro exI[of _ "[]"] exI[of _ "next_uuid d"]) simp
next
  case (Cons x xs)
  then obtain d1 where d1: "push_item i x d = Inr d1" "for_each (push_item i) xs d1 = Inr d'" by auto
  from push_item_row[OF d1(1)] obtain r n where r: "d1 = d\<lparr>OrderItem := OrderItem d @ [r], next_uuid := n\<rparr>"
    "oi_orderId r = i" "item_values r = sent_values x" by blast
  from Cons.IH[OF d1(2)] obtain rs m where rs: "d' = d1\<lparr>OrderItem := OrderItem d1 @ rs, next_uuid := m\<rparr>"
    "\<forall>r \<in> set rs. oi_orderId r = i" "map item_values rs = map sent_values xs" by blast
  show ?case
  proof (intro exI conjI)
    show "d' = d\<lparr>OrderItem := OrderItem d @ (r # rs), next_uuid := m\<rparr>" using r(1) rs(1) by simp
  qed (use r rs in auto)
qed

lemma upsert_order_frame:
  "upsert_order row d = Inr d' \<Longrightarrow> d'\<lparr>Orders := []\<rparr> = d\<lparr>Orders := []\<rparr>"
  by (auto simp: upsert_order_def upd_Order_def split: if_splits)

text \<open>What an order that exists keeps when it is pushed: its owner and the columns a push does not send.\<close>

definition kept_of :: "order \<Rightarrow> order \<Rightarrow> order" where
  "kept_of old row = row\<lparr>ord_userId := ord_userId old, ord_currency := ord_currency old, ord_comment := ord_comment old,
     ord_docNumber := ord_docNumber old, ord_warehouseId := ord_warehouseId old\<rparr>"

lemma upsert_order_rows:
  assumes "upsert_order row d = Inr d'" and "ord_updatedAt row = clock d"
  shows "find_row ord_id (ord_id row) (Orders d') =
      Some (case find_row ord_id (ord_id row) (Orders d) of None \<Rightarrow> row | Some old \<Rightarrow> kept_of old row)"
    and "filter (\<lambda>r. ord_id r \<noteq> ord_id row) (Orders d') = filter (\<lambda>r. ord_id r \<noteq> ord_id row) (Orders d)"
proof -
  show "find_row ord_id (ord_id row) (Orders d') =
      Some (case find_row ord_id (ord_id row) (Orders d) of None \<Rightarrow> row | Some old \<Rightarrow> kept_of old row)"
  proof (cases "find_row ord_id (ord_id row) (Orders d)")
    case None
    then have "Orders d' = Orders d @ [row]" using assms by (auto simp: upsert_order_def)
    then show ?thesis using None by (simp add: find_row_append)
  next
    case (Some old)
    then show ?thesis using assms find_row_Some[OF Some]
      by (auto simp: upsert_order_def upd_Order_def update_table_Inr_iff find_row_map_where kept_of_def)
  qed
  have f: "filter (\<lambda>r. ord_id r \<noteq> k) (map_where (\<lambda>r. ord_id r = k) f rows) = filter (\<lambda>r. ord_id r \<noteq> k) rows"
    if "\<And>r. ord_id (f r) = ord_id r" for k f rows
    using that by (induction rows) auto
  show "filter (\<lambda>r. ord_id r \<noteq> ord_id row) (Orders d') = filter (\<lambda>r. ord_id r \<noteq> ord_id row) (Orders d)"
    using assms by (auto simp: upsert_order_def upd_Order_def update_table_Inr_iff f split: if_splits)
qed

text \<open>
  C24: a pushed order replaces the stored one. After an INSERT with items the order has the counterparty, status, total,
  items, deletion mark and date that were sent (\<open>pending\<close>, 0, not deleted and the time of the request where they are
  missing); its rows of \<open>OrderItem\<close> are exactly the items in their order; the items and the rows of every
  other order are untouched. An order that exists keeps its owner, whoever pushes, and its currency, comment, number and
  warehouse, which are not sent.
\<close>

theorem push_insert_replaces:
  assumes "push_insert_body userId ch d = Inr (out, d')" and "ch_data ch = Some data"
    and "od_items data = Some items"
  shows "\<exists>r. find_row ord_id (ch_id ch) (Orders d') = Some r \<and> out = Some r \<and>
      ord_counterpartyId r = od_counterpartyId data \<and> ord_status r = string_or (od_status data) ''pending'' \<and>
      ord_total r = round_dec 2 (js_text (coalesce (od_total data) 0)) \<and> ord_items r = Some items \<and>
      ord_isDeleted r = coalesce (od_isDeleted data) False \<and>
      ord_createdAt r = coalesce (od_date data) (clock d) \<and> ord_updatedAt r = clock d \<and>
      (case find_row ord_id (ch_id ch) (Orders d) of
         None \<Rightarrow> ord_userId r = userId \<and> ord_currency r = ''UAH'' \<and> ord_comment r = None \<and> ord_docNumber r = None \<and>
           ord_warehouseId r = None
       | Some old \<Rightarrow> ord_userId r = ord_userId old \<and> ord_currency r = ord_currency old \<and> ord_comment r = ord_comment old \<and>
           ord_docNumber r = ord_docNumber old \<and> ord_warehouseId r = ord_warehouseId old) \<and>
      map item_values (filter (\<lambda>x. oi_orderId x = ch_id ch) (OrderItem d')) =
        map sent_values (zip [0..<length items] items) \<and>
      filter (\<lambda>x. oi_orderId x \<noteq> ch_id ch) (OrderItem d') = filter (\<lambda>x. oi_orderId x \<noteq> ch_id ch) (OrderItem d) \<and>
      filter (\<lambda>x. ord_id x \<noteq> ch_id ch) (Orders d') = filter (\<lambda>x. ord_id x \<noteq> ch_id ch) (Orders d)"
proof -
  let ?row = "pushed_order userId (ch_id ch) data d" and ?i = "ch_id ch"
  from assms obtain d1 where d1: "upsert_order ?row d = Inr d1"
    and d2: "push_items ?i items d1 = Inr d'" and out: "out = find_row ord_id ?i (Orders d1)"
    by (auto simp: push_insert_body_def data_of_def)
  from push_item_rows[OF d2[unfolded push_items_def]] obtain rs n where
    rs: "d' = d1\<lparr>OrderItem := filter (\<lambda>r. oi_orderId r \<noteq> ?i) (OrderItem d1) @ rs, next_uuid := n\<rparr>"
    "\<forall>r \<in> set rs. oi_orderId r = ?i" "map item_values rs = map sent_values (zip [0..<length items] items)"
    by (auto simp: del_OrderItems_def)
  have i: "ord_id ?row = ?i" and now: "ord_updatedAt ?row = clock d" by (simp_all add: pushed_order_def)
  have "OrderItem d1 = OrderItem d" using arg_cong[OF upsert_order_frame[OF d1], of OrderItem] by simp
  moreover have "filter (\<lambda>r. oi_orderId r = ?i) rs = rs" "filter (\<lambda>r. oi_orderId r \<noteq> ?i) rs = []"
    using rs(2) by (simp_all add: filter_id_conv filter_empty_conv)
  ultimately have items: "filter (\<lambda>x. oi_orderId x = ?i) (OrderItem d') = rs"
    "filter (\<lambda>x. oi_orderId x \<noteq> ?i) (OrderItem d') = filter (\<lambda>x. oi_orderId x \<noteq> ?i) (OrderItem d)"
    unfolding rs(1) by (simp_all add: conj_commute cong: conj_cong)
  have orders: "Orders d' = Orders d1" by (simp add: rs(1))
  note up = upsert_order_rows[OF d1 now, unfolded i]
  let ?r = "case find_row ord_id ?i (Orders d) of None \<Rightarrow> ?row | Some old \<Rightarrow> kept_of old ?row"
  show ?thesis
  proof (intro exI[of _ ?r] conjI)
    show "find_row ord_id ?i (Orders d') = Some ?r" "out = Some ?r" using up(1) out orders by simp_all
    show "filter (\<lambda>x. ord_id x \<noteq> ?i) (Orders d') = filter (\<lambda>x. ord_id x \<noteq> ?i) (Orders d)" using up(2) orders by simp
  qed (use items rs(3) assms(3) in \<open>simp_all add: pushed_order_def kept_of_def coalesce_def split: option.split\<close>)
qed

definition pushed_line :: order_json_item where
  "pushed_line = \<lparr>oji_id = Some 5, oji_productId = None, oji_count = Some 3, oji_quantity = None,
     oji_price = Some 4, oji_sellPrice = None\<rparr>"

definition order_change :: "string \<Rightarrow> string \<Rightarrow> change" where
  "order_change op table = \<lparr>ch_id = 9, ch_operation = Some op, ch_table = Some table,
     ch_data = Some \<lparr>od_counterpartyId = None, od_status = None, od_total = Some 12,
       od_items = Some [pushed_line], od_isDeleted = None, od_date = None\<rparr>\<rparr>"

definition order_db :: db where
  "order_db = staff_db\<lparr>Orders := [\<lparr>ord_id = 9, ord_userId = 3, ord_counterpartyId = None, ord_status = ''NEW'',
       ord_total = 0, ord_currency = ''UAH'', ord_items = None, ord_comment = None, ord_docNumber = None, ord_warehouseId = None,
        ord_isDeleted = False, ord_createdAt = 1,
       ord_updatedAt = 1\<rparr>]\<rparr>"

lemma sync_numbers: "js_text 3 = 3" "js_text 4 = 4" "js_text 12 = 12"
  by code_simp+

lemma push_order_db:
  "\<exists>out d'. push_insert_body 7 (order_change ''INSERT'' ''Order'') order_db = Inr (out, d')"
  by (simp add: push_insert_body_def data_of_def order_change_def pushed_order_def upsert_order_def upd_Order_def
      update_table_def order_ok_def first_error_def dec_fits_def push_items_def del_OrderItems_def push_item_def pushed_line_def
      ins_OrderItem_def not_null_def order_db_def staff_db_def empty_db_def coalesce_def sync_numbers)

theorem push_insert_replaces_witness:
  "\<exists>out d' r. push_insert_body 7 (order_change ''INSERT'' ''Order'') order_db = Inr (out, d') \<and>
     find_row ord_id 9 (Orders d') = Some r \<and> ord_userId r = 3 \<and> ord_total r = 12 \<and> ord_status r = ''pending'' \<and>
     map item_values (filter (\<lambda>x. oi_orderId x = 9) (OrderItem d')) = [(5, 3, 4, 0)]"
proof -
  obtain out d' where p: "push_insert_body 7 (order_change ''INSERT'' ''Order'') order_db = Inr (out, d')"
    using push_order_db by blast
  let ?data = "the (ch_data (order_change ''INSERT'' ''Order''))"
  have "ch_data (order_change ''INSERT'' ''Order'') = Some ?data" "od_items ?data = Some [pushed_line]"
    by (simp_all add: order_change_def)
  from push_insert_replaces[OF p this] p show ?thesis
    by (auto simp: order_change_def order_db_def coalesce_def sync_numbers sent_values_def pushed_line_def string_or_def)
qed

lemma push_insert_frame: "push_insert_body u ch d = Inr (out, d') \<Longrightarrow> SyncLog d' = SyncLog d \<and> Users d' = Users d"
proof -
  assume "push_insert_body u ch d = Inr (out, d')"
  then obtain data d1 where d1: "upsert_order (pushed_order u (ch_id ch) data d) d = Inr d1"
    and d2: "(case od_items data of None \<Rightarrow> Inr d1 | Some items \<Rightarrow> push_items (ch_id ch) items d1) = Inr d'"
    by (auto simp: push_insert_body_def)
  have "SyncLog d1 = SyncLog d" "Users d1 = Users d"
    using arg_cong[OF upsert_order_frame[OF d1], of SyncLog] arg_cong[OF upsert_order_frame[OF d1], of Users] by simp_all
  moreover have "SyncLog d' = SyncLog d1 \<and> Users d' = Users d1"
  proof (cases "od_items data")
    case (Some items)
    with d2 have "push_items (ch_id ch) items d1 = Inr d'" by simp
    from push_item_rows[OF this[unfolded push_items_def]] show ?thesis by (auto simp: del_OrderItems_def)
  qed (use d2 in simp)
  ultimately show ?thesis by simp
qed

lemma push_operation_frame:
  assumes "push_operation u ch d = Inr (out, d')"
  shows "SyncLog d' = SyncLog d \<and> Users d' = Users d"
proof -
  have "push_update_body ch d = Inr (out, d') \<Longrightarrow> ?thesis" by (auto simp: push_update_body_def upd_Order_def)
  moreover have "push_delete_body u ch d = Inr (out, d') \<Longrightarrow> ?thesis"
    by (auto simp: push_delete_body_def del_Order_def split: if_splits)
  ultimately show ?thesis
    using assms push_insert_frame unfolding push_operation_def by (auto split: if_splits)
qed

definition is_success :: "change_result \<Rightarrow> bool" where
  "is_success r \<longleftrightarrow> \<not> isl (snd r)"

lemma push_change_log:
  assumes "push_change u ch d = (r, d')"
  shows "fst r = ch_id ch \<and> Users d' = Users d \<and>
    map (\<lambda>l. (sl_userId l, sl_recordId l)) (SyncLog d') =
      map (\<lambda>l. (sl_userId l, sl_recordId l)) (SyncLog d) @ (if is_success r then [(u, ch_id ch)] else [])"
proof (cases "push_operation u ch d")
  case (Inl e)
  then show ?thesis using assms by (auto simp: push_change_def transaction_def is_success_def)
next
  case (Inr x)
  then obtain out d1 where d1: "push_operation u ch d = Inr (out, d1)" by (cases x) auto
  from push_operation_frame[OF d1] d1 assms show ?thesis
    by (auto simp: push_change_def transaction_def is_success_def ins_SyncLog_def not_null_def split: option.splits)
qed

text \<open>
  The log is the answer. For every list of changes, whatever fails in between, the rows that a push
  appends to \<open>SyncLog\<close> are those of the pushing user, one for each change that the answer reports as
  successful, in the order of the changes, and every change is answered.
\<close>

theorem push_log_is_answer:
  "let (results, d') = push_changes u chs d in map fst results = map ch_id chs \<and>
     map (\<lambda>l. (sl_userId l, sl_recordId l)) (SyncLog d') =
       map (\<lambda>l. (sl_userId l, sl_recordId l)) (SyncLog d) @ map (\<lambda>r. (u, fst r)) (filter is_success results)"
proof (induction chs arbitrary: d)
  case (Cons ch chs)
  obtain r d1 where d1: "push_change u ch d = (r, d1)" by (cases "push_change u ch d")
  obtain rs d2 where d2: "push_changes u chs d1 = (rs, d2)" by (cases "push_changes u chs d1")
  from Cons.IH[of d1] push_change_log[OF d1] d1 d2 show ?case by auto
qed simp

section \<open>Who may delete\<close>

lemma upd_Order_ids:
  assumes "upd_Order P f d = Inr d'" and "\<And>r. ord_id (f r) = ord_id r"
  shows "ord_id ` set (Orders d') = ord_id ` set (Orders d)"
proof -
  have "Orders d' = map_where P f (Orders d)" using assms(1) by (auto simp: upd_Order_def update_table_Inr_iff)
  then have "map ord_id (Orders d') = map ord_id (Orders d)" using assms(2) by (simp add: map_map_where)
  then show ?thesis by (metis list.set_map)
qed

lemma upsert_ids: "upsert_order row d = Inr d' \<Longrightarrow> ord_id ` set (Orders d) \<subseteq> ord_id ` set (Orders d')"
  by (auto simp: upsert_order_def dest!: upd_Order_ids split: if_splits)

lemma push_insert_ids:
  "push_insert_body u ch d = Inr (out, d') \<Longrightarrow> ord_id ` set (Orders d) \<subseteq> ord_id ` set (Orders d')"
proof -
  assume "push_insert_body u ch d = Inr (out, d')"
  then obtain data d1 where d1: "upsert_order (pushed_order u (ch_id ch) data d) d = Inr d1"
    and d2: "(case od_items data of None \<Rightarrow> Inr d1 | Some items \<Rightarrow> push_items (ch_id ch) items d1) = Inr d'"
    by (auto simp: push_insert_body_def)
  have "Orders d' = Orders d1"
  proof (cases "od_items data")
    case (Some items)
    with d2 have "push_items (ch_id ch) items d1 = Inr d'" by simp
    from push_item_rows[OF this[unfolded push_items_def]] show ?thesis by (auto simp: del_OrderItems_def)
  qed (use d2 in simp)
  with upsert_ids[OF d1] show ?thesis by simp
qed

lemma push_change_ids:
  assumes "push_change u ch d = (r, d')" and "map_option usr_role (find_row usr_id u (Users d)) \<noteq> Some ''admin''"
  shows "ord_id ` set (Orders d) \<subseteq> ord_id ` set (Orders d')"
proof (cases "push_operation u ch d")
  case (Inl e)
  then show ?thesis using assms(1) by (auto simp: push_change_def transaction_def)
next
  case (Inr x)
  then obtain out d1 where d1: "push_operation u ch d = Inr (out, d1)" by (cases x) auto
  have upd: "push_update_body ch d = Inr (out, d1) \<Longrightarrow> ord_id ` set (Orders d1) = ord_id ` set (Orders d)"
    by (auto simp: push_update_body_def changed_order_def dest!: upd_Order_ids)
  have "ord_id ` set (Orders d) \<subseteq> ord_id ` set (Orders d1)"
    using d1 push_insert_ids upd assms(2) unfolding push_operation_def push_delete_body_def
    by (simp split: if_splits)
  moreover have "Orders d' = Orders d1"
    using assms(1) d1 by (auto simp: push_change_def transaction_def ins_SyncLog_def not_null_def split: option.splits)
  ultimately show ?thesis by simp
qed

text \<open>
  C25: pushing changes never removes an order unless the pushing user is an administrator in the table of
  users: whatever the operations, every order that was there is still there.
\<close>

theorem push_keeps_orders:
  assumes "map_option usr_role (find_row usr_id u (Users d)) \<noteq> Some ''admin''"
  shows "ord_id ` set (Orders d) \<subseteq> ord_id ` set (Orders (snd (push_changes u chs d)))"
  using assms
proof (induction chs arbitrary: d)
  case (Cons ch chs)
  obtain r d1 where d1: "push_change u ch d = (r, d1)" by (cases "push_change u ch d")
  have "Users d1 = Users d" using push_change_log[OF d1] by blast
  with Cons.IH[of d1] push_change_ids[OF d1 Cons.prems] Cons.prems show ?case
    by (cases "push_changes u chs d1") (simp add: d1)
qed simp

theorem push_keeps_orders_witness:
  "9 \<in> ord_id ` set (Orders (snd (push_changes 3 [order_change ''DELETE'' ''Order''] order_db)))"
proof -
  have "map_option usr_role (find_row usr_id 3 (Users order_db)) \<noteq> Some ''admin''"
    by (simp add: order_db_def admin_def manager_def)
  from push_keeps_orders[OF this, of "[order_change ''DELETE'' ''Order'']"] show ?thesis
    by (simp add: order_db_def subset_iff)
qed

text \<open>
  The full synchronisation has no such rule. Any user id, known or not, removes any order with one DELETE
  change, and the answer reports success.
\<close>

theorem full_sync_deletes_unchecked:
  assumes "ch_operation ch = Some ''DELETE''"
  shows "\<exists>os d'. sync_full (Some u) lastSync (Some [ch]) d = (reply_ok 200 ([(ch_id ch, Inr ())], os), d') \<and>
    Orders d' = filter (\<lambda>r. ord_id r \<noteq> ch_id ch) (Orders d) \<and>
    OrderItem d' = filter (\<lambda>r. oi_orderId r \<noteq> ch_id ch) (OrderItem d)"
  using assms by (simp add: sync_full_def full_change_def full_statement_def coalesce_def)
    (auto simp: del_Order_def Let_def)

theorem full_sync_deletes_unchecked_witness:
  "\<exists>r d'. sync_full (Some 77) None (Some [order_change ''DELETE'' ''Order'']) order_db = (r, d') \<and> fst r = 200 \<and>
     Orders d' = []"
  using full_sync_deletes_unchecked[of "order_change ''DELETE'' ''Order''" 77 None order_db]
  by (auto simp: order_change_def order_db_def reply_ok_def)

section \<open>The transaction of the full synchronisation\<close>

lemma full_aborted:
  "full_changes u chs (d, True) = (rs, s) \<Longrightarrow> s = (d, True)"
proof (induction chs arbitrary: rs)
  case (Cons ch chs)
  have "snd (full_change u ch (d, True)) = (d, True)"
    by (simp add: full_change_def split: sum.split option.split)
  then obtain r where "full_change u ch (d, True) = (r, d, True)" by (metis prod.collapse)
  with Cons show ?case by (auto simp: Let_def split: prod.splits)
qed simp

lemma full_sql_error:
  assumes "full_changes u chs (d, aborted) = (rs, d', aborted')" and "(i, Inl (SqlError e)) \<in> set rs"
  shows "aborted'"
  using assms
proof (induction chs arbitrary: d aborted rs)
  case (Cons ch chs)
  obtain r d1 a1 where c: "full_change u ch (d, aborted) = (r, d1, a1)" by (cases "full_change u ch (d, aborted)") auto
  obtain rs1 where rs1: "full_changes u chs (d1, a1) = (rs1, d', aborted')" "rs = r # rs1"
    using Cons.prems(1) c by (auto simp: Let_def split: prod.splits)
  show ?case
  proof (cases "(i, Inl (SqlError e)) \<in> set rs1")
    case True
    with Cons.IH[OF rs1(1)] show ?thesis by simp
  next
    case False
    with Cons.prems(2) rs1(2) have "r = (i, Inl (SqlError e))" by simp
    then have "a1" using c
      by (auto simp: full_change_def full_statement_def data_of_def Let_def split: sum.splits option.splits if_splits)
    with rs1(1) have "full_changes u chs (d1, True) = (rs1, d', aborted')" by simp
    from full_aborted[OF this] show ?thesis by simp
  qed
qed simp

text \<open>
  C26: one failing statement undoes the whole full synchronisation, silently. If any change of the request
  fails in the database, the state after the request is the state before it, although the answer is 200 and
  reports the changes before the failing one as done.
\<close>

theorem full_sync_failure_undoes_all:
  assumes "sync_full (Some u) lastSync (Some chs) d = (r, d')"
    and "full_changes u chs (d, False) = (results, s)" and "(i, Inl (SqlError e)) \<in> set results"
  shows "d' = d \<and> r = reply_ok 200 (results, orders_since u lastSync d)"
proof -
  obtain d1 a where "s = (d1, a)" by (cases s)
  with full_sql_error assms(2,3) have "a" by simp
  with \<open>s = (d1, a)\<close> assms(1,2) show ?thesis by (auto simp: sync_full_def coalesce_def)
qed

definition update_then_clash :: "change list" where
  "update_then_clash = [order_change ''UPDATE'' ''Order'', order_change ''INSERT'' ''Orders'']"

lemma update_then_clash_results:
  "fst (full_changes 3 update_then_clash (order_db, False)) =
     [(9, Inr ()), (9, Inl (SqlError (UniqueViolation ''Order.id'')))]"
  by (simp add: update_then_clash_def full_change_def full_statement_def order_change_def data_of_def full_update_def
      full_insert_def ins_Order_def upd_Order_def update_table_def order_ok_def first_error_def dec_fits_def changed_order_def
      order_db_def staff_db_def coalesce_def coalesce_opt_def sync_numbers Let_def)

theorem full_sync_failure_undoes_all_witness:
  "\<exists>r. sync_full (Some 3) None (Some update_then_clash) order_db = (r, order_db) \<and>
     snd r = Inr ([(9, Inr ()), (9, Inl (SqlError (UniqueViolation ''Order.id'')))], orders_since 3 None order_db)"
proof -
  obtain r d' where r: "sync_full (Some 3) None (Some update_then_clash) order_db = (r, d')"
    by (cases "sync_full (Some 3) None (Some update_then_clash) order_db")
  obtain s where s: "full_changes 3 update_then_clash (order_db, False) =
      ([(9, Inr ()), (9, Inl (SqlError (UniqueViolation ''Order.id'')))], s)"
    using update_then_clash_results by (cases "full_changes 3 update_then_clash (order_db, False)") auto
  from full_sync_failure_undoes_all[OF r s] r show ?thesis by (auto simp: reply_ok_def)
qed

text \<open>
  New orders sent by a full synchronisation are lost. Whatever they contain, changes that insert into the
  table Order are all reported as successful and change nothing.
\<close>

theorem full_sync_inserts_nothing:
  assumes "list_all (\<lambda>ch. ch_operation ch = Some ''INSERT'' \<and> ch_table ch = Some ''Order'') chs"
  shows "sync_full (Some u) lastSync (Some chs) d =
    (reply_ok 200 (map (\<lambda>ch. (ch_id ch, Inr ())) chs, orders_since u lastSync d), d)"
proof -
  have "full_changes u chs (d, False) = (map (\<lambda>ch. (ch_id ch, Inr ())) chs, d, False)"
    using assms by (induction chs) (simp_all add: full_change_def full_statement_def)
  then show ?thesis by (simp add: sync_full_def coalesce_def)
qed

theorem full_sync_inserts_nothing_witness:
  "sync_full (Some 3) None (Some [order_change ''INSERT'' ''Order'']) staff_db = (reply_ok 200 ([(9, Inr ())], []), staff_db)"
  using full_sync_inserts_nothing[of "[order_change ''INSERT'' ''Order'']" 3 None staff_db]
  by (simp add: order_change_def orders_since_def staff_db_def empty_db_def)

section \<open>The product list\<close>

lemma collect_error: "x \<in> set xs \<Longrightarrow> (\<And>y. f x \<noteq> Inr y) \<Longrightarrow> \<exists>e. collect f xs = Inl e"
proof (induction xs)
  case (Cons z zs)
  then show ?case by (cases "f z"; cases "f x"; cases "collect f zs") auto
qed simp

text \<open>
  One product without prices breaks the list for every known user. If any product in the period has null
  prices, a request that names a user of the table is answered with 500, whatever the other products are.
\<close>

theorem null_prices_break_list:
  assumes "p \<in> set (Product d)" and "prod_prices p = None" and "since lastSync < prod_updatedAt p"
    and "products_user verify secret rq userId d = Some u"
  shows "get_products verify secret rq userId lastSync d = reply_error 500 (Text ''Failed to get products'')"
proof -
  let ?f = "\<lambda>p. rbind (transformProductForUser p (products_user verify secret rq userId d)) (\<lambda>transformed.
         Inr (if sees_all_prices verify secret rq then transformed\<lparr>pv_prices := prod_prices p\<rparr> else transformed))"
  have "?f p \<noteq> Inr y" for y using assms(2,4) by (simp add: transformProductForUser_def Let_def)
  moreover have "p \<in> set (sort_key prod_updatedAt (filter (\<lambda>p. since lastSync < prod_updatedAt p) (Product d)))"
    using assms(1,3) by simp
  ultimately obtain e where "collect ?f (sort_key prod_updatedAt (filter (\<lambda>p. since lastSync < prod_updatedAt p) (Product d))) = Inl e"
    using collect_error by meson
  then show ?thesis by (simp add: get_products_def catch_reply_def reply_error_def)
qed

theorem null_prices_break_list_witness:
  "get_products (\<lambda>_. None) None (bearer []) (Some 3) None
     (staff_db\<lparr>Product := [milk, milk\<lparr>prod_id := 6, prod_prices := None, prod_updatedAt := 9\<rparr>]\<rparr>) =
   reply_error 500 (Text ''Failed to get products'')"
  by (rule null_prices_break_list[of "milk\<lparr>prod_id := 6, prod_prices := None, prod_updatedAt := 9\<rparr>" _ _ _ _ _ _ manager])
    (simp_all add: since_def coalesce_def products_user_def coalesce_opt_def admin_def manager_def bearer_def)

definition secret_request :: request where
  "secret_request = \<lparr>rq_method = ''GET'', rq_path = ''/api/products'', rq_authorization = None, rq_adminSecret = None,
     rq_token = None\<rparr>"

text \<open>
  A server without an admin secret shows all prices to everyone. If no secret is configured, a request
  without any credentials gets the price lists of all the products in the period.
\<close>

theorem missing_secret_shows_prices:
  assumes "rq_adminSecret rq = None" and "rq_authorization rq = None"
  shows "get_products verify None rq None lastSync d = reply_ok 200 (map (\<lambda>p.
      \<lparr>pv_product = p\<lparr>prod_prices := None\<rparr>, pv_price = None, pv_prices = prod_prices p\<rparr>)
    (sort_key prod_updatedAt (filter (\<lambda>p. since lastSync < prod_updatedAt p) (Product d))))"
proof -
  have c: "collect (\<lambda>p. Inr (g p)) xs = Inr (map g xs)" for g :: "product \<Rightarrow> product_view" and xs
    by (induction xs) auto
  show ?thesis
    using assms by (simp add: get_products_def sees_all_prices_def products_user_def coalesce_opt_def
        transformProductForUser_def Let_def c catch_reply_def reply_ok_def)
qed

theorem missing_secret_shows_prices_witness:
  "\<exists>v. get_products (\<lambda>_. None) None secret_request None None (staff_db\<lparr>Product := [milk\<lparr>prod_updatedAt := 9\<rparr>]\<rparr>) =
     reply_ok 200 [v] \<and> pv_prices v = prod_prices milk"
  using missing_secret_shows_prices[of secret_request "\<lambda>_. None" None "staff_db\<lparr>Product := [milk\<lparr>prod_updatedAt := 9\<rparr>]\<rparr>"]
  by (auto simp: secret_request_def since_def coalesce_def)

end
