(* ===== verification/OrderAdmin.thy ===== *)
theory OrderAdmin
  imports Sync
begin

text \<open>
  The order routes of \<open>src/routes/admin.ts\<close>: creating, listing, reading, editing and deleting orders. An
  order keeps its items twice, as the JSON array \<open>Order.items\<close> and as rows of \<open>OrderItem\<close>.
\<close>

section \<open>Create\<close>

record order_body =
  ob_date :: "timestamp option"
  ob_counterpartyId :: "ident option"
  ob_status :: "string option"
  ob_items :: "order_json_item list option"
  ob_comment :: "string option"
  ob_amount :: "jsnum option"
  ob_warehouseId :: "ident option"

text \<open>The nil UUID, the author of an order of staff without an id.\<close>

definition placeholder_user :: ident where
  "placeholder_user = 0"

definition order_author :: "req_user \<Rightarrow> ident option" where
  "order_author user = (case ru_id user of Some i \<Rightarrow> Some i
     | None \<Rightarrow> if ru_role user = ''admin'' \<or> ru_role user = ''manager'' then Some placeholder_user else None)"

definition first_warehouse :: "db \<Rightarrow> ident option" where
  "first_warehouse d = (case sort_key wh_createdAt (Warehouse d) of [] \<Rightarrow> None | w # _ \<Rightarrow> Some (wh_id w))"

text \<open>The warehouse of the user, of the request, of the counterparty, or the oldest one, in this order.\<close>

definition order_warehouse :: "req_user \<Rightarrow> order_body \<Rightarrow> db \<Rightarrow> ident option" where
  "order_warehouse user data d =
     (case forced_warehouse (Some user) (ob_warehouseId data) of
        Some w \<Rightarrow> Some w
      | None \<Rightarrow> (case Option.bind (Option.bind (ob_counterpartyId data) (\<lambda>c. find_row cp_id c (Counterparty d)))
             cp_warehouseId of
           Some w \<Rightarrow> Some w
         | None \<Rightarrow> first_warehouse d))"

text \<open>\<open>sortOrder\<close> is not among the columns and takes its default.\<close>

definition insert_order_item :: "ident \<Rightarrow> ident option \<Rightarrow> order_json_item \<Rightarrow> db \<Rightarrow> error + db" where
  "insert_order_item i product item d =
     rbind (not_null ''OrderItem.productId'' product) (\<lambda>productId.
     rbind (not_null ''OrderItem.quantity'' (coalesce (oji_quantity item) None)) (\<lambda>quantity.
     rbind (not_null ''OrderItem.sellPrice'' (oji_price item)) (\<lambda>price.
     ins_OrderItem
       \<lparr>oi_id = next_uuid d, oi_orderId = i, oi_productId = productId,
        oi_quantity = round_dec 3 (js_text quantity), oi_sellPrice = round_dec 2 (js_text price), oi_sortOrder = 0\<rparr>
       (d\<lparr>next_uuid := Suc (next_uuid d)\<rparr>))))"

record order_view =
  ov_row :: order
  ov_counterpartyName :: "string option"

definition order_row :: "db \<Rightarrow> order \<Rightarrow> order_view" where
  "order_row d r = \<lparr>ov_row = r, ov_counterpartyName = join_name cp_id cp_name (Counterparty d) (ord_counterpartyId r)\<rparr>"

definition next_order_number :: "timestamp \<Rightarrow> db \<Rightarrow> string" where
  "next_order_number date d = generateDocNumber (tz_offset d) (List.map_filter ord_docNumber (Orders d)) date"

definition new_order :: "req_user \<Rightarrow> ident \<Rightarrow> order_body \<Rightarrow> db \<Rightarrow> order" where
  "new_order user author data d =
     \<lparr>ord_id = next_uuid d, ord_userId = author, ord_counterpartyId = ob_counterpartyId data,
      ord_status = string_or (ob_status data) ''NEW'', ord_total = round_dec 2 (js_text (coalesce (ob_amount data) 0)),
      ord_currency = ''UAH'', ord_items = Some (coalesce (ob_items data) []), ord_comment = ob_comment data,
      ord_docNumber = Some (next_order_number (coalesce (ob_date data) (clock d)) d),
      ord_warehouseId = order_warehouse user data d, ord_isDeleted = False,
      ord_createdAt = coalesce (ob_date data) (clock d), ord_updatedAt = clock d\<rparr>"

definition create_order_body :: "req_user \<Rightarrow> ident \<Rightarrow> order_body \<Rightarrow> db \<Rightarrow> error + order_view \<times> db" where
  "create_order_body user author data d =
     (let row = new_order user author data d
      in rbind (ins_Order row (d\<lparr>next_uuid := Suc (next_uuid d)\<rparr>)) (\<lambda>d1.
         rbind (for_each (\<lambda>item. insert_order_item (ord_id row) (oji_productId item) item)
                  (coalesce (ob_items data) []) d1) (\<lambda>d2.
         Inr (order_row d2 row, d2))))"

definition create_order :: "req_user \<Rightarrow> order_body \<Rightarrow> db \<Rightarrow> order_view reply \<times> db" where
  "create_order user data d = (case order_author user of
     None \<Rightarrow> (reply_error 400 (Text ''User ID is required to create an order''), d)
   | Some author \<Rightarrow> map_prod (catch_reply 201 (\<lambda>e. (500, ErrorMessage e))) id
       (transaction (create_order_body user author data) d))"

text \<open>The router's \<open>adminAuth\<close> comes first, the \<open>userAuth\<close> of the route replaces \<open>req.user\<close>.\<close>

definition create_order_route ::
  "(string \<Rightarrow> claims option) \<Rightarrow> string option \<Rightarrow> (string \<Rightarrow> ident) \<Rightarrow> request \<Rightarrow> order_body \<Rightarrow> db \<Rightarrow>
   order_view reply \<times> db" where
  "create_order_route verify secret key rq data d =
     (case adminAuth verify secret rq d of
        (code, Inl e) \<Rightarrow> ((code, Inl e), d)
      | (_, Inr _) \<Rightarrow> (case userAuth verify rq d of
          (code, Inl e) \<Rightarrow> ((code, Inl e), d)
        | (_, Inr c) \<Rightarrow> create_order (as_req_user key c) data d))"

section \<open>List and read\<close>

text \<open>
  \<open>found\<close> is the pattern \<open>ILIKE '%search%'\<close> and \<open>id_text\<close> the text of a key. The last day counts to its end in
  the time zone of the server.
\<close>

definition end_of_local_day :: "int \<Rightarrow> timestamp \<Rightarrow> timestamp" where
  "end_of_local_day tz t = (local_day tz t + 1) * ms_per_day - 1 - tz"

definition order_matches ::
  "(string \<Rightarrow> string \<Rightarrow> bool) \<Rightarrow> (ident \<Rightarrow> string) \<Rightarrow> string option \<Rightarrow> order_view \<Rightarrow> bool" where
  "order_matches found id_text search v = (case non_empty search of None \<Rightarrow> True
     | Some s \<Rightarrow> (case ov_counterpartyName v of None \<Rightarrow> False | Some n \<Rightarrow> found s n) \<or>
         found s (id_text (ord_id (ov_row v))))"

definition order_listed :: "req_user \<Rightarrow> bool \<Rightarrow> timestamp option \<Rightarrow> timestamp option \<Rightarrow> db \<Rightarrow> order \<Rightarrow> bool" where
  "order_listed user includeDeleted startDate endDate d r \<longleftrightarrow>
     (case restricted_to (Some user) of None \<Rightarrow> True | Some w \<Rightarrow> ord_warehouseId r = Some w) \<and>
     (includeDeleted \<or> \<not> ord_isDeleted r) \<and>
     pred_option (\<lambda>t. t \<le> ord_createdAt r) startDate \<and>
     pred_option (\<lambda>t. ord_createdAt r \<le> end_of_local_day (tz_offset d) t) endDate"

definition list_orders ::
  "(string \<Rightarrow> string \<Rightarrow> bool) \<Rightarrow> (ident \<Rightarrow> string) \<Rightarrow> req_user \<Rightarrow> bool \<Rightarrow> timestamp option \<Rightarrow> timestamp option \<Rightarrow>
   string option \<Rightarrow> db \<Rightarrow> order_view list reply" where
  "list_orders found id_text user includeDeleted startDate endDate search d = reply_ok 200
     (sort_key (\<lambda>v. - ord_createdAt (ov_row v)) (filter (order_matches found id_text search)
       (map (order_row d) (filter (order_listed user includeDeleted startDate endDate d) (Orders d)))))"

definition get_order :: "ident \<Rightarrow> db \<Rightarrow> order_view reply" where
  "get_order i d = (case find_row ord_id i (Orders d) of
     None \<Rightarrow> reply_error 404 (Text ''Order not found'')
   | Some r \<Rightarrow> reply_ok 200 (order_row d r))"

section \<open>Edit\<close>

text \<open>\<open>op_amount\<close> is None when the property is missing and \<open>Some None\<close> when it is null.\<close>

record order_patch =
  op_status :: "string option"
  op_total :: "jsnum option"
  op_amount :: "jsnum option option"
  op_counterpartyId :: "ident option"
  op_isDeleted :: "bool option"
  op_items :: "order_json_item list option"
  op_comment :: "string option"
  op_date :: "timestamp option"

definition patched_order :: "order_patch \<Rightarrow> timestamp \<Rightarrow> order \<Rightarrow> order" where
  "patched_order p now r = r\<lparr>
     ord_counterpartyId := coalesce_opt (op_counterpartyId p) (ord_counterpartyId r),
     ord_status := coalesce (op_status p) (ord_status r),
     ord_total := (case coalesce (op_amount p) (op_total p) of
        None \<Rightarrow> ord_total r | Some x \<Rightarrow> round_dec 2 (js_text x)),
     ord_items := coalesce_opt (op_items p) (ord_items r),
     ord_comment := coalesce_opt (op_comment p) (ord_comment r),
     ord_isDeleted := coalesce (op_isDeleted p) (ord_isDeleted r),
     ord_createdAt := coalesce (op_date p) (ord_createdAt r), ord_updatedAt := now\<rparr>"

text \<open>\<open>item.productId || item.id\<close>\<close>

definition line_product :: "order_json_item \<Rightarrow> ident option" where
  "line_product item = coalesce_opt (oji_productId item) (oji_id item)"

definition update_order_body :: "ident \<Rightarrow> order_patch \<Rightarrow> db \<Rightarrow> error + order_view \<times> db" where
  "update_order_body i p d =
     rbind (upd_Order (\<lambda>r. ord_id r = i) (patched_order p (clock d)) d) (\<lambda>d1.
     case find_row ord_id i (Orders d1) of
       None \<Rightarrow> Inl OrderNotFound
     | Some row \<Rightarrow>
         rbind (case op_items p of None \<Rightarrow> Inr d1
                | Some items \<Rightarrow> for_each (\<lambda>item. insert_order_item i (line_product item) item) items
                    (del_OrderItems i d1)) (\<lambda>d2.
         Inr (order_row d2 row, d2)))"

definition update_order :: "ident \<Rightarrow> order_patch \<Rightarrow> db \<Rightarrow> order_view reply \<times> db" where
  "update_order i p d = map_prod (catch_reply 200 (\<lambda>e. if e = OrderNotFound then (404, Text ''Order not found'')
        else (500, Text ''Failed to update order''))) id (transaction (update_order_body i p) d)"

section \<open>Delete\<close>

definition soft_delete_order :: "ident \<Rightarrow> db \<Rightarrow> ident reply \<times> db" where
  "soft_delete_order i d = (case find_row ord_id i (Orders d) of
     None \<Rightarrow> (reply_error 404 (Text ''Order not found''), d)
   | Some _ \<Rightarrow> (reply_ok 200 i, d\<lparr>Orders := map_where (\<lambda>r. ord_id r = i)
        (\<lambda>r. r\<lparr>ord_isDeleted := True, ord_updatedAt := clock d\<rparr>) (Orders d)\<rparr>))"

definition hard_delete_order :: "req_user \<Rightarrow> ident \<Rightarrow> db \<Rightarrow> ident reply \<times> db" where
  "hard_delete_order user i d =
     (if ru_role user \<noteq> ''admin''
      then (reply_error 403 (Text ''Access denied: Only admins can perform hard delete''), d)
      else case find_row ord_id i (Orders d) of
        None \<Rightarrow> (reply_error 404 (Text ''Order not found''), d)
      | Some _ \<Rightarrow> (reply_ok 200 i, del_Order i d))"

section \<open>Requests\<close>

datatype order_request =
    Create req_user order_body
  | Update ident order_patch
  | SoftDelete ident
  | HardDelete req_user ident

fun handle_order :: "order_request \<Rightarrow> db \<Rightarrow> db" where
  "handle_order (Create user data) d = snd (create_order user data d)"
| "handle_order (Update i p) d = snd (update_order i p d)"
| "handle_order (SoftDelete i) d = snd (soft_delete_order i d)"
| "handle_order (HardDelete user i) d = snd (hard_delete_order user i d)"

definition handle_orders :: "order_request list \<Rightarrow> db \<Rightarrow> db" where
  "handle_orders qs d = fold handle_order qs d"

section \<open>The two copies of the items\<close>

text \<open>A line of an order at the precision of the columns it is stored in.\<close>

type_synonym order_columns = "ident option \<times> decimal option \<times> decimal option"

definition item_columns :: "order_line \<Rightarrow> order_columns" where
  "item_columns l = (ol_productId l, map_option (round_dec 3 \<circ> fst) (ol_quantity l),
     map_option (round_dec 2 \<circ> fst) (ol_sellPrice l))"

definition row_columns :: "order_item \<Rightarrow> order_columns" where
  "row_columns r = (Some (oi_productId r), Some (oi_quantity r), Some (oi_sellPrice r))"

definition rows_of_order :: "ident \<Rightarrow> db \<Rightarrow> order_item list" where
  "rows_of_order i d = filter (\<lambda>r. oi_orderId r = i) (OrderItem d)"

definition copies_agree :: "db \<Rightarrow> order \<Rightarrow> bool" where
  "copies_agree d r \<longleftrightarrow>
     map (item_columns \<circ> json_line) (coalesce (ord_items r) []) = map row_columns (rows_of_order (ord_id r) d)"

text \<open>Keys in use come from the supply of new keys.\<close>

definition keys_drawn :: "db \<Rightarrow> bool" where
  "keys_drawn d \<longleftrightarrow> (\<forall>r \<in> set (Orders d). ord_id r < next_uuid d) \<and> (\<forall>r \<in> set (OrderItem d). oi_orderId r < next_uuid d)"

text \<open>The items name the price of a line \<open>price\<close>; \<open>sellPrice\<close> is the name the realizations use.\<close>

definition plain_items :: "order_json_item list option \<Rightarrow> bool" where
  "plain_items items \<longleftrightarrow> (\<forall>item \<in> set (coalesce items []). oji_sellPrice item = None)"

fun plain_request :: "order_request \<Rightarrow> bool" where
  "plain_request (Create user data) \<longleftrightarrow> plain_items (ob_items data)"
| "plain_request (Update i p) \<longleftrightarrow> plain_items (op_items p)"
| "plain_request _ \<longleftrightarrow> True"

lemma insert_order_item_row:
  assumes "insert_order_item i product item d = Inr d'"
  shows "\<exists>r n. d' = d\<lparr>OrderItem := OrderItem d @ [r], next_uuid := n\<rparr> \<and> next_uuid d \<le> n \<and> oi_orderId r = i \<and>
    (oji_sellPrice item = None \<and> (product = oji_productId item \<or> product = line_product item) \<longrightarrow>
      item_columns (json_line item) = row_columns r)"
proof -
  from assms obtain p q c where v: "product = Some p" "oji_quantity item = Some (Some q)" "oji_price item = Some c"
    and d': "ins_OrderItem \<lparr>oi_id = next_uuid d, oi_orderId = i, oi_productId = p, oi_quantity = round_dec 3 (js_text q),
       oi_sellPrice = round_dec 2 (js_text c), oi_sortOrder = 0\<rparr> (d\<lparr>next_uuid := Suc (next_uuid d)\<rparr>) = Inr d'"
    by (auto simp: insert_order_item_def coalesce_def split: option.splits)
  have "ol_productId (json_line item) = Some p"
    if "product = oji_productId item \<or> product = line_product item"
    using that v(1) by (auto simp: json_line_def line_product_def coalesce_opt_def split: option.splits)
  then show ?thesis using d' v(2,3)
    by (intro exI[of _ "\<lparr>oi_id = next_uuid d, oi_orderId = i, oi_productId = p, oi_quantity = round_dec 3 (js_text q),
       oi_sellPrice = round_dec 2 (js_text c), oi_sortOrder = 0\<rparr>"] exI[of _ "Suc (next_uuid d)"])
      (auto simp: ins_OrderItem_def item_columns_def row_columns_def json_line_def json_value_def)
qed

lemma insert_order_items_rows:
  assumes "for_each (\<lambda>item. insert_order_item i (product item) item) items d = Inr d'"
    and "product = oji_productId \<or> product = line_product"
  shows "\<exists>rs n. d' = d\<lparr>OrderItem := OrderItem d @ rs, next_uuid := n\<rparr> \<and> next_uuid d \<le> n \<and>
    (\<forall>r \<in> set rs. oi_orderId r = i) \<and>
    (plain_items (Some items) \<longrightarrow> map (item_columns \<circ> json_line) items = map row_columns rs)"
  using assms(1)
proof (induction items arbitrary: d)
  case Nil
  then show ?case by (intro exI[of _ "[]"] exI[of _ "next_uuid d"]) simp
next
  case (Cons x xs)
  from Cons.prems obtain d1 where d1: "insert_order_item i (product x) x d = Inr d1"
    "for_each (\<lambda>item. insert_order_item i (product item) item) xs d1 = Inr d'" by auto
  from insert_order_item_row[OF d1(1)] assms(2) obtain r n where
    r: "d1 = d\<lparr>OrderItem := OrderItem d @ [r], next_uuid := n\<rparr>" "next_uuid d \<le> n" "oi_orderId r = i"
    "oji_sellPrice x = None \<longrightarrow> item_columns (json_line x) = row_columns r" by blast
  from Cons.IH[OF d1(2)] obtain rs m where
    rs: "d' = d1\<lparr>OrderItem := OrderItem d1 @ rs, next_uuid := m\<rparr>" "next_uuid d1 \<le> m" "\<forall>r \<in> set rs. oi_orderId r = i"
    "plain_items (Some xs) \<longrightarrow> map (item_columns \<circ> json_line) xs = map row_columns rs" by blast
  show ?case
  proof (intro exI conjI)
    show "d' = d\<lparr>OrderItem := OrderItem d @ (r # rs), next_uuid := m\<rparr>" using r(1) rs(1) by simp
  qed (use r rs in \<open>auto simp: plain_items_def coalesce_def comp_def\<close>)
qed

definition copies_ok :: "db \<Rightarrow> bool" where
  "copies_ok d \<longleftrightarrow> keys_drawn d \<and> (\<forall>r \<in> set (Orders d). copies_agree d r)"

lemma copies_agree_cong:
  "ord_items r = ord_items r' \<Longrightarrow> ord_id r = ord_id r' \<Longrightarrow> rows_of_order (ord_id r) d = rows_of_order (ord_id r) d' \<Longrightarrow>
   copies_agree d r \<longleftrightarrow> copies_agree d' r'"
  by (simp add: copies_agree_def)

lemma create_order_body_effect:
  assumes "create_order_body user author data d = Inr (v, d')"
  shows "\<exists>rs n. d' = d\<lparr>Orders := Orders d @ [new_order user author data d], OrderItem := OrderItem d @ rs,
      next_uuid := n\<rparr> \<and> next_uuid d < n \<and> (\<forall>r \<in> set rs. oi_orderId r = next_uuid d) \<and>
      (plain_items (ob_items data) \<longrightarrow>
         map (item_columns \<circ> json_line) (coalesce (ob_items data) []) = map row_columns rs)"
proof -
  let ?row = "new_order user author data d"
  from assms obtain d1 where d1: "ins_Order ?row (d\<lparr>next_uuid := Suc (next_uuid d)\<rparr>) = Inr d1"
    and d2: "for_each (\<lambda>item. insert_order_item (ord_id ?row) (oji_productId item) item) (coalesce (ob_items data) []) d1 = Inr d'"
    by (auto simp: create_order_body_def Let_def)
  have e1: "d1 = d\<lparr>Orders := Orders d @ [?row], next_uuid := Suc (next_uuid d)\<rparr>" using d1 by (auto simp: ins_Order_def)
  have i: "ord_id ?row = next_uuid d" by (simp add: new_order_def)
  have p: "plain_items (Some (coalesce x [])) = plain_items x" for x by (simp add: plain_items_def coalesce_def)
  from insert_order_items_rows[OF d2] obtain rs n where
    "d' = d1\<lparr>OrderItem := OrderItem d1 @ rs, next_uuid := n\<rparr>" "next_uuid d1 \<le> n" "\<forall>r \<in> set rs. oi_orderId r = ord_id ?row"
    "plain_items (ob_items data) \<longrightarrow> map (item_columns \<circ> json_line) (coalesce (ob_items data) []) = map row_columns rs"
    unfolding p by blast
  then show ?thesis unfolding e1 i by (intro exI[of _ rs] exI[of _ n]) simp
qed

lemma create_keeps_copies:
  assumes "copies_ok d" and "plain_items (ob_items data)"
  shows "copies_ok (snd (create_order user data d))"
proof (cases "\<exists>author v d'. order_author user = Some author \<and> create_order_body user author data d = Inr (v, d')")
  case False
  then show ?thesis using assms(1)
    by (auto simp: create_order_def transaction_def split: option.splits sum.splits)
next
  case True
  then obtain author v d' where b: "order_author user = Some author" "create_order_body user author data d = Inr (v, d')"
    by blast
  let ?row = "new_order user author data d"
  from create_order_body_effect[OF b(2)] assms(2) obtain rs n where
    d': "d' = d\<lparr>Orders := Orders d @ [?row], OrderItem := OrderItem d @ rs, next_uuid := n\<rparr>" "next_uuid d < n"
    "\<forall>r \<in> set rs. oi_orderId r = next_uuid d"
    "map (item_columns \<circ> json_line) (coalesce (ob_items data) []) = map row_columns rs" by blast
  have i: "ord_id ?row = next_uuid d" "ord_items ?row = Some (coalesce (ob_items data) [])" by (simp_all add: new_order_def)
  from assms(1) have k: "\<forall>r \<in> set (Orders d). ord_id r < next_uuid d" "\<forall>r \<in> set (OrderItem d). oi_orderId r < next_uuid d"
    by (simp_all add: copies_ok_def keys_drawn_def)
  have "filter (\<lambda>r. oi_orderId r = next_uuid d) (OrderItem d) = []" "filter (\<lambda>r. oi_orderId r = next_uuid d) rs = rs"
    using k(2) d'(3) by (auto simp: filter_empty_conv filter_id_conv)
  then have new: "copies_agree d' ?row"
    using d'(4) by (simp add: copies_agree_def rows_of_order_def i d'(1) coalesce_def)
  have old: "copies_agree d' r" if "r \<in> set (Orders d)" for r
  proof -
    have "filter (\<lambda>x. oi_orderId x = ord_id r) rs = []" using k(1) that d'(3) by (auto simp: filter_empty_conv)
    then have "rows_of_order (ord_id r) d' = rows_of_order (ord_id r) d" by (simp add: rows_of_order_def d'(1))
    then show ?thesis using assms(1) that copies_agree_cong[of r r d' d] by (simp add: copies_ok_def)
  qed
  have "keys_drawn d'" using k d' by (auto simp: keys_drawn_def i)
  with new old have "copies_ok d'" by (simp add: copies_ok_def d'(1))
  then show ?thesis using b by (simp add: create_order_def transaction_def)
qed

lemma filter_other_key:
  assumes "k \<noteq> i"
  shows "filter (\<lambda>x. f x \<noteq> i \<and> f x = k) xs = filter (\<lambda>x. f x = k) xs"
    and "filter (\<lambda>x. f x = k \<and> f x \<noteq> i) xs = filter (\<lambda>x. f x = k) xs"
  using assms by (induction xs) auto

lemma ord_id_patched [simp]: "ord_id (patched_order p t r) = ord_id r"
  by (simp add: patched_order_def)

lemma update_keeps_copies:
  assumes "copies_ok d" and "plain_items (op_items p)"
  shows "copies_ok (snd (update_order i p d))"
proof (cases "update_order_body i p d")
  case (Inl e)
  then show ?thesis using assms(1) by (simp add: update_order_def transaction_def)
next
  case (Inr y)
  then obtain v d' where b: "update_order_body i p d = Inr (v, d')" by (cases y) auto
  then obtain d1 row where d1: "upd_Order (\<lambda>r. ord_id r = i) (patched_order p (clock d)) d = Inr d1"
    and row: "find_row ord_id i (Orders d1) = Some row"
    and d2: "(case op_items p of None \<Rightarrow> Inr d1 | Some items \<Rightarrow>
       for_each (\<lambda>item. insert_order_item i (line_product item) item) items (del_OrderItems i d1)) = Inr d'"
    by (auto simp: update_order_body_def split: option.splits)
  let ?f = "\<lambda>r. if ord_id r = i then patched_order p (clock d) r else r"
  have e1: "d1 = d\<lparr>Orders := map ?f (Orders d)\<rparr>"
    using d1 by (auto simp: upd_Order_def update_table_Inr_iff map_where_def)
  have id: "ord_id (?f r) = ord_id r" for r by simp
  have "Orders d1 = map ?f (Orders d)" by (simp add: e1)
  with find_row_Some[OF row] have "i \<in> ord_id ` ?f ` set (Orders d)" by (metis image_eqI list.set_map)
  then have "i \<in> ord_id ` set (Orders d)" unfolding image_image id .
  with assms(1) have i: "i < next_uuid d" by (auto simp: copies_ok_def keys_drawn_def)
  have "copies_ok d'"
  proof (cases "op_items p")
    case None
    with d2 have d': "d' = d1" by simp
    have "ord_items (patched_order p t r) = ord_items r" for t r by (simp add: patched_order_def coalesce_opt_def None)
    then show ?thesis using assms(1)
      by (auto simp: d' e1 copies_ok_def keys_drawn_def copies_agree_def rows_of_order_def id)
  next
    case (Some items)
    from insert_order_items_rows[of i line_product items "del_OrderItems i d1" d'] d2 Some assms(2) obtain rs n where
      d': "d' = (del_OrderItems i d1)\<lparr>OrderItem := OrderItem (del_OrderItems i d1) @ rs, next_uuid := n\<rparr>"
      "next_uuid d1 \<le> n" "\<forall>r \<in> set rs. oi_orderId r = i"
      "map (item_columns \<circ> json_line) items = map row_columns rs"
      by (auto simp: del_OrderItems_def)
    have "filter (\<lambda>r. oi_orderId r = i) rs = rs" using d'(3) by (simp add: filter_id_conv)
    then have mine: "rows_of_order i d' = rs" by (simp add: rows_of_order_def d'(1) del_OrderItems_def)
    have others: "rows_of_order k d' = rows_of_order k d" if "k \<noteq> i" for k
    proof -
      have "filter (\<lambda>r. oi_orderId r = k) rs = []" using d'(3) that by (auto simp: filter_empty_conv)
      then show ?thesis using that by (simp add: rows_of_order_def d'(1) del_OrderItems_def e1 filter_other_key)
    qed
    have "copies_agree d' (?f r)" if "r \<in> set (Orders d)" for r
    proof (cases "ord_id r = i")
      case True
      then have "ord_items (?f r) = Some items" by (simp add: patched_order_def coalesce_opt_def Some)
      with True show ?thesis using d'(4) by (simp add: copies_agree_def id mine coalesce_def)
    next
      case False
      with assms(1) that show ?thesis using copies_agree_cong[of r r d' d] others by (simp add: copies_ok_def)
    qed
    moreover have "keys_drawn d'"
      using assms(1) d'(2,3) i by (auto simp: copies_ok_def keys_drawn_def d'(1) del_OrderItems_def e1 id)
    moreover have "Orders d' = map ?f (Orders d)" by (simp add: d'(1) del_OrderItems_def e1)
    ultimately show ?thesis unfolding copies_ok_def by (metis (no_types, lifting) imageE list.set_map)
  qed
  then show ?thesis by (simp add: update_order_def transaction_def b)
qed

lemma delete_keeps_copies:
  assumes "copies_ok d"
  shows "copies_ok (snd (soft_delete_order i d))" and "copies_ok (snd (hard_delete_order user i d))"
  using assms by (auto simp: soft_delete_order_def hard_delete_order_def del_Order_def copies_ok_def keys_drawn_def
      copies_agree_def rows_of_order_def set_map_where filter_other_key split: option.split)


definition clerk :: req_user where
  "clerk = \<lparr>ru_id = Some 3, ru_role = ''manager'', ru_warehouseId = Some 7\<rparr>"

definition tea_line :: order_json_item where
  "tea_line = \<lparr>oji_id = None, oji_productId = Some 5, oji_count = None, oji_quantity = Some (Some 3), oji_price = Some 4,
     oji_sellPrice = None\<rparr>"

definition tea_body :: order_body where
  "tea_body = \<lparr>ob_date = None, ob_counterpartyId = None, ob_status = None, ob_items = Some [tea_line, tea_line],
     ob_comment = None, ob_amount = Some 12, ob_warehouseId = None\<rparr>"

definition no_patch :: order_patch where
  "no_patch = \<lparr>op_status = None, op_total = None, op_amount = None, op_counterpartyId = None, op_isDeleted = None,
     op_items = None, op_comment = None, op_date = None\<rparr>"

definition tea_requests :: "order_request list" where
  "tea_requests = [Create clerk tea_body, Update 1000 (no_patch\<lparr>op_items := Some [tea_line]\<rparr>)]"

lemmas order_eval =
  tea_requests_def handle_orders_def create_order_def create_order_body_def new_order_def order_author_def clerk_def
  tea_body_def tea_line_def no_patch_def update_order_def update_order_body_def patched_order_def transaction_def
  insert_order_item_def ins_OrderItem_def ins_Order_def upd_Order_def update_table_def order_ok_def first_error_def
  dec_fits_def not_null_def coalesce_def coalesce_opt_def line_product_def del_OrderItems_def empty_db_def sync_numbers Let_def

lemma tea_handled:
  "\<exists>r. Orders (handle_orders tea_requests empty_db) = [r] \<and> ord_id r = 1000 \<and>
     map row_columns (rows_of_order 1000 (handle_orders tea_requests empty_db)) = [(Some 5, Some 3, Some 4)]"
  by (simp add: order_eval rows_of_order_def row_columns_def)


text \<open>
  An edit from a mobile client splits the copies. The UPDATE of a push writes the JSON array and leaves the
  rows of \<open>OrderItem\<close>, which the picking list and the collection schedule read.
\<close>

theorem mobile_edit_leaves_rows:
  assumes "push_update_body ch d = Inr (out, d')" and "ch_data ch = Some data" and "od_items data = Some items"
    and "find_row ord_id (ch_id ch) (Orders d) = Some r"
  shows "rows_of_order (ch_id ch) d' = rows_of_order (ch_id ch) d \<and>
    (\<exists>r'. find_row ord_id (ch_id ch) (Orders d') = Some r' \<and> ord_items r' = Some items)"
proof -
  have "ord_id (changed_order data t r) = ord_id r" for t r by (simp add: changed_order_def)
  moreover have "ord_items (changed_order data t r) = Some items" for t r
    by (simp add: changed_order_def coalesce_opt_def assms(3))
  ultimately show ?thesis using assms find_row_Some[OF assms(4)]
    by (auto simp: push_update_body_def data_of_def upd_Order_def update_table_Inr_iff rows_of_order_def find_row_map_where)
qed

theorem mobile_edit_leaves_rows_witness:
  "\<exists>out d' r. push_update_body (order_change ''UPDATE'' ''Order'') order_db = Inr (out, d') \<and>
     find_row ord_id 9 (Orders d') = Some r \<and> ord_items r = Some [pushed_line] \<and> rows_of_order 9 d' = []"
proof -
  obtain out d' where p: "push_update_body (order_change ''UPDATE'' ''Order'') order_db = Inr (out, d')"
    by (simp add: push_update_body_def data_of_def order_change_def upd_Order_def update_table_def order_ok_def
        first_error_def dec_fits_def order_db_def changed_order_def sync_numbers)
  let ?data = "the (ch_data (order_change ''UPDATE'' ''Order''))"
  have d: "ch_data (order_change ''UPDATE'' ''Order'') = Some ?data" "od_items ?data = Some [pushed_line]"
    by (simp_all add: order_change_def)
  have f: "find_row ord_id 9 (Orders order_db) \<noteq> None" "rows_of_order 9 order_db = []"
    by (simp_all add: order_db_def rows_of_order_def staff_db_def empty_db_def)
  have i: "ch_id (order_change ''UPDATE'' ''Order'') = 9" by (simp add: order_change_def)
  from f(1) obtain r where "find_row ord_id 9 (Orders order_db) = Some r" by auto
  with mobile_edit_leaves_rows[OF p d, unfolded i] f(2) p show ?thesis by auto
qed

section \<open>Deleting and restoring\<close>

definition without_update_time :: "order \<Rightarrow> order" where
  "without_update_time r = r\<lparr>ord_updatedAt := 0\<rparr>"

text \<open>
  A soft delete can be taken back. It hides the order from every list that does not ask for deleted orders,
  and an edit that only clears the mark restores the table of orders, except for the time of the last update.
\<close>

theorem soft_delete_restore:
  assumes "find_row ord_id i (Orders d) = Some r" and "\<forall>r \<in> set (Orders d). ord_id r = i \<longrightarrow> \<not> ord_isDeleted r"
    and "\<forall>r \<in> set (Orders d). dec_fits 10 2 (ord_total r)" and "soft_delete_order i d = (reply, d1)"
  shows "\<exists>listed v d2. list_orders found id_text user False s e search d1 = reply_ok 200 listed \<and>
    i \<notin> (ord_id \<circ> ov_row) ` set listed \<and>
    update_order i (no_patch\<lparr>op_isDeleted := Some False\<rparr>) d1 = (reply_ok 200 v, d2) \<and>
    map without_update_time (Orders d2) = map without_update_time (Orders d) \<and> OrderItem d2 = OrderItem d"
proof -
  let ?gone = "\<lambda>r. r\<lparr>ord_isDeleted := True, ord_updatedAt := clock d\<rparr>"
  have d1: "d1 = d\<lparr>Orders := map_where (\<lambda>r. ord_id r = i) ?gone (Orders d)\<rparr>" "reply = reply_ok 200 i"
    using assms(1,4) by (simp_all add: soft_delete_order_def)
  have gone: "\<forall>r \<in> set (Orders d1). ord_id r = i \<longrightarrow> ord_isDeleted r"
    unfolding d1(1) map_where_def by (simp add: ball_Un)
  have hidden: "i \<notin> (ord_id \<circ> ov_row) ` set (sort_key k (filter m (map (order_row d1) (filter (order_listed user False s e d1) (Orders d1)))))"
    for k :: "order_view \<Rightarrow> int" and m
  proof
    assume "i \<in> (ord_id \<circ> ov_row) ` set (sort_key k (filter m (map (order_row d1) (filter (order_listed user False s e d1) (Orders d1)))))"
    then obtain r where "r \<in> set (Orders d1)" "ord_id r = i" "order_listed user False s e d1 r"
      by (auto simp: order_row_def)
    with gone show False by (auto simp: order_listed_def)
  qed
  let ?p = "no_patch\<lparr>op_isDeleted := Some False\<rparr>"
  have restored: "patched_order ?p t r = r\<lparr>ord_isDeleted := False, ord_updatedAt := t\<rparr>" for t r
    by (simp add: patched_order_def no_patch_def coalesce_def coalesce_opt_def)
  let ?d2 = "d\<lparr>Orders := map_where (\<lambda>r. ord_id r = i) (\<lambda>r. r\<lparr>ord_isDeleted := False, ord_updatedAt := clock d\<rparr>) (Orders d)\<rparr>"
  have twice: "map_where (\<lambda>r. ord_id r = i) (\<lambda>r. r\<lparr>ord_isDeleted := False, ord_updatedAt := t\<rparr>)
      (map_where (\<lambda>r. ord_id r = i) ?gone rows) =
      map_where (\<lambda>r. ord_id r = i) (\<lambda>r. r\<lparr>ord_isDeleted := False, ord_updatedAt := t\<rparr>) rows" for t rows
    by (simp add: map_where_def)
  let ?f = "\<lambda>r. r\<lparr>ord_isDeleted := False, ord_updatedAt := clock d\<rparr>"
  have fits: "\<forall>x \<in> set (Orders d1). ord_id x = i \<longrightarrow> (\<forall>c \<in> set (order_ok (?f x)). fst c)"
    unfolding d1(1) map_where_def using assms(3) by (simp add: ball_Un order_ok_def)
  have "update_table (\<lambda>r. ord_id r = i) ?f order_ok (Orders d1) = Inr (map_where (\<lambda>r. ord_id r = i) ?f (Orders d1))"
    unfolding update_table_Inr_iff using fits by blast
  also have "map_where (\<lambda>r. ord_id r = i) ?f (Orders d1) = map_where (\<lambda>r. ord_id r = i) ?f (Orders d)"
    by (simp add: d1(1) twice)
  finally have upd: "upd_Order (\<lambda>r. ord_id r = i) (patched_order ?p (clock d1)) d1 = Inr ?d2"
    unfolding upd_Order_def restored by (simp add: d1(1))
  obtain v where v: "find_row ord_id i (Orders ?d2) = Some v"
    using assms(1) by (simp add: find_row_map_where)
  have "update_order i ?p d1 = (reply_ok 200 (order_row ?d2 v), ?d2)"
    using upd v by (simp add: update_order_def update_order_body_def no_patch_def transaction_def catch_reply_def reply_ok_def)
  moreover have "map without_update_time (Orders ?d2) = map without_update_time (Orders d)"
    using assms(2) by (simp add: map_where_def without_update_time_def)
  moreover have "OrderItem ?d2 = OrderItem d" by simp
  ultimately show ?thesis using hidden unfolding list_orders_def by blast
qed

lemma order_db_soft_deleted: "\<exists>d1. soft_delete_order 9 order_db = (reply_ok 200 9, d1)"
  by (simp add: soft_delete_order_def order_db_def)

theorem soft_delete_restore_witness:
  "\<exists>v d1 d2. soft_delete_order 9 order_db = (reply_ok 200 9, d1) \<and>
     update_order 9 (no_patch\<lparr>op_isDeleted := Some False\<rparr>) d1 = (reply_ok 200 v, d2) \<and>
     map without_update_time (Orders d2) = map without_update_time (Orders order_db)"
proof -
  obtain d1 where d1: "soft_delete_order 9 order_db = (reply_ok 200 9, d1)" using order_db_soft_deleted by blast
  have "\<exists>r. find_row ord_id 9 (Orders order_db) = Some r" "\<forall>r \<in> set (Orders order_db). ord_id r = 9 \<longrightarrow> \<not> ord_isDeleted r"
    "\<forall>r \<in> set (Orders order_db). dec_fits 10 2 (ord_total r)" by (simp_all add: order_db_def dec_fits_def)
  with soft_delete_restore[of 9 order_db _ "reply_ok 200 9" d1] d1 show ?thesis by blast
qed

section \<open>Who may do what\<close>

text \<open>
  Staff bound to a warehouse stay in it when they create and list orders: an order they create belongs to
  their warehouse whatever the request names, and every order in their list does.
\<close>

theorem orders_of_own_warehouse:
  assumes "ru_role user \<noteq> ''admin''" and "ru_warehouseId user = Some w"
  shows "(create_order user data d = (reply_ok 201 v, d') \<longrightarrow> ord_warehouseId (ov_row v) = Some w) \<and>
    (list_orders found id_text user includeDeleted s e search d = reply_ok 200 vs \<longrightarrow>
       (\<forall>v \<in> set vs. ord_warehouseId (ov_row v) = Some w))"
proof -
  have own: "restricted_to (Some user) = Some w" using assms by (simp add: restricted_to_def)
  have "ord_warehouseId (ov_row v) = Some w" if "create_order user data d = (reply_ok 201 v, d')"
    using that own by (auto simp: create_order_def create_order_body_def new_order_def order_warehouse_def
        forced_warehouse_def order_row_def transaction_def catch_reply_def reply_ok_def reply_error_def Let_def
        split: option.splits sum.splits)
  moreover have "\<forall>v \<in> set vs. ord_warehouseId (ov_row v) = Some w"
    if "list_orders found id_text user includeDeleted s e search d = reply_ok 200 vs"
  proof -
    have "vs = sort_key (\<lambda>v. - ord_createdAt (ov_row v)) (filter (order_matches found id_text search)
        (map (order_row d) (filter (order_listed user includeDeleted s e d) (Orders d))))"
      using that by (simp add: list_orders_def reply_ok_def)
    then have "\<forall>v \<in> set vs. order_listed user includeDeleted s e d (ov_row v)" by (auto simp: order_row_def)
    then show ?thesis using own by (auto simp: order_listed_def)
  qed
  ultimately show ?thesis by blast
qed

text \<open>
  The restriction ends there: reading, editing and deleting one order ask for no warehouse, so the answer of
  \<open>GET /orders/:id\<close> does not depend on who asks.
\<close>

definition other_warehouse_db :: db where
  "other_warehouse_db = order_db\<lparr>Orders := map (\<lambda>r. r\<lparr>ord_warehouseId := Some 8\<rparr>) (Orders order_db)\<rparr>"

theorem orders_of_own_warehouse_witness:
  "\<exists>vs v. list_orders (\<lambda>_ _. True) (\<lambda>_. []) clerk False None None None other_warehouse_db = reply_ok 200 vs \<and>
     (\<forall>v \<in> set vs. ord_warehouseId (ov_row v) = Some 7) \<and>
     get_order 9 other_warehouse_db = reply_ok 200 v \<and> ord_warehouseId (ov_row v) = Some 8"
proof -
  have c: "ru_role clerk \<noteq> ''admin''" "ru_warehouseId clerk = Some 7" by (simp_all add: clerk_def)
  obtain vs where vs: "list_orders (\<lambda>_ _. True) (\<lambda>_. []) clerk False None None None other_warehouse_db = reply_ok 200 vs"
    by (simp add: list_orders_def)
  with orders_of_own_warehouse[OF c] have "\<forall>v \<in> set vs. ord_warehouseId (ov_row v) = Some 7" by blast
  moreover obtain r where "find_row ord_id 9 (Orders other_warehouse_db) = Some r" "ord_warehouseId r = Some 8"
    by (simp add: other_warehouse_db_def order_db_def)
  then have "get_order 9 other_warehouse_db = reply_ok 200 (order_row other_warehouse_db r) \<and>
      ord_warehouseId (ov_row (order_row other_warehouse_db r)) = Some 8"
    by (simp add: get_order_def order_row_def)
  ultimately show ?thesis using vs by blast
qed

text \<open>
  The admin secret alone does not create an order, although the handler has a case for it: the route asks
  for a token as well, and without one the answer is 401 (or 403) and nothing is stored.
\<close>

theorem secret_alone_creates_nothing:
  assumes "rq_authorization rq = None" and "non_empty (rq_token rq) = None"
  shows "\<exists>code e. create_order_route verify secret key rq data d = ((code, Inl e), d) \<and>
    code = (if secret \<noteq> None \<and> rq_adminSecret rq = secret \<and> secret \<noteq> Some [] then 401 else 403)"
  using assms by (auto simp: create_order_route_def adminAuth_def userAuth_def bearer_token_def is_bearer_def legacy_auth_def
      reply_ok_def reply_error_def non_empty_def split: option.splits list.splits)

theorem secret_alone_creates_nothing_witness:
  "\<exists>e. create_order_route (\<lambda>_. None) (Some ''s3'') (\<lambda>_. 7)
     \<lparr>rq_method = ''POST'', rq_path = ''/api/admin/orders'', rq_authorization = None, rq_adminSecret = Some ''s3'',
      rq_token = None\<rparr> tea_body empty_db = ((401, Inl e), empty_db)"
  using secret_alone_creates_nothing[of "\<lparr>rq_method = ''POST'', rq_path = ''/api/admin/orders'', rq_authorization = None,
      rq_adminSecret = Some ''s3'', rq_token = None\<rparr>" "\<lambda>_. None" "Some ''s3''" "\<lambda>_. 7" tea_body empty_db]
  by (simp add: non_empty_def)

end
