(* ===== verification/ProductAdmin.thy ===== *)
theory ProductAdmin
  imports OrderAdmin
begin

text \<open>
  The product routes of \<open>src/routes/admin.ts\<close>: creating, editing and deleting products. The statements of a
  request run one by one without a transaction, so what was done before an error stays. An uploaded file is the
  URL the upload package gives it.
\<close>

section \<open>Create\<close>

text \<open>
  \<open>prices\<close> of the body: missing, an object, or a text, which \<open>JSON.parse\<close> reads as an object or rejects. The
  values of an object are numbers or decimal texts.
\<close>

type_synonym prices = "(string \<times> price_json) list"

datatype prices_body = NoPrices | PricesObject prices | PricesText "prices option"

definition parsed_prices :: "prices_body \<Rightarrow> prices option" where
  "parsed_prices b = (case b of NoPrices \<Rightarrow> None | PricesObject p \<Rightarrow> Some p
     | PricesText (Some p) \<Rightarrow> Some p | PricesText None \<Rightarrow> Some [(''standard'', PNum 0)])"

record product_body =
  prb_name :: "string option"
  prb_unit :: "string option"
  prb_category :: "string option"
  prb_inBox :: "jsnum option"
  prb_barcode :: "string option"
  prb_packing :: "string option"
  prb_tara :: "string option"

definition product_ok :: "product \<Rightarrow> (bool \<times> sql_error) list" where
  "product_ok r = [(pred_option (dec_fits 10 3) (prod_inBox r), NumericOverflow)]"

definition box_size :: "product_body \<Rightarrow> decimal option" where
  "box_size b = map_option (\<lambda>x. round_dec 3 (js_text x)) (js_or (prb_inBox b) None)"

definition insert_product :: "product_body \<Rightarrow> prices option \<Rightarrow> string list \<Rightarrow> db \<Rightarrow> error + product \<times> db" where
  "insert_product b prices photos d =
     rbind (not_null ''Product.name'' (prb_name b)) (\<lambda>name.
     rbind (not_null ''Product.unit'' (prb_unit b)) (\<lambda>unit.
     let row = \<lparr>prod_id = next_uuid d, prod_name = name, prod_unit = unit, prod_category = prb_category b,
           prod_prices = prices, prod_photos = photos, prod_inBox = box_size b,
           prod_barcode = text_or_null (prb_barcode b), prod_packing = text_or_null (prb_packing b),
           prod_tara = text_or_null (prb_tara b), prod_deleted = False, prod_updatedAt = clock d\<rparr>
     in rbind (first_error (product_ok row)) (\<lambda>_.
        Inr (row, d\<lparr>next_uuid := Suc (next_uuid d), Product := Product d @ [row]\<rparr>))))"

text \<open>\<open>ptMap\<close>: of two rows with one slug the later wins.\<close>

definition slug_keys :: "db \<Rightarrow> string \<Rightarrow> ident option" where
  "slug_keys d = map_of (rev (map (\<lambda>r. (pt_slug r, pt_id r)) (PriceType d)))"

definition journal_row :: "ident \<Rightarrow> ident \<Rightarrow> jsnum \<Rightarrow> string \<Rightarrow> db \<Rightarrow> price_journal" where
  "journal_row product t price reason d =
     \<lparr>pj_id = next_uuid d, pj_productId = product, pj_priceTypeId = Some t, pj_oldPrice = None,
      pj_newPrice = round_dec 2 (js_text price), pj_effectiveDate = clock d, pj_createdBy = None,
      pj_reason = Some reason, pj_createdAt = clock d\<rparr>"

definition record_price :: "ident \<Rightarrow> ident \<Rightarrow> jsnum \<Rightarrow> string \<Rightarrow> db \<Rightarrow> error + db" where
  "record_price product t price reason d =
     ins_PriceJournal (journal_row product t price reason d) (d\<lparr>next_uuid := Suc (next_uuid d)\<rparr>)"

text \<open>
  The loop commits each statement by itself: the state after an error is the state before the failing one.
\<close>

fun each_statement :: "('a \<Rightarrow> db \<Rightarrow> error + db) \<Rightarrow> 'a list \<Rightarrow> db \<Rightarrow> (error + unit) \<times> db" where
  "each_statement f [] d = (Inr (), d)"
| "each_statement f (x # xs) d = (case f x d of Inl e \<Rightarrow> (Inl e, d) | Inr d' \<Rightarrow> each_statement f xs d')"

definition journal_new_price :: "(string \<Rightarrow> ident option) \<Rightarrow> ident \<Rightarrow> string \<times> price_json \<Rightarrow> db \<Rightarrow> error + db" where
  "journal_new_price types product = (\<lambda>(slug, v) d. case types slug of None \<Rightarrow> Inr d
     | Some t \<Rightarrow> record_price product t (price_number v) ''Manual product creation'' d)"

definition create_product :: "product_body \<Rightarrow> prices_body \<Rightarrow> string list \<Rightarrow> db \<Rightarrow> product reply \<times> db" where
  "create_product b prices files d =
     (case insert_product b (parsed_prices prices) files d of
        Inl e \<Rightarrow> (reply_error 500 (Text ''Failed to create product''), d)
      | Inr (row, d1) \<Rightarrow>
          (case each_statement (journal_new_price (slug_keys d1) (prod_id row)) (price_object (parsed_prices prices)) d1 of
             (Inl e, d2) \<Rightarrow> (reply_error 500 (Text ''Failed to create product''), d2)
           | (Inr _, d2) \<Rightarrow> (reply_ok 201 row, d2)))"

section \<open>Edit\<close>

text \<open>
  The first UPDATE keeps the columns of missing values, the second one, a statement of its own, writes all of
  them again without COALESCE. \<open>existingPhotos\<close> is one URL or a list of them.
\<close>

definition product_first_update :: "product_body \<Rightarrow> prices option \<Rightarrow> string list \<Rightarrow> timestamp \<Rightarrow> product \<Rightarrow> product" where
  "product_first_update b prices photos now r = r\<lparr>
     prod_name := coalesce (prb_name b) (prod_name r), prod_unit := coalesce (prb_unit b) (prod_unit r),
     prod_category := coalesce_opt (prb_category b) (prod_category r),
     prod_prices := coalesce_opt prices (prod_prices r),
     prod_photos := (if photos = [] then prod_photos r else photos), prod_updatedAt := now\<rparr>"

definition product_second_update ::
  "product_body \<Rightarrow> string \<Rightarrow> string \<Rightarrow> prices option \<Rightarrow> string list option \<Rightarrow> timestamp \<Rightarrow> product \<Rightarrow> product" where
  "product_second_update b name unit prices photos now r = r\<lparr>
     prod_name := name, prod_unit := unit, prod_category := prb_category b, prod_prices := prices,
     prod_photos := coalesce photos (prod_photos r), prod_inBox := box_size b,
     prod_barcode := text_or_null (prb_barcode b), prod_packing := text_or_null (prb_packing b),
     prod_tara := text_or_null (prb_tara b), prod_updatedAt := now\<rparr>"

definition upd_Product :: "(product \<Rightarrow> bool) \<Rightarrow> (product \<Rightarrow> product) \<Rightarrow> db \<Rightarrow> error + db" where
  "upd_Product P f d = rbind (update_table P f product_ok (Product d)) (\<lambda>rows. Inr (d\<lparr>Product := rows\<rparr>))"

text \<open>A NULL in a NOT NULL column is an error only when a row is written.\<close>

definition second_update ::
  "ident \<Rightarrow> product_body \<Rightarrow> prices option \<Rightarrow> string list option \<Rightarrow> db \<Rightarrow> error + db" where
  "second_update i b prices photos d =
     (if find_row prod_id i (Product d) = None then Inr d
      else rbind (not_null ''Product.name'' (prb_name b)) (\<lambda>name.
           rbind (not_null ''Product.unit'' (prb_unit b)) (\<lambda>unit.
           upd_Product (\<lambda>r. prod_id r = i) (product_second_update b name unit prices photos (clock d)) d)))"

definition latest_price :: "ident \<Rightarrow> ident \<Rightarrow> db \<Rightarrow> decimal option" where
  "latest_price product t d =
     (case sort_key (\<lambda>r. - pj_effectiveDate r)
        (filter (\<lambda>r. pj_productId r = product \<and> pj_priceTypeId r = Some t) (PriceJournal d)) of
        [] \<Rightarrow> None | r # _ \<Rightarrow> Some (pj_newPrice r))"

text \<open>The comparison is with the price as it was sent, the row holds it at two decimals.\<close>

definition journal_edited_price ::
  "(string \<Rightarrow> ident option) \<Rightarrow> product option \<Rightarrow> string \<times> price_json \<Rightarrow> db \<Rightarrow> error + db" where
  "journal_edited_price types updated = (\<lambda>(slug, v) d. case types slug of None \<Rightarrow> Inr d
     | Some t \<Rightarrow> (case updated of None \<Rightarrow> Inl JsTypeError
         | Some p \<Rightarrow>
             if latest_price (prod_id p) t d = Some (js_text (price_number v)) then Inr d
             else record_price (prod_id p) t (price_number v) ''Manual product edit'' d))"

definition update_product ::
  "ident \<Rightarrow> product_body \<Rightarrow> prices option \<Rightarrow> string list option \<Rightarrow> string list \<Rightarrow> db \<Rightarrow>
   product option reply \<times> db" where
  "update_product i b prices existingPhotos files d =
     (let finalPhotos = coalesce existingPhotos [] @ files;
          failed = reply_error 500 (Text ''Failed to update product'')
      in case upd_Product (\<lambda>r. prod_id r = i) (product_first_update b prices finalPhotos (clock d)) d of
           Inl e \<Rightarrow> (failed, d)
         | Inr d1 \<Rightarrow>
             (case second_update i b prices
                 (if existingPhotos \<noteq> None \<or> files \<noteq> [] then Some finalPhotos else None) d1 of
                Inl e \<Rightarrow> (failed, d1)
              | Inr d2 \<Rightarrow>
                  (let updated = find_row prod_id i (Product d2)
                   in case each_statement (journal_edited_price (slug_keys d2) updated) (price_object prices) d2 of
                        (Inl e, d3) \<Rightarrow> (failed, d3)
                      | (Inr _, d3) \<Rightarrow> (reply_ok 200 updated, d3))))"

section \<open>Delete\<close>

definition delete_product :: "ident \<Rightarrow> db \<Rightarrow> unit reply \<times> db" where
  "delete_product i d = (reply_ok 200 (), d\<lparr>Product := map_where (\<lambda>r. prod_id r = i)
     (\<lambda>r. r\<lparr>prod_deleted := True, prod_updatedAt := clock d\<rparr>) (Product d)\<rparr>)"

text \<open>\<open>GET /test/productbatch\<close>\<close>

definition latest_batches :: "db \<Rightarrow> product_batch list reply" where
  "latest_batches d = reply_ok 200 (take 10 (sort_key (\<lambda>r. - pb_createdAt r) (ProductBatch d)))"

section \<open>What an edit writes\<close>

lemma upd_Product_rows:
  "upd_Product P f d = Inr d' \<Longrightarrow> d' = d\<lparr>Product := map_where P f (Product d)\<rparr>"
  by (auto simp: upd_Product_def update_table_Inr_iff)

lemma first_update_id [simp]: "prod_id (product_first_update b prices photos now r) = prod_id r"
  by (simp add: product_first_update_def)

lemma second_update_id [simp]: "prod_id (product_second_update b n u prices photos now r) = prod_id r"
  by (simp add: product_second_update_def)

lemma find_product_map_where:
  "(\<And>r. prod_id (f r) = prod_id r) \<Longrightarrow>
   find_row prod_id i (map_where (\<lambda>r. prod_id r = i) f rows) = map_option f (find_row prod_id i rows)"
  by (induction rows) auto

lemma record_price_Inr:
  "record_price p t x reason d = Inr d' \<Longrightarrow>
   d' = d\<lparr>next_uuid := Suc (next_uuid d), PriceJournal := PriceJournal d @ [journal_row p t x reason d]\<rparr>"
  by (auto simp: record_price_def ins_PriceJournal_def)

lemma journal_edited_price_frame:
  "journal_edited_price types updated x d = Inr d' \<Longrightarrow> \<exists>n js. d' = d\<lparr>next_uuid := n, PriceJournal := js\<rparr>"
proof -
  assume a: "journal_edited_price types updated x d = Inr d'"
  obtain slug v where x: "x = (slug, v)" by (cases x)
  have "d' = d \<or> (\<exists>p t y reason. record_price p t y reason d = Inr d')"
  proof (cases "types slug")
    case (Some t)
    with a x show ?thesis by (cases updated) (auto simp: journal_edited_price_def split: if_splits)
  qed (use a x in \<open>simp add: journal_edited_price_def\<close>)
  then consider "d' = d" | p t y reason where "record_price p t y reason d = Inr d'" by blast
  then show ?thesis
  proof cases
    case 1
    then show ?thesis by (intro exI[of _ "next_uuid d"] exI[of _ "PriceJournal d"]) simp
  next
    case 2
    from record_price_Inr[OF 2] show ?thesis by blast
  qed
qed

lemma each_statement_frame:
  assumes "each_statement f xs d = (r, d')"
    and "\<And>x t t'. f x t = Inr t' \<Longrightarrow> \<exists>n js. t' = t\<lparr>next_uuid := n, PriceJournal := js\<rparr>"
  shows "\<exists>n js. d' = d\<lparr>next_uuid := n, PriceJournal := js\<rparr>"
  using assms(1)
proof (induction xs arbitrary: d)
  case Nil
  then show ?case by (intro exI[of _ "next_uuid d"] exI[of _ "PriceJournal d"]) simp
next
  case (Cons x xs)
  show ?case
  proof (cases "f x d")
    case (Inl e)
    with Cons.prems show ?thesis by (intro exI[of _ "next_uuid d"] exI[of _ "PriceJournal d"]) simp
  next
    case (Inr d1)
    with Cons.prems have "each_statement f xs d1 = (r, d')" by simp
    from Cons.IH[OF this] assms(2)[OF Inr] show ?thesis by force
  qed
qed

text \<open>The rows after an edit that succeeds: both statements ran, and the second one decides.\<close>

lemma update_product_effect:
  assumes "update_product i b prices kept files d = (reply_ok 200 updated, d')" and "find_row prod_id i (Product d) = Some r"
  obtains name unit photos n js where "prb_name b = Some name" "prb_unit b = Some unit"
    and "d' = d\<lparr>Product := map_where (\<lambda>r. prod_id r = i) (product_second_update b name unit prices photos (clock d))
        (map_where (\<lambda>r. prod_id r = i) (product_first_update b prices (coalesce kept [] @ files) (clock d)) (Product d)),
      next_uuid := n, PriceJournal := js\<rparr>"
    and "updated = Some (product_second_update b name unit prices photos (clock d)
        (product_first_update b prices (coalesce kept [] @ files) (clock d) r))"
proof -
  let ?photos = "if kept \<noteq> None \<or> files \<noteq> [] then Some (coalesce kept [] @ files) else None"
  let ?first = "product_first_update b prices (coalesce kept [] @ files) (clock d)"
  from assms(1) obtain d1 d2 where d1: "upd_Product (\<lambda>r. prod_id r = i) ?first d = Inr d1"
    and d2: "second_update i b prices ?photos d1 = Inr d2" and u: "updated = find_row prod_id i (Product d2)"
    and d3: "each_statement (journal_edited_price (slug_keys d2) (find_row prod_id i (Product d2))) (price_object prices) d2 = (Inr (), d')"
    by (auto simp: update_product_def Let_def reply_ok_def reply_error_def split: sum.splits prod.splits)
  note e1 = upd_Product_rows[OF d1]
  have f1: "find_row prod_id i (Product d1) = Some (?first r)" using assms(2) by (simp add: e1 find_product_map_where)
  with d2 obtain name unit where n: "prb_name b = Some name" "prb_unit b = Some unit"
    and w: "upd_Product (\<lambda>r. prod_id r = i) (product_second_update b name unit prices ?photos (clock d1)) d1 = Inr d2"
    by (auto simp: second_update_def)
  note e2 = upd_Product_rows[OF w]
  obtain n js where "d' = d2\<lparr>next_uuid := n, PriceJournal := js\<rparr>"
    using each_statement_frame[OF d3] journal_edited_price_frame by blast
  then show ?thesis
    using that[OF n, where photos = ?photos and n = n and js = js] assms(2) by (simp add: e2 e1 u find_product_map_where)
qed

text \<open>
  An edit that leaves the prices out erases them, although its first statement is written to keep them, and
  one such product breaks the list of the mobile clients: after the edit has been answered with 200, every
  request for products by a user of the table is answered with 500.
\<close>

theorem edit_without_prices_breaks_list:
  assumes "update_product i b None kept files d = (reply_ok 200 updated, d')"
    and "find_row prod_id i (Product d) = Some r" and "since lastSync < clock d"
    and "products_user verify secret rq userId d = Some u"
  shows "map_option prod_prices updated = Some None \<and>
    get_products verify secret rq userId lastSync d' = reply_error 500 (Text ''Failed to get products'')"
proof -
  obtain name unit photos n js where d': "d' = d\<lparr>Product := map_where (\<lambda>r. prod_id r = i)
        (product_second_update b name unit None photos (clock d))
        (map_where (\<lambda>r. prod_id r = i) (product_first_update b None (coalesce kept [] @ files) (clock d)) (Product d)),
      next_uuid := n, PriceJournal := js\<rparr>"
    and u: "updated = Some (product_second_update b name unit None photos (clock d)
        (product_first_update b None (coalesce kept [] @ files) (clock d) r))"
    by (rule update_product_effect[OF assms(1,2)])
  let ?p = "the updated"
  have p: "prod_prices ?p = None" "prod_updatedAt ?p = clock d" by (simp_all add: u product_second_update_def)
  have "find_row prod_id i (Product d') = Some ?p" using assms(2) by (simp add: d' u find_product_map_where)
  then have "?p \<in> set (Product d')" by (auto dest: find_row_Some)
  moreover have "products_user verify secret rq userId d' = Some u" using assms(4) by (simp add: products_user_def d')
  ultimately show ?thesis using null_prices_break_list[of ?p d'] p assms(3) u by simp
qed

definition milk_edit :: product_body where
  "milk_edit = \<lparr>prb_name = Some ''milk'', prb_unit = Some ''l'', prb_category = None, prb_inBox = Some 12,
     prb_barcode = None, prb_packing = None, prb_tara = None\<rparr>"

definition shop_db :: db where
  "shop_db = staff_db\<lparr>Product := [milk], PriceType := [named_price_type 2 ''Shop'' ''shop''], clock := 90\<rparr>"

lemmas product_eval =
  update_product_def upd_Product_def update_table_def product_ok_def first_error_def product_first_update_def
  second_update_def product_second_update_def box_size_def js_or_def not_null_def coalesce_def coalesce_opt_def
  price_object_def dec_fits_def milk_edit_def shop_db_def milk_def sync_numbers

lemma milk_edit_runs: "\<exists>u d'. update_product 5 milk_edit None None [] shop_db = (reply_ok 200 u, d')"
  by (simp add: product_eval reply_ok_def)

theorem edit_without_prices_breaks_list_witness:
  "\<exists>u d'. update_product 5 milk_edit None None [] shop_db = (reply_ok 200 u, d') \<and>
     get_products (\<lambda>_. None) None (bearer []) (Some 3) None d' = reply_error 500 (Text ''Failed to get products'')"
proof -
  obtain u d' where u: "update_product 5 milk_edit None None [] shop_db = (reply_ok 200 u, d')"
    using milk_edit_runs by blast
  have "find_row prod_id 5 (Product shop_db) = Some milk" "since None < clock shop_db"
    by (simp_all add: shop_db_def milk_def since_def coalesce_def)
  moreover have "products_user (\<lambda>_. None) None (bearer []) (Some 3) shop_db = Some manager"
    by (simp add: products_user_def coalesce_opt_def shop_db_def admin_def manager_def bearer_def)
  ultimately show ?thesis using edit_without_prices_breaks_list[OF u] u by blast
qed

text \<open>
  An edit that fails is half done. Without a name the second statement violates NOT NULL and the answer is
  500, but the first one has been committed: the prices, the unit, the category and the photos that were sent
  are stored.
\<close>

theorem failed_edit_is_half_done:
  assumes "prb_name b = None" and "find_row prod_id i (Product d) = Some r"
    and "\<forall>r \<in> set (Product d). pred_option (dec_fits 10 3) (prod_inBox r)"
  shows "\<exists>d' r'. update_product i b (Some prices) kept files d = (reply_error 500 (Text ''Failed to update product''), d') \<and>
    find_row prod_id i (Product d') = Some r' \<and> prod_prices r' = Some prices \<and> prod_name r' = prod_name r \<and>
    prod_unit r' = coalesce (prb_unit b) (prod_unit r)"
proof -
  let ?f = "product_first_update b (Some prices) (coalesce kept [] @ files) (clock d)"
  let ?d1 = "d\<lparr>Product := map_where (\<lambda>r. prod_id r = i) ?f (Product d)\<rparr>"
  have "\<forall>r \<in> set (Product d). prod_id r = i \<longrightarrow> (\<forall>c \<in> set (product_ok (?f r)). fst c)"
    using assms(3) by (simp add: product_ok_def product_first_update_def)
  then have first: "upd_Product (\<lambda>r. prod_id r = i) ?f d = Inr ?d1"
    by (simp add: upd_Product_def update_table_Inr_iff)
  have row: "find_row prod_id i (Product ?d1) = Some (?f r)" using assms(2) by (simp add: find_product_map_where)
  have "second_update i b (Some prices) photos ?d1 = Inl (SqlError (NotNullViolation ''Product.name''))" for photos
    unfolding second_update_def row using assms(1) by (simp add: not_null_def)
  with first have "update_product i b (Some prices) kept files d =
      (reply_error 500 (Text ''Failed to update product''), ?d1)"
    by (simp add: update_product_def Let_def)
  then show ?thesis using row by (auto simp: product_first_update_def assms(1) coalesce_def coalesce_opt_def)
qed

theorem failed_edit_is_half_done_witness:
  "\<exists>d' r'. update_product 5 (milk_edit\<lparr>prb_name := None\<rparr>) (Some [(''shop'', PNum 3)]) None [] shop_db =
      (reply_error 500 (Text ''Failed to update product''), d') \<and>
    find_row prod_id 5 (Product d') = Some r' \<and> prod_prices r' = Some [(''shop'', PNum 3)]"
proof -
  have "prb_name (milk_edit\<lparr>prb_name := None\<rparr>) = None" "find_row prod_id 5 (Product shop_db) = Some milk"
    "\<forall>r \<in> set (Product shop_db). pred_option (dec_fits 10 3) (prod_inBox r)"
    by (simp_all add: shop_db_def milk_def)
  from failed_edit_is_half_done[OF this, of "[(''shop'', PNum 3)]" None "[]"] show ?thesis by blast
qed

section \<open>The journal of an edit\<close>

lemma sort_key_unique_least:
  assumes "r \<in> set rows" and "\<forall>x \<in> set rows. x \<noteq> r \<longrightarrow> f r < f x"
  shows "\<exists>zs. sort_key f rows = r # zs"
proof -
  obtain y zs where s: "sort_key f rows = y # zs" using assms(1) by (cases "sort_key f rows") (auto dest: arg_cong[of _ _ set])
  have "set (sort_key f rows) = set rows" "sorted (map f (sort_key f rows))" by simp_all
  then have y: "y \<in> set rows" "\<forall>x \<in> set rows. f y \<le> f x" unfolding s by auto
  with assms have "y = r" by (metis not_less)
  with s show ?thesis by blast
qed

text \<open>What the query of an edit sees after its own row: the row, when every older one has an earlier date.\<close>

lemma latest_price_new:
  assumes "\<forall>j \<in> set (PriceJournal d). pj_productId j = p \<and> pj_priceTypeId j = Some t \<longrightarrow> pj_effectiveDate j < pj_effectiveDate x"
    and "PriceJournal d' = PriceJournal d @ [x]" and "pj_productId x = p" and "pj_priceTypeId x = Some t"
  shows "latest_price p t d' = Some (pj_newPrice x)"
proof -
  let ?rows = "filter (\<lambda>r. pj_productId r = p \<and> pj_priceTypeId r = Some t) (PriceJournal d')"
  have "\<exists>zs. sort_key (\<lambda>r. - pj_effectiveDate r) ?rows = x # zs"
    by (rule sort_key_unique_least) (use assms in auto)
  then show ?thesis by (auto simp: latest_price_def)
qed

lemma latest_price_other:
  assumes "PriceJournal d' = PriceJournal d @ js" and "\<forall>j \<in> set js. pj_priceTypeId j \<noteq> Some t"
  shows "latest_price p t d' = latest_price p t d"
proof -
  have "filter (\<lambda>r. pj_productId r = p \<and> pj_priceTypeId r = Some t) js = []" using assms(2) by (auto simp: filter_empty_conv)
  then show ?thesis by (simp add: latest_price_def assms(1))
qed

definition edited_types :: "(string \<Rightarrow> ident option) \<Rightarrow> prices \<Rightarrow> ident list" where
  "edited_types types prices = List.map_filter (types \<circ> fst) prices"

definition journaled :: "(string \<Rightarrow> ident option) \<Rightarrow> ident \<Rightarrow> prices \<Rightarrow> db \<Rightarrow> bool" where
  "journaled types p prices d \<longleftrightarrow>
     (\<forall>(slug, v) \<in> set prices. \<forall>t. types slug = Some t \<longrightarrow> latest_price p t d = Some (js_text (price_number v)))"

lemma price_object_Some [simp]: "price_object (Some p) = p"
  by (simp add: price_object_def coalesce_def)

lemma edit_loop_journals:
  assumes "each_statement (journal_edited_price types (Some p)) prices d = (Inr (), d')"
    and "distinct (edited_types types prices)"
    and "\<forall>j \<in> set (PriceJournal d). pj_effectiveDate j < clock d \<or> pj_priceTypeId j \<notin> Some ` set (edited_types types prices)"
    and "\<forall>x \<in> set prices. on_grid 2 (js_text (price_number (snd x)))"
  shows "\<exists>n js. d' = d\<lparr>next_uuid := n, PriceJournal := PriceJournal d @ js\<rparr> \<and>
    (\<forall>j \<in> set js. pj_priceTypeId j \<in> Some ` set (edited_types types prices)) \<and> journaled types (prod_id p) prices d'"
  using assms
proof (induction prices arbitrary: d)
  case Nil
  then show ?case by (intro exI[of _ "next_uuid d"] exI[of _ "[]"]) (simp add: journaled_def)
next
  case (Cons x prices)
  obtain slug v where x: "x = (slug, v)" by (cases x)
  from Cons.prems(1) obtain d1 where d1: "journal_edited_price types (Some p) x d = Inr d1"
    and rest: "each_statement (journal_edited_price types (Some p)) prices d1 = (Inr (), d')"
    by (cases "journal_edited_price types (Some p) x d") auto
  let ?ts = "edited_types types prices" and ?y = "js_text (price_number v)"
  have grid: "\<forall>x \<in> set prices. on_grid 2 (js_text (price_number (snd x)))" "round_dec 2 ?y = ?y"
    using Cons.prems(4) by (auto simp: x)
  show ?case
  proof (cases "types slug")
    case None
    then have ts: "edited_types types ((slug, v) # prices) = ?ts" by (simp add: edited_types_def List.map_filter_def)
    have "d1 = d" using d1 None by (simp add: x journal_edited_price_def)
    with Cons.IH[OF rest] Cons.prems(2,3) grid(1) None show ?thesis by (simp add: x ts journaled_def)
  next
    case (Some t)
    then have ts: "edited_types types ((slug, v) # prices) = t # ?ts" by (simp add: edited_types_def List.map_filter_def)
    with Cons.prems(2)[unfolded x] have t: "t \<notin> set ?ts" "distinct ?ts" by simp_all
    have step: "\<exists>n js. d1 = d\<lparr>next_uuid := n, PriceJournal := PriceJournal d @ js\<rparr> \<and>
        (\<forall>j \<in> set js. pj_priceTypeId j = Some t) \<and> latest_price (prod_id p) t d1 = Some ?y"
    proof (cases "latest_price (prod_id p) t d = Some ?y")
      case True
      with d1 Some have "d1 = d" by (simp add: x journal_edited_price_def)
      with True show ?thesis by (intro exI[of _ "next_uuid d"] exI[of _ "[]"]) simp
    next
      case False
      with d1 Some have "record_price (prod_id p) t (price_number v) ''Manual product edit'' d = Inr d1"
        by (simp add: x journal_edited_price_def)
      note e = record_price_Inr[OF this]
      have "latest_price (prod_id p) t d1 = Some (pj_newPrice (journal_row (prod_id p) t (price_number v) ''Manual product edit'' d))"
        by (rule latest_price_new[of d]) (use Cons.prems(3) e in \<open>auto simp: x ts journal_row_def\<close>)
      then show ?thesis using e grid(2) by (intro exI) (auto simp: journal_row_def)
    qed
    then obtain n js where e1: "d1 = d\<lparr>next_uuid := n, PriceJournal := PriceJournal d @ js\<rparr>"
      "\<forall>j \<in> set js. pj_priceTypeId j = Some t" "latest_price (prod_id p) t d1 = Some ?y" by blast
    have "\<forall>j \<in> set (PriceJournal d1). pj_effectiveDate j < clock d1 \<or> pj_priceTypeId j \<notin> Some ` set ?ts"
      using Cons.prems(3) e1(1,2) t(1) by (auto simp: x ts)
    from Cons.IH[OF rest t(2) this grid(1)] obtain m ks where
      e2: "d' = d1\<lparr>next_uuid := m, PriceJournal := PriceJournal d1 @ ks\<rparr>"
      "\<forall>j \<in> set ks. pj_priceTypeId j \<in> Some ` set ?ts" "journaled types (prod_id p) prices d'" by blast
    have "latest_price (prod_id p) t d' = latest_price (prod_id p) t d1"
      by (rule latest_price_other[of _ _ ks]) (use e2(1,2) t(1) in auto)
    with e1(3) e2(3) Some have "journaled types (prod_id p) (x # prices) d'" by (simp add: journaled_def x)
    with e1(1,2) e2(1,2) show ?thesis by (intro exI[of _ m] exI[of _ "js @ ks"]) (auto simp: x ts)
  qed
qed

lemma edit_loop_idle:
  assumes "journaled types (prod_id p) prices d"
  shows "each_statement (journal_edited_price types (Some p)) prices d = (Inr (), d)"
  using assms
proof (induction prices)
  case (Cons x prices)
  obtain slug v where x: "x = (slug, v)" by (cases x)
  have "journal_edited_price types (Some p) x d = Inr d"
    using Cons.prems by (auto simp: x journal_edited_price_def journaled_def split: option.split)
  with Cons show ?case by (simp add: journaled_def x)
qed simp

lemma slug_keys_row: "slug_keys d s = Some t \<Longrightarrow> \<exists>r \<in> set (PriceType d). pt_slug r = s \<and> pt_id r = t"
  unfolding slug_keys_def by (drule map_of_SomeD) auto

lemma edited_types_distinct:
  assumes "distinct (map fst prices)" and "distinct (map pt_id (PriceType d))"
  shows "distinct (edited_types (slug_keys d) prices)"
  using assms(1)
proof (induction prices)
  case (Cons x prices)
  show ?case
  proof (cases "slug_keys d (fst x)")
    case (Some t)
    have "t \<notin> set (edited_types (slug_keys d) prices)"
    proof
      assume "t \<in> set (edited_types (slug_keys d) prices)"
      then obtain y where y: "y \<in> set prices" "slug_keys d (fst y) = Some t"
        by (auto simp: edited_types_def List.map_filter_def)
      obtain r where r: "r \<in> set (PriceType d)" "pt_slug r = fst x" "pt_id r = t" using slug_keys_row[OF Some] by blast
      obtain r' where "r' \<in> set (PriceType d)" "pt_slug r' = fst y" "pt_id r' = t" using slug_keys_row[OF y(2)] by blast
      with r assms(2) have "fst x = fst y" by (metis distinct_map inj_on_def)
      with Cons.prems y(1) show False by auto
    qed
    with Cons Some show ?thesis by (simp add: edited_types_def List.map_filter_def)
  qed (use Cons in \<open>simp add: edited_types_def List.map_filter_def\<close>)
qed (simp add: edited_types_def List.map_filter_def)

lemma second_update_frame:
  assumes "second_update i b prices photos d = Inr d'"
  shows "\<exists>rows. d' = d\<lparr>Product := rows\<rparr>"
proof (cases "find_row prod_id i (Product d)")
  case None
  with assms have "d' = d\<lparr>Product := Product d\<rparr>" by (simp add: second_update_def)
  then show ?thesis by blast
next
  case (Some r)
  with assms obtain n u where "upd_Product (\<lambda>r. prod_id r = i) (product_second_update b n u prices photos (clock d)) d = Inr d'"
    by (auto simp: second_update_def)
  from upd_Product_rows[OF this] show ?thesis by blast
qed

text \<open>
  The price journal records changes, not requests. After an edit with prices of at most two decimals, the
  same edit sent again adds no row to the journal: the newest row of every price type holds its price already.
\<close>

theorem repeated_edit_adds_no_journal_rows:
  assumes "update_product i b (Some prices) kept files d = (reply_ok 200 (Some r), d')"
    and "\<forall>x \<in> set prices. on_grid 2 (js_text (price_number (snd x)))" and "distinct (map fst prices)"
    and "distinct (map pt_id (PriceType d))" and "\<forall>j \<in> set (PriceJournal d). pj_effectiveDate j < clock d"
  shows "PriceJournal (snd (update_product i b (Some prices) kept files d')) = PriceJournal d'"
proof -
  let ?photos = "if kept \<noteq> None \<or> files \<noteq> [] then Some (coalesce kept [] @ files) else None"
  let ?first = "product_first_update b (Some prices) (coalesce kept [] @ files) (clock d)"
  from assms(1) obtain d1 d2 where d1: "upd_Product (\<lambda>r. prod_id r = i) ?first d = Inr d1"
    and d2: "second_update i b (Some prices) ?photos d1 = Inr d2" and u: "find_row prod_id i (Product d2) = Some r"
    and d3: "each_statement (journal_edited_price (slug_keys d2) (Some r)) prices d2 = (Inr (), d')"
    by (auto simp: update_product_def Let_def reply_ok_def reply_error_def split: sum.splits prod.splits)
  obtain rows where e2: "d2 = d\<lparr>Product := rows\<rparr>"
    using upd_Product_rows[OF d1] second_update_frame[OF d2] by auto
  have i: "prod_id r = i" using find_row_Some[OF u] by simp
  have types: "slug_keys d2 = slug_keys d" by (simp add: slug_keys_def e2)
  have "distinct (edited_types (slug_keys d2) prices)"
    unfolding types by (rule edited_types_distinct[OF assms(3,4)])
  moreover have "\<forall>j \<in> set (PriceJournal d2). pj_effectiveDate j < clock d2 \<or>
      pj_priceTypeId j \<notin> Some ` set (edited_types (slug_keys d2) prices)" using assms(5) by (simp add: e2)
  ultimately obtain n js where d': "d' = d2\<lparr>next_uuid := n, PriceJournal := PriceJournal d2 @ js\<rparr>"
    and journaled: "journaled (slug_keys d) i prices d'"
    using edit_loop_journals[OF d3 _ _ assms(2)] unfolding types i by blast
  show ?thesis
  proof (cases "upd_Product (\<lambda>r. prod_id r = i) (product_first_update b (Some prices) (coalesce kept [] @ files) (clock d')) d'")
    case (Inl e)
    then show ?thesis by (simp add: update_product_def Let_def)
  next
    case 1: (Inr t1)
    note t1 = upd_Product_rows[OF 1]
    show ?thesis
    proof (cases "second_update i b (Some prices) ?photos t1")
      case (Inl e)
      with 1 show ?thesis by (simp add: update_product_def Let_def t1)
    next
      case 2: (Inr t2)
      obtain rows2 where t2: "t2 = t1\<lparr>Product := rows2\<rparr>" using second_update_frame[OF 2] by blast
      have types2: "slug_keys t2 = slug_keys d" by (simp add: slug_keys_def t2 t1 d' e2)
      have journal: "PriceJournal t2 = PriceJournal d'" by (simp add: t2 t1)
      have "snd (each_statement (journal_edited_price (slug_keys t2) (find_row prod_id i (Product t2))) prices t2) = t2"
      proof (cases "find_row prod_id i (Product t2)")
        case None
        have "each_statement (journal_edited_price types None) xs t = (r, t') \<Longrightarrow> t' = t" for types xs t t' r
          by (induction xs) (auto simp: journal_edited_price_def split: prod.splits option.splits)
        then show ?thesis unfolding None by (metis prod.collapse)
      next
        case (Some p)
        then have "prod_id p = i" by (auto dest: find_row_Some)
        moreover have "journaled (slug_keys d) i prices t2"
          using journaled journal by (simp add: journaled_def latest_price_def)
        ultimately show ?thesis using edit_loop_idle[of "slug_keys d" p prices t2] by (simp add: Some types2)
      qed
      with 1 2 journal show ?thesis
        by (auto simp: update_product_def Let_def split: prod.splits sum.splits)
    qed
  qed
qed

definition shop_price :: "rat \<Rightarrow> prices" where
  "shop_price x = [(''shop'', PNum x)]"

lemmas journal_eval =
  product_eval shop_price_def slug_keys_def journal_edited_price_def latest_price_def record_price_def journal_row_def
  ins_PriceJournal_def staff_db_def empty_db_def reply_ok_def

lemma shop_price_edit: "\<exists>r d'. update_product 5 milk_edit (Some (shop_price 3)) None [] shop_db = (reply_ok 200 (Some r), d') \<and>
    length (PriceJournal d') = 1"
  by (simp add: journal_eval)

theorem repeated_edit_adds_no_journal_rows_witness:
  "\<exists>r d'. update_product 5 milk_edit (Some (shop_price 3)) None [] shop_db = (reply_ok 200 (Some r), d') \<and>
     length (PriceJournal (snd (update_product 5 milk_edit (Some (shop_price 3)) None [] d'))) = 1"
proof -
  obtain r d' where u: "update_product 5 milk_edit (Some (shop_price 3)) None [] shop_db = (reply_ok 200 (Some r), d')"
    and one: "length (PriceJournal d') = 1" using shop_price_edit by blast
  have "\<forall>x \<in> set (shop_price 3). on_grid 2 (js_text (price_number (snd x)))" "distinct (map fst (shop_price 3))"
    "distinct (map pt_id (PriceType shop_db))" "\<forall>j \<in> set (PriceJournal shop_db). pj_effectiveDate j < clock shop_db"
    by (simp_all add: shop_price_def shop_db_def staff_db_def empty_db_def sync_numbers)
  from repeated_edit_adds_no_journal_rows[OF u this] one u show ?thesis by auto
qed

text \<open>
  With a third decimal it does not: the row holds the rounded price, the query compares it with the price as it
  was sent, and every repetition of the edit adds a row.
\<close>

definition fine_price :: rat where
  "fine_price = fl (12345 / 10000)"

lemma fine_price_text: "js_text fine_price = 2469 / 2000" "round_dec 2 (2469 / 2000) = 123 / 100"
  by code_simp+

theorem fine_price_journaled_again:
  "\<exists>r d'. update_product 5 milk_edit (Some (shop_price fine_price)) None [] shop_db = (reply_ok 200 (Some r), d') \<and>
     map pj_newPrice (PriceJournal d') = [123 / 100] \<and>
     map pj_newPrice (PriceJournal (snd (update_product 5 milk_edit (Some (shop_price fine_price)) None [] d'))) =
       [123 / 100, 123 / 100]"
  by (simp add: journal_eval fine_price_text)

section \<open>Failures of a creation\<close>

text \<open>
  A creation that fails over a price leaves the product behind: when the row itself is accepted, the product
  is in the table after the request whatever the answer says, and the answer 500 does not take it back.
\<close>

theorem failed_creation_keeps_product:
  assumes "insert_product b (parsed_prices prices) files d = Inr (row, d1)"
    and "create_product b prices files d = (reply, d')"
  shows "Product d' = Product d @ [row] \<and> prod_id row = next_uuid d \<and>
    (reply = reply_ok 201 row \<or> reply = reply_error 500 (Text ''Failed to create product''))"
proof -
  have d1: "Product d1 = Product d @ [row]" "prod_id row = next_uuid d"
    using assms(1) by (auto simp: insert_product_def Let_def)
  have frame: "\<exists>n js. t' = t\<lparr>next_uuid := n, PriceJournal := js\<rparr>" if "journal_new_price types i x t = Inr t'" for types i x t t'
  proof -
    obtain slug v where x: "x = (slug, v)" by (cases x)
    show ?thesis
    proof (cases "types slug")
      case None
      with that x have "t' = t\<lparr>next_uuid := next_uuid t, PriceJournal := PriceJournal t\<rparr>" by (simp add: journal_new_price_def)
      then show ?thesis by blast
    next
      case (Some y)
      with that x have "record_price i y (price_number v) ''Manual product creation'' t = Inr t'" by (simp add: journal_new_price_def)
      from record_price_Inr[OF this] show ?thesis by blast
    qed
  qed
  obtain r d2 where loop: "each_statement (journal_new_price (slug_keys d1) (prod_id row)) (price_object (parsed_prices prices)) d1 = (r, d2)"
    by (cases "each_statement (journal_new_price (slug_keys d1) (prod_id row)) (price_object (parsed_prices prices)) d1")
  have "\<exists>n js. d2 = d1\<lparr>next_uuid := n, PriceJournal := js\<rparr>" by (rule each_statement_frame[OF loop]) (rule frame)
  then have "Product d2 = Product d1" by auto
  with d1 loop assms show ?thesis by (cases r) (auto simp: create_product_def)
qed

definition dear_prices :: prices_body where
  "dear_prices = PricesObject [(''shop'', PText 100000000)]"

lemma dear_creation:
  "\<exists>row d1 d'. insert_product milk_edit (parsed_prices dear_prices) [] shop_db = Inr (row, d1) \<and>
     create_product milk_edit dear_prices [] shop_db = (reply_error 500 (Text ''Failed to create product''), d')"
proof -
  let ?p = "[(''shop'', PText 100000000)]"
  have parsed: "parsed_prices dear_prices = Some ?p" by (simp add: parsed_prices_def dear_prices_def)
  obtain row d1 where row: "insert_product milk_edit (Some ?p) [] shop_db = Inr (row, d1)" and
    "PriceType d1 = PriceType shop_db"
    by (simp add: insert_product_def not_null_def milk_edit_def Let_def product_ok_def box_size_def js_or_def sync_numbers
        first_error_def dec_fits_def)
  then have "slug_keys d1 ''shop'' = Some 2" by (simp add: slug_keys_def shop_db_def)
  moreover have "record_price i t (js_number 100000000) reason d = Inl (SqlError NumericOverflow)" for i t reason d
  proof -
    have "round_dec 2 (js_text (js_number 100000000)) = 100000000" by (rule column_exact) simp_all
    then show ?thesis by (simp add: record_price_def ins_PriceJournal_def journal_row_def first_error_def dec_fits_def)
  qed
  ultimately show ?thesis using row
    by (simp add: create_product_def parsed journal_new_price_def)
qed

theorem failed_creation_keeps_product_witness:
  "\<exists>row d'. create_product milk_edit dear_prices [] shop_db =
       (reply_error 500 (Text ''Failed to create product''), d') \<and> Product d' = [milk, row]"
proof -
  obtain row d1 d' where row: "insert_product milk_edit (parsed_prices dear_prices) [] shop_db = Inr (row, d1)"
    and d': "create_product milk_edit dear_prices [] shop_db = (reply_error 500 (Text ''Failed to create product''), d')"
    using dear_creation by blast
  have "Product d' = Product shop_db @ [row]" using failed_creation_keeps_product[OF row d'] by blast
  then have "Product d' = [milk, row]" by (simp add: shop_db_def)
  with d' show ?thesis by blast
qed

end
