(* ===== verification/Directory.thy ===== *)
theory Directory
  imports ProductAdmin
begin

text \<open>
  The reference data: counterparties and their groups (\<open>src/routes/counterparties.ts\<close>), organizations and
  warehouses (\<open>src/routes/organization.ts\<close>) and price types (\<open>src/routes/priceTypes.ts\<close>). \<open>collate\<close> is the
  position of a text in the collation of the database. The columns are those of \<open>migrate_counterparties.ts\<close>,
  \<open>migrate_v7.ts\<close>, \<open>seed.ts\<close> and the later migrations.
\<close>

section \<open>VARCHAR columns\<close>

text \<open>A text is its UTF-8 bytes; a character is a byte that continues no other.\<close>

definition char_count :: "string \<Rightarrow> nat" where
  "char_count s = length (filter (\<lambda>c. (of_char c :: nat) div 64 \<noteq> 2) s)"

definition varchar_ok :: "nat \<Rightarrow> string \<Rightarrow> string option \<Rightarrow> bool \<times> sql_error" where
  "varchar_ok n column v = (pred_option (\<lambda>s. char_count s \<le> n) v, ValueTooLong column)"

section \<open>Counterparty groups\<close>

definition list_groups :: "(string \<Rightarrow> nat) \<Rightarrow> db \<Rightarrow> counterparty_group list reply" where
  "list_groups collate d = reply_ok 200 (sort_key (\<lambda>r. collate (cg_name r)) (filter (\<lambda>r. \<not> cg_isDeleted r) (CounterpartyGroup d)))"

definition ins_CounterpartyGroup :: "counterparty_group \<Rightarrow> db \<Rightarrow> error + db" where
  "ins_CounterpartyGroup r d = rbind (first_error
      [varchar_ok 255 ''CounterpartyGroup.name'' (Some (cg_name r)),
       (fk_ok (map cg_id (CounterpartyGroup d)) (cg_parentId r), ForeignKeyViolation ''CounterpartyGroup.parentId'')])
     (\<lambda>_. Inr (d\<lparr>CounterpartyGroup := CounterpartyGroup d @ [r]\<rparr>))"

definition create_group :: "string option \<Rightarrow> ident option \<Rightarrow> db \<Rightarrow> counterparty_group reply \<times> db" where
  "create_group name parentId d = (case non_empty name of
     None \<Rightarrow> (reply_error 400 (Text ''Name is required''), d)
   | Some n \<Rightarrow>
       let row = \<lparr>cg_id = next_uuid d, cg_name = n, cg_parentId = parentId, cg_isDeleted = False\<rparr>
       in map_prod (catch_reply 201 (\<lambda>_. (500, Text ''Failed to create group''))) id
            (transaction (\<lambda>d. rbind (ins_CounterpartyGroup row d) (\<lambda>d1. Inr (row, d1\<lparr>next_uuid := Suc (next_uuid d1)\<rparr>))) d))"

section \<open>Counterparties\<close>

record counterparty_view =
  cv_row :: counterparty
  cv_groupName :: "string option"
  cv_priceTypeName :: "string option"
  cv_organizationName :: "string option"

definition list_counterparties :: "(string \<Rightarrow> nat) \<Rightarrow> db \<Rightarrow> counterparty_view list reply" where
  "list_counterparties collate d = reply_ok 200 (map (\<lambda>c.
       \<lparr>cv_row = c, cv_groupName = join_name cg_id cg_name (CounterpartyGroup d) (cp_groupId c),
        cv_priceTypeName = join_name pt_id pt_name (PriceType d) (cp_priceTypeId c),
        cv_organizationName = join_name org_id org_name (Organization d) (cp_organizationId c)\<rparr>)
     (sort_key (\<lambda>c. collate (cp_name c)) (filter (\<lambda>c. \<not> cp_isDeleted c) (Counterparty d))))"

record counterparty_body =
  cpb_name :: "string option"
  cpb_address :: "string option"
  cpb_phone :: "string option"
  cpb_contactPerson :: "string option"
  cpb_isBuyer :: "bool option"
  cpb_isSeller :: "bool option"
  cpb_priceTypeId :: "ident option"
  cpb_groupId :: "ident option"
  cpb_warehouseId :: "ident option"
  cpb_defaultSalesType :: "string option"
  cpb_organizationId :: "ident option"

definition counterparty_ok :: "db \<Rightarrow> counterparty \<Rightarrow> (bool \<times> sql_error) list" where
  "counterparty_ok d r =
     [varchar_ok 255 ''Counterparty.name'' (Some (cp_name r)), varchar_ok 50 ''Counterparty.phone'' (cp_phone r),
      varchar_ok 255 ''Counterparty.contactPerson'' (cp_contactPerson r),
      varchar_ok 255 ''Counterparty.defaultSalesType'' (cp_defaultSalesType r),
      (fk_ok (map pt_id (PriceType d)) (cp_priceTypeId r), ForeignKeyViolation ''Counterparty.priceTypeId''),
      (fk_ok (map cg_id (CounterpartyGroup d)) (cp_groupId r), ForeignKeyViolation ''Counterparty.groupId''),
      (fk_ok (map wh_id (Warehouse d)) (cp_warehouseId r), ForeignKeyViolation ''Counterparty.warehouseId''),
      (fk_ok (map org_id (Organization d)) (cp_organizationId r), ForeignKeyViolation ''Counterparty.organizationId'')]"

definition new_counterparty :: "string \<Rightarrow> counterparty_body \<Rightarrow> db \<Rightarrow> counterparty" where
  "new_counterparty name b d =
     \<lparr>cp_id = next_uuid d, cp_name = name, cp_address = cpb_address b, cp_phone = cpb_phone b,
      cp_contactPerson = cpb_contactPerson b, cp_isBuyer = coalesce (cpb_isBuyer b) False,
      cp_isSeller = coalesce (cpb_isSeller b) False, cp_priceTypeId = cpb_priceTypeId b, cp_groupId = cpb_groupId b,
      cp_warehouseId = cpb_warehouseId b,
      cp_defaultSalesType = Some (string_or (cpb_defaultSalesType b) cash_sales_type),
      cp_organizationId = cpb_organizationId b, cp_isDeleted = False, cp_updatedAt = clock d\<rparr>"

definition create_counterparty :: "counterparty_body \<Rightarrow> db \<Rightarrow> counterparty reply \<times> db" where
  "create_counterparty b d = (case non_empty (cpb_name b) of
     None \<Rightarrow> (reply_error 400 (Text ''Name is required''), d)
   | Some name \<Rightarrow>
       let row = new_counterparty name b d
       in map_prod (catch_reply 201 (\<lambda>_. (500, Text ''Failed to create counterparty''))) id
            (transaction (\<lambda>d. rbind (first_error (counterparty_ok d row)) (\<lambda>_.
               Inr (row, d\<lparr>Counterparty := Counterparty d @ [row], next_uuid := Suc (next_uuid d)\<rparr>))) d))"

text \<open>The references and the organization are written as sent: missing ones become NULL.\<close>

definition edited_counterparty :: "counterparty_body \<Rightarrow> timestamp \<Rightarrow> counterparty \<Rightarrow> counterparty" where
  "edited_counterparty b now r = r\<lparr>
     cp_name := coalesce (cpb_name b) (cp_name r), cp_address := coalesce_opt (cpb_address b) (cp_address r),
     cp_phone := coalesce_opt (cpb_phone b) (cp_phone r),
     cp_contactPerson := coalesce_opt (cpb_contactPerson b) (cp_contactPerson r),
     cp_isBuyer := coalesce (cpb_isBuyer b) (cp_isBuyer r), cp_isSeller := coalesce (cpb_isSeller b) (cp_isSeller r),
     cp_priceTypeId := cpb_priceTypeId b, cp_groupId := cpb_groupId b, cp_warehouseId := cpb_warehouseId b,
     cp_defaultSalesType := coalesce_opt (cpb_defaultSalesType b) (cp_defaultSalesType r),
     cp_organizationId := cpb_organizationId b, cp_updatedAt := now\<rparr>"

text \<open>What the three routes that answer with the updated row have in common.\<close>

definition updated_row ::
  "('r \<Rightarrow> ident) \<Rightarrow> ident \<Rightarrow> string \<Rightarrow> (error \<Rightarrow> nat \<times> http_error) \<Rightarrow> error + 'r list \<Rightarrow> ('r list \<Rightarrow> db) \<Rightarrow> db \<Rightarrow>
   'r reply \<times> db" where
  "updated_row key i missing f result store d = (case result of
     Inl e \<Rightarrow> (reply_error (fst (f e)) (snd (f e)), d)
   | Inr rows \<Rightarrow> (case find_row key i rows of
       None \<Rightarrow> (reply_error 404 (Text missing), d)
     | Some r \<Rightarrow> (reply_ok 200 r, store rows)))"

definition update_counterparty :: "ident \<Rightarrow> counterparty_body \<Rightarrow> db \<Rightarrow> counterparty reply \<times> db" where
  "update_counterparty i b d =
     updated_row cp_id i ''Counterparty not found'' (\<lambda>_. (500, Text ''Failed to update counterparty''))
       (update_table (\<lambda>r. cp_id r = i) (edited_counterparty b (clock d)) (counterparty_ok d) (Counterparty d))
       (\<lambda>rows. d\<lparr>Counterparty := rows\<rparr>) d"

definition delete_counterparty :: "ident \<Rightarrow> db \<Rightarrow> unit reply \<times> db" where
  "delete_counterparty i d = (reply_ok 200 (),
     d\<lparr>Counterparty := map_where (\<lambda>r. cp_id r = i) (\<lambda>r. r\<lparr>cp_isDeleted := True\<rparr>) (Counterparty d)\<rparr>)"

section \<open>Organizations and warehouses\<close>

definition get_organization :: "db \<Rightarrow> organization reply" where
  "get_organization d = (case sort_key org_createdAt (Organization d) of
     [] \<Rightarrow> reply_error 404 (Text ''Organization not found'') | r # _ \<Rightarrow> reply_ok 200 r)"

definition list_organizations :: "(string \<Rightarrow> nat) \<Rightarrow> db \<Rightarrow> organization list reply" where
  "list_organizations collate d = reply_ok 200 (sort_key (\<lambda>r. collate (org_name r)) (Organization d))"

text \<open>The default name and the default sales types, in UTF-8.\<close>

definition new_organization_name :: string where
  "new_organization_name = map char_of [208, 157, 208, 190, 208, 178, 208, 176, 32, 208, 158, 209, 128, 208, 179,
     208, 176, 208, 189, 209, 150, 208, 183, 208, 176, 209, 134, 209, 150, 209, 143 :: nat]"

definition default_sales_types :: "string list" where
  "default_sales_types = [cash_sales_type, map char_of [209, 128, 47, 209, 128, 32, 208, 164, 208, 158, 208, 159 :: nat],
     map char_of [208, 183, 32, 208, 159, 208, 148, 208, 146 :: nat]]"

definition organization_ok :: "organization \<Rightarrow> (bool \<times> sql_error) list" where
  "organization_ok r = [varchar_ok 255 ''Organization.name'' (Some (org_name r))]"

definition create_organization ::
  "string option \<Rightarrow> string option \<Rightarrow> string list option \<Rightarrow> db \<Rightarrow> organization reply \<times> db" where
  "create_organization name fullDetails salesTypes d =
     (let row = \<lparr>org_id = next_uuid d, org_name = string_or name new_organization_name,
            org_fullDetails = text_or_null fullDetails,
            org_salesTypes = Some (coalesce salesTypes default_sales_types), org_createdAt = clock d,
            org_updatedAt = clock d\<rparr>
      in map_prod (catch_reply 201 (\<lambda>_. (500, Text ''Server error''))) id
           (transaction (\<lambda>d. rbind (first_error (organization_ok row)) (\<lambda>_.
              Inr (row, d\<lparr>Organization := Organization d @ [row], next_uuid := Suc (next_uuid d)\<rparr>))) d))"

text \<open>A property of the body is None when it is missing and \<open>Some None\<close> when it is null.\<close>

record organization_patch =
  opa_name :: "string option option"
  opa_fullDetails :: "string option option"
  opa_salesTypes :: "string list option option"

definition patched_organization :: "organization_patch \<Rightarrow> timestamp \<Rightarrow> organization \<Rightarrow> organization" where
  "patched_organization p now r = r\<lparr>
     org_name := coalesce (coalesce (opa_name p) None) (org_name r),
     org_fullDetails := coalesce (opa_fullDetails p) (org_fullDetails r),
     org_salesTypes := coalesce (opa_salesTypes p) (org_salesTypes r), org_updatedAt := now\<rparr>"

definition update_organization :: "ident option \<Rightarrow> organization_patch \<Rightarrow> db \<Rightarrow> organization reply \<times> db" where
  "update_organization org p d =
     (if opa_name p = None \<and> opa_fullDetails p = None \<and> opa_salesTypes p = None
      then (reply_error 400 (Text ''No fields to update''), d)
      else case org of
        None \<Rightarrow> (reply_error 404 (Text ''Organization not found''), d)
      | Some i \<Rightarrow>
          updated_row org_id i ''Organization not found'' (\<lambda>_. (500, Text ''Server error''))
            (update_table (\<lambda>r. org_id r = i) (patched_organization p (clock d))
               (\<lambda>r. (opa_name p \<noteq> Some None, NotNullViolation ''Organization.name'') # organization_ok r) (Organization d))
            (\<lambda>rows. d\<lparr>Organization := rows\<rparr>) d)"

definition list_warehouses :: "db \<Rightarrow> warehouse list reply" where
  "list_warehouses d = reply_ok 200 (sort_key (\<lambda>r. - wh_createdAt r) (filter (\<lambda>r. \<not> wh_isDeleted r) (Warehouse d)))"

definition warehouse_ok :: "db \<Rightarrow> warehouse \<Rightarrow> (bool \<times> sql_error) list" where
  "warehouse_ok d r = [varchar_ok 255 ''Warehouse.name'' (Some (wh_name r)),
     (fk_ok (map org_id (Organization d)) (wh_organizationId r), ForeignKeyViolation ''Warehouse.organizationId'')]"

definition create_warehouse ::
  "string option \<Rightarrow> string option \<Rightarrow> ident option \<Rightarrow> db \<Rightarrow> warehouse reply \<times> db" where
  "create_warehouse name address organizationId d =
     map_prod (catch_reply 201 (\<lambda>_. (500, Text ''Server error''))) id (transaction (\<lambda>d.
       rbind (not_null ''Warehouse.name'' name) (\<lambda>n.
       let row = \<lparr>wh_id = next_uuid d, wh_name = n, wh_address = address, wh_organizationId = organizationId,
             wh_isDeleted = False, wh_createdAt = clock d, wh_updatedAt = clock d\<rparr>
       in rbind (first_error (warehouse_ok d row)) (\<lambda>_.
            Inr (row, d\<lparr>Warehouse := Warehouse d @ [row], next_uuid := Suc (next_uuid d)\<rparr>)))) d)"

definition update_warehouse :: "ident \<Rightarrow> string option \<Rightarrow> string option \<Rightarrow> db \<Rightarrow> warehouse reply \<times> db" where
  "update_warehouse i name address d =
     updated_row wh_id i ''Warehouse not found'' (\<lambda>_. (500, Text ''Server error''))
       (update_table (\<lambda>r. wh_id r = i) (\<lambda>r. r\<lparr>wh_name := coalesce name (wh_name r), wh_address := address, wh_updatedAt := clock d\<rparr>)
          (\<lambda>r. (name \<noteq> None, NotNullViolation ''Warehouse.name'') # warehouse_ok d r) (Warehouse d))
       (\<lambda>rows. d\<lparr>Warehouse := rows\<rparr>) d"

section \<open>Price types\<close>

definition list_price_types :: "db \<Rightarrow> price_type list reply" where
  "list_price_types d = reply_ok 200 (sort_key pt_createdAt (filter (\<lambda>r. \<not> pt_deleted r) (PriceType d)))"

definition price_type_failure :: "string \<Rightarrow> error \<Rightarrow> nat \<times> http_error" where
  "price_type_failure text e = (case e of SqlError (UniqueViolation _) \<Rightarrow> (409, Text ''Slug already exists'')
     | _ \<Rightarrow> (500, Text text))"

definition create_price_type ::
  "string option \<Rightarrow> string option \<Rightarrow> string option \<Rightarrow> db \<Rightarrow> price_type reply \<times> db" where
  "create_price_type name slug currency d = (case (non_empty name, non_empty slug) of
     (Some n, Some s) \<Rightarrow>
       let row = \<lparr>pt_id = next_uuid d, pt_name = n, pt_slug = s, pt_currency = string_or currency ''UAH'',
             pt_deleted = False, pt_createdAt = clock d, pt_updatedAt = clock d\<rparr>
       in map_prod (catch_reply 201 (price_type_failure ''Failed to create price type'')) id
            (transaction (\<lambda>d. rbind (first_error
                [(\<not> List.member (map pt_slug (PriceType d)) s, UniqueViolation ''PriceType.slug'')]) (\<lambda>_.
              Inr (row, d\<lparr>PriceType := PriceType d @ [row], next_uuid := Suc (next_uuid d)\<rparr>))) d)
   | _ \<Rightarrow> (reply_error 400 (Text ''Name and slug are required''), d))"

text \<open>The UNIQUE constraint compares the new slug with the rows that keep theirs.\<close>

definition update_price_type ::
  "ident \<Rightarrow> string option \<Rightarrow> string option \<Rightarrow> string option \<Rightarrow> db \<Rightarrow> price_type reply \<times> db" where
  "update_price_type i name slug currency d =
     updated_row pt_id i ''Price type not found'' (price_type_failure ''Failed to update price type'')
       (update_table (\<lambda>r. pt_id r = i) (\<lambda>r. r\<lparr>pt_name := coalesce name (pt_name r), pt_slug := coalesce slug (pt_slug r),
             pt_currency := coalesce currency (pt_currency r), pt_updatedAt := clock d\<rparr>)
          (\<lambda>r. [(\<not> List.member (map pt_slug (filter (\<lambda>x. pt_id x \<noteq> i) (PriceType d))) (pt_slug r),
             UniqueViolation ''PriceType.slug'')]) (PriceType d))
       (\<lambda>rows. d\<lparr>PriceType := rows\<rparr>) d"

definition delete_price_type :: "ident \<Rightarrow> db \<Rightarrow> unit reply \<times> db" where
  "delete_price_type i d = (reply_ok 200 (), d\<lparr>PriceType := map_where (\<lambda>r. pt_id r = i)
     (\<lambda>r. r\<lparr>pt_deleted := True, pt_updatedAt := clock d\<rparr>) (PriceType d)\<rparr>)"

section \<open>Requests\<close>

datatype directory_request =
    NewGroup "string option" "ident option"
  | NewCounterparty counterparty_body
  | EditCounterparty ident counterparty_body
  | DropCounterparty ident
  | NewOrganization "string option" "string option" "string list option"
  | EditOrganization "ident option" organization_patch
  | NewWarehouse "string option" "string option" "ident option"
  | EditWarehouse ident "string option" "string option"
  | NewPriceType "string option" "string option" "string option"
  | EditPriceType ident "string option" "string option" "string option"
  | DropPriceType ident

fun handle_directory :: "directory_request \<Rightarrow> db \<Rightarrow> db" where
  "handle_directory (NewGroup n p) d = snd (create_group n p d)"
| "handle_directory (NewCounterparty b) d = snd (create_counterparty b d)"
| "handle_directory (EditCounterparty i b) d = snd (update_counterparty i b d)"
| "handle_directory (DropCounterparty i) d = snd (delete_counterparty i d)"
| "handle_directory (NewOrganization n f t) d = snd (create_organization n f t d)"
| "handle_directory (EditOrganization i p) d = snd (update_organization i p d)"
| "handle_directory (NewWarehouse n a k) d = snd (create_warehouse n a k d)"
| "handle_directory (EditWarehouse i n a) d = snd (update_warehouse i n a d)"
| "handle_directory (NewPriceType n s c) d = snd (create_price_type n s c d)"
| "handle_directory (EditPriceType i n s c) d = snd (update_price_type i n s c d)"
| "handle_directory (DropPriceType i) d = snd (delete_price_type i d)"

section \<open>The reference data stay consistent\<close>

text \<open>Every group has a parent that exists and is older, so the hierarchy has no cycles.\<close>

definition group_ok :: "db \<Rightarrow> counterparty_group \<Rightarrow> bool" where
  "group_ok d g \<longleftrightarrow> cg_id g < next_uuid d \<and>
     pred_option (\<lambda>p. p < cg_id g \<and> p \<in> cg_id ` set (CounterpartyGroup d)) (cg_parentId g)"

definition all_ok :: "(bool \<times> sql_error) list \<Rightarrow> bool" where
  "all_ok cs \<longleftrightarrow> (\<forall>c \<in> set cs. fst c)"

definition directory_ok :: "db \<Rightarrow> bool" where
  "directory_ok d \<longleftrightarrow>
     (\<forall>g \<in> set (CounterpartyGroup d). group_ok d g) \<and>
     (\<forall>c \<in> set (Counterparty d). all_ok (counterparty_ok d c)) \<and>
     (\<forall>w \<in> set (Warehouse d). all_ok (warehouse_ok d w)) \<and>
     (\<forall>r \<in> set (Organization d). all_ok (organization_ok r)) \<and>
     distinct (map pt_id (PriceType d)) \<and> (\<forall>r \<in> set (PriceType d). pt_id r < next_uuid d) \<and>
     distinct (map pt_slug (PriceType d))"

lemma all_ok_Inr: "first_error cs = Inr u \<longleftrightarrow> all_ok cs"
  by (simp add: all_ok_def)

text \<open>A request that only adds keys keeps every reference valid.\<close>

lemma fk_ok_mono: "fk_ok (map key rows) k \<Longrightarrow> key ` set rows \<subseteq> key ` set rows' \<Longrightarrow> fk_ok (map key rows') k"
  by (cases k) auto

lemma counterparty_ok_mono:
  assumes "all_ok (counterparty_ok d c)" and "pt_id ` set (PriceType d) \<subseteq> pt_id ` set (PriceType d')"
    and "cg_id ` set (CounterpartyGroup d) \<subseteq> cg_id ` set (CounterpartyGroup d')"
    and "wh_id ` set (Warehouse d) \<subseteq> wh_id ` set (Warehouse d')"
    and "org_id ` set (Organization d) \<subseteq> org_id ` set (Organization d')"
  shows "all_ok (counterparty_ok d' c)"
  using assms by (simp add: all_ok_def counterparty_ok_def fk_ok_mono[of _ "PriceType d"] fk_ok_mono[of _ "CounterpartyGroup d"]
      fk_ok_mono[of _ "Warehouse d"] fk_ok_mono[of _ "Organization d"])

lemma warehouse_ok_mono:
  "all_ok (warehouse_ok d w) \<Longrightarrow> org_id ` set (Organization d) \<subseteq> org_id ` set (Organization d') \<Longrightarrow> all_ok (warehouse_ok d' w)"
  by (simp add: all_ok_def warehouse_ok_def fk_ok_mono[of _ "Organization d"])

lemma group_ok_mono:
  "group_ok d g \<Longrightarrow> next_uuid d \<le> next_uuid d' \<Longrightarrow> cg_id ` set (CounterpartyGroup d) \<subseteq> cg_id ` set (CounterpartyGroup d') \<Longrightarrow>
   group_ok d' g"
  by (cases "cg_parentId g") (auto simp: group_ok_def)

lemma updated_row_effect:
  assumes "updated_row key i m f (update_table P g chk rows) store d = (r, d')"
  shows "d' = d \<or> (d' = store (map_where P g rows) \<and> (\<forall>r \<in> set rows. P r \<longrightarrow> all_ok (chk (g r))))"
proof (cases "update_table P g chk rows")
  case (Inr rows')
  with assms show ?thesis
    by (auto simp: updated_row_def update_table_Inr_iff all_ok_def split: option.splits)
qed (use assms in \<open>simp add: updated_row_def\<close>)

lemma distinct_map_where:
  assumes "distinct (map key rows)" and "distinct (map h rows)"
    and "\<forall>r \<in> set rows. key r = i \<longrightarrow> h (f r) \<notin> h ` {x \<in> set rows. key x \<noteq> i}"
  shows "distinct (map h (map_where (\<lambda>r. key r = i) f rows))"
  using assms
proof (induction rows)
  case (Cons r rows)
  have h: "h (f x) \<notin> h ` {y \<in> set rows. key y \<noteq> i}" "key r \<noteq> i \<Longrightarrow> h (f x) \<noteq> h r"
    if "x \<in> set (r # rows)" "key x = i" for x
    using Cons.prems(3) that by auto
  have IH: "distinct (map h (map_where (\<lambda>r. key r = i) f rows))"
    using Cons.prems(1,2) h(1) by (intro Cons.IH) simp_all
  show ?case
  proof (cases "key r = i")
    case True
    have others: "key x \<noteq> i" if "x \<in> set rows" for x using Cons.prems(1) True that by (metis distinct.simps(2) imageI list.set_map list.simps(9))
    then have "map_where (\<lambda>r. key r = i) f rows = rows" by (intro map_where_id) blast
    moreover have "h (f r) \<notin> h ` set rows" using h(1)[of r] True others by auto
    ultimately show ?thesis using Cons.prems(2) True by simp
  next
    case False
    have "h r \<noteq> h (if key x = i then f x else x)" if "x \<in> set rows" for x
      using h(2)[of x] False that Cons.prems(2) by auto
    then have "h r \<notin> h ` set (map_where (\<lambda>r. key r = i) f rows)" unfolding set_map_where by blast
    with IH False show ?thesis by simp
  qed
qed simp

lemma keys_map_where:
  "(\<And>r. key (f r) = key r) \<Longrightarrow> key ` set (map_where P f rows) = key ` set rows"
  by (metis (no_types, lifting) list.set_map map_map_where)

lemma ball_map_where: "(\<forall>r \<in> set (map_where P f rows). Q r) \<longleftrightarrow> (\<forall>r \<in> set rows. if P r then Q (f r) else Q r)"
  by (auto simp: map_where_def split: if_splits)

text \<open>A request that keeps every table's keys, or adds to them, keeps what the other tables rely on.\<close>

lemma directory_okI:
  assumes "directory_ok d" and "next_uuid d \<le> next_uuid d'"
    and "pt_id ` set (PriceType d) \<subseteq> pt_id ` set (PriceType d')"
    and "cg_id ` set (CounterpartyGroup d) \<subseteq> cg_id ` set (CounterpartyGroup d')"
    and "wh_id ` set (Warehouse d) \<subseteq> wh_id ` set (Warehouse d')"
    and "org_id ` set (Organization d) \<subseteq> org_id ` set (Organization d')"
    and "\<forall>g \<in> set (CounterpartyGroup d'). group_ok d g \<or> group_ok d' g"
    and "\<forall>c \<in> set (Counterparty d'). all_ok (counterparty_ok d c)"
    and "\<forall>w \<in> set (Warehouse d'). all_ok (warehouse_ok d w)"
    and "\<forall>r \<in> set (Organization d'). all_ok (organization_ok r)"
    and "distinct (map pt_id (PriceType d'))" and "\<forall>r \<in> set (PriceType d'). pt_id r < next_uuid d'"
    and "distinct (map pt_slug (PriceType d'))"
  shows "directory_ok d'"
  unfolding directory_ok_def
proof (intro conjI ballI)
  show "group_ok d' g" if "g \<in> set (CounterpartyGroup d')" for g
    using that assms(1,7) group_ok_mono[OF _ assms(2,4), of g] by (auto simp: directory_ok_def)
  show "all_ok (counterparty_ok d' c)" if "c \<in> set (Counterparty d')" for c
    using that assms(1,8) counterparty_ok_mono[OF _ assms(3-6), of c] by (auto simp: directory_ok_def)
  show "all_ok (warehouse_ok d' w)" if "w \<in> set (Warehouse d')" for w
    using that assms(1,9) warehouse_ok_mono[OF _ assms(6), of w] by (auto simp: directory_ok_def)
  show "all_ok (organization_ok r)" if "r \<in> set (Organization d')" for r
    using that assms(10) by blast
qed (use assms(11-13) in auto)

lemma transaction_state [simp]:
  "snd (transaction body d) = (case body d of Inl e \<Rightarrow> d | Inr (x, d') \<Rightarrow> d')"
  by (auto simp: transaction_def split: sum.split prod.split)

lemma create_group_keeps:
  assumes "directory_ok d"
  shows "directory_ok (snd (create_group n p d))"
proof (cases "non_empty n")
  case None
  with assms show ?thesis by (simp add: create_group_def)
next
  case (Some m)
  let ?row = "\<lparr>cg_id = next_uuid d, cg_name = m, cg_parentId = p, cg_isDeleted = False\<rparr>"
  let ?d = "d\<lparr>CounterpartyGroup := CounterpartyGroup d @ [?row], next_uuid := Suc (next_uuid d)\<rparr>"
  show ?thesis
  proof (cases "ins_CounterpartyGroup ?row d")
    case (Inl e)
    with Some assms show ?thesis by (simp add: create_group_def Let_def)
  next
    case (Inr d1)
    then have d1: "d1 = d\<lparr>CounterpartyGroup := CounterpartyGroup d @ [?row]\<rparr>" and p: "fk_ok (map cg_id (CounterpartyGroup d)) p"
      by (auto simp: ins_CounterpartyGroup_def simp del: fk_ok_simps)
    have "\<forall>g \<in> set (CounterpartyGroup d). cg_id g < next_uuid d" using assms by (simp add: directory_ok_def group_ok_def)
    with p have "group_ok ?d ?row" by (cases p) (auto simp: group_ok_def)
    then have "directory_ok ?d" using assms by (intro directory_okI[OF assms]) (auto simp: directory_ok_def)
    with Some Inr show ?thesis by (simp add: create_group_def Let_def d1)
  qed
qed

lemma create_counterparty_keeps:
  assumes "directory_ok d"
  shows "directory_ok (snd (create_counterparty b d))"
proof (cases "non_empty (cpb_name b)")
  case None
  with assms show ?thesis by (simp add: create_counterparty_def)
next
  case (Some m)
  let ?row = "new_counterparty m b d"
  show ?thesis
  proof (cases "first_error (counterparty_ok d ?row)")
    case (Inl e)
    with Some assms show ?thesis by (simp add: create_counterparty_def Let_def)
  next
    case (Inr u)
    then have "all_ok (counterparty_ok d ?row)" by (simp add: all_ok_def)
    then have "directory_ok (d\<lparr>Counterparty := Counterparty d @ [?row], next_uuid := Suc (next_uuid d)\<rparr>)"
      using assms by (intro directory_okI[OF assms]) (auto simp: directory_ok_def)
    with Some Inr show ?thesis by (simp add: create_counterparty_def Let_def del: first_error_Inr_iff)
  qed
qed

lemma counterparty_edits_keep:
  assumes "directory_ok d"
  shows "directory_ok (snd (update_counterparty i b d))" and "directory_ok (snd (delete_counterparty i d))"
proof -
  obtain r d' where u: "update_counterparty i b d = (r, d')" by (cases "update_counterparty i b d")
  from updated_row_effect[OF this[unfolded update_counterparty_def]] show "directory_ok (snd (update_counterparty i b d))"
  proof (elim disjE conjE)
    assume d': "d' = d\<lparr>Counterparty := map_where (\<lambda>r. cp_id r = i) (edited_counterparty b (clock d)) (Counterparty d)\<rparr>"
      and ok: "\<forall>r \<in> set (Counterparty d). cp_id r = i \<longrightarrow> all_ok (counterparty_ok d (edited_counterparty b (clock d) r))"
    show ?thesis unfolding u snd_conv d' using assms ok
      by (intro directory_okI[OF assms]) (auto simp: directory_ok_def ball_map_where)
  qed (use assms u in simp)
  have "all_ok (counterparty_ok d (r\<lparr>cp_isDeleted := True\<rparr>)) = all_ok (counterparty_ok d r)" for r
    by (simp add: counterparty_ok_def)
  then show "directory_ok (snd (delete_counterparty i d))" using assms unfolding delete_counterparty_def snd_conv
    by (intro directory_okI[OF assms]) (auto simp: directory_ok_def ball_map_where)
qed

lemma organization_requests_keep:
  assumes "directory_ok d"
  shows "directory_ok (snd (create_organization n f t d))" and "directory_ok (snd (update_organization k p d))"
proof -
  let ?row = "\<lparr>org_id = next_uuid d, org_name = string_or n new_organization_name, org_fullDetails = text_or_null f,
      org_salesTypes = Some (coalesce t default_sales_types), org_createdAt = clock d, org_updatedAt = clock d\<rparr>"
  show "directory_ok (snd (create_organization n f t d))"
  proof (cases "first_error (organization_ok ?row)")
    case (Inr u)
    then have "all_ok (organization_ok ?row)" by (simp add: all_ok_def)
    then have "directory_ok (d\<lparr>Organization := Organization d @ [?row], next_uuid := Suc (next_uuid d)\<rparr>)"
      using assms by (intro directory_okI[OF assms]) (auto simp: directory_ok_def)
    with Inr show ?thesis by (simp add: create_organization_def Let_def del: first_error_Inr_iff)
  qed (use assms in \<open>simp add: create_organization_def Let_def\<close>)
  show "directory_ok (snd (update_organization k p d))"
  proof (cases "(opa_name p = None \<and> opa_fullDetails p = None \<and> opa_salesTypes p = None) \<or> k = None")
    case True
    then show ?thesis using assms by (auto simp: update_organization_def)
  next
    case False
    then obtain i where k: "k = Some i" by auto
    let ?f = "patched_organization p (clock d)"
    obtain r d' where u: "update_organization k p d = (r, d')" by (cases "update_organization k p d")
    have "updated_row org_id i ''Organization not found'' (\<lambda>_. (500, Text ''Server error''))
        (update_table (\<lambda>r. org_id r = i) ?f (\<lambda>r. (opa_name p \<noteq> Some None, NotNullViolation ''Organization.name'') # organization_ok r) (Organization d))
        (\<lambda>rows. d\<lparr>Organization := rows\<rparr>) d = (r, d')"
      using u False k by (auto simp: update_organization_def split: if_splits)
    from updated_row_effect[OF this] show ?thesis
    proof (elim disjE conjE)
      assume d': "d' = d\<lparr>Organization := map_where (\<lambda>r. org_id r = i) ?f (Organization d)\<rparr>"
        and ok: "\<forall>r \<in> set (Organization d). org_id r = i \<longrightarrow>
          all_ok ((opa_name p \<noteq> Some None, NotNullViolation ''Organization.name'') # organization_ok (?f r))"
      have "org_id (?f r) = org_id r" for r by (simp add: patched_organization_def)
      from keys_map_where[of org_id ?f "\<lambda>r. org_id r = i" "Organization d", OF this] show ?thesis unfolding u snd_conv d' using assms ok
        by (intro directory_okI[OF assms]) (auto simp: directory_ok_def ball_map_where all_ok_def)
    qed (use assms u in simp)
  qed
qed

lemma warehouse_requests_keep:
  assumes "directory_ok d"
  shows "directory_ok (snd (create_warehouse n a k d))" and "directory_ok (snd (update_warehouse i n a d))"
proof -
  show "directory_ok (snd (create_warehouse n a k d))"
  proof (cases n)
    case None
    with assms show ?thesis by (simp add: create_warehouse_def not_null_def)
  next
    case (Some m)
    let ?row = "\<lparr>wh_id = next_uuid d, wh_name = m, wh_address = a, wh_organizationId = k, wh_isDeleted = False,
        wh_createdAt = clock d, wh_updatedAt = clock d\<rparr>"
    show ?thesis
    proof (cases "first_error (warehouse_ok d ?row)")
      case (Inl e)
      with Some assms show ?thesis by (simp add: create_warehouse_def Let_def not_null_def)
    next
      case (Inr u)
      then have "all_ok (warehouse_ok d ?row)" by (simp add: all_ok_def)
      then have "directory_ok (d\<lparr>Warehouse := Warehouse d @ [?row], next_uuid := Suc (next_uuid d)\<rparr>)"
        using assms by (intro directory_okI[OF assms]) (auto simp: directory_ok_def)
      with Some Inr show ?thesis by (simp add: create_warehouse_def Let_def not_null_def del: first_error_Inr_iff)
    qed
  qed
  let ?f = "\<lambda>r. r\<lparr>wh_name := coalesce n (wh_name r), wh_address := a, wh_updatedAt := clock d\<rparr>"
  obtain r d' where u: "update_warehouse i n a d = (r, d')" by (cases "update_warehouse i n a d")
  from updated_row_effect[OF this[unfolded update_warehouse_def]] show "directory_ok (snd (update_warehouse i n a d))"
  proof (elim disjE conjE)
    assume d': "d' = d\<lparr>Warehouse := map_where (\<lambda>r. wh_id r = i) ?f (Warehouse d)\<rparr>"
      and ok: "\<forall>r \<in> set (Warehouse d). wh_id r = i \<longrightarrow>
        all_ok ((n \<noteq> None, NotNullViolation ''Warehouse.name'') # warehouse_ok d (?f r))"
    have "wh_id (?f r) = wh_id r" for r by simp
    from keys_map_where[of wh_id ?f "\<lambda>r. wh_id r = i" "Warehouse d", OF this] show ?thesis unfolding u snd_conv d' using assms ok
      by (intro directory_okI[OF assms]) (auto simp: directory_ok_def ball_map_where all_ok_def)
  qed (use assms u in simp)
qed

lemma create_price_type_effect:
  assumes "create_price_type n s c d = (reply, d')"
  shows "(d' = d \<and> fst reply \<noteq> 201) \<or> (\<exists>row. d' = d\<lparr>PriceType := PriceType d @ [row], next_uuid := Suc (next_uuid d)\<rparr> \<and>
    reply = (201, Inr row) \<and> pt_id row = next_uuid d \<and> s = Some (pt_slug row) \<and> pt_slug row \<notin> pt_slug ` set (PriceType d))"
proof (cases "non_empty n \<noteq> None \<and> non_empty s \<noteq> None")
  case False
  then consider "non_empty n = None" | m where "non_empty n = Some m" "non_empty s = None" by auto
  then have "create_price_type n s c d = ((400, Inl (Text ''Name and slug are required'')), d)"
    by cases (simp_all add: create_price_type_def reply_error_def)
  with assms show ?thesis by auto
next
  case True
  then obtain m t where v: "non_empty n = Some m" "non_empty s = Some t" by auto
  then have s: "s = Some t" by (auto simp: non_empty_def split: option.splits list.splits)
  let ?row = "\<lparr>pt_id = next_uuid d, pt_name = m, pt_slug = t, pt_currency = string_or c ''UAH'', pt_deleted = False,
      pt_createdAt = clock d, pt_updatedAt = clock d\<rparr>"
  have "create_price_type n s c d = (if t \<in> pt_slug ` set (PriceType d) then ((409, Inl (Text ''Slug already exists'')), d)
      else ((201, Inr ?row), d\<lparr>PriceType := PriceType d @ [?row], next_uuid := Suc (next_uuid d)\<rparr>))"
    by (simp add: create_price_type_def v Let_def first_error_def transaction_def catch_reply_def price_type_failure_def)
  with assms s show ?thesis by (cases "t \<in> pt_slug ` set (PriceType d)") auto
qed

lemma price_type_requests_keep:
  assumes "directory_ok d"
  shows "directory_ok (snd (create_price_type n s c d))" and "directory_ok (snd (update_price_type i n s c d))"
    and "directory_ok (snd (delete_price_type i d))"
proof -
  from assms have types: "distinct (map pt_id (PriceType d))" "\<forall>r \<in> set (PriceType d). pt_id r < next_uuid d"
    "distinct (map pt_slug (PriceType d))" by (simp_all add: directory_ok_def)
  obtain reply d' where c: "create_price_type n s c d = (reply, d')" by (cases "create_price_type n s c d")
  from create_price_type_effect[OF c] show "directory_ok (snd (create_price_type n s c d))"
  proof (elim disjE conjE exE)
    fix row assume d': "d' = d\<lparr>PriceType := PriceType d @ [row], next_uuid := Suc (next_uuid d)\<rparr>"
      "pt_id row = next_uuid d" "pt_slug row \<notin> pt_slug ` set (PriceType d)"
    show ?thesis unfolding c snd_conv d'(1) using assms types d'(2,3) by (intro directory_okI[OF assms]) (auto simp: directory_ok_def)
  qed (use assms c in simp)
  let ?f = "\<lambda>r. r\<lparr>pt_name := coalesce n (pt_name r), pt_slug := coalesce s (pt_slug r),
      pt_currency := coalesce c (pt_currency r), pt_updatedAt := clock d\<rparr>"
  obtain r2 d2 where u: "update_price_type i n s c d = (r2, d2)" by (cases "update_price_type i n s c d")
  from updated_row_effect[OF this[unfolded update_price_type_def]] show "directory_ok (snd (update_price_type i n s c d))"
  proof (elim disjE conjE)
    assume d2: "d2 = d\<lparr>PriceType := map_where (\<lambda>r. pt_id r = i) ?f (PriceType d)\<rparr>"
      and ok: "\<forall>r \<in> set (PriceType d). pt_id r = i \<longrightarrow> all_ok
        [(\<not> List.member (map pt_slug (filter (\<lambda>x. pt_id x \<noteq> i) (PriceType d))) (pt_slug (?f r)), UniqueViolation ''PriceType.slug'')]"
    have "distinct (map pt_slug (map_where (\<lambda>r. pt_id r = i) ?f (PriceType d)))"
      by (rule distinct_map_where[OF types(1,3)]) (use ok in \<open>auto simp: all_ok_def\<close>)
    moreover have "map pt_id (map_where (\<lambda>r. pt_id r = i) ?f (PriceType d)) = map pt_id (PriceType d)"
      by (rule map_map_where) simp
    moreover note keys = this
    from keys have "pt_id ` set (map_where (\<lambda>r. pt_id r = i) ?f (PriceType d)) = pt_id ` set (PriceType d)"
      by (metis list.set_map)
    ultimately show ?thesis unfolding u snd_conv d2 using assms types
      by (intro directory_okI[OF assms]) (auto simp: directory_ok_def ball_map_where)
  qed (use assms u in simp)
  let ?g = "\<lambda>r. r\<lparr>pt_deleted := True, pt_updatedAt := clock d\<rparr>"
  have "map pt_id (map_where (\<lambda>r. pt_id r = i) ?g (PriceType d)) = map pt_id (PriceType d)"
    "map pt_slug (map_where (\<lambda>r. pt_id r = i) ?g (PriceType d)) = map pt_slug (PriceType d)"
    by (rule map_map_where, simp)+
  moreover from this(1) have "pt_id ` set (map_where (\<lambda>r. pt_id r = i) ?g (PriceType d)) = pt_id ` set (PriceType d)"
    by (metis list.set_map)
  ultimately show "directory_ok (snd (delete_price_type i d))" unfolding delete_price_type_def snd_conv using assms types
    by (intro directory_okI[OF assms]) (auto simp: directory_ok_def ball_map_where)
qed

text \<open>
  The reference data stay consistent under any sequence of requests: every counterparty and warehouse refers
  to rows that exist and fits its columns, no two price types share a key or a slug, and every group of counterparties is
  younger than its parent, which exists, so following the parents ends.
\<close>

theorem directory_stays_consistent:
  assumes "directory_ok d"
  shows "directory_ok (fold handle_directory qs d)"
  using assms
proof (induction qs arbitrary: d)
  case (Cons q qs)
  have "directory_ok (handle_directory q d)"
    using Cons.prems create_group_keeps create_counterparty_keeps counterparty_edits_keep organization_requests_keep
      warehouse_requests_keep price_type_requests_keep by (cases q) auto
  with Cons.IH show ?case by simp
qed simp

theorem directory_stays_consistent_witness:
  "directory_ok (fold handle_directory [NewGroup (Some ''shops'') None, NewGroup (Some ''north'') (Some 1000),
     NewPriceType (Some ''Shop'') (Some ''shop'') None] empty_db)"
  by (rule directory_stays_consistent) (simp add: directory_ok_def empty_db_def)

section \<open>The life of a counterparty\<close>

text \<open>A reference of the request to a row that does not exist.\<close>

definition dangling :: "counterparty_body \<Rightarrow> db \<Rightarrow> bool" where
  "dangling b d \<longleftrightarrow> \<not> (pred_option (\<lambda>k. k \<in> pt_id ` set (PriceType d)) (cpb_priceTypeId b) \<and>
     pred_option (\<lambda>k. k \<in> cg_id ` set (CounterpartyGroup d)) (cpb_groupId b) \<and>
     pred_option (\<lambda>k. k \<in> wh_id ` set (Warehouse d)) (cpb_warehouseId b) \<and>
     pred_option (\<lambda>k. k \<in> org_id ` set (Organization d)) (cpb_organizationId b))"

text \<open>The references of a counterparty and the ones a request sends.\<close>

definition references :: "counterparty \<Rightarrow> ident option list" where
  "references c = [cp_priceTypeId c, cp_groupId c, cp_warehouseId c, cp_organizationId c]"

definition sent_references :: "counterparty_body \<Rightarrow> ident option list" where
  "sent_references b = [cpb_priceTypeId b, cpb_groupId b, cpb_warehouseId b, cpb_organizationId b]"

lemma fk_ok_option: "fk_ok ks k \<longleftrightarrow> pred_option (\<lambda>x. x \<in> set ks) k"
  by (cases k) auto

lemma dangling_refused: "dangling b d \<Longrightarrow> \<not> all_ok (counterparty_ok d (new_counterparty n b e))"
  by (auto simp: dangling_def all_ok_def counterparty_ok_def new_counterparty_def fk_ok_option simp del: fk_ok_simps)

lemma dangling_edit_refused: "dangling b d \<Longrightarrow> \<not> all_ok (counterparty_ok d (edited_counterparty b t r))"
  by (auto simp: dangling_def all_ok_def counterparty_ok_def edited_counterparty_def fk_ok_option simp del: fk_ok_simps)

lemma create_refused:
  assumes "cpb_name b = None \<or> cpb_name b = Some [] \<or> dangling b d"
  shows "fst (fst (create_counterparty b d)) \<in> {400, 500} \<and> snd (create_counterparty b d) = d"
proof (cases "non_empty (cpb_name b)")
  case None
  then show ?thesis by (simp add: create_counterparty_def reply_error_def)
next
  case (Some n)
  with assms have "dangling b d" by (auto simp: non_empty_def)
  from dangling_refused[OF this] obtain e where "first_error (counterparty_ok d (new_counterparty n b d)) = Inl e"
    by (cases "first_error (counterparty_ok d (new_counterparty n b d))") (auto simp: all_ok_def)
  with Some show ?thesis by (simp add: create_counterparty_def transaction_def catch_reply_def Let_def)
qed

lemma create_counterparty_effect:
  assumes "create_counterparty b d = (reply_ok 201 r, d')"
  obtains n where "non_empty (cpb_name b) = Some n" "r = new_counterparty n b d"
    "d' = d\<lparr>Counterparty := Counterparty d @ [r], next_uuid := Suc (next_uuid d)\<rparr>"
proof -
  obtain n where n: "non_empty (cpb_name b) = Some n"
    using assms by (cases "non_empty (cpb_name b)") (simp_all add: create_counterparty_def reply_ok_def reply_error_def)
  have "first_error (counterparty_ok d (new_counterparty n b d)) = Inr ()"
    using assms by (cases "first_error (counterparty_ok d (new_counterparty n b d))")
      (simp_all add: create_counterparty_def n Let_def transaction_def catch_reply_def reply_ok_def)
  with assms have "r = new_counterparty n b d \<and>
      d' = d\<lparr>Counterparty := Counterparty d @ [r], next_uuid := Suc (next_uuid d)\<rparr>"
    by (auto simp: create_counterparty_def n Let_def transaction_def catch_reply_def reply_ok_def)
  with n show thesis by (intro that) auto
qed

lemma update_counterparty_effect:
  assumes "update_counterparty i b d = (reply_ok 200 r, d')"
  shows "d' = d\<lparr>Counterparty := map_where (\<lambda>c. cp_id c = i) (edited_counterparty b (clock d)) (Counterparty d)\<rparr> \<and>
    find_row cp_id i (Counterparty d') = Some r"
  using assms by (auto simp: update_counterparty_def updated_row_def reply_ok_def reply_error_def update_table_Inr_iff
      split: sum.splits option.splits)

lemma update_last:
  assumes "\<forall>c \<in> set rows. key c \<noteq> i" "key r = i"
  shows "map_where (\<lambda>c. key c = i) f (rows @ [r]) = rows @ [f r]"
  using assms map_where_id[of rows "\<lambda>c. key c = i" f] by (simp add: map_where_append)


definition grouped_db :: db where
  "grouped_db = empty_db\<lparr>Warehouse := [named_warehouse 7 ''Main''],
     CounterpartyGroup := [\<lparr>cg_id = 4, cg_name = ''shops'', cg_parentId = None, cg_isDeleted = False\<rparr>,
       \<lparr>cg_id = 5, cg_name = ''cafes'', cg_parentId = None, cg_isDeleted = False\<rparr>]\<rparr>"

definition first_body :: counterparty_body where
  "first_body = \<lparr>cpb_name = Some ''Shop'', cpb_address = None, cpb_phone = Some ''1'', cpb_contactPerson = None,
     cpb_isBuyer = Some True, cpb_isSeller = None, cpb_priceTypeId = None, cpb_groupId = Some 4, cpb_warehouseId = Some 7,
     cpb_defaultSalesType = None, cpb_organizationId = None\<rparr>"

definition second_body :: counterparty_body where
  "second_body = first_body\<lparr>cpb_name := Some ''Cafe'', cpb_phone := None, cpb_groupId := Some 5\<rparr>"


section \<open>Conflicts and lost references\<close>

text \<open>
  A price type with a slug that is taken is refused with 409 and stores nothing, also when the type that
  holds the slug has been deleted; with a free slug the type is created, and the next request for it conflicts.
\<close>

theorem slug_conflict:
  assumes "non_empty n = Some m" and "non_empty s = Some t"
  shows "fst (fst (create_price_type n s c d)) = (if t \<in> pt_slug ` set (PriceType d) then 409 else 201) \<and>
    (t \<in> pt_slug ` set (PriceType d) \<longrightarrow> snd (create_price_type n s c d) = d) \<and>
    fst (fst (create_price_type n s c (snd (create_price_type n s c d)))) = 409 \<and>
    fst (fst (create_price_type n s c (snd (delete_price_type i (snd (create_price_type n s c d)))))) = 409"
proof -
  have run: "create_price_type n s c d = (if t \<in> pt_slug ` set (PriceType d) then ((409, Inl (Text ''Slug already exists'')), d)
      else ((201, Inr \<lparr>pt_id = next_uuid d, pt_name = m, pt_slug = t, pt_currency = string_or c ''UAH'', pt_deleted = False,
      pt_createdAt = clock d, pt_updatedAt = clock d\<rparr>), d\<lparr>PriceType := PriceType d @ [\<lparr>pt_id = next_uuid d, pt_name = m,
      pt_slug = t, pt_currency = string_or c ''UAH'', pt_deleted = False, pt_createdAt = clock d, pt_updatedAt = clock d\<rparr>],
      next_uuid := Suc (next_uuid d)\<rparr>))" for d
    by (simp add: create_price_type_def assms Let_def first_error_def transaction_def catch_reply_def price_type_failure_def)
  have taken: "t \<in> pt_slug ` set (PriceType (snd (create_price_type n s c d)))" by (simp add: run)
  have "pt_slug ` set (PriceType (snd (delete_price_type i d))) = pt_slug ` set (PriceType d)" for d
    unfolding delete_price_type_def by (simp add: keys_map_where)
  with taken show ?thesis by (simp add: run[of "snd (create_price_type n s c d)"] run[of "snd (delete_price_type i e)" for e])
    (simp add: run)
qed

theorem slug_conflict_witness:
  "fst (fst (create_price_type (Some ''Shop'') (Some ''shop'') None shop_db)) = 409 \<and>
   fst (fst (create_price_type (Some ''Cafe'') (Some ''cafe'') None shop_db)) = 201"
  using slug_conflict[of "Some ''Shop''" "''Shop''" "Some ''shop''" "''shop''" None shop_db]
    slug_conflict[of "Some ''Cafe''" "''Cafe''" "Some ''cafe''" "''cafe''" None shop_db]
  by (simp add: non_empty_def shop_db_def)

text \<open>
  An edit of a counterparty that does not repeat its warehouse detaches it, unlike its name or its phone,
  which a missing property keeps: from then on orders of the counterparty that name no warehouse go to the oldest
  warehouse of the company.
\<close>

theorem edit_detaches_warehouse:
  assumes "update_counterparty i b d = (reply_ok 200 r, d')" and "cpb_warehouseId b = None"
    and "restricted_to (Some user) = None" and "ob_warehouseId data = None" and "ob_counterpartyId data = Some i"
  shows "order_warehouse user data d' = first_warehouse d \<and> cp_warehouseId r = None \<and>
    (\<exists>old. find_row cp_id i (Counterparty d) = Some old \<and> cp_name r = coalesce (cpb_name b) (cp_name old))"
proof -
  let ?f = "edited_counterparty b (clock d)"
  from assms(1) obtain rows where rows: "update_table (\<lambda>r. cp_id r = i) ?f (counterparty_ok d) (Counterparty d) = Inr rows"
    and r: "find_row cp_id i rows = Some r" and d': "d' = d\<lparr>Counterparty := rows\<rparr>"
    by (auto simp: update_counterparty_def updated_row_def reply_ok_def reply_error_def split: sum.splits option.splits)
  have "rows = map_where (\<lambda>r. cp_id r = i) ?f (Counterparty d)" using rows by (auto simp: update_table_Inr_iff)
  then have "find_row cp_id i rows = map_option (\<lambda>r. if cp_id r = i then ?f r else r) (find_row cp_id i (Counterparty d))"
    by (simp add: find_row_map_where edited_counterparty_def)
  with r have "map_option (\<lambda>r. if cp_id r = i then ?f r else r) (find_row cp_id i (Counterparty d)) = Some r" by (metis (no_types))
  then obtain old where old: "find_row cp_id i (Counterparty d) = Some old"
    and e: "r = (if cp_id old = i then ?f old else old)" unfolding map_option_eq_Some by blast
  from find_row_Some[OF old] have e: "r = ?f old" unfolding e by (rule if_P[OF conjunct2])
  have "cp_warehouseId r = None" by (simp add: e edited_counterparty_def assms(2))
  with r old show ?thesis using assms(3-5)
    by (simp add: order_warehouse_def forced_warehouse_def d' first_warehouse_def e edited_counterparty_def)
qed

definition rename_body :: counterparty_body where
  "rename_body = \<lparr>cpb_name = Some ''New name'', cpb_address = None, cpb_phone = None, cpb_contactPerson = None,
     cpb_isBuyer = None, cpb_isSeller = None, cpb_priceTypeId = None, cpb_groupId = None, cpb_warehouseId = None,
     cpb_defaultSalesType = None, cpb_organizationId = None\<rparr>"

definition attached_db :: db where
  "attached_db = empty_db\<lparr>Warehouse := [named_warehouse 7 ''Main'', named_warehouse 8 ''North''],
     Counterparty := [(named_counterparty 3 ''Shop'')\<lparr>cp_warehouseId := Some 8\<rparr>]\<rparr>"

theorem edit_detaches_warehouse_witness:
  "\<exists>r d'. update_counterparty 3 rename_body attached_db = (reply_ok 200 r, d') \<and> cp_name r = ''New name'' \<and>
     order_warehouse (clerk\<lparr>ru_role := ''admin''\<rparr>) (tea_body\<lparr>ob_counterpartyId := Some 3\<rparr>) attached_db = Some 8 \<and>
     order_warehouse (clerk\<lparr>ru_role := ''admin''\<rparr>) (tea_body\<lparr>ob_counterpartyId := Some 3\<rparr>) d' = Some 7"
proof -
  let ?user = "clerk\<lparr>ru_role := ''admin''\<rparr>" and ?data = "tea_body\<lparr>ob_counterpartyId := Some 3\<rparr>"
  have n: "char_count ''New name'' \<le> 255" by (simp add: char_count_def)
  have "\<exists>r d'. update_counterparty 3 rename_body attached_db = (reply_ok 200 r, d')"
    using n by (simp add: update_counterparty_def updated_row_def update_table_def first_error_def counterparty_ok_def
        varchar_ok_def edited_counterparty_def rename_body_def attached_db_def empty_db_def coalesce_def coalesce_opt_def
        reply_ok_def)
  then obtain r d' where u: "update_counterparty 3 rename_body attached_db = (reply_ok 200 r, d')" by blast
  have "cpb_warehouseId rename_body = None" "restricted_to (Some ?user) = None" "ob_warehouseId ?data = None"
    "ob_counterpartyId ?data = Some 3" by (simp_all add: rename_body_def restricted_to_def tea_body_def)
  note e = edit_detaches_warehouse[OF u this]
  have "first_warehouse attached_db = Some 7" by (simp add: first_warehouse_def attached_db_def)
  moreover have "order_warehouse ?user ?data attached_db = Some 8"
    by (simp add: order_warehouse_def forced_warehouse_def restricted_to_def tea_body_def attached_db_def)
  ultimately show ?thesis using u e by (auto simp: rename_body_def coalesce_def)
qed

end
