(* ===== verification/Planning.thy ===== *)
theory Planning
  imports Directory Queries
begin

text \<open>
  The weekly collection plan: \<open>src/routes/collection-schedule.ts\<close>, which days of the week the orders of a client
  are collected on, and \<open>src/routes/picking-list.ts\<close>, the goods to collect on a day. \<open>tz\<close> is the offset of the
  time zone of the database session, \<open>smallint\<close> the input function of SMALLINT, and \<open>sku\<close> the column of
  \<open>Product\<close> that the picking list selects and no migration adds (None when the table lacks it).
\<close>

section \<open>Weeks\<close>

text \<open>Days are counted from 1970-01-01, a Thursday; \<open>date_trunc('week', ...)\<close> is the Monday before or at the day.\<close>

definition week_start :: "int \<Rightarrow> int" where
  "week_start n = n - (n + 3) mod 7"

definition isodow :: "int \<Rightarrow> int" where
  "isodow n = (n + 3) mod 7 + 1"

definition current_week :: "int \<Rightarrow> db \<Rightarrow> order \<Rightarrow> bool" where
  "current_week tz d r \<longleftrightarrow> week_start (local_day tz (clock d)) \<le> local_day tz (ord_createdAt r)"

definition order_dow :: "int \<Rightarrow> order \<Rightarrow> int" where
  "order_dow tz r = isodow (local_day tz (ord_createdAt r))"

section \<open>The schedule\<close>

text \<open>The items of some orders, by the join of \<open>OrderItem\<close> with them.\<close>

definition items_quantity :: "db \<Rightarrow> order list \<Rightarrow> decimal" where
  "items_quantity d os = sum_of (\<lambda>x. oi_quantity (fst x)) (join (\<lambda>i r. oi_orderId i = ord_id r) (OrderItem d) os)"

record schedule_view =
  sv_row :: schedule_row
  sv_client_name :: "string option"

record planned_day =
  pl_row :: schedule_row
  pl_client_name :: string
  pl_order_count :: nat
  pl_product_count :: decimal

definition client_orders :: "int \<Rightarrow> db \<Rightarrow> schedule_row \<Rightarrow> order list" where
  "client_orders tz d s = filter (\<lambda>r. ord_counterpartyId r \<noteq> None \<and> ord_counterpartyId r = cs_client_id s \<and>
     Some (order_dow tz r) = cs_day_of_week s) (filter (current_week tz d) (Orders d))"

definition plan_row :: "int \<Rightarrow> db \<Rightarrow> schedule_row \<times> counterparty \<Rightarrow> planned_day" where
  "plan_row tz d = (\<lambda>(s, c).
     \<lparr>pl_row = s, pl_client_name = cp_name c, pl_order_count = length (client_orders tz d s),
      pl_product_count = items_quantity d (client_orders tz d s)\<rparr>)"

text \<open>\<open>ORDER BY cs.day_of_week, c.name\<close>: NULL comes last, after the seven days.\<close>

definition list_schedule :: "int \<Rightarrow> (string \<Rightarrow> nat) \<Rightarrow> db \<Rightarrow> planned_day list reply" where
  "list_schedule tz collate d = reply_ok 200
     (sort_key (\<lambda>p. coalesce (cs_day_of_week (pl_row p)) 8) (sort_key (\<lambda>p. collate (pl_client_name p))
       (map (plan_row tz d) (join (\<lambda>s c. cs_client_id s = Some (cp_id c)) (CollectionSchedule d) (Counterparty d)))))"

definition schedule_row_ok :: "db \<Rightarrow> schedule_row \<Rightarrow> (bool \<times> sql_error) list" where
  "schedule_row_ok d r =
     [(pred_option (\<lambda>n. 1 \<le> n \<and> n \<le> 7) (cs_day_of_week r), CheckViolation ''collection_schedule.day_of_week''),
      (fk_ok (map cp_id (Counterparty d)) (cs_client_id r), ForeignKeyViolation ''collection_schedule.client_id'')]"

definition ins_CollectionSchedule :: "schedule_row \<Rightarrow> db \<Rightarrow> error + db" where
  "ins_CollectionSchedule r d = rbind (first_error (schedule_row_ok d r))
     (\<lambda>_. Inr (d\<lparr>CollectionSchedule := CollectionSchedule d @ [r], next_uuid := Suc (next_uuid d)\<rparr>))"

definition upd_CollectionSchedule ::
  "(schedule_row \<Rightarrow> bool) \<Rightarrow> (schedule_row \<Rightarrow> schedule_row) \<Rightarrow> db \<Rightarrow> error + db" where
  "upd_CollectionSchedule P f d = rbind (update_table P f (schedule_row_ok d) (CollectionSchedule d))
     (\<lambda>rows. Inr (d\<lparr>CollectionSchedule := rows\<rparr>))"

definition create_schedule_item ::
  "(string \<Rightarrow> int option) \<Rightarrow> string option \<Rightarrow> ident option \<Rightarrow> db \<Rightarrow> schedule_view reply \<times> db" where
  "create_schedule_item smallint dayOfWeek clientId d =
     map_prod (catch_reply 201 (\<lambda>_. (500, Text ''Failed to create schedule item''))) id
       (transaction (\<lambda>d. rbind (read_param smallint dayOfWeek) (\<lambda>day.
          let row = \<lparr>cs_id = next_uuid d, cs_client_id = clientId, cs_status = ''planned'', cs_day_of_week = day\<rparr>
          in rbind (ins_CollectionSchedule row d) (\<lambda>d1.
             Inr (\<lparr>sv_row = row, sv_client_name = join_name cp_id cp_name (Counterparty d) clientId\<rparr>, d1)))) d)"

text \<open>The two PATCH routes answer with the updated row, or with 404 when the id matches none.\<close>

definition patch_schedule ::
  "ident \<Rightarrow> (schedule_row \<Rightarrow> schedule_row) \<Rightarrow> string \<Rightarrow> db \<Rightarrow> schedule_row reply \<times> db" where
  "patch_schedule i f failure d =
     (case upd_CollectionSchedule (\<lambda>r. cs_id r = i) f d of
        Inl _ \<Rightarrow> (reply_error 500 (Text failure), d)
      | Inr d1 \<Rightarrow> (case find_row cs_id i (CollectionSchedule d1) of
          None \<Rightarrow> (reply_error 404 (Text ''Item not found''), d1)
        | Some r \<Rightarrow> (reply_ok 200 r, d1)))"

definition schedule_statuses :: "string list" where
  "schedule_statuses = [''planned'', ''in_progress'', ''done'']"

definition set_schedule_status :: "ident \<Rightarrow> string option \<Rightarrow> db \<Rightarrow> schedule_row reply \<times> db" where
  "set_schedule_status i status d =
     (case status of
        None \<Rightarrow> (reply_error 400 (Text ''Invalid status''), d)
      | Some s \<Rightarrow> if \<not> List.member schedule_statuses s then (reply_error 400 (Text ''Invalid status''), d)
          else patch_schedule i (\<lambda>r. r\<lparr>cs_status := s\<rparr>) ''Failed to update status'' d)"

definition move_schedule_item ::
  "(string \<Rightarrow> int option) \<Rightarrow> ident \<Rightarrow> string option \<Rightarrow> db \<Rightarrow> schedule_row reply \<times> db" where
  "move_schedule_item smallint i dayOfWeek d =
     (case read_param smallint dayOfWeek of
        Inl _ \<Rightarrow> (reply_error 500 (Text ''Failed to update day''), d)
      | Inr day \<Rightarrow> patch_schedule i (\<lambda>r. r\<lparr>cs_day_of_week := day\<rparr>) ''Failed to update day'' d)"

definition delete_schedule_item :: "ident \<Rightarrow> db \<Rightarrow> unit reply \<times> db" where
  "delete_schedule_item i d =
     (reply_ok 204 (), d\<lparr>CollectionSchedule := filter (\<lambda>r. cs_id r \<noteq> i) (CollectionSchedule d)\<rparr>)"

section \<open>The goods of a day\<close>

text \<open>A missing day is NULL, which no row and no order equals.\<close>

definition clients_on_day :: "int option \<Rightarrow> db \<Rightarrow> ident option list" where
  "clients_on_day day d = map cs_client_id
     (filter (\<lambda>s. day \<noteq> None \<and> cs_day_of_week s = day) (CollectionSchedule d))"

definition ordered_on_day :: "int \<Rightarrow> int option \<Rightarrow> db \<Rightarrow> order \<Rightarrow> bool" where
  "ordered_on_day tz day d r \<longleftrightarrow> current_week tz d r \<and> Some (order_dow tz r) = day"

definition scheduled_client :: "int option \<Rightarrow> db \<Rightarrow> order \<Rightarrow> bool" where
  "scheduled_client day d r \<longleftrightarrow>
     ord_counterpartyId r \<noteq> None \<and> List.member (clients_on_day day d) (ord_counterpartyId r)"

record day_totals =
  dt_client_count :: nat
  dt_order_count :: nat
  dt_item_count :: decimal

definition day_summary :: "int \<Rightarrow> (string \<Rightarrow> int option) \<Rightarrow> string option \<Rightarrow> db \<Rightarrow> day_totals reply" where
  "day_summary tz smallint dayOfWeek d = catch_reply 200 (\<lambda>_. (500, Text ''Failed to fetch summary''))
     (rbind (read_param smallint dayOfWeek) (\<lambda>day.
        let os = filter (scheduled_client day d) (filter (ordered_on_day tz day d) (Orders d))
        in Inr \<lparr>dt_client_count = length (clients_on_day day d), dt_order_count = length os,
             dt_item_count = items_quantity d os\<rparr>))"

record picking_line =
  pk_product_id :: ident
  pk_product_name :: string
  pk_sku :: "string option"
  pk_total_quantity :: decimal

definition relevant_order :: "int \<Rightarrow> int option \<Rightarrow> req_user option \<Rightarrow> db \<Rightarrow> order \<Rightarrow> bool" where
  "relevant_order tz day user d r \<longleftrightarrow> scheduled_client day d r \<and> ordered_on_day tz day d r \<and>
     (case restricted_to user of None \<Rightarrow> True | Some w \<Rightarrow> ord_warehouseId r = Some w)"

definition picked_items :: "int \<Rightarrow> int option \<Rightarrow> req_user option \<Rightarrow> db \<Rightarrow> (order_item \<times> product) list" where
  "picked_items tz day user d = join (\<lambda>i p. oi_productId i = prod_id p)
     (filter (\<lambda>i. List.member (map ord_id (filter (relevant_order tz day user d) (Orders d))) (oi_orderId i)) (OrderItem d))
     (Product d)"

definition picking_line_of :: "(ident \<Rightarrow> string option) \<Rightarrow> product \<Rightarrow> (order_item \<times> product) list \<Rightarrow> picking_line" where
  "picking_line_of sku p rows = \<lparr>pk_product_id = prod_id p, pk_product_name = prod_name p, pk_sku = sku (prod_id p),
     pk_total_quantity = sum_of (\<lambda>x. oi_quantity (fst x)) rows\<rparr>"

definition picking_list ::
  "int \<Rightarrow> (string \<Rightarrow> int option) \<Rightarrow> (string \<Rightarrow> nat) \<Rightarrow> (ident \<Rightarrow> string option) option \<Rightarrow> string option \<Rightarrow>
   req_user option \<Rightarrow> db \<Rightarrow> picking_line list reply" where
  "picking_list tz smallint collate sku dayOfWeek user d = (case non_empty dayOfWeek of
     None \<Rightarrow> reply_error 400 (Text ''dayOfWeek parameter is required'')
   | Some day_text \<Rightarrow> catch_reply 200 (\<lambda>_. (500, Text ''Failed to generate picking list''))
       (case sku of
          None \<Rightarrow> Inl (SqlError (UndefinedColumn ''p.sku''))
        | Some column \<Rightarrow> rbind (read_param smallint (Some day_text)) (\<lambda>day. Inr
            (sort_key (\<lambda>l. collate (pk_product_name l))
              (map (\<lambda>(p, rows). picking_line_of column p rows) (group_by snd (picked_items tz day user d)))))))"

section \<open>Days and weeks\<close>

lemma isodow_range: "1 \<le> isodow n \<and> isodow n \<le> 7"
  using pos_mod_bound[of 7 "n + 3"] pos_mod_sign[of 7 "n + 3"] by (simp add: isodow_def)

lemma week_start_isodow: "n = week_start n + isodow n - 1"
  by (simp add: week_start_def isodow_def)

lemma isodow_add_weeks: "isodow (n + 7 * k) = isodow n"
  by (simp add: isodow_def) (metis add.commute add.left_commute mod_mult_self2)

lemma week_start_add_weeks: "week_start (n + 7 * k) = week_start n + 7 * k"
proof -
  have "(n + 7 * k + 3) mod 7 = (n + 3) mod 7" by (metis add.commute add.left_commute mod_mult_self2)
  then show ?thesis by (simp add: week_start_def)
qed

lemma week_start_whole_weeks: "\<exists>k. week_start m = week_start n + 7 * k"
proof -
  have "week_start m = 7 * ((m + 3) div 7) - 3" for m
    unfolding week_start_def using mult_div_mod_eq[of 7 "m + 3"] by linarith
  then show ?thesis by (intro exI[of _ "(m + 3) div 7 - (n + 3) div 7"]) simp
qed

lemma same_day:
  fixes x :: int
  assumes "x = w + (a - 1) + 7 * k" and "x = w + (b - 1) + 7 * j" and "1 \<le> a \<and> a \<le> 7" and "1 \<le> b" and "b \<le> 7"
  shows "a = b"
  using assms by presburger

text \<open>
  The orders counted for a day of the week are those of that day in the current week and, because the query
  has a lower bound only, those of the same day in every later week.
\<close>

theorem orders_of_later_weeks_count:
  assumes "1 \<le> day" and "day \<le> 7"
  shows "ordered_on_day tz (Some day) d r \<longleftrightarrow>
    (\<exists>k \<ge> 0. local_day tz (ord_createdAt r) = week_start (local_day tz (clock d)) + (day - 1) + 7 * k)"
proof -
  let ?n = "local_day tz (ord_createdAt r)" and ?w = "week_start (local_day tz (clock d))"
  obtain k where k: "week_start ?n = ?w + 7 * k" using week_start_whole_weeks by blast
  have n: "?n = ?w + (isodow ?n - 1) + 7 * k" using week_start_isodow[of ?n] k by linarith
  show ?thesis
  proof
    assume "ordered_on_day tz (Some day) d r"
    then have "?w \<le> ?n" "isodow ?n = day" by (auto simp: ordered_on_day_def current_week_def order_dow_def)
    moreover from this have "0 \<le> k" using n assms by presburger
    ultimately show "\<exists>k \<ge> 0. ?n = ?w + (day - 1) + 7 * k" using n by metis
  next
    assume "\<exists>k \<ge> 0. ?n = ?w + (day - 1) + 7 * k"
    then obtain j where j: "0 \<le> j" "?n = ?w + (day - 1) + 7 * j" by blast
    have "isodow ?n = day" by (rule same_day[OF n j(2) isodow_range assms])
    with j assms show "ordered_on_day tz (Some day) d r"
      by (simp add: ordered_on_day_def current_week_def order_dow_def)
  qed
qed


section \<open>Sums over orders and over items\<close>

definition order_quantity :: "db \<Rightarrow> ident \<Rightarrow> decimal" where
  "order_quantity d i = sum_of oi_quantity (filter (\<lambda>item. oi_orderId item = i) (OrderItem d))"

lemma items_quantity_by_order: "items_quantity d os = sum_of (order_quantity d) (map ord_id os)"
  unfolding items_quantity_def sum_of_join_swap by (simp add: order_quantity_def)

lemma client_orders_of_day:
  assumes "cs_day_of_week s = Some n" and "s \<in> set (CollectionSchedule d)"
  shows "client_orders tz d s =
    filter (\<lambda>r. ord_counterpartyId r = cs_client_id s) (filter (scheduled_client (Some n) d) (filter (ordered_on_day tz (Some n) d) (Orders d)))"
proof -
  have "List.member (clients_on_day (Some n) d) (cs_client_id s)"
    using assms by (auto simp: clients_on_day_def)
  then show ?thesis using assms
    by (auto simp: client_orders_def scheduled_client_def ordered_on_day_def intro!: filter_cong)
qed

text \<open>The listed rows of a day: each row of the schedule whose client exists, once.\<close>

definition plan :: "int \<Rightarrow> (string \<Rightarrow> nat) \<Rightarrow> db \<Rightarrow> planned_day list" where
  "plan tz collate d = (case snd (list_schedule tz collate d) of Inl _ \<Rightarrow> [] | Inr rows \<Rightarrow> rows)"

lemma sum_of_plan:
  assumes "distinct (map cp_id (Counterparty d))"
    and "\<And>s c. f (plan_row tz d (s, c)) = g s"
    and "\<And>s. s \<in> set (CollectionSchedule d) \<Longrightarrow> cs_client_id s \<notin> (\<lambda>c. Some (cp_id c)) ` set (Counterparty d) \<Longrightarrow> g s = 0"
  shows "sum_of f (plan tz collate d) = sum_of g (CollectionSchedule d)"
proof -
  let ?J = "join (\<lambda>s c. cs_client_id s = Some (cp_id c)) (CollectionSchedule d) (Counterparty d)"
  have "f (plan_row tz d x) = (g \<circ> fst) x" for x using assms(2) by (cases x) simp
  then have "sum_of f (plan tz collate d) = sum_of g (map fst ?J)"
    by (simp add: plan_def list_schedule_def reply_ok_def sum_of_sort_key o_def)
  also have "map fst ?J = filter (\<lambda>s. cs_client_id s \<in> (\<lambda>c. Some (cp_id c)) ` set (Counterparty d)) (CollectionSchedule d)"
    by (rule join_on_key) (use assms(1) in \<open>simp add: distinct_map inj_on_def\<close>)
  also have "sum_of g \<dots> = sum_of g (CollectionSchedule d)"
    unfolding sum_of_filter by (rule sum_of_cong) (use assms(3) in auto)
  finally show ?thesis .
qed

lemma sum_over_clients:
  fixes tz :: int
  assumes "distinct (clients_on_day (Some n) d)"
  defines "os \<equiv> filter (scheduled_client (Some n) d) (filter (ordered_on_day tz (Some n) d) (Orders d))"
  shows "sum_of (\<lambda>s. if cs_day_of_week s = Some n then sum_of f (client_orders tz d s) else 0) (CollectionSchedule d) = sum_of f os"
proof -
  have "sum_of (\<lambda>s. if cs_day_of_week s = Some n then sum_of f (client_orders tz d s) else 0) (CollectionSchedule d) =
      sum_of (\<lambda>s. if cs_day_of_week s = Some n then sum_of f (filter (\<lambda>r. ord_counterpartyId r = cs_client_id s) os) else 0)
        (CollectionSchedule d)"
    unfolding os_def by (rule sum_of_cong) (simp add: client_orders_of_day)
  also have "\<dots> = sum_of (\<lambda>k. sum_of f (filter (\<lambda>r. ord_counterpartyId r = k) os)) (clients_on_day (Some n) d)"
    by (simp add: clients_on_day_def sum_of_filter[of _ "\<lambda>s. cs_day_of_week s = Some n"])
  also have "\<dots> = sum_of f os"
    by (rule sum_of_by_key[OF assms(1)]) (auto simp: os_def scheduled_client_def)
  finally show ?thesis .
qed

section \<open>The schedule and the summary\<close>

definition schedule_ok :: "db \<Rightarrow> bool" where
  "schedule_ok d \<longleftrightarrow> list_all (\<lambda>r. all_ok (schedule_row_ok d r) \<and> List.member schedule_statuses (cs_status r)) (CollectionSchedule d)"

text \<open>
  C38: the week view and the summary of a day agree: if no client is planned twice for the day, the numbers of
  orders and of goods in the summary are the sums over the rows the week view lists for that day.
\<close>

theorem week_view_agrees_with_summary:
  assumes "schedule_ok d" and "distinct (map cp_id (Counterparty d))" and "distinct (clients_on_day (Some n) d)"
    and "smallint t = Some n"
  shows "list_schedule tz collate d = reply_ok 200 (plan tz collate d) \<and>
    (\<exists>s. day_summary tz smallint (Some t) d = reply_ok 200 s \<and>
       of_nat (dt_order_count s) = sum_of (\<lambda>p. of_nat (pl_order_count p)) (filter (\<lambda>p. cs_day_of_week (pl_row p) = Some n) (plan tz collate d)) \<and>
       dt_item_count s = sum_of pl_product_count (filter (\<lambda>p. cs_day_of_week (pl_row p) = Some n) (plan tz collate d)))"
proof -
  define os where "os = filter (scheduled_client (Some n) d) (filter (ordered_on_day tz (Some n) d) (Orders d))"
  have no_client: "client_orders tz d s = []" if "s \<in> set (CollectionSchedule d)"
    "cs_client_id s \<notin> (\<lambda>c. Some (cp_id c)) ` set (Counterparty d)" for s
  proof -
    have "fk_ok (map cp_id (Counterparty d)) (cs_client_id s)"
      using assms(1) that(1) by (simp add: schedule_ok_def list_all_iff all_ok_def schedule_row_ok_def)
    with that(2) have "cs_client_id s = None" by (cases "cs_client_id s") auto
    then show ?thesis by (auto simp: client_orders_def filter_empty_conv)
  qed
  have sums: "sum_of f (filter (\<lambda>p. cs_day_of_week (pl_row p) = Some n) (plan tz collate d)) = sum_of g os"
    if "\<And>s c. f (plan_row tz d (s, c)) = sum_of g (client_orders tz d s)" for f :: "planned_day \<Rightarrow> rat" and g
  proof -
    have "sum_of (\<lambda>p. if cs_day_of_week (pl_row p) = Some n then f p else 0) (plan tz collate d) =
        sum_of (\<lambda>s. if cs_day_of_week s = Some n then sum_of g (client_orders tz d s) else 0) (CollectionSchedule d)"
      by (rule sum_of_plan[OF assms(2)]) (use that no_client in \<open>auto simp: plan_row_def\<close>)
    also have "\<dots> = sum_of g os" unfolding os_def by (rule sum_over_clients[OF assms(3)])
    finally show ?thesis by (simp only: sum_of_filter)
  qed
  have "of_nat (length os) = sum_of (\<lambda>p. of_nat (pl_order_count p)) (filter (\<lambda>p. cs_day_of_week (pl_row p) = Some n) (plan tz collate d))"
    by (subst sums[of _ "\<lambda>_. 1"]) (simp_all add: plan_row_def sum_of_1)
  moreover have "items_quantity d os = sum_of pl_product_count (filter (\<lambda>p. cs_day_of_week (pl_row p) = Some n) (plan tz collate d))"
    by (subst sums[of _ "order_quantity d \<circ> ord_id"]) (simp_all add: plan_row_def items_quantity_by_order o_def)
  moreover have "day_summary tz smallint (Some t) d = reply_ok 200 \<lparr>dt_client_count = length (clients_on_day (Some n) d),
      dt_order_count = length os, dt_item_count = items_quantity d os\<rparr>"
    by (simp add: day_summary_def read_param_def assms(4) catch_reply_def reply_ok_def os_def Let_def)
  moreover have "list_schedule tz collate d = reply_ok 200 (plan tz collate d)"
    by (simp add: plan_def list_schedule_def reply_ok_def)
  ultimately show ?thesis
    by (intro conjI exI[of _ "\<lparr>dt_client_count = length (clients_on_day (Some n) d), dt_order_count = length os,
      dt_item_count = items_quantity d os\<rparr>"]) simp_all
qed


text \<open>Monday is day 4 (1970-01-05), and so the clock of this database stands on a Wednesday.\<close>

definition day_text :: "string \<Rightarrow> int option" where
  "day_text s = (case s of [c] \<Rightarrow> let n = of_char c :: nat in if 48 \<le> n \<and> n \<le> 57 then Some (int n - 48) else None | _ \<Rightarrow> None)"

definition week_order :: "ident \<Rightarrow> ident \<Rightarrow> int \<Rightarrow> order" where
  "week_order i c day = \<lparr>ord_id = i, ord_userId = 1, ord_counterpartyId = Some c, ord_status = ''NEW'', ord_total = 10,
     ord_currency = ''UAH'', ord_items = None, ord_comment = None, ord_docNumber = None, ord_warehouseId = None,
     ord_isDeleted = False, ord_createdAt = day * ms_per_day + 3600000, ord_updatedAt = 0\<rparr>"

definition week_item :: "ident \<Rightarrow> ident \<Rightarrow> ident \<Rightarrow> decimal \<Rightarrow> order_item" where
  "week_item i r p q = \<lparr>oi_id = i, oi_orderId = r, oi_productId = p, oi_quantity = q, oi_sellPrice = 5, oi_sortOrder = 0\<rparr>"

definition week_db :: db where
  "week_db = empty_db\<lparr>Counterparty := [named_counterparty 3 ''Shop'', named_counterparty 4 ''Cafe''],
     Product := [named_product 70 ''Tea'' ''kg'', named_product 71 ''Milk'' ''l''],
     Orders := [week_order 20 3 5, week_order 21 3 5, week_order 22 4 5, week_order 23 4 12, week_order 24 4 3],
     OrderItem := [week_item 30 20 70 2, week_item 31 20 71 3, week_item 32 21 70 4, week_item 33 23 71 6, week_item 34 24 70 9],
     CollectionSchedule := [\<lparr>cs_id = 50, cs_client_id = Some 3, cs_status = ''planned'', cs_day_of_week = Some 2\<rparr>,
       \<lparr>cs_id = 51, cs_client_id = Some 4, cs_status = ''done'', cs_day_of_week = Some 2\<rparr>],
     clock := 6 * ms_per_day + 7200000\<rparr>"

lemmas week_db_eval = week_db_def week_order_def week_item_def current_week_def order_dow_def week_start_def isodow_def
  local_day_def ms_per_day_def day_text_def empty_db_def

lemma week_db_summary:
  "day_summary 0 day_text (Some ''2'') week_db = reply_ok 200 \<lparr>dt_client_count = 2, dt_order_count = 4, dt_item_count = 15\<rparr>"
  by (simp add: week_db_eval day_summary_def read_param_def catch_reply_def reply_ok_def clients_on_day_def Let_def
      scheduled_client_def ordered_on_day_def items_quantity_by_order order_quantity_def)

theorem week_view_agrees_with_summary_witness:
  "sum_of pl_product_count (filter (\<lambda>p. cs_day_of_week (pl_row p) = Some 2) (plan 0 length week_db)) = 15"
proof -
  have "schedule_ok week_db" "distinct (map cp_id (Counterparty week_db))" "distinct (clients_on_day (Some 2) week_db)"
    by (simp_all add: schedule_ok_def week_db_def all_ok_def schedule_row_ok_def schedule_statuses_def clients_on_day_def)
  from week_view_agrees_with_summary[OF this, of day_text "''2''" 0 length]
  show ?thesis by (simp add: week_db_summary day_text_def reply_ok_def)
qed

theorem orders_of_later_weeks_count_witness:
  "ordered_on_day 0 (Some 2) week_db (week_order 23 4 12) \<and> \<not> ordered_on_day 0 (Some 2) week_db (week_order 23 4 13)"
proof -
  have "local_day 0 (clock week_db) = 6" "local_day 0 (ord_createdAt (week_order 23 4 n)) = n" for n
    by (simp_all add: week_db_def week_order_def local_day_def ms_per_day_def)
  with orders_of_later_weeks_count[of 2 0 week_db "week_order 23 4 12"]
    orders_of_later_weeks_count[of 2 0 week_db "week_order 23 4 13"]
  show ?thesis by (auto simp: week_start_def intro: exI[of _ 1]) presburger
qed


section \<open>The picking list\<close>

lemma items_of_orders:
  assumes "distinct (map ord_id (Orders d))"
  shows "sum_of oi_quantity (filter (\<lambda>i. List.member (map ord_id (filter P (Orders d))) (oi_orderId i)) (OrderItem d)) =
    items_quantity d (filter P (Orders d))"
proof -
  have "distinct (map ord_id (filter P (Orders d)))" using assms by (rule distinct_map_filter)
  then have "filter (\<lambda>i. List.member (map ord_id (filter P (Orders d))) (oi_orderId i)) (OrderItem d) =
      map fst (join (\<lambda>i r. oi_orderId i = ord_id r) (OrderItem d) (filter P (Orders d)))"
    by (subst join_on_key) simp_all
  then show ?thesis by (simp add: items_quantity_def)
qed

text \<open>
  A picking list names every product once, and its quantities add up to the goods in the summary of the day
  for a user without a warehouse of their own, and to the goods of the orders of that warehouse for any other.
\<close>

theorem picking_list_totals:
  assumes "distinct (map ord_id (Orders d))" and "distinct (map prod_id (Product d))"
    and "list_all (\<lambda>i. List.member (map prod_id (Product d)) (oi_productId i)) (OrderItem d)"
    and "smallint t = Some n" and "t \<noteq> []"
  shows "\<exists>lines s. picking_list tz smallint collate (Some column) (Some t) user d = reply_ok 200 lines \<and>
    day_summary tz smallint (Some t) d = reply_ok 200 s \<and> distinct (map pk_product_id lines) \<and>
    sum_of pk_total_quantity lines = items_quantity d (filter (relevant_order tz (Some n) user d) (Orders d)) \<and>
    (restricted_to user = None \<longrightarrow> sum_of pk_total_quantity lines = dt_item_count s)"
proof -
  let ?rows = "picked_items tz (Some n) user d"
  let ?lines = "map (\<lambda>(p, rows). picking_line_of column p rows) (group_by snd ?rows)"
  let ?os = "filter (relevant_order tz (Some n) user d) (Orders d)"
  have t: "non_empty (Some t) = Some t" using assms(5) by (cases t) (simp_all add: non_empty_def)
  then have "picking_list tz smallint collate (Some column) (Some t) user d =
      reply_ok 200 (sort_key (\<lambda>l. collate (pk_product_name l)) ?lines)"
    by (simp add: picking_list_def read_param_def assms(4) catch_reply_def reply_ok_def)
  moreover have "day_summary tz smallint (Some t) d = reply_ok 200 \<lparr>dt_client_count = length (clients_on_day (Some n) d),
      dt_order_count = length (filter (relevant_order tz (Some n) None d) (Orders d)),
      dt_item_count = items_quantity d (filter (relevant_order tz (Some n) None d) (Orders d))\<rparr>"
    by (simp add: day_summary_def read_param_def assms(4) catch_reply_def reply_ok_def relevant_order_def[abs_def]
        restricted_to_def Let_def conj_commute)
  moreover have "sum_of pk_total_quantity ?lines = items_quantity d ?os"
  proof -
    have "(\<lambda>(p, rows). pk_total_quantity (picking_line_of column p rows)) = (\<lambda>(p, rows). sum_of (\<lambda>x. oi_quantity (fst x)) rows)"
      by (auto simp: picking_line_of_def)
    then have "sum_of pk_total_quantity ?lines = sum_of (\<lambda>x. oi_quantity (fst x)) ?rows"
      using sum_of_group_by[of "\<lambda>x. oi_quantity (fst x)" snd ?rows] by (simp add: case_prod_unfold fun_eq_iff)
    also have "\<dots> = sum_of oi_quantity (map fst ?rows)" by simp
    also have "map fst ?rows = filter (\<lambda>i. List.member (map ord_id ?os) (oi_orderId i)) (OrderItem d)"
      unfolding picked_items_def by (subst join_on_key[OF assms(2)])
        (use assms(3) in \<open>auto simp: list_all_iff intro!: filter_cong\<close>)
    finally show ?thesis by (simp only: items_of_orders[OF assms(1)])
  qed
  moreover have "distinct (map pk_product_id ?lines)"
  proof -
    have "map pk_product_id ?lines = map prod_id (map fst (group_by snd ?rows))"
      by (simp add: picking_line_of_def case_prod_beta)
    moreover have "set (map fst (group_by snd ?rows)) \<subseteq> set (Product d)"
      by (force simp: group_by_def picked_items_def set_join)
    then have "inj_on prod_id (set (map fst (group_by snd ?rows)))" using assms(2)
      by (auto simp: distinct_map intro: inj_on_subset)
    ultimately show ?thesis using distinct_group_by[of snd ?rows] by (simp only: distinct_map[of prod_id])
  qed
  moreover have "relevant_order tz (Some n) user d = relevant_order tz (Some n) None d" if "restricted_to user = None"
    by (rule ext) (use that in \<open>simp add: relevant_order_def restricted_to_def[of None]\<close>)
  ultimately show ?thesis
    by (intro exI[of _ "sort_key (\<lambda>l. collate (pk_product_name l)) ?lines"] exI conjI) (auto simp: distinct_map_sort_key)
qed

theorem picking_list_totals_witness:
  "\<exists>lines. picking_list 0 day_text length (Some (\<lambda>_. None)) (Some ''2'') None week_db = reply_ok 200 lines \<and>
     sum_of pk_total_quantity lines = 15"
proof -
  have "distinct (map ord_id (Orders week_db))" "distinct (map prod_id (Product week_db))"
    "list_all (\<lambda>i. List.member (map prod_id (Product week_db)) (oi_productId i)) (OrderItem week_db)"
    by (simp_all add: week_db_def week_order_def week_item_def)
  from picking_list_totals[OF this, of day_text "''2''" 2 0 length "\<lambda>_. None" None]
  show ?thesis by (auto simp: week_db_summary day_text_def reply_ok_def restricted_to_def)
qed

text \<open>
  Deleting an order softly changes nothing in the plan of the week, in the summary of a day and in the picking
  list: the goods of a deleted order are still collected.
\<close>

theorem deleted_orders_still_collected:
  "picking_list tz smallint collate sku t user (snd (soft_delete_order i d)) = picking_list tz smallint collate sku t user d \<and>
   day_summary tz smallint t (snd (soft_delete_order i d)) = day_summary tz smallint t d \<and>
   list_schedule tz collate (snd (soft_delete_order i d)) = list_schedule tz collate d"
proof -
  let ?f = "\<lambda>r. r\<lparr>ord_isDeleted := True, ord_updatedAt := clock d\<rparr>" and ?d = "snd (soft_delete_order i d)"
  have "\<exists>P. ?d = d\<lparr>Orders := map_where P ?f (Orders d)\<rparr>"
  proof (cases "find_row ord_id i (Orders d)")
    case None
    then show ?thesis by (intro exI[of _ "\<lambda>_. False"]) (simp add: soft_delete_order_def map_where_id)
  next
    case (Some r)
    then show ?thesis by (intro exI[of _ "\<lambda>r. ord_id r = i"]) (simp add: soft_delete_order_def)
  qed
  then obtain P where d: "?d = d\<lparr>Orders := map_where P ?f (Orders d)\<rparr>" by blast
  have keep: "map ord_id (filter Q (map_where P ?f os)) = map ord_id (filter Q os)"
    if "\<And>r. Q (?f r) = Q r" for Q and os :: "order list"
    using that by (induction os) auto
  have same: "items_quantity ?d os' = items_quantity d os \<and> length os' = length os"
    if "map ord_id os' = map ord_id os" for os os'
    using that map_eq_imp_length_eq[OF that] by (simp add: items_quantity_by_order order_quantity_def d)
  have week: "current_week tz ?d = current_week tz d" by (rule ext) (simp add: current_week_def d)
  have day: "ordered_on_day tz n ?d = ordered_on_day tz n d" for n by (rule ext) (simp add: ordered_on_day_def week)
  have clients: "clients_on_day n ?d = clients_on_day n d" for n by (simp add: clients_on_day_def d)
  have client: "scheduled_client n ?d = scheduled_client n d" for n by (rule ext) (simp add: scheduled_client_def clients)
  have relevant: "relevant_order tz n user ?d = relevant_order tz n user d" for n
    by (rule ext) (simp add: relevant_order_def day client)
  have keeps: "current_week tz d (?f r) = current_week tz d r" "order_dow tz (?f r) = order_dow tz r"
    "scheduled_client n d (?f r) = scheduled_client n d r" "ordered_on_day tz n d (?f r) = ordered_on_day tz n d r"
    "relevant_order tz n user d (?f r) = relevant_order tz n user d r" for n r
    by (simp_all add: current_week_def order_dow_def scheduled_client_def ordered_on_day_def relevant_order_def split: option.split)
  have "map ord_id (client_orders tz ?d s) = map ord_id (client_orders tz d s)" for s
    unfolding client_orders_def filter_filter week unfolding d by (simp add: keep keeps)
  note plan = same[OF this]
  have "map ord_id (filter (scheduled_client n d) (filter (ordered_on_day tz n d) (Orders ?d))) =
      map ord_id (filter (scheduled_client n d) (filter (ordered_on_day tz n d) (Orders d)))" for n
    unfolding filter_filter d by (simp add: keep keeps)
  note summary = same[OF this, unfolded filter_filter]
  have "map ord_id (filter (relevant_order tz n user d) (Orders ?d)) = map ord_id (filter (relevant_order tz n user d) (Orders d))" for n
    unfolding d by (simp add: keep keeps)
  then have picked: "picked_items tz n user ?d = picked_items tz n user d" for n
    by (simp add: picked_items_def relevant) (simp add: d)
  have "plan_row tz ?d = plan_row tz d" by (rule ext) (simp add: plan_row_def plan split: prod.split)
  moreover have "CollectionSchedule ?d = CollectionSchedule d" "Counterparty ?d = Counterparty d" by (simp_all add: d)
  ultimately show ?thesis
    unfolding picking_list_def picked by (simp add: day_summary_def summary day client clients list_schedule_def Let_def)
qed


section \<open>Requests\<close>

datatype schedule_request =
    PlanDay "string option" "ident option"
  | SetStatus ident "string option"
  | MoveDay ident "string option"
  | Unplan ident

fun handle_schedule :: "(string \<Rightarrow> int option) \<Rightarrow> schedule_request \<Rightarrow> db \<Rightarrow> db" where
  "handle_schedule smallint (PlanDay day client) d = snd (create_schedule_item smallint day client d)"
| "handle_schedule smallint (SetStatus i status) d = snd (set_schedule_status i status d)"
| "handle_schedule smallint (MoveDay i day) d = snd (move_schedule_item smallint i day d)"
| "handle_schedule smallint (Unplan i) d = snd (delete_schedule_item i d)"

lemma patch_schedule_keeps:
  assumes "schedule_ok d" and "\<And>r. List.member schedule_statuses (cs_status r) \<Longrightarrow> List.member schedule_statuses (cs_status (f r))"
  shows "schedule_ok (snd (patch_schedule i f failure d))"
  using assms by (auto simp: patch_schedule_def upd_CollectionSchedule_def schedule_ok_def list_all_iff
      update_table_Inr_iff set_map_where all_ok_def schedule_row_ok_def split: sum.split option.split)

text \<open>
  Whatever requests arrive, every planned day is one of the seven of the week or none, its status one of the
  three, and its client a stored one.
\<close>

theorem schedule_stays_valid:
  assumes "schedule_ok d"
  shows "schedule_ok (fold (handle_schedule smallint) qs d)"
  using assms
proof (induction qs arbitrary: d)
  case (Cons q qs)
  have "schedule_ok (handle_schedule smallint q d)"
  proof (cases q)
    case (PlanDay day client)
    then show ?thesis using Cons.prems
      by (auto simp: create_schedule_item_def transaction_def ins_CollectionSchedule_def schedule_ok_def all_ok_def
          schedule_row_ok_def schedule_statuses_def Let_def split: sum.split)
  next
    case (SetStatus i status)
    then show ?thesis using Cons.prems
      by (auto simp: set_schedule_status_def split: option.split intro!: patch_schedule_keeps)
  next
    case (MoveDay i day)
    then show ?thesis using Cons.prems
      by (auto simp: move_schedule_item_def split: sum.split intro!: patch_schedule_keeps)
  next
    case (Unplan i)
    then show ?thesis using Cons.prems
      by (auto simp: delete_schedule_item_def schedule_ok_def list_all_iff schedule_row_ok_def)
  qed
  with Cons.IH show ?case by simp
qed simp

theorem schedule_stays_valid_witness:
  "schedule_ok (fold (handle_schedule day_text) [PlanDay (Some ''8'') (Some 3), MoveDay 50 (Some ''9''), SetStatus 51 (Some ''lost'')] week_db)"
  by (rule schedule_stays_valid) (simp add: schedule_ok_def week_db_def all_ok_def schedule_row_ok_def schedule_statuses_def)


end
