(* ===== verification/Maintenance.thy ===== *)
theory Maintenance
  imports Directory StockLedger BuyerReturnService
begin

text \<open>
  What the scripts that run beside the requests do to the rows: the migrations of the start-up in \<open>src/index.ts\<close>
  that write data, the seeding of \<open>src/migrate_v7.ts\<close>, the numbering of \<open>migrate_v9.ts\<close>, the first journal rows of
  \<open>src/scripts/seed_price_journal.ts\<close>, and the two repair scripts \<open>force_unpost.js\<close> and \<open>force_zero_stock.js\<close>. The
  statements that change the schema are in Migrations.
\<close>

section \<open>The start of the server\<close>

text \<open>\<open>UPDATE ... FROM\<close> takes one of the rows that match; here the first.\<close>

definition return_of_batch :: "db \<Rightarrow> product_batch \<Rightarrow> ident option" where
  "return_of_batch d b = map_option (\<lambda>x. bri_buyerReturnId (snd x))
     (find_row (\<lambda>x. brib_productBatchId (fst x)) (pb_id b)
       (join (\<lambda>l i. bri_id i = brib_buyerReturnItemId l) (BuyerReturnItemBatch d) (BuyerReturnItem d)))"

definition backfill_return_batches :: "db \<Rightarrow> db" where
  "backfill_return_batches d = d\<lparr>ProductBatch :=
     map_where (\<lambda>b. pb_buyerReturnId b = None) (\<lambda>b. b\<lparr>pb_buyerReturnId := return_of_batch d b\<rparr>) (ProductBatch d)\<rparr>"

text \<open>\<open>BuyerReturn.warehouseId\<close> is NOT NULL, so its UPDATE finds no row.\<close>

definition backfill_warehouse :: "db \<Rightarrow> db" where
  "backfill_warehouse d = (case first_warehouse d of
     None \<Rightarrow> d
   | Some w \<Rightarrow> d\<lparr>
       Orders := map_where (\<lambda>r. ord_warehouseId r = None) (\<lambda>r. r\<lparr>ord_warehouseId := Some w\<rparr>) (Orders d),
       GoodsReceipt := map_where (\<lambda>r. gr_warehouseId r = None) (\<lambda>r. r\<lparr>gr_warehouseId := Some w\<rparr>) (GoodsReceipt d),
       SupplierReturn := map_where (\<lambda>r. sr_warehouseId r = None) (\<lambda>r. r\<lparr>sr_warehouseId := Some w\<rparr>) (SupplierReturn d),
       Realization := map_where (\<lambda>r. rl_warehouseId r = None) (\<lambda>r. r\<lparr>rl_warehouseId := Some w\<rparr>) (Realization d)\<rparr>)"

definition default_permissions :: json_text where
  \<open>default_permissions =
     ''{"priceEditor": {}, "reports": {}, "finance": {}, "documents": {"orders": true, "realizations": true}}''\<close>

definition grant_permissions :: "db \<Rightarrow> db" where
  "grant_permissions d = d\<lparr>Users := map_where (\<lambda>u. usr_permissions u = None \<or> usr_permissions u = Some ''{}'')
     (\<lambda>u. u\<lparr>usr_permissions := Some default_permissions\<rparr>) (Users d)\<rparr>"

definition ensure_lock :: "db \<Rightarrow> db" where
  "ensure_lock d = (case DocumentLock d of
     None \<Rightarrow> d\<lparr>DocumentLock := Some \<lparr>dl_isLocked = False, dl_lockedBy = None, dl_lockedAt = None, dl_reason = None\<rparr>\<rparr>
   | Some _ \<Rightarrow> d)"

definition start_migrations :: "db \<Rightarrow> db" where
  "start_migrations d = grant_permissions (backfill_warehouse (backfill_return_batches (ensure_lock d)))"

section \<open>What the start-up leaves\<close>

lemma map_where_idem:
  assumes "\<And>r. P r \<Longrightarrow> P (f r) \<Longrightarrow> f (f r) = f r"
  shows "map_where P f (map_where P f rows) = map_where P f rows"
  using assms by (induction rows) (auto simp: map_where_def)

text \<open>
  Starting the server again changes nothing: the migrations that run at every start are idempotent together.
\<close>

theorem restart_changes_nothing: "start_migrations (start_migrations d) = start_migrations d"
proof -
  have lock: "ensure_lock (ensure_lock d) = ensure_lock d" for d by (simp add: ensure_lock_def split: option.split)
  let ?b = backfill_return_batches and ?w = backfill_warehouse and ?g = grant_permissions and ?l = ensure_lock
  have "?b (?b d) = ?b d" for d
    by (simp add: backfill_return_batches_def return_of_batch_def map_where_idem)
  moreover have "?w (?w d) = ?w d" for d
    by (simp add: backfill_warehouse_def first_warehouse_def map_where_idem split: option.split)
  moreover have "?g (?g d) = ?g d" for d by (simp add: grant_permissions_def map_where_idem default_permissions_def)
  moreover have "?l (?g d) = ?g (?l d)" "?l (?w d) = ?w (?l d)" "?l (?b d) = ?b (?l d)"
    "?b (?g d) = ?g (?b d)" "?b (?w d) = ?w (?b d)" "?w (?g d) = ?g (?w d)" for d
    by (simp_all add: ensure_lock_def grant_permissions_def backfill_warehouse_def backfill_return_batches_def
        return_of_batch_def first_warehouse_def split: option.split)
  ultimately show ?thesis unfolding start_migrations_def using lock by metis
qed

text \<open>The rows a start-up works on: references are stored rows, and a batch has at most one origin.\<close>

definition origins_ok :: "db \<Rightarrow> bool" where
  "origins_ok d \<longleftrightarrow> list_all (\<lambda>i. bri_buyerReturnId i \<in> br_id ` set (BuyerReturn d)) (BuyerReturnItem d) \<and>
     list_all (\<lambda>b. case (pb_goodsReceiptId b, pb_buyerReturnId b) of
         (None, None) \<Rightarrow> True | (Some g, None) \<Rightarrow> g \<in> gr_id ` set (GoodsReceipt d)
       | (None, Some i) \<Rightarrow> i \<in> br_id ` set (BuyerReturn d) | (Some _, Some _) \<Rightarrow> False) (ProductBatch d)"

definition started_batch :: "db \<Rightarrow> product_batch \<Rightarrow> product_batch" where
  "started_batch d b = (if pb_buyerReturnId b = None then b\<lparr>pb_buyerReturnId := return_of_batch d b\<rparr> else b)"

lemma started_batch_simps [simp]:
  "pb_id (started_batch d b) = pb_id b" "pb_productId (started_batch d b) = pb_productId b"
  "pb_quantityTotal (started_batch d b) = pb_quantityTotal b" "pb_quantityLeft (started_batch d b) = pb_quantityLeft b"
  "pb_enterPrice (started_batch d b) = pb_enterPrice b" "pb_goodsReceiptId (started_batch d b) = pb_goodsReceiptId b"
  "pb_buyerReturnId (started_batch d b) = (if pb_buyerReturnId b = None then return_of_batch d b else pb_buyerReturnId b)"
  by (simp_all add: started_batch_def)

lemma start_tables [simp]:
  "ProductBatch (start_migrations d) = map (started_batch d) (ProductBatch d)"
  "BuyerReturn (start_migrations d) = BuyerReturn d" "RealizationItem (start_migrations d) = RealizationItem d"
  "SupplierReturnItem (start_migrations d) = SupplierReturnItem d"
  "RealizationItemBatch (start_migrations d) = RealizationItemBatch d"
  "SupplierReturnItemBatch (start_migrations d) = SupplierReturnItemBatch d"
  "Warehouse (start_migrations d) = Warehouse d"
  "Users (start_migrations d) = map_where (\<lambda>u. usr_permissions u = None \<or> usr_permissions u = Some ''{}'')
     (\<lambda>u. u\<lparr>usr_permissions := Some default_permissions\<rparr>) (Users d)"
  by (simp_all add: start_migrations_def grant_permissions_def backfill_warehouse_def backfill_return_batches_def
      ensure_lock_def map_where_def started_batch_def return_of_batch_def split: option.split)

lemma started_receipts:
  assumes "first_warehouse d = Some w"
  shows "GoodsReceipt (start_migrations d) =
    map_where (\<lambda>r. gr_warehouseId r = None) (\<lambda>r. r\<lparr>gr_warehouseId := Some w\<rparr>) (GoodsReceipt d)"
proof -
  have "first_warehouse (backfill_return_batches (ensure_lock d)) = Some w"
    using assms by (simp add: first_warehouse_def backfill_return_batches_def ensure_lock_def split: option.split)
  then show ?thesis
    by (simp add: start_migrations_def grant_permissions_def backfill_warehouse_def)
      (simp add: backfill_return_batches_def ensure_lock_def split: option.split)
qed

lemma return_of_batch_stored:
  "origins_ok d \<Longrightarrow> return_of_batch d b = Some i \<Longrightarrow> i \<in> br_id ` set (BuyerReturn d)"
  by (auto simp: return_of_batch_def origins_ok_def list_all_iff set_join dest!: find_row_Some)

lemma warehouse_of_receipt:
  assumes "first_warehouse d = Some w" and "g \<in> gr_id ` set (GoodsReceipt d)"
  obtains r where "find_row gr_id g (GoodsReceipt d) = Some r"
    and "Option.bind (find_row gr_id g (GoodsReceipt (start_migrations d))) gr_warehouseId =
      Some (coalesce (gr_warehouseId r) w)"
proof -
  obtain r where r: "find_row gr_id g (GoodsReceipt d) = Some r"
    using assms(2) by (metis find_row_None_iff option.exhaust)
  then have "Option.bind (find_row gr_id g (GoodsReceipt (start_migrations d))) gr_warehouseId =
      Some (coalesce (gr_warehouseId r) w)"
    by (simp add: started_receipts[OF assms(1)] find_row_map_where coalesce_def split: option.split)
  with r show ?thesis by (rule that)
qed

lemma started_warehouse:
  assumes "first_warehouse d = Some w" and "origins_ok d" and "b \<in> set (ProductBatch d)"
  shows "(pb_goodsReceiptId b \<noteq> None \<or> pb_buyerReturnId b \<noteq> None \<or> return_of_batch d b \<noteq> None) =
      (batch_warehouse (start_migrations d) (started_batch d b) \<noteq> None)"
    and "batch_warehouse d b = Some v \<Longrightarrow> batch_warehouse (start_migrations d) (started_batch d b) = Some v"
proof -
  have origin: "case (pb_goodsReceiptId b, pb_buyerReturnId b) of
         (None, None) \<Rightarrow> True | (Some g, None) \<Rightarrow> g \<in> gr_id ` set (GoodsReceipt d)
       | (None, Some i) \<Rightarrow> i \<in> br_id ` set (BuyerReturn d) | (Some _, Some _) \<Rightarrow> False"
    using assms(2,3) by (simp add: origins_ok_def list_all_iff)
  have returned: "\<exists>r. find_row br_id i (BuyerReturn d) = Some r" if "i \<in> br_id ` set (BuyerReturn d)" for i
    using that by (metis find_row_None_iff option.exhaust)
  show "(pb_goodsReceiptId b \<noteq> None \<or> pb_buyerReturnId b \<noteq> None \<or> return_of_batch d b \<noteq> None) =
      (batch_warehouse (start_migrations d) (started_batch d b) \<noteq> None)"
  proof (cases "pb_goodsReceiptId b")
    case None
    define k where "k = (if pb_buyerReturnId b = None then return_of_batch d b else pb_buyerReturnId b)"
    have eq: "batch_warehouse (start_migrations d) (started_batch d b) =
        Option.bind k (\<lambda>i. map_option br_warehouseId (find_row br_id i (BuyerReturn d)))"
      using None by (simp add: batch_warehouse_def k_def)
    have found: "\<exists>r. find_row br_id i (BuyerReturn d) = Some r" if "k = Some i" for i
    proof (rule returned)
      show "i \<in> br_id ` set (BuyerReturn d)"
        using that origin None return_of_batch_stored[OF assms(2)] by (simp add: k_def split: option.splits if_splits)
    qed
    have "(batch_warehouse (start_migrations d) (started_batch d b) \<noteq> None) = (k \<noteq> None)"
    proof (cases k)
      case (Some i)
      obtain r where "find_row br_id i (BuyerReturn d) = Some r" using found[OF Some] by blast
      with Some show ?thesis unfolding eq by simp
    qed (simp add: eq)
    moreover have "(k \<noteq> None) = (pb_buyerReturnId b \<noteq> None \<or> return_of_batch d b \<noteq> None)"
      unfolding k_def by (cases "pb_buyerReturnId b") simp_all
    ultimately show ?thesis using None by simp
  next
    case (Some g)
    with origin have "g \<in> gr_id ` set (GoodsReceipt d)" by (simp split: option.splits)
    then obtain r where "find_row gr_id g (GoodsReceipt d) = Some r"
      "Option.bind (find_row gr_id g (GoodsReceipt (start_migrations d))) gr_warehouseId = Some (coalesce (gr_warehouseId r) w)"
      by (rule warehouse_of_receipt[OF assms(1)])
    with Some show ?thesis by (simp add: batch_warehouse_def)
  qed
  show "batch_warehouse (start_migrations d) (started_batch d b) = Some v" if v: "batch_warehouse d b = Some v"
  proof (cases "pb_goodsReceiptId b")
    case None
    with v show ?thesis by (cases "pb_buyerReturnId b") (simp_all add: batch_warehouse_def)
  next
    case (Some g)
    with origin have g: "g \<in> gr_id ` set (GoodsReceipt d)" and none: "pb_buyerReturnId b = None" by (simp_all split: option.splits)
    obtain r where r: "find_row gr_id g (GoodsReceipt d) = Some r"
      "Option.bind (find_row gr_id g (GoodsReceipt (start_migrations d))) gr_warehouseId = Some (coalesce (gr_warehouseId r) w)"
      by (rule warehouse_of_receipt[OF assms(1) g])
    with v Some none have "gr_warehouseId r = Some v" by (simp add: batch_warehouse_def split: option.splits)
    with r Some show ?thesis by (simp add: batch_warehouse_def coalesce_def)
  qed
qed

lemma first_warehouse_exists: "(first_warehouse d = None) = (Warehouse d = [])"
proof -
  have "sort_key wh_createdAt (Warehouse d) = [] \<longleftrightarrow> Warehouse d = []" by (metis length_0_conv length_sort)
  then show ?thesis by (cases "sort_key wh_createdAt (Warehouse d)") (simp_all add: first_warehouse_def)
qed

lemma member_available:
  "b \<in> set (available_batches d p (Some w)) \<longleftrightarrow>
     b \<in> set (ProductBatch d) \<and> pb_productId b = p \<and> 0 < pb_quantityLeft b \<and> batch_warehouse d b = Some w"
  by (auto simp: available_batches_def)

text \<open>
  C40: once a warehouse exists, the start-up gives a warehouse to all stock that came with a document, and to no other.
  A batch with something left that belongs to a receipt or to a return, also one the start has found through the
  links of the return, can be sold from exactly one warehouse; a batch that belongs to neither, such as the stock that
  arrives through \<open>/inventory/arrival\<close>, can still be sold from none. What a warehouse could sell before it can sell
  after. The receipts and returns that the batches name exist (\<open>origins_ok\<close>).
\<close>

theorem start_places_all_stock:
  assumes "Warehouse d \<noteq> []" and "origins_ok d"
  shows "(\<forall>b \<in> set (ProductBatch (start_migrations d)). 0 < pb_quantityLeft b \<longrightarrow>
      (if pb_goodsReceiptId b \<noteq> None \<or> pb_buyerReturnId b \<noteq> None
       then \<exists>!w. b \<in> set (available_batches (start_migrations d) (pb_productId b) (Some w))
       else \<forall>p w. b \<notin> set (available_batches (start_migrations d) p (Some w)))) \<and>
    pb_id ` set (available_batches d p (Some v)) \<subseteq> pb_id ` set (available_batches (start_migrations d) p (Some v))"
proof (intro conjI ballI impI subsetI)
  obtain w where w: "first_warehouse d = Some w" using assms(1) first_warehouse_exists by (metis option.exhaust)
  fix c assume c: "c \<in> set (ProductBatch (start_migrations d))" and left: "0 < pb_quantityLeft c"
  have one: "\<exists>!w. c \<in> set (available_batches (start_migrations d) (pb_productId c) (Some w))"
    if origin: "pb_goodsReceiptId c \<noteq> None \<or> pb_buyerReturnId c \<noteq> None"
  proof -
    from c obtain b where b: "b \<in> set (ProductBatch d)" "c = started_batch d b" by auto
    from origin have "pb_goodsReceiptId b \<noteq> None \<or> pb_buyerReturnId b \<noteq> None \<or> return_of_batch d b \<noteq> None"
      by (auto simp: b(2) split: if_splits)
    then have "batch_warehouse (start_migrations d) c \<noteq> None"
      using started_warehouse(1)[OF w assms(2) b(1)] by (simp add: b(2))
    then obtain u where "batch_warehouse (start_migrations d) c = Some u" by auto
    with c left show ?thesis unfolding member_available by auto
  qed
  have "batch_warehouse (start_migrations d) c = None" if "\<not> (pb_goodsReceiptId c \<noteq> None \<or> pb_buyerReturnId c \<noteq> None)"
    using that by (simp add: batch_warehouse_def)
  with one show "if pb_goodsReceiptId c \<noteq> None \<or> pb_buyerReturnId c \<noteq> None
      then \<exists>!w. c \<in> set (available_batches (start_migrations d) (pb_productId c) (Some w))
      else \<forall>p w. c \<notin> set (available_batches (start_migrations d) p (Some w))"
    by (simp add: member_available)
next
  obtain w where w: "first_warehouse d = Some w" using assms(1) first_warehouse_exists by (metis option.exhaust)
  fix i assume "i \<in> pb_id ` set (available_batches d p (Some v))"
  then obtain b where b: "i = pb_id b" "b \<in> set (ProductBatch d)" "pb_productId b = p" "0 < pb_quantityLeft b"
    "batch_warehouse d b = Some v" by (auto simp: member_available)
  have "started_batch d b \<in> set (available_batches (start_migrations d) p (Some v))"
    unfolding member_available using b started_warehouse(2)[OF w assms(2) b(2,5)] by simp
  then have "pb_id (started_batch d b) \<in> pb_id ` set (available_batches (start_migrations d) p (Some v))" by (rule imageI)
  then show "i \<in> pb_id ` set (available_batches (start_migrations d) p (Some v))" by (simp add: b(1))
qed

definition old_db :: db where
  "old_db = empty_db\<lparr>Warehouse := [named_warehouse 7 ''main''],
     GoodsReceipt := [\<lparr>gr_id = 2, gr_number = ''R1'', gr_docNumber = None, gr_date = 10, gr_warehouseId = None,
        gr_providerId = None, gr_status = POSTED, gr_comment = None, gr_createdBy = None, gr_paidAmount = 0,
        gr_isDeleted = False, gr_createdAt = 10, gr_updatedAt = 10\<rparr>],
     ProductBatch := [\<lparr>pb_id = 1, pb_productId = 5, pb_quantityTotal = 3, pb_quantityLeft = 3, pb_enterPrice = 2,
        pb_goodsReceiptId = Some 2, pb_buyerReturnId = None, pb_createdAt = 10, pb_updatedAt = 10\<rparr>]\<rparr>"

theorem start_places_all_stock_witness:
  "available_batches old_db 5 (Some 7) = [] \<and>
   (\<exists>!w. hd (ProductBatch old_db) \<in> set (available_batches (start_migrations old_db) 5 (Some w)))"
proof -
  have "Warehouse old_db \<noteq> []" "origins_ok old_db" by (simp_all add: old_db_def origins_ok_def empty_db_def)
  note starts = conjunct1[OF start_places_all_stock[OF this]]
  have "ProductBatch (start_migrations old_db) = ProductBatch old_db"
    by (simp add: started_batch_def return_of_batch_def old_db_def empty_db_def)
  then have "hd (ProductBatch old_db) \<in> set (ProductBatch (start_migrations old_db))" by (simp add: old_db_def)
  from bspec[OF starts this] have "\<exists>!w. hd (ProductBatch old_db) \<in> set (available_batches (start_migrations old_db) 5 (Some w))"
    by (simp add: old_db_def)
  moreover have "available_batches old_db 5 (Some 7) = []"
    by (simp add: old_db_def empty_db_def available_batches_def batch_warehouse_def)
  ultimately show ?thesis by blast
qed

text \<open>The start-up changes no quantity and no link.\<close>

theorem start_keeps_books:
  assumes "books d"
  shows "books (start_migrations d)"
proof -
  have links: "batch_links (start_migrations d) = batch_links d" by (simp add: batch_links_def)
  have "map pb_id (map (started_batch d) (ProductBatch d)) = map pb_id (ProductBatch d)" by simp
  then have "stock_ready (start_migrations d)"
    using assms by (simp add: books_def stock_ready_def batches_typed_def batch_typed_def batch_numbers_ok_def o_def)
  with assms links show ?thesis
    by (simp add: books_def items_ready_def booked_def list_all_iff)
qed

text \<open>
  Permissions cannot be taken away for good: after an administrator sets the permissions of a user to the empty
  object, the next start of the server gives the user the default permissions again.
\<close>

theorem start_returns_permissions:
  assumes "fst (fst (update_user hash i b d)) = 200" and "ub_permissions b = Some (Some ''{}'')"
  shows "map_option usr_permissions (find_row usr_id i (Users (start_migrations (snd (update_user hash i b d))))) =
    Some (Some default_permissions)"
proof -
  from assms(1) obtain email role u where u: "find_row usr_id i (Users d) = Some u"
    and users: "Users (snd (update_user hash i b d)) = map_where (\<lambda>v. usr_id v = i) (change_user hash b email role) (Users d)"
    by (auto simp: update_user_def reply_error_def reply_ok_def split: option.splits if_splits)
  have id: "usr_id (change_user hash b email role v) = usr_id v"
    and none: "usr_permissions (change_user hash b email role v) = Some ''{}''" for v
    using assms(2) by (simp_all add: change_user_def coalesce_def)
  have "find_row usr_id i (Users (snd (update_user hash i b d))) = Some (change_user hash b email role u)"
    using u find_row_Some[OF u] by (simp add: users find_row_map_where id)
  then show ?thesis by (simp add: find_row_map_where none)
qed

theorem start_returns_permissions_witness:
  "map_option usr_permissions (find_row usr_id 3 (Users (start_migrations (snd (update_user plain_hash 3
     (new_manager\<lparr>ub_permissions := Some (Some ''{}'')\<rparr>) staff_db))))) = Some (Some default_permissions)"
proof (rule start_returns_permissions)
  show "fst (fst (update_user plain_hash 3 (new_manager\<lparr>ub_permissions := Some (Some ''{}'')\<rparr>) staff_db)) = 200"
    by (simp add: update_user_def new_manager_def non_empty_def staff_db_def admin_def manager_def reply_ok_def)
qed simp

section \<open>Default rows\<close>

text \<open>The names are UTF-8. \<open>salesTypes\<close> is a later column with this default.\<close>

definition default_organization_name :: string where
  "default_organization_name = map char_of [208, 156, 209, 150, 208, 187, 208, 154, 209, 128, 208, 176, 208, 185 :: nat]"

definition default_warehouse_name :: string where
  "default_warehouse_name = map char_of [208, 158, 209, 129, 208, 189, 208, 190, 208, 178, 208, 189, 208, 184, 208, 185, 32, 209, 129,
     208, 186, 208, 187, 208, 176, 208, 180 :: nat]"

text \<open>The organization the warehouse belongs to: the first stored one, or a new one.\<close>

definition ensure_organization :: "db \<Rightarrow> ident \<times> db" where
  "ensure_organization d = (case Organization d of
     r # _ \<Rightarrow> (org_id r, d)
   | [] \<Rightarrow> (next_uuid d, d\<lparr>next_uuid := Suc (next_uuid d), Organization :=
        [\<lparr>org_id = next_uuid d, org_name = default_organization_name, org_fullDetails = None,
          org_salesTypes = Some default_sales_types, org_createdAt = clock d, org_updatedAt = clock d\<rparr>]\<rparr>))"

definition seed_organization :: "db \<Rightarrow> db" where
  "seed_organization d = (case ensure_organization d of (i, d1) \<Rightarrow>
     if list_ex (\<lambda>w. wh_organizationId w = Some i) (Warehouse d1) then d1
     else d1\<lparr>next_uuid := Suc (next_uuid d1), Warehouse := Warehouse d1 @
        [\<lparr>wh_id = next_uuid d1, wh_name = default_warehouse_name, wh_address = None, wh_organizationId = Some i,
          wh_isDeleted = False, wh_createdAt = clock d1, wh_updatedAt = clock d1\<rparr>]\<rparr>)"

definition default_categories :: "(string \<times> string) list" where
  "default_categories =
    [(map char_of [208, 158, 208, 191, 208, 187, 208, 176, 209, 130, 208, 176, 32, 208, 178, 209, 150, 208,
        180, 32, 208, 186, 208, 187, 209, 150, 209, 148, 208, 189, 209, 130, 208, 176 :: nat], ''INCOME''),
     (map char_of [208, 158, 208, 191, 208, 187, 208, 176, 209, 130, 208, 176, 32, 208, 191, 208, 190, 209,
        129, 209, 130, 208, 176, 209, 135, 208, 176, 208, 187, 209, 140, 208, 189, 208, 184, 208, 186, 209, 131
        :: nat], ''OUTCOME''),
     (map char_of [208, 146, 208, 184, 209, 130, 209, 128, 208, 176, 209, 130, 208, 184, 32, 208, 177, 208,
        176, 208, 189, 208, 186, 209, 131 :: nat], ''OUTCOME''),
     (map char_of [208, 158, 209, 128, 208, 181, 208, 189, 208, 180, 208, 176 :: nat], ''OUTCOME''),
     (map char_of [208, 151, 208, 176, 209, 128, 208, 191, 208, 187, 208, 176, 209, 130, 208, 176 :: nat], ''OUTCOME''),
     (map char_of [208, 134, 208, 189, 209, 136, 209, 150, 32, 208, 180, 208, 190, 209, 133, 208, 190, 208,
        180, 208, 184 :: nat], ''INCOME''),
     (map char_of [208, 162, 209, 128, 208, 176, 208, 189, 209, 129, 208, 191, 208, 190, 209, 128, 209, 130,
        208, 189, 209, 150, 32, 208, 178, 208, 184, 209, 130, 209, 128, 208, 176, 209, 130, 208, 184 :: nat], ''OUTCOME'')]"

text \<open>Rows are added only to an empty table; each takes a fresh key.\<close>

definition seed_categories :: "db \<Rightarrow> db" where
  "seed_categories d = (if TransactionCategory d = []
     then d\<lparr>next_uuid := next_uuid d + length default_categories, TransactionCategory :=
        map (\<lambda>(k, n, t). \<lparr>tc_id = next_uuid d + k, tc_name = n, tc_type = t\<rparr>) (enumerate 0 default_categories)\<rparr>
     else d)"

definition fill_sales_types :: "db \<Rightarrow> db" where
  "fill_sales_types d = d\<lparr>
     Counterparty := map_where (\<lambda>r. cp_defaultSalesType r = None) (\<lambda>r. r\<lparr>cp_defaultSalesType := Some cash_sales_type\<rparr>) (Counterparty d),
     Realization := map_where (\<lambda>r. rl_salesType r = None) (\<lambda>r. r\<lparr>rl_salesType := Some cash_sales_type\<rparr>) (Realization d)\<rparr>"

text \<open>Both rows are what the handlers would add, so their invariant carries over.\<close>

lemma ensure_organization_eq:
  "ensure_organization d = (case Organization d of r # _ \<Rightarrow> (org_id r, d)
     | [] \<Rightarrow> (next_uuid d, snd (create_organization (Some default_organization_name) None None d)))"
proof -
  have "char_count default_organization_name \<le> 255" "default_organization_name \<noteq> []"
    by (simp_all add: char_count_def default_organization_name_def)
  then show ?thesis
    by (simp add: ensure_organization_def create_organization_def Let_def organization_ok_def varchar_ok_def string_or_def
        non_empty_def text_or_null_def coalesce_def transaction_def first_error_def split: list.split)
qed

lemma seed_organization_eq:
  assumes "ensure_organization d = (i, d1)" and "i \<in> org_id ` set (Organization d1)"
  shows "seed_organization d = (if list_ex (\<lambda>w. wh_organizationId w = Some i) (Warehouse d1) then d1
     else snd (create_warehouse (Some default_warehouse_name) None (Some i) d1))"
proof -
  have "char_count default_warehouse_name \<le> 255" by (simp add: char_count_def default_warehouse_name_def)
  with assms show ?thesis
    by (simp add: seed_organization_def create_warehouse_def Let_def warehouse_ok_def varchar_ok_def not_null_def transaction_def first_error_def)
qed

lemma ensure_organization_first:
  "ensure_organization d = (i, d1) \<Longrightarrow> \<exists>r rs. Organization d1 = r # rs \<and> org_id r = i"
  by (cases "Organization d") (auto simp: ensure_organization_def)

lemma seed_organization_keeps:
  assumes "directory_ok d"
  shows "directory_ok (seed_organization d)"
proof -
  obtain i d1 where e: "ensure_organization d = (i, d1)" by fastforce
  have "directory_ok d1"
    using e assms organization_requests_keep(1)[OF assms]
    by (auto simp: ensure_organization_eq split: list.splits)
  moreover have "i \<in> org_id ` set (Organization d1)" using ensure_organization_first[OF e] by auto
  ultimately show ?thesis using warehouse_requests_keep(1) by (simp add: seed_organization_eq[OF e])
qed

lemma seed_organization_stored:
  obtains r rs w where "Organization (seed_organization d) = r # rs" and "w \<in> set (Warehouse (seed_organization d))"
    and "wh_organizationId w = Some (org_id r)"
proof -
  obtain i d1 where e: "ensure_organization d = (i, d1)" by fastforce
  then obtain r rs where r: "Organization d1 = r # rs" "org_id r = i" using ensure_organization_first by blast
  have "Organization (seed_organization d) = r # rs" by (simp add: seed_organization_def e r)
  moreover have "\<exists>w \<in> set (Warehouse (seed_organization d)). wh_organizationId w = Some (org_id r)"
    by (simp add: seed_organization_def e r list_ex_iff)
  ultimately show ?thesis using that by blast
qed

text \<open>
  The seeding of the default organization and warehouse keeps the reference data consistent, changes nothing
  when it runs again, and after it every order the staff create is given a warehouse.
\<close>

theorem seeding_gives_warehouses:
  assumes "directory_ok d"
  shows "directory_ok (seed_organization d) \<and> seed_organization (seed_organization d) = seed_organization d \<and>
    order_warehouse user data (seed_organization d) \<noteq> None"
proof -
  obtain r rs w where stored: "Organization (seed_organization d) = r # rs" "w \<in> set (Warehouse (seed_organization d))"
    "wh_organizationId w = Some (org_id r)" by (rule seed_organization_stored)
  then have "seed_organization (seed_organization d) = seed_organization d"
    by (auto simp: seed_organization_def[of "seed_organization d"] ensure_organization_def[of "seed_organization d"] list_ex_iff)
  moreover have "first_warehouse (seed_organization d) \<noteq> None" using stored(2) by (auto simp: first_warehouse_exists)
  ultimately show ?thesis using seed_organization_keeps[OF assms]
    by (simp add: order_warehouse_def split: option.split)
qed

theorem seeding_gives_warehouses_witness:
  "order_warehouse (clerk\<lparr>ru_warehouseId := None\<rparr>) tea_body (seed_organization empty_db) \<noteq> None \<and>
   order_warehouse (clerk\<lparr>ru_warehouseId := None\<rparr>) tea_body empty_db = None"
proof -
  have "directory_ok empty_db" by (simp add: directory_ok_def empty_db_def)
  moreover have "order_warehouse (clerk\<lparr>ru_warehouseId := None\<rparr>) tea_body empty_db = None"
    by (simp add: order_warehouse_def first_warehouse_def clerk_def tea_body_def forced_warehouse_def restricted_to_def empty_db_def)
  ultimately show ?thesis using seeding_gives_warehouses by blast
qed

lemma seed_categories_once: "seed_categories (seed_categories d) = seed_categories d"
  by (simp add: seed_categories_def default_categories_def)

lemma fill_sales_types_once: "fill_sales_types (fill_sales_types d) = fill_sales_types d"
  by (simp add: fill_sales_types_def map_where_idem)

section \<open>The first rows of the price journal\<close>

definition initial_reason :: string where
  "initial_reason = ''Initial migration data''"

text \<open>\<open>jsonb_extract_path_text\<close> of a price, when it is a decimal without a sign.\<close>

definition initial_price :: "product \<Rightarrow> price_type \<Rightarrow> decimal option" where
  "initial_price p t = Option.bind (prod_prices p) (\<lambda>ps. Option.bind (map_of ps (pt_slug t)) (\<lambda>v.
     let x = (case v of PNum n \<Rightarrow> js_text n | PText v \<Rightarrow> v) in if 0 \<le> x then Some x else None))"

definition initial_rows :: "db \<Rightarrow> product \<Rightarrow> price_type \<Rightarrow> price_journal list" where
  "initial_rows d p t = filter (\<lambda>r. pj_productId r = prod_id p \<and> pj_priceTypeId r = Some (pt_id t) \<and>
     pj_reason r = Some initial_reason) (PriceJournal d)"

text \<open>The SELECT sees the journal before the INSERT.\<close>

definition missing_initials :: "db \<Rightarrow> (product \<times> price_type) list" where
  "missing_initials d = filter (\<lambda>(p, t). initial_price p t \<noteq> None \<and> initial_rows d p t = [])
     (List.product (Product d) (PriceType d))"

definition insert_initial :: "product \<times> price_type \<Rightarrow> db \<Rightarrow> error + db" where
  "insert_initial = (\<lambda>(p, t) d. ins_PriceJournal
     \<lparr>pj_id = next_uuid d, pj_productId = prod_id p, pj_priceTypeId = Some (pt_id t), pj_oldPrice = None,
      pj_newPrice = round_dec 2 (the (initial_price p t)), pj_effectiveDate = clock d, pj_createdBy = None,
      pj_reason = Some initial_reason, pj_createdAt = clock d\<rparr> (d\<lparr>next_uuid := Suc (next_uuid d)\<rparr>))"

definition seed_price_journal :: "db \<Rightarrow> error + db" where
  "seed_price_journal d = for_each insert_initial (missing_initials d) d"

definition initial_key :: "price_journal \<Rightarrow> ident \<times> ident option \<times> string option" where
  "initial_key r = (pj_productId r, pj_priceTypeId r, pj_reason r)"

definition pair_key :: "product \<times> price_type \<Rightarrow> ident \<times> ident option \<times> string option" where
  "pair_key = (\<lambda>(p, t). (prod_id p, Some (pt_id t), Some initial_reason))"

lemma insert_initials:
  "for_each insert_initial xs d = Inr d' \<Longrightarrow> map initial_key (PriceJournal d') = map initial_key (PriceJournal d) @ map pair_key xs \<and>
     Product d' = Product d \<and> PriceType d' = PriceType d"
proof (induction xs arbitrary: d)
  case (Cons x xs)
  then obtain d1 where d1: "insert_initial x d = Inr d1" "for_each insert_initial xs d1 = Inr d'" by auto
  have "map initial_key (PriceJournal d1) = map initial_key (PriceJournal d) @ [pair_key x] \<and>
      Product d1 = Product d \<and> PriceType d1 = PriceType d"
    using d1(1) by (cases x) (auto simp: insert_initial_def ins_PriceJournal_def initial_key_def pair_key_def)
  with Cons.IH[OF d1(2)] show ?case by simp
qed simp

lemma length_initial_rows: "length (initial_rows d p t) = count_list (map initial_key (PriceJournal d)) (pair_key (p, t))"
proof -
  have "length (filter (\<lambda>r. pj_productId r = prod_id p \<and> pj_priceTypeId r = Some (pt_id t) \<and>
      pj_reason r = Some initial_reason) rs) = count_list (map initial_key rs) (pair_key (p, t))" for rs
    by (induction rs) (auto simp: initial_key_def pair_key_def)
  then show ?thesis by (simp add: initial_rows_def)
qed

lemma count_pair_key:
  assumes "distinct (map prod_id ps)" and "distinct (map pt_id ts)" and "p \<in> set ps" and "t \<in> set ts"
  shows "count_list (map pair_key (filter P (List.product ps ts))) (pair_key (p, t)) = (if P (p, t) then 1 else 0)"
proof -
  have inj: "inj_on pair_key (set (List.product ps ts))"
    using assms(1,2) by (auto simp: inj_on_def pair_key_def distinct_map)
  have distinct: "distinct (List.product ps ts)"
    using assms(1,2) by (intro distinct_product) (auto simp: distinct_map)
  have "distinct (map pair_key (filter P (List.product ps ts)))"
    using inj distinct by (simp add: distinct_map inj_on_subset)
  moreover have "pair_key (p, t) \<in> set (map pair_key (filter P (List.product ps ts))) \<longleftrightarrow> P (p, t)"
    using inj_on_image_mem_iff[OF inj, of "(p, t)" "set (filter P (List.product ps ts))"] assms(3,4) by auto
  ultimately show ?thesis unfolding distinct_count_atmost_1 count_mset by metis
qed

text \<open>
  Seeding the price journal gives every product its row: after a run each product and price type whose stored
  price is a decimal has exactly one initial row, unless it had some already, the others get none, and a second run
  adds nothing.
\<close>

theorem journal_seeded_once:
  assumes "seed_price_journal d = Inr d'"
    and "distinct (map prod_id (Product d))" and "distinct (map pt_id (PriceType d))"
  shows "seed_price_journal d' = Inr d' \<and>
    (\<forall>p \<in> set (Product d). \<forall>t \<in> set (PriceType d). length (initial_rows d' p t) =
      (if initial_rows d p t = [] \<and> initial_price p t \<noteq> None then 1 else length (initial_rows d p t)))"
proof -
  note rows = insert_initials[OF assms(1)[unfolded seed_price_journal_def]]
  have new: "length (initial_rows d' p t) =
      (if initial_rows d p t = [] \<and> initial_price p t \<noteq> None then 1 else length (initial_rows d p t))"
    if "p \<in> set (Product d)" "t \<in> set (PriceType d)" for p t
  proof -
    have "initial_rows d p t = [] \<longleftrightarrow> count_list (map initial_key (PriceJournal d)) (pair_key (p, t)) = 0"
      unfolding length_initial_rows[symmetric] by simp
    then show ?thesis using count_pair_key[OF assms(2,3) that, of "\<lambda>(p, t). initial_price p t \<noteq> None \<and> initial_rows d p t = []"] rows
      length_initial_rows[of d p t] length_initial_rows[of d' p t] by (simp add: missing_initials_def split: if_splits)
  qed
  have "initial_rows d' p t \<noteq> []" if "p \<in> set (Product d)" "t \<in> set (PriceType d)" "initial_price p t \<noteq> None" for p t
    using new[OF that(1,2)] that(3) by (auto split: if_splits)
  then have "missing_initials d' = []"
    using rows by (auto simp: missing_initials_def filter_empty_conv)
  with new show ?thesis by (simp add: seed_price_journal_def)
qed

definition milk_shop :: db where
  "milk_shop = empty_db\<lparr>Product := [(named_product 5 ''Milk'' ''l'')\<lparr>prod_prices := Some [(''shop'', PText 4)]\<rparr>],
     PriceType := [named_price_type 2 ''Shop'' ''shop'']\<rparr>"

theorem journal_seeded_once_witness:
  "\<exists>d'. seed_price_journal milk_shop = Inr d' \<and> seed_price_journal d' = Inr d' \<and> map pj_newPrice (PriceJournal d') = [4]"
proof -
  obtain d' where d': "seed_price_journal milk_shop = Inr d'" "map pj_newPrice (PriceJournal d') = [4]"
    by (simp add: seed_price_journal_def missing_initials_def initial_rows_def milk_shop_def empty_db_def insert_initial_def
        initial_price_def ins_PriceJournal_def first_error_def dec_fits_def)
  have "distinct (map prod_id (Product milk_shop))" "distinct (map pt_id (PriceType milk_shop))"
    by (simp_all add: milk_shop_def empty_db_def)
  from journal_seeded_once[OF d'(1) this] d' show ?thesis by (intro exI[of _ d']) simp
qed

section \<open>The order of the items of a receipt\<close>

text \<open>\<open>row_number() over (PARTITION BY "goodsReceiptId" ORDER BY "createdAt" ASC) - 1\<close>\<close>

definition items_by_time :: "db \<Rightarrow> ident \<Rightarrow> goods_receipt_item list" where
  "items_by_time d i = sort_key gri_createdAt (filter (\<lambda>r. gri_goodsReceiptId r = i) (GoodsReceiptItem d))"

definition row_number :: "db \<Rightarrow> goods_receipt_item \<Rightarrow> nat" where
  "row_number d r = length (takeWhile (\<lambda>x. gri_id x \<noteq> gri_id r) (items_by_time d (gri_goodsReceiptId r)))"

definition number_items :: "db \<Rightarrow> db" where
  "number_items d = d\<lparr>GoodsReceiptItem := map (\<lambda>r. r\<lparr>gri_sortOrder := row_number d r\<rparr>) (GoodsReceiptItem d)\<rparr>"

lemma insort_key_map: "insort_key f (g x) (map g xs) = map g (insort_key (\<lambda>x. f (g x)) x xs)"
  by (induction xs) auto

lemma sort_key_map: "sort_key f (map g xs) = map g (sort_key (\<lambda>x. f (g x)) xs)"
  by (induction xs) (simp_all add: insort_key_map)

lemma position_distinct:
  assumes "distinct (map key xs)" and "k < length xs"
  shows "length (takeWhile (\<lambda>x. key x \<noteq> key (xs ! k)) xs) = k"
proof -
  have "takeWhile (\<lambda>x. key x \<noteq> key (xs ! k)) xs = take k xs"
    by (rule takeWhile_eq_take_P_nth) (use assms in \<open>auto simp: distinct_conv_nth\<close>)
  then show ?thesis using assms(2) by simp
qed

text \<open>
  Numbering the items of old receipts keeps their order: afterwards the items of every receipt are numbered from
  0 without a gap, and the receipt lists them in the order of their creation, as before.
\<close>

theorem numbering_keeps_order:
  assumes "distinct (map gri_id (GoodsReceiptItem d))"
  shows "map gri_sortOrder (receipt_items i (number_items d)) = [0..<length (items_by_time d i)] \<and>
    map gri_id (receipt_items i (number_items d)) = map gri_id (items_by_time d i)"
proof -
  let ?f = "\<lambda>r. r\<lparr>gri_sortOrder := row_number d r\<rparr>" and ?xs = "items_by_time d i"
  have distinct: "distinct (map gri_id ?xs)"
    using assms by (simp add: items_by_time_def distinct_map_filter)
  have "map (row_number d) ?xs = [0..<length ?xs]"
  proof (rule nth_equalityI)
    fix k assume k: "k < length (map (row_number d) ?xs)"
    then have "?xs ! k \<in> set ?xs" by simp
    then have "gri_goodsReceiptId (?xs ! k) = i" by (simp add: items_by_time_def)
    with k show "map (row_number d) ?xs ! k = [0..<length ?xs] ! k"
      using position_distinct[OF distinct] by (simp add: row_number_def)
  qed simp
  then have numbers: "map gri_sortOrder (map ?f ?xs) = [0..<length ?xs]" by (simp add: o_def)
  have "filter (\<lambda>r. gri_goodsReceiptId r = i) (map ?f (GoodsReceiptItem d)) =
      map ?f (filter (\<lambda>r. gri_goodsReceiptId r = i) (GoodsReceiptItem d))" by (simp add: filter_map o_def)
  then have "receipt_items i (number_items d) = sort_key gri_sortOrder (map ?f ?xs)"
    by (simp add: receipt_items_def number_items_def items_by_time_def sort_key_map)
  also have "\<dots> = map ?f ?xs" by (rule sort_key_id_if_sorted) (simp only: numbers sorted_upt)
  finally have items: "receipt_items i (number_items d) = map ?f ?xs" .
  from numbers show ?thesis unfolding items by (simp add: o_def)
qed

definition receipt_line :: "ident \<Rightarrow> timestamp \<Rightarrow> goods_receipt_item" where
  "receipt_line i t = \<lparr>gri_id = i, gri_goodsReceiptId = 2, gri_productId = 5, gri_quantity = 1, gri_price = 2, gri_total = 2,
     gri_sortOrder = 0, gri_createdAt = t\<rparr>"

definition unnumbered_db :: db where
  "unnumbered_db = empty_db\<lparr>GoodsReceiptItem := [receipt_line 10 30, receipt_line 11 20, receipt_line 12 40]\<rparr>"

theorem numbering_keeps_order_witness:
  "map gri_sortOrder (receipt_items 2 (number_items unnumbered_db)) = [0, 1, 2] \<and>
   map gri_id (receipt_items 2 (number_items unnumbered_db)) = [11, 10, 12]"
proof -
  have "distinct (map gri_id (GoodsReceiptItem unnumbered_db))" by (simp add: unnumbered_db_def receipt_line_def)
  from numbering_keeps_order[OF this, of 2] show ?thesis
    by (simp add: items_by_time_def unnumbered_db_def receipt_line_def upt_rec)
qed

section \<open>Repairs by hand\<close>

text \<open>The scripts name one document and one product; both are parameters here, the product as its ILIKE pattern.\<close>

definition force_unpost :: "ident \<Rightarrow> db \<Rightarrow> error + db" where
  "force_unpost i d =
     (let d1 = del_ProductBatch (\<lambda>b. pb_buyerReturnId b = Some i) d;
          d2 = foldl (\<lambda>e l. del_ProductBatch (\<lambda>b. pb_id b = brib_productBatchId l) e) d1 (buyer_links i d1)
      in upd_BuyerReturn (\<lambda>r. br_id r = i) (\<lambda>r. r\<lparr>br_status := DRAFT, br_profit := 0, br_updatedAt := clock d2\<rparr>)
           (del_BuyerReturnItemBatches i d2))"

definition force_zero_stock :: "(product \<Rightarrow> bool) \<Rightarrow> ident \<Rightarrow> db \<Rightarrow> db" where
  "force_zero_stock found i d = (case filter found (Product d) of
     [] \<Rightarrow> d
   | p # _ \<Rightarrow> d\<lparr>
       BuyerReturn := map_where (\<lambda>r. br_id r = i) (\<lambda>r. r\<lparr>br_status := POSTED, br_updatedAt := clock d\<rparr>) (BuyerReturn d),
       ProductBatch := map_where (\<lambda>b. pb_productId b = prod_id p \<and> 0 < pb_quantityLeft b)
         (\<lambda>b. b\<lparr>pb_quantityLeft := 0\<rparr>) (ProductBatch d)\<rparr>)"

text \<open>The first script is the unposting of the service without its two checks.\<close>

lemma force_unpost_is_unpost:
  assumes "find_row br_id i (BuyerReturn d) = Some doc" and "br_status doc = POSTED"
  shows "force_unpost i d = map_sum id snd (buyer_return_unpost_tx i d)"
  using assms by (cases "force_unpost i d") (auto simp: force_unpost_def buyer_return_unpost_tx_def Let_def)

text \<open>
  Setting the stock of a product to zero by hand breaks the ledger: the batches have nothing left to sell, but
  no link says where it went, so the stock report, which computes from the links, goes on showing it.
\<close>

theorem zeroing_breaks_books:
  assumes "booked d" and "filter found (Product d) = p # ps"
    and "b \<in> set (ProductBatch d)" and "pb_productId b = prod_id p" and "0 < pb_quantityLeft b"
  shows "\<not> booked (force_zero_stock found i d) \<and> available_batches (force_zero_stock found i d) (prod_id p) w = [] \<and>
    batch_links (force_zero_stock found i d) = batch_links d"
proof -
  let ?d = "force_zero_stock found i d"
  have links: "batch_links ?d = batch_links d" by (simp add: force_zero_stock_def batch_links_def assms(2))
  have batches: "ProductBatch ?d = map_where (\<lambda>b. pb_productId b = prod_id p \<and> 0 < pb_quantityLeft b)
      (\<lambda>b. b\<lparr>pb_quantityLeft := 0\<rparr>) (ProductBatch d)" by (simp add: force_zero_stock_def assms(2))
  have "0 < pb_quantityTotal b - moved (pb_id b) (batch_links d)"
    using assms(1,3,5) by (simp add: booked_def list_all_iff)
  moreover have "b\<lparr>pb_quantityLeft := 0\<rparr> \<in> set (ProductBatch ?d)"
    using assms(3-5) by (force simp: batches set_map_where)
  ultimately have "\<not> booked ?d" unfolding booked_def list_all_iff links by (metis less_irrefl product_batch.select_convs(1,3,4) product_batch.surjective product_batch.update_convs(4))
  moreover have "set (available_batches ?d (prod_id p) w) = {}"
    by (auto simp: available_batches_def batches set_map_where)
  then have "available_batches ?d (prod_id p) w = []" by simp
  ultimately show ?thesis using links by blast
qed

definition old_shop :: db where
  "old_shop = old_db\<lparr>Product := [tea]\<rparr>"

theorem zeroing_breaks_books_witness:
  "booked old_shop \<and> \<not> booked (force_zero_stock (\<lambda>p. prod_name p = ''Tea'') 9 old_shop)"
proof -
  have "booked old_shop" "filter (\<lambda>p. prod_name p = ''Tea'') (Product old_shop) = tea # []"
    "hd (ProductBatch old_shop) \<in> set (ProductBatch old_shop)" "pb_productId (hd (ProductBatch old_shop)) = prod_id tea"
    "0 < pb_quantityLeft (hd (ProductBatch old_shop))"
    by (simp_all add: old_shop_def old_db_def empty_db_def booked_def batch_links_def tea_def)
  from zeroing_breaks_books[OF this] this(1) show ?thesis by blast
qed

end
