(* ===== verification/SetupScripts.thy ===== *)
theory SetupScripts
  imports Auth Prices
begin

text \<open>
  The scripts that fill a database by hand: \<open>src/seed.ts\<close> drops the products and inserts the source data,
  \<open>src/migrate_users.ts\<close> drops the users and inserts accounts with fixed passwords, and the flow test
  \<open>check_price_document_flow.ts\<close> applies a price document to the first product of the database it is run on.
\<close>

section \<open>seed.ts\<close>

record seed_product =
  sp_name :: string
  sp_unit :: string
  sp_category :: string
  sp_prices :: "(string \<times> jsnum) list option"

definition insert_seed :: "seed_product \<Rightarrow> db \<Rightarrow> db" where
  "insert_seed p d = d\<lparr>next_uuid := Suc (next_uuid d), Product := Product d @
     [(named_product (next_uuid d) (sp_name p) (sp_unit p))\<lparr>prod_category := Some (sp_category p),
        prod_prices := Some (map (map_prod id PNum) (coalesce (sp_prices p) [(''standard'', 0)])),
        prod_updatedAt := clock d\<rparr>]\<rparr>"

text \<open>\<open>DROP TABLE "Product" CASCADE\<close> takes the rows and the constraints of other tables, not their rows.\<close>

definition seed :: "seed_product list \<Rightarrow> db \<Rightarrow> db" where
  "seed products d = fold insert_seed products (d\<lparr>Product := []\<rparr>)"

lemma insert_seeds:
  "map prod_name (Product (fold insert_seed ps d)) = map prod_name (Product d) @ map sp_name ps \<and>
   ProductBatch (fold insert_seed ps d) = ProductBatch d \<and>
   (\<forall>r \<in> set (Product (fold insert_seed ps d)). r \<in> set (Product d) \<or> next_uuid d \<le> prod_id r)"
proof (induction ps arbitrary: d)
  case (Cons p ps)
  from Cons.IH[of "insert_seed p d"] show ?case by (fastforce simp: insert_seed_def)
qed simp

text \<open>
  Seeding orphans the stock: the catalogue is the source data afterwards, under new keys, and no batch of the stock
  has a product any more.
\<close>

theorem seed_orphans_stock:
  assumes "\<forall>b \<in> set (ProductBatch d). pb_productId b < next_uuid d"
  shows "map prod_name (Product (seed ps d)) = map sp_name ps \<and>
    (\<forall>b \<in> set (ProductBatch (seed ps d)). find_row prod_id (pb_productId b) (Product (seed ps d)) = None)"
proof -
  note s = insert_seeds[of ps "d\<lparr>Product := []\<rparr>", folded seed_def]
  have "find_row prod_id (pb_productId b) (Product (seed ps d)) = None" if "b \<in> set (ProductBatch (seed ps d))" for b
    using s assms that by (force simp: find_row_None_iff)
  with s show ?thesis by simp
qed

definition tea_seed :: seed_product where
  "tea_seed = \<lparr>sp_name = ''Tea'', sp_unit = ''kg'', sp_category = ''Drinks'', sp_prices = None\<rparr>"

theorem seed_orphans_stock_witness:
  "map prod_name (Product (seed [tea_seed] (two_batches 5 3))) = [''Tea''] \<and>
   product_label (seed [tea_seed] (two_batches 5 3)) 5 = Inl 5"
proof -
  have "\<forall>b \<in> set (ProductBatch (two_batches 5 3)). pb_productId b < next_uuid (two_batches 5 3)"
    by (simp add: two_batches_def empty_db_def)
  note s = seed_orphans_stock[OF this, of "[tea_seed]"]
  moreover have "ProductBatch (seed [tea_seed] (two_batches 5 3)) = ProductBatch (two_batches 5 3)"
    by (simp add: seed_def insert_seed_def)
  ultimately show ?thesis by (simp add: two_batches_def product_label_def tea_seed_def)
qed

section \<open>migrate_users.ts\<close>

record seed_user =
  su_email :: string
  su_password :: string
  su_role :: string
  su_warehouseId :: "string option"

text \<open>The key is a new SERIAL column, so the first account gets 1.\<close>

definition insert_missing_user :: "(string \<Rightarrow> string) \<Rightarrow> seed_user \<Rightarrow> db \<Rightarrow> db" where
  "insert_missing_user hash u d =
     (if find_row usr_email (su_email u) (Users d) = None
      then d\<lparr>Users := Users d @ [\<lparr>usr_id = Suc (length (Users d)), usr_email = su_email u, usr_role = su_role u,
         usr_warehouseId = su_warehouseId u, usr_priceType = None, usr_password = hash (su_password u),
         usr_counterpartyId = None, usr_organizationId = None, usr_preferences = None, usr_permissions = None\<rparr>]\<rparr>
      else d)"

definition first_admin :: seed_user where
  "first_admin = \<lparr>su_email = ''admin@test.com'', su_password = ''secure-admin-password'', su_role = ''admin'', su_warehouseId = None\<rparr>"

definition mock_users :: "seed_user list" where
  "mock_users =
     [\<lparr>su_email = ''manager@test.com'', su_password = ''123456'', su_role = ''manager'', su_warehouseId = Some ''1''\<rparr>,
      \<lparr>su_email = ''client@test.com'', su_password = ''123456'', su_role = ''client'', su_warehouseId = Some ''1''\<rparr>,
      \<lparr>su_email = ''manager2@test.com'', su_password = ''123456'', su_role = ''manager'', su_warehouseId = Some ''2''\<rparr>,
      \<lparr>su_email = ''client2@test.com'', su_password = ''123456'', su_role = ''client'', su_warehouseId = Some ''2''\<rparr>]"

definition migrateUsers :: "(string \<Rightarrow> string) \<Rightarrow> db \<Rightarrow> db" where
  "migrateUsers hash d = fold (insert_missing_user hash) (first_admin # mock_users) (d\<lparr>Users := []\<rparr>)"

lemma migrated_keys:
  "map (\<lambda>u. (usr_id u, usr_email u, usr_role u)) (Users (migrateUsers hash d)) =
     [(1, ''admin@test.com'', ''admin''), (2, ''manager@test.com'', ''manager''), (3, ''client@test.com'', ''client''),
      (4, ''manager2@test.com'', ''manager''), (5, ''client2@test.com'', ''client'')]"
  by (simp add: migrateUsers_def insert_missing_user_def first_admin_def mock_users_def)

text \<open>
  The migration leaves known doors: whoever had an account before it has none after it, and the login of the manager
  with 123456 gives a token that passes \<open>adminAuth\<close>, whatever the secret.
\<close>

theorem migrated_manager_passes:
  assumes "find_row usr_email ''manager@test.com'' (Users (migrateUsers hash d)) = Some u"
    and "compare ''123456'' (hash ''123456'')" and "verify (sign (login_claims u)) = Some (login_claims u)"
    and "sign (login_claims u) \<noteq> []" and "CHR '' '' \<notin> set (sign (login_claims u))"
  shows "length (Users (migrateUsers hash d)) = 5 \<and>
    (\<exists>token v c. login compare sign (Some ''manager@test.com'') (Some ''123456'') (migrateUsers hash d) = (200, Inr (token, v)) \<and>
       adminAuth verify secret (with_token token rq) (migrateUsers hash d) = (200, Inr c) \<and> tk_role c = Some ''manager'')"
proof -
  let ?d = "migrateUsers hash d" and ?c = "refresh_claims (migrateUsers hash d) (login_claims u)"
  have u: "find_row usr_id (usr_id u) (Users ?d) = Some u" "usr_role u = ''manager''" "usr_password u = hash ''123456''"
    "usr_counterpartyId u = None" "usr_organizationId u = None"
    using assms(1) by (auto simp: migrateUsers_def insert_missing_user_def first_admin_def mock_users_def)
  have "login compare sign (Some ''manager@test.com'') (Some ''123456'') ?d = (200, Inr (sign (login_claims u),
      (view_user u)\<lparr>uv_counterpartyId := None, uv_organizationId := None\<rparr>))"
    using assms(1,2) u(3,4,5) by (simp add: login_def non_empty_def reply_ok_def)
  moreover have role: "tk_role ?c = Some ''manager''"
    using refresh_known(1)[OF login_claims_id u(1)] u(2) by simp
  then have "adminAuth verify secret (with_token (sign (login_claims u)) rq) ?d = (200, Inr ?c)"
    using bearer_with_token[of "sign (login_claims u)"] assms(3,4,5) by (simp add: adminAuth_def reply_ok_def)
  moreover have "length (Users ?d) = 5" using arg_cong[OF migrated_keys[of hash d], of length] by simp
  ultimately show ?thesis using role by blast
qed

theorem migrated_manager_passes_witness:
  "\<exists>token v. login plain_compare plain_sign (Some ''manager@test.com'') (Some ''123456'')
     (migrateUsers plain_hash staff_db) = (200, Inr (token, v))"
proof -
  let ?u = "\<lparr>usr_id = 2, usr_email = ''manager@test.com'', usr_role = ''manager'', usr_warehouseId = Some ''1'',
    usr_priceType = None, usr_password = plain_hash ''123456'', usr_counterpartyId = None, usr_organizationId = None,
    usr_preferences = None, usr_permissions = None\<rparr>"
  have u: "find_row usr_email ''manager@test.com'' (Users (migrateUsers plain_hash staff_db)) = Some ?u"
    by (simp add: migrateUsers_def insert_missing_user_def first_admin_def mock_users_def)
  have c: "plain_compare ''123456'' (plain_hash ''123456'')" by (simp add: plain_compare_def)
  have t: "plain_sign (login_claims ?u) \<noteq> []" "CHR '' '' \<notin> set (plain_sign (login_claims ?u))"
    by (simp_all add: plain_sign_def login_claims_def)
  from migrated_manager_passes[where compare = plain_compare and hash = plain_hash and verify = plain_verify
      and sign = plain_sign, OF u c plain_verify_sign t] show ?thesis by blast
qed

section \<open>check_price_document_flow.ts\<close>

definition ensure_standard :: "db \<Rightarrow> ident \<times> db" where
  "ensure_standard d = (case filter (\<lambda>t. pt_slug t = ''standard'') (PriceType d) of
     t # _ \<Rightarrow> (pt_id t, d)
   | [] \<Rightarrow> (next_uuid d, d\<lparr>next_uuid := Suc (next_uuid d), PriceType := PriceType d @
       [(named_price_type (next_uuid d) ''Standard Price'' ''standard'')\<lparr>pt_createdAt := clock d, pt_updatedAt := clock d\<rparr>]\<rparr>))"

definition write_prices :: "ident \<Rightarrow> (string \<times> price_json) list \<Rightarrow> db \<Rightarrow> db" where
  "write_prices i ps d = d\<lparr>Product := map_where (\<lambda>r. prod_id r = i) (\<lambda>r. r\<lparr>prod_prices := Some ps\<rparr>) (Product d)\<rparr>"

definition flow_product :: "db \<Rightarrow> ident \<times> db" where
  "flow_product d = (case Product d of
     p # _ \<Rightarrow> (prod_id p, write_prices (prod_id p) [(''standard'', PNum 100)] d)
   | [] \<Rightarrow> (next_uuid d, d\<lparr>next_uuid := Suc (next_uuid d), Product :=
       [(named_product (next_uuid d) ''Test Product'' ''pcs'')\<lparr>prod_prices := Some [(''standard'', PNum 100)],
         prod_updatedAt := clock d\<rparr>]\<rparr>))"

definition flow_document :: "ident \<Rightarrow> ident \<Rightarrow> db \<Rightarrow> ident \<times> db" where
  "flow_document t p d = (next_uuid d, d\<lparr>next_uuid := Suc (Suc (next_uuid d)),
     PriceDocument := PriceDocument d @ [\<lparr>pd_id = next_uuid d, pd_date = clock d, pd_status = DRAFT, pd_targetPriceTypeId = Some t,
       pd_inputMethod = ''MANUAL'', pd_sourcePriceTypeId = None, pd_markupPercentage = None, pd_roundingMethod = None,
       pd_roundingValue = None, pd_comment = None, pd_createdAt = clock d, pd_updatedAt = clock d\<rparr>],
     PriceDocumentItem := PriceDocumentItem d @ [\<lparr>pdi_id = Suc (next_uuid d), pdi_documentId = next_uuid d, pdi_productId = p,
       pdi_price = 150\<rparr>]\<rparr>)"

definition flow_apply :: "ident \<Rightarrow> ident \<Rightarrow> ident \<Rightarrow> db \<Rightarrow> db" where
  "flow_apply t p doc d = (let d1 = write_prices p [(''standard'', PNum 150)] (d\<lparr>next_uuid := Suc (next_uuid d),
       PriceJournal := PriceJournal d @ [\<lparr>pj_id = next_uuid d, pj_productId = p, pj_priceTypeId = Some t, pj_oldPrice = Some 100,
         pj_newPrice = 150, pj_effectiveDate = clock d, pj_createdBy = None, pj_reason = Some ''Test Apply'', pj_createdAt = clock d\<rparr>]\<rparr>)
     in d1\<lparr>PriceDocument := map_where (\<lambda>r. pd_id r = doc) (\<lambda>r. r\<lparr>pd_status := APPLIED\<rparr>) (PriceDocument d1)\<rparr>)"

definition flow_price_ok :: "ident \<Rightarrow> db \<Rightarrow> bool" where
  "flow_price_ok p d \<longleftrightarrow> (case Option.bind (find_row prod_id p (Product d)) prod_prices of
     None \<Rightarrow> False | Some ps \<Rightarrow> map_of ps ''standard'' \<in> {Some (PNum 150), Some (PText 150)})"

definition flow_journal_ok :: "ident \<Rightarrow> db \<Rightarrow> bool" where
  "flow_journal_ok p d \<longleftrightarrow> (case sort_key (\<lambda>r. - pj_createdAt r) (filter (\<lambda>r. pj_productId r = p) (PriceJournal d)) of
     [] \<Rightarrow> False | r # _ \<Rightarrow> js_number (pj_newPrice r) = 150)"

text \<open>
  The verdict of the test and the database it leaves. The setup is committed statement by statement, the document is
  applied in a transaction of its own: the ROLLBACK of the error path finds nothing to undo.
\<close>

definition price_flow :: "db \<Rightarrow> bool \<times> db" where
  "price_flow d = (let (t, d1) = ensure_standard d; (p, d2) = flow_product d1; (doc, d3) = flow_document t p d2
     in case filter (\<lambda>x. pdi_documentId x = doc) (PriceDocumentItem d3) of
       [x] \<Rightarrow> if js_number (pdi_price x) \<noteq> 150 then (False, d3)
         else let d4 = flow_apply t p doc d3 in (flow_price_ok p d4 \<and> flow_journal_ok p d4, d4)
     | _ \<Rightarrow> (False, d3))"

text \<open>
  The flow test keeps what it writes: run on a database with products, whatever its verdict, it leaves the first
  product with the test price as its only price and one more applied document.
\<close>

lemma ensure_standard_keeps:
  "ensure_standard d = (t, d1) \<Longrightarrow> Product d1 = Product d \<and> PriceDocument d1 = PriceDocument d \<and>
     PriceDocumentItem d1 = PriceDocumentItem d \<and> next_uuid d \<le> next_uuid d1"
  by (auto simp: ensure_standard_def split: list.splits)

lemma write_head_price:
  assumes "Product d = p # ps" and "distinct (map prod_id (Product d))"
  shows "write_prices (prod_id p) v d = d\<lparr>Product := p\<lparr>prod_prices := Some v\<rparr> # ps\<rparr>"
proof -
  have "map_where (\<lambda>r. prod_id r = prod_id p) (\<lambda>r. r\<lparr>prod_prices := Some v\<rparr>) ps = ps"
    using assms by (intro map_where_id) (metis distinct.simps(2) image_eqI list.set_map list.simps(9))
  with assms show ?thesis by (simp add: write_prices_def)
qed

lemma test_price: "js_number 150 = 150" by code_simp

theorem price_flow_keeps_test_price:
  assumes "Product d = p # ps" and "distinct (map prod_id (Product d))"
    and "\<forall>x \<in> set (PriceDocument d). pd_id x < next_uuid d"
    and "\<forall>x \<in> set (PriceDocumentItem d). pdi_documentId x < next_uuid d"
  shows "Product (snd (price_flow d)) = p\<lparr>prod_prices := Some [(''standard'', PNum 150)]\<rparr> # ps \<and>
    (\<exists>doc. PriceDocument (snd (price_flow d)) = PriceDocument d @ [doc] \<and> pd_status doc = APPLIED)"
proof -
  obtain t d1 where e: "ensure_standard d = (t, d1)" by fastforce
  note k = ensure_standard_keeps[OF e]
  define d2 where "d2 = d1\<lparr>Product := p\<lparr>prod_prices := Some [(''standard'', PNum 100)]\<rparr> # ps\<rparr>"
  have f: "flow_product d1 = (prod_id p, d2)"
    using k assms(1,2) write_head_price[of d1 p ps] by (simp add: flow_product_def d2_def)
  obtain doc d3 where g: "flow_document t (prod_id p) d2 = (doc, d3)" by fastforce
  have doc: "doc = next_uuid d1" using g by (auto simp: flow_document_def d2_def)
  have items: "\<exists>x. filter (\<lambda>x. pdi_documentId x = doc) (PriceDocumentItem d3) = [x] \<and> pdi_price x = 150"
    using g k assms(4) by (force simp: flow_document_def d2_def filter_empty_conv)
  then obtain x where x: "filter (\<lambda>x. pdi_documentId x = doc) (PriceDocumentItem d3) = [x]" "pdi_price x = 150" by blast
  have end': "snd (price_flow d) = flow_apply t (prod_id p) doc d3"
    using x by (simp add: price_flow_def e f g Let_def test_price)
  have p3: "Product d3 = p\<lparr>prod_prices := Some [(''standard'', PNum 100)]\<rparr> # ps"
    using g by (auto simp: flow_document_def d2_def)
  have docs: "\<exists>r. PriceDocument d3 = PriceDocument d @ [r] \<and> pd_id r = doc"
    using g k by (auto simp: flow_document_def d2_def)
  have "Product (flow_apply t (prod_id p) doc d3) = p\<lparr>prod_prices := Some [(''standard'', PNum 150)]\<rparr> # ps"
    using write_head_price[of "d3\<lparr>next_uuid := Suc (next_uuid d3), PriceJournal := J\<rparr>" "p\<lparr>prod_prices := Some [(''standard'', PNum 100)]\<rparr>" ps for J]
      p3 assms(1,2) by (simp add: flow_apply_def Let_def)
  moreover obtain r where r: "PriceDocument d3 = PriceDocument d @ [r]" "pd_id r = doc" using docs by blast
  moreover have "map_where (\<lambda>r. pd_id r = doc) (\<lambda>r. r\<lparr>pd_status := APPLIED\<rparr>) (PriceDocument d) = PriceDocument d"
    using assms(3) k doc by (intro map_where_id) auto
  ultimately show ?thesis using end' by (simp add: flow_apply_def write_prices_def Let_def)
qed

text \<open>Run on a shop that sells tea at 80 for its customers and 40 for its partners.\<close>

definition tea_shop :: db where
  "tea_shop = empty_db\<lparr>next_uuid := 10, Product := [(named_product 5 ''Tea'' ''kg'')\<lparr>prod_prices :=
     Some [(''standard'', PNum 80), (''partner'', PNum 40)]\<rparr>]\<rparr>"

theorem price_flow_keeps_test_price_witness:
  "map prod_prices (Product (snd (price_flow tea_shop))) = [Some [(''standard'', PNum 150)]] \<and>
   map pd_status (PriceDocument (snd (price_flow tea_shop))) = [APPLIED]"
proof -
  have "Product tea_shop = (named_product 5 ''Tea'' ''kg'')\<lparr>prod_prices := Some [(''standard'', PNum 80), (''partner'', PNum 40)]\<rparr> # []"
    "distinct (map prod_id (Product tea_shop))" "\<forall>x \<in> set (PriceDocument tea_shop). pd_id x < next_uuid tea_shop"
    "\<forall>x \<in> set (PriceDocumentItem tea_shop). pdi_documentId x < next_uuid tea_shop" and e: "PriceDocument tea_shop = []"
    by (simp_all add: tea_shop_def empty_db_def)
  from price_flow_keeps_test_price[OF this(1-4)] e show ?thesis by auto
qed

end
