(* ===== verification/Schema.thy ===== *)
theory Schema
  imports Directory "HOL-Library.AList"
begin

text \<open>
  The schema of the database as the scripts build it: \<open>CREATE TABLE\<close>, \<open>ALTER TABLE\<close>, \<open>DROP TABLE\<close> and
  \<open>CREATE INDEX\<close> with their \<open>IF NOT EXISTS\<close> forms, the scripts of the repository statement by statement, and the
  seventeen migrations that \<open>start\<close> of \<open>src/index.ts\<close> runs before it listens. What the same scripts do to rows is
  the subject of Maintenance and SetupScripts; here a statement on rows only asks for its columns.
\<close>

section \<open>Tables\<close>

datatype column_type = UUID | TEXT | VARCHAR nat | INTEGER | SMALLINT | SERIAL | BOOLEAN | DECIMAL nat nat | FLOAT
  | TIMESTAMP nat | TIMESTAMPTZ | JSONB | TEXTS

datatype on_delete = NoAction | Restrict | Cascade | SetNull

text \<open>\<open>Now\<close> is DEFAULT NOW(), \<open>Generated\<close> DEFAULT gen_random_uuid(); every reference of the scripts is to a column id.\<close>

datatype column_constraint = PrimaryKey | NotNull | Unique | Check string | References string on_delete
  | Now | Generated | Default string | DefaultArray "string list"

datatype column = Col (col_name: string) (col_type: column_type) (col_constraints: "column_constraint list")

type_synonym schema = "(string \<times> column list) list"

definition column_of :: "string \<Rightarrow> string \<Rightarrow> schema \<Rightarrow> column option" where
  "column_of t n s = Option.bind (map_of s t) (find (\<lambda>c. col_name c = n))"

definition has_column :: "string \<Rightarrow> string \<Rightarrow> schema \<Rightarrow> bool" where
  "has_column t n s \<longleftrightarrow> column_of t n s \<noteq> None"

text \<open>A foreign key needs the key column of an existing table, of a comparable type.\<close>

fun family :: "column_type \<Rightarrow> column_type" where
  "family SERIAL = INTEGER"
| "family SMALLINT = INTEGER"
| "family (VARCHAR n) = TEXT"
| "family ty = ty"

definition references_ok :: "schema \<Rightarrow> column \<Rightarrow> bool" where
  "references_ok s c \<longleftrightarrow> list_all (\<lambda>k. case k of
       References t _ \<Rightarrow> (case column_of t ''id'' s of
           Some i \<Rightarrow> List.member (col_constraints i) PrimaryKey \<and> family (col_type i) = family (col_type c)
         | None \<Rightarrow> False)
     | _ \<Rightarrow> True) (col_constraints c)"

definition without_references :: "string \<Rightarrow> column \<Rightarrow> column" where
  "without_references t c = Col (col_name c) (col_type c)
     (filter (\<lambda>k. case k of References u _ \<Rightarrow> u \<noteq> t | _ \<Rightarrow> True) (col_constraints c))"

section \<open>Statements\<close>

text \<open>
  \<open>CreateTable\<close>, \<open>AddColumn\<close> and \<open>CreateIndex\<close> with IF NOT EXISTS, \<open>DropColumn\<close> with IF EXISTS, \<open>DropTable\<close> with
  IF EXISTS and CASCADE, \<open>AddNewColumn\<close> without IF NOT EXISTS; \<open>AlterTypeIfPresent\<close> asks the catalogue first. \<open>Uses\<close> is a statement on rows.
\<close>

datatype ddl =
    CreateTable string "column list"
  | DropTable string
  | AddColumn string column
  | AddNewColumn string column
  | DropColumn string string
  | AlterType string string column_type
  | AlterTypeIfPresent string string column_type
  | CreateIndex string "string list"
  | Uses string "string list"

text \<open>
  None is an SQL error. Whether every value stored in a column can be cast to a new type is the parameter \<open>casts\<close>.
\<close>

definition retyped :: "string \<Rightarrow> column_type \<Rightarrow> column list \<Rightarrow> column list" where
  "retyped n ty = map (\<lambda>c. if col_name c = n then Col n ty (col_constraints c) else c)"

definition alter_type :: "(string \<Rightarrow> string \<Rightarrow> column_type \<Rightarrow> bool) \<Rightarrow> string \<Rightarrow> string \<Rightarrow> column_type \<Rightarrow> schema \<Rightarrow> schema option" where
  "alter_type casts t n ty s = (case map_of s t of None \<Rightarrow> None
     | Some cs \<Rightarrow> if has_column t n s \<and> casts t n ty
         then Some (AList.update t (retyped n ty cs) s)
         else None)"

fun execute :: "(string \<Rightarrow> string \<Rightarrow> column_type \<Rightarrow> bool) \<Rightarrow> ddl \<Rightarrow> schema \<Rightarrow> schema option" where
  "execute casts (CreateTable t cs) s =
     (if map_of s t \<noteq> None then Some s
      else let s' = AList.update t cs s in if list_all (references_ok s') cs then Some s' else None)"
| "execute casts (DropTable t) s =
     Some (map (map_prod id (map (without_references t))) (filter (\<lambda>x. fst x \<noteq> t) s))"
| "execute casts (AddColumn t c) s = (case map_of s t of None \<Rightarrow> None
     | Some cs \<Rightarrow> if has_column t (col_name c) s then Some s
         else let s' = AList.update t (cs @ [c]) s in if references_ok s' c then Some s' else None)"
| "execute casts (AddNewColumn t c) s = (case map_of s t of None \<Rightarrow> None
     | Some cs \<Rightarrow> if has_column t (col_name c) s then None
         else let s' = AList.update t (cs @ [c]) s in if references_ok s' c then Some s' else None)"
| "execute casts (DropColumn t n) s = (case map_of s t of None \<Rightarrow> None
     | Some cs \<Rightarrow> Some (AList.update t (filter (\<lambda>c. col_name c \<noteq> n) cs) s))"
| "execute casts (AlterType t n ty) s = alter_type casts t n ty s"
| "execute casts (AlterTypeIfPresent t n ty) s = (if has_column t n s then alter_type casts t n ty s else Some s)"
| "execute casts (CreateIndex t ns) s = (if map_of s t \<noteq> None \<and> list_all (\<lambda>n. has_column t n s) ns then Some s else None)"
| "execute casts (Uses t ns) s = (if map_of s t \<noteq> None \<and> list_all (\<lambda>n. has_column t n s) ns then Some s else None)"

section \<open>Scripts\<close>

text \<open>
  \<open>Atomic\<close> is a transaction, or one query of several statements: all or nothing. \<open>Each\<close> commits statement by
  statement and stops at an error. \<open>Caught\<close> logs the error and goes on. \<open>Unless\<close> is a migration that looks at the
  catalogue first.
\<close>

datatype catalogue_check = HasColumn string string | IsNumeric string string

datatype script = Atomic "ddl list" | Each "ddl list" | Caught script | Then script script
  | Unless catalogue_check script

fun holds :: "catalogue_check \<Rightarrow> schema \<Rightarrow> bool" where
  "holds (HasColumn t n) s = has_column t n s"
| "holds (IsNumeric t n) s = (case column_of t n s of
     Some (Col _ (DECIMAL _ _) _) \<Rightarrow> True | _ \<Rightarrow> False)"

fun execute_all :: "(string \<Rightarrow> string \<Rightarrow> column_type \<Rightarrow> bool) \<Rightarrow> ddl list \<Rightarrow> schema \<Rightarrow> schema option" where
  "execute_all casts [] s = Some s"
| "execute_all casts (x # xs) s = Option.bind (execute casts x s) (execute_all casts xs)"

fun execute_each :: "(string \<Rightarrow> string \<Rightarrow> column_type \<Rightarrow> bool) \<Rightarrow> ddl list \<Rightarrow> schema \<Rightarrow> bool \<times> schema" where
  "execute_each casts [] s = (True, s)"
| "execute_each casts (x # xs) s = (case execute casts x s of
     None \<Rightarrow> (False, s) | Some s' \<Rightarrow> execute_each casts xs s')"

text \<open>The first component says whether the script returned; a script that throws ends what runs it.\<close>

fun play :: "(string \<Rightarrow> string \<Rightarrow> column_type \<Rightarrow> bool) \<Rightarrow> script \<Rightarrow> schema \<Rightarrow> bool \<times> schema" where
  "play casts (Atomic xs) s = (case execute_all casts xs s of None \<Rightarrow> (False, s) | Some s' \<Rightarrow> (True, s'))"
| "play casts (Each xs) s = execute_each casts xs s"
| "play casts (Caught m) s = (True, snd (play casts m s))"
| "play casts (Then m m') s = (case play casts m s of (False, s') \<Rightarrow> (False, s') | (True, s') \<Rightarrow> play casts m' s')"
| "play casts (Unless q m) s = (if holds q s then (True, s) else play casts m s)"

section \<open>What scripts keep\<close>

fun statements_of :: "script \<Rightarrow> ddl list" where
  "statements_of (Atomic xs) = xs"
| "statements_of (Each xs) = xs"
| "statements_of (Caught m) = statements_of m"
| "statements_of (Then m m') = statements_of m @ statements_of m'"
| "statements_of (Unless q m) = statements_of m"

text \<open>The contract of a script: what each of its statements keeps, the script keeps, whether it returns or throws.\<close>

locale script_invariant =
  fixes casts :: "string \<Rightarrow> string \<Rightarrow> column_type \<Rightarrow> bool" and P :: "schema \<Rightarrow> bool" and allowed :: "ddl \<Rightarrow> bool"
  assumes step: "allowed x \<Longrightarrow> P s \<Longrightarrow> execute casts x s = Some s' \<Longrightarrow> P s'"
begin

lemma execute_all_keeps:
  "list_all allowed xs \<Longrightarrow> P s \<Longrightarrow> execute_all casts xs s = Some s' \<Longrightarrow> P s'"
  by (induction xs arbitrary: s) (auto simp: bind_eq_Some_conv intro: step)

lemma execute_each_keeps: "list_all allowed xs \<Longrightarrow> P s \<Longrightarrow> P (snd (execute_each casts xs s))"
  by (induction xs arbitrary: s) (auto intro: step split: option.split)

lemma play_keeps: "list_all allowed (statements_of m) \<Longrightarrow> P s \<Longrightarrow> P (snd (play casts m s))"
proof (induction m arbitrary: s)
  case (Then m m')
  then have "P (snd (play casts m s))" by simp
  with Then.IH(2) Then.prems(1) show ?case by (auto split: prod.split bool.split)
qed (auto intro: execute_all_keeps execute_each_keeps split: option.split)

end

text \<open>What a statement adds, loses and touches.\<close>

fun adds :: "string \<Rightarrow> string \<Rightarrow> ddl \<Rightarrow> bool" where
  "adds t n (CreateTable u cs) \<longleftrightarrow> u = t \<and> List.member (map col_name cs) n"
| "adds t n (AddColumn u c) \<longleftrightarrow> u = t \<and> col_name c = n"
| "adds t n (AddNewColumn u c) \<longleftrightarrow> u = t \<and> col_name c = n"
| "adds t n _ \<longleftrightarrow> False"

fun loses :: "string \<Rightarrow> string \<Rightarrow> ddl \<Rightarrow> bool" where
  "loses t n (DropTable u) \<longleftrightarrow> u = t"
| "loses t n (DropColumn u m) \<longleftrightarrow> u = t \<and> m = n"
| "loses t n _ \<longleftrightarrow> False"

fun touches :: "string \<Rightarrow> string \<Rightarrow> ddl \<Rightarrow> bool" where
  "touches t n (DropTable u) \<longleftrightarrow> True"
| "touches t n (DropColumn u m) \<longleftrightarrow> u = t \<and> m = n"
| "touches t n (AlterType u m ty) \<longleftrightarrow> u = t \<and> m = n"
| "touches t n (AlterTypeIfPresent u m ty) \<longleftrightarrow> u = t \<and> m = n"
| "touches t n _ \<longleftrightarrow> False"

lemma column_of_update:
  "column_of t n (AList.update u cs s) = (if u = t then find (\<lambda>c. col_name c = n) cs else column_of t n s)"
  by (simp add: column_of_def update_conv')

lemma column_of_table: "map_of s t = Some cs \<Longrightarrow> column_of t n s = find (\<lambda>c. col_name c = n) cs"
  by (simp add: column_of_def)

lemma column_of_no_table: "map_of s t = None \<Longrightarrow> column_of t n s = None"
  by (simp add: column_of_def)

lemma find_append: "find P (xs @ ys) = (case find P xs of None \<Rightarrow> find P ys | Some x \<Rightarrow> Some x)"
  by (induction xs) auto

lemma find_other: "m \<noteq> n \<Longrightarrow> find (\<lambda>c. col_name c = n) (filter (\<lambda>c. col_name c \<noteq> m) cs) = find (\<lambda>c. col_name c = n) cs"
  by (induction cs) auto

lemma find_retyped:
  "find (\<lambda>c. col_name c = n) (retyped m ty cs) =
     map_option (\<lambda>c. if m = n then Col m ty (col_constraints c) else c) (find (\<lambda>c. col_name c = n) cs)"
  by (induction cs) (auto simp: retyped_def)

lemma alter_type_column:
  assumes "alter_type casts u m ty s = Some s'"
  shows "column_of t n s' = map_option (\<lambda>c. if u = t \<and> m = n then Col m ty (col_constraints c) else c) (column_of t n s)"
  using assms by (auto simp: alter_type_def column_of_update find_retyped column_of_table option.map_ident split: option.splits if_splits)

lemma add_column_column:
  assumes "map_of s u = Some cs" and "\<not> has_column u (col_name c) s"
  shows "column_of t n (AList.update u (cs @ [c]) s) = (if u = t \<and> col_name c = n then Some c else column_of t n s)"
  using assms by (auto simp: column_of_update find_append has_column_def column_of_table split: option.split)

lemma drop_table_column:
  "column_of t n (map (map_prod id (map (without_references u))) (filter (\<lambda>x. fst x \<noteq> u) s)) =
     (if u = t then None else map_option (without_references u) (column_of t n s))"
proof -
  have rows: "map_of (map (map_prod id f) (filter (\<lambda>x. fst x \<noteq> u) s)) t = (if u = t then None else map_option f (map_of s t))" for f :: "column list \<Rightarrow> column list"
    by (induction s) auto
  have "find (\<lambda>c. col_name c = n) (map (without_references u) cs) =
      map_option (without_references u) (find (\<lambda>c. col_name c = n) cs)" for cs
    by (induction cs) (auto simp: without_references_def)
  then show ?thesis by (simp add: column_of_def rows option.map_comp comp_def split: bind_split)
qed

interpretation column_stays: script_invariant casts "\<lambda>s. column_of t n s = Some c" "\<lambda>x. \<not> touches t n x" for casts t n c
proof
  fix x s s'
  assume "\<not> touches t n x" "column_of t n s = Some c" "execute casts x s = Some s'"
  then show "column_of t n s' = Some c"
    by (cases x) (auto simp: Let_def column_of_update add_column_column alter_type_column find_other find_append column_of_table column_of_no_table
        split: option.splits if_splits)
qed

interpretation column_absent: script_invariant casts "\<lambda>s. \<not> has_column t n s" "\<lambda>x. \<not> adds t n x" for casts t n
proof
  fix x s s'
  assume "\<not> adds t n x" "\<not> has_column t n s" "execute casts x s = Some s'"
  then show "\<not> has_column t n s'"
    by (cases x; auto simp: Let_def has_column_def column_of_update add_column_column alter_type_column find_None_iff drop_table_column
        find_other find_append column_of_table column_of_no_table split: option.splits if_splits; blast)
qed

interpretation column_there: script_invariant casts "\<lambda>s. has_column t n s" "\<lambda>x. \<not> loses t n x" for casts t n
proof
  fix x s s'
  assume "\<not> loses t n x" "has_column t n s" "execute casts x s = Some s'"
  then show "has_column t n s'"
    by (cases x) (auto simp: Let_def has_column_def column_of_update add_column_column alter_type_column drop_table_column
        find_other find_append column_of_table column_of_no_table split: option.splits if_splits)
qed

text \<open>The columns a statement leaves or needs when it succeeds, and the statements a returning script has executed.\<close>

fun demands :: "ddl \<Rightarrow> (string \<times> string) list" where
  "demands (AddColumn t c) = [(t, col_name c)]"
| "demands (AddNewColumn t c) = [(t, col_name c)]"
| "demands (AlterType t n ty) = [(t, n)]"
| "demands (CreateIndex t ns) = map (Pair t) ns"
| "demands (Uses t ns) = map (Pair t) ns"
| "demands _ = []"

fun executed_by :: "script \<Rightarrow> ddl list" where
  "executed_by (Atomic xs) = xs"
| "executed_by (Each xs) = xs"
| "executed_by (Then m m') = executed_by m @ executed_by m'"
| "executed_by _ = []"

lemma executed_there:
  "execute casts x s = Some s' \<Longrightarrow> (t, n) \<in> set (demands x) \<Longrightarrow> has_column t n s'"
proof (cases x)
  case (AlterType u m ty)
  assume "execute casts x s = Some s'" "(t, n) \<in> set (demands x)"
  with AlterType have "alter_type casts u m ty s = Some s'" "has_column t n s" "u = t" "m = n"
    by (auto simp: alter_type_def split: option.splits if_splits)
  then show ?thesis by (simp add: has_column_def alter_type_column)
qed (auto simp: Let_def has_column_def list_all_iff add_column_column split: option.splits if_splits)

lemma execute_all_there:
  assumes "execute_all casts xs s = Some s'" and "x \<in> set xs" and "(t, n) \<in> set (demands x)" and "list_all (\<lambda>x. \<not> loses t n x) xs"
  shows "has_column t n s'"
  using assms
proof (induction xs arbitrary: s)
  case (Cons y ys)
  from Cons.prems(1) obtain s1 where s1: "execute casts y s = Some s1" "execute_all casts ys s1 = Some s'"
    by (auto simp: bind_eq_Some_conv)
  show ?case
  proof (cases "x = y")
    case True
    with executed_there[OF s1(1)] Cons.prems(3) have "has_column t n s1" by simp
    with column_there.execute_all_keeps[OF _ _ s1(2)] Cons.prems(4) show ?thesis by simp
  qed (use Cons s1(2) in auto)
qed simp

lemma execute_each_all: "execute_each casts xs s = (True, s') \<longleftrightarrow> execute_all casts xs s = Some s'"
  by (induction xs arbitrary: s) (auto split: option.split)

lemma played_there:
  assumes "play casts m s = (True, s')" and "x \<in> set (executed_by m)" and "(t, n) \<in> set (demands x)"
    and "list_all (\<lambda>x. \<not> loses t n x) (statements_of m)"
  shows "has_column t n s'"
  using assms
proof (induction m arbitrary: s s')
  case (Then m m')
  from Then.prems(1) obtain s1 where s1: "play casts m s = (True, s1)" "play casts m' s1 = (True, s')"
    by (auto split: prod.splits bool.splits)
  show ?case
  proof (cases "x \<in> set (executed_by m)")
    case True
    with Then.IH(1)[OF s1(1)] Then.prems have "has_column t n s1" by simp
    with column_there.play_keeps[of t n m' s1 casts] Then.prems(4) s1(2) show ?thesis by simp
  qed (use Then s1(2) in auto)
qed (auto simp: execute_each_all intro: execute_all_there split: option.splits)

end
