(* ===== verification/Migrations.thy ===== *)
theory Migrations
  imports Schema Maintenance
begin

text \<open>
  The scripts of the repository that build the schema, as values of \<open>script\<close>, and the migrations of the start-up.
  Tables that several scripts create with the same columns are defined once.
\<close>

section \<open>The tables of the scripts\<close>

definition price_type_table :: ddl where
  "price_type_table = CreateTable ''PriceType'' [
    Col ''id'' UUID [PrimaryKey, Generated], Col ''name'' TEXT [NotNull], Col ''slug'' TEXT [Unique, NotNull],
    Col ''currency'' TEXT [Default ''UAH''], Col ''deleted'' BOOLEAN [Default ''false''],
    Col ''createdAt'' (TIMESTAMP 6) [NotNull, Now], Col ''updatedAt'' (TIMESTAMP 6) [NotNull, Now]]"

definition phone_user_table :: ddl where
  "phone_user_table = CreateTable ''User'' [
    Col ''id'' UUID [PrimaryKey, Generated], Col ''phone'' TEXT [Unique, NotNull], Col ''password'' TEXT [NotNull],
    Col ''name'' TEXT [], Col ''priceType'' TEXT [Default ''standard''], Col ''deleted'' BOOLEAN [Default ''false''],
    Col ''createdAt'' (TIMESTAMP 6) [NotNull, Now], Col ''updatedAt'' (TIMESTAMP 6) [NotNull, Now]]"

definition product_table :: ddl where
  "product_table = CreateTable ''Product'' [
    Col ''id'' UUID [PrimaryKey, Generated], Col ''name'' TEXT [NotNull], Col ''prices'' JSONB [Default ''{}''],
    Col ''unit'' TEXT [NotNull], Col ''category'' TEXT [], Col ''photos'' TEXTS [Default ''{}''],
    Col ''deleted'' BOOLEAN [Default ''false''], Col ''createdAt'' (TIMESTAMP 6) [NotNull, Now],
    Col ''updatedAt'' (TIMESTAMP 6) [NotNull, Now]]"

definition product_batch_table :: ddl where
  "product_batch_table = CreateTable ''ProductBatch'' [
    Col ''id'' UUID [PrimaryKey, Generated], Col ''productId'' UUID [NotNull],
    Col ''quantityTotal'' INTEGER [NotNull], Col ''quantityLeft'' INTEGER [NotNull],
    Col ''enterPrice'' (DECIMAL 10 2) [NotNull], Col ''createdAt'' (TIMESTAMP 6) [NotNull, Now],
    Col ''updatedAt'' (TIMESTAMP 6) [NotNull, Now]]"

definition order_item_table :: ddl where
  "order_item_table = CreateTable ''OrderItem'' [
    Col ''id'' UUID [PrimaryKey, Generated], Col ''orderId'' UUID [NotNull], Col ''productId'' UUID [NotNull],
    Col ''quantity'' INTEGER [NotNull], Col ''sellPrice'' (DECIMAL 10 2) [NotNull],
    Col ''createdAt'' (TIMESTAMP 6) [NotNull, Now]]"

definition order_item_batch_table :: ddl where
  "order_item_batch_table = CreateTable ''OrderItemBatch'' [
    Col ''id'' UUID [PrimaryKey, Generated], Col ''orderItemId'' UUID [NotNull],
    Col ''productBatchId'' UUID [NotNull], Col ''quantity'' INTEGER [NotNull],
    Col ''enterPrice'' (DECIMAL 10 2) [NotNull], Col ''createdAt'' (TIMESTAMP 6) [NotNull, Now]]"

definition sync_log_table :: ddl where
  "sync_log_table = CreateTable ''SyncLog'' [
    Col ''id'' UUID [PrimaryKey, Generated], Col ''userId'' TEXT [NotNull], Col ''action'' TEXT [NotNull],
    Col ''table'' TEXT [NotNull], Col ''recordId'' TEXT [NotNull], Col ''data'' JSONB [],
    Col ''synced'' BOOLEAN [Default ''false''], Col ''createdAt'' TIMESTAMPTZ [Now],
    Col ''updatedAt'' TIMESTAMPTZ [Now]]"

definition order_table :: ddl where
  "order_table = CreateTable ''Order'' [
    Col ''id'' TEXT [PrimaryKey], Col ''userId'' TEXT [NotNull], Col ''status'' TEXT [Default ''NEW''],
    Col ''total'' (DECIMAL 10 2) [Default ''0''], Col ''currency'' TEXT [Default ''UAH''], Col ''items'' JSONB [],
    Col ''comment'' TEXT [], Col ''docNumber'' TEXT [], Col ''createdAt'' TIMESTAMPTZ [Now],
    Col ''updatedAt'' TIMESTAMPTZ [Now], Col ''deleted'' BOOLEAN [Default ''false'']]"

definition text_order_item_table :: ddl where
  "text_order_item_table = CreateTable ''OrderItem'' [
    Col ''id'' UUID [PrimaryKey, Generated], Col ''orderId'' TEXT [NotNull, References ''Order'' Cascade],
    Col ''productId'' TEXT [NotNull], Col ''quantity'' INTEGER [NotNull], Col ''sellPrice'' (DECIMAL 10 2) [NotNull],
    Col ''createdAt'' TIMESTAMPTZ [Now]]"

definition text_order_item_batch_table :: ddl where
  "text_order_item_batch_table = CreateTable ''OrderItemBatch'' [
    Col ''id'' UUID [PrimaryKey, Generated], Col ''orderItemId'' UUID [NotNull, References ''OrderItem'' Cascade],
    Col ''productBatchId'' TEXT [NotNull], Col ''quantity'' INTEGER [NotNull],
    Col ''enterPrice'' (DECIMAL 10 2) [NotNull], Col ''createdAt'' TIMESTAMPTZ [Now]]"

definition user_table :: ddl where
  "user_table = CreateTable ''User'' [
    Col ''id'' SERIAL [PrimaryKey], Col ''email'' TEXT [Unique, NotNull], Col ''password'' TEXT [NotNull],
    Col ''role'' TEXT [NotNull, Default ''client''], Col ''warehouseId'' TEXT [],
    Col ''createdAt'' (TIMESTAMP 6) [NotNull, Now], Col ''updatedAt'' (TIMESTAMP 6) [NotNull, Now]]"

definition counterparty_group_table :: ddl where
  "counterparty_group_table = CreateTable ''CounterpartyGroup'' [
    Col ''id'' UUID [PrimaryKey, Generated], Col ''name'' (VARCHAR 255) [NotNull],
    Col ''createdAt'' TIMESTAMPTZ [Now], Col ''updatedAt'' TIMESTAMPTZ [Now],
    Col ''isDeleted'' BOOLEAN [Default ''false'']]"

definition counterparty_table :: ddl where
  "counterparty_table = CreateTable ''Counterparty'' [
    Col ''id'' UUID [PrimaryKey, Generated], Col ''name'' (VARCHAR 255) [NotNull], Col ''address'' TEXT [],
    Col ''phone'' (VARCHAR 50) [], Col ''contactPerson'' (VARCHAR 255) [],
    Col ''isBuyer'' BOOLEAN [Default ''false''], Col ''isSeller'' BOOLEAN [Default ''false''],
    Col ''priceTypeId'' UUID [References ''PriceType'' NoAction],
    Col ''groupId'' UUID [References ''CounterpartyGroup'' NoAction], Col ''createdAt'' TIMESTAMPTZ [Now],
    Col ''updatedAt'' TIMESTAMPTZ [Now], Col ''isDeleted'' BOOLEAN [Default ''false'']]"

definition price_journal_table :: ddl where
  "price_journal_table = CreateTable ''PriceJournal'' [
    Col ''id'' UUID [PrimaryKey, Generated], Col ''productId'' UUID [NotNull], Col ''priceTypeId'' UUID [],
    Col ''oldPrice'' (DECIMAL 10 2) [], Col ''newPrice'' (DECIMAL 10 2) [NotNull],
    Col ''effectiveDate'' (TIMESTAMP 6) [NotNull, Now], Col ''createdBy'' UUID [], Col ''reason'' TEXT [],
    Col ''createdAt'' (TIMESTAMP 6) [NotNull, Now]]"

definition price_document_table :: ddl where
  "price_document_table = CreateTable ''PriceDocument'' [
    Col ''id'' UUID [PrimaryKey, Generated], Col ''date'' (TIMESTAMP 6) [NotNull, Now],
    Col ''status'' TEXT [NotNull, Default ''DRAFT''], Col ''targetPriceTypeId'' UUID [],
    Col ''inputMethod'' TEXT [NotNull, Default ''MANUAL''], Col ''sourcePriceTypeId'' UUID [],
    Col ''markupPercentage'' (DECIMAL 10 2) [], Col ''comment'' TEXT [],
    Col ''createdAt'' (TIMESTAMP 6) [NotNull, Now], Col ''updatedAt'' (TIMESTAMP 6) [NotNull, Now]]"

definition price_document_item_table :: ddl where
  "price_document_item_table = CreateTable ''PriceDocumentItem'' [
    Col ''id'' UUID [PrimaryKey, Generated], Col ''documentId'' UUID [NotNull], Col ''productId'' UUID [NotNull],
    Col ''price'' (DECIMAL 10 2) [NotNull], Col ''oldPrice'' (DECIMAL 10 2) [],
    Col ''createdAt'' (TIMESTAMP 6) [NotNull, Now]]"

definition organization_table :: ddl where
  "organization_table = CreateTable ''Organization'' [
    Col ''id'' UUID [PrimaryKey, Generated], Col ''name'' (VARCHAR 255) [NotNull], Col ''fullDetails'' TEXT [],
    Col ''createdAt'' TIMESTAMPTZ [Now], Col ''updatedAt'' TIMESTAMPTZ [Now]]"

definition warehouse_table :: ddl where
  "warehouse_table = CreateTable ''Warehouse'' [
    Col ''id'' UUID [PrimaryKey, Generated], Col ''name'' (VARCHAR 255) [NotNull], Col ''address'' TEXT [],
    Col ''organizationId'' UUID [References ''Organization'' NoAction], Col ''createdAt'' TIMESTAMPTZ [Now],
    Col ''updatedAt'' TIMESTAMPTZ [Now], Col ''isDeleted'' BOOLEAN [Default ''false'']]"

definition realization_table :: ddl where
  "realization_table = CreateTable ''Realization'' [
    Col ''id'' UUID [PrimaryKey, Generated], Col ''date'' TIMESTAMPTZ [NotNull, Now],
    Col ''number'' (VARCHAR 50) [NotNull], Col ''counterpartyId'' UUID [References ''Counterparty'' NoAction],
    Col ''warehouseId'' UUID [References ''Warehouse'' NoAction],
    Col ''status'' (VARCHAR 50) [NotNull, Default ''DRAFT''], Col ''amount'' (DECIMAL 10 2) [NotNull, Default ''0''],
    Col ''currency'' (VARCHAR 10) [NotNull, Default ''UAH''], Col ''comment'' TEXT [],
    Col ''createdAt'' TIMESTAMPTZ [Now], Col ''updatedAt'' TIMESTAMPTZ [Now], Col ''createdBy'' TEXT [],
    Col ''isDeleted'' BOOLEAN [Default ''false'']]"

definition realization_item_table :: ddl where
  "realization_item_table = CreateTable ''RealizationItem'' [
    Col ''id'' UUID [PrimaryKey, Generated], Col ''realizationId'' UUID [NotNull, References ''Realization'' Cascade],
    Col ''productId'' TEXT [NotNull], Col ''quantity'' (DECIMAL 10 3) [NotNull],
    Col ''price'' (DECIMAL 10 2) [NotNull], Col ''total'' (DECIMAL 10 2) [NotNull],
    Col ''createdAt'' TIMESTAMPTZ [Now]]"

definition goods_receipt_table :: ddl where
  "goods_receipt_table = CreateTable ''GoodsReceipt'' [
    Col ''id'' UUID [PrimaryKey, Generated], Col ''number'' (VARCHAR 50) [NotNull],
    Col ''date'' TIMESTAMPTZ [NotNull, Now], Col ''warehouseId'' UUID [References ''Warehouse'' NoAction],
    Col ''providerId'' UUID [References ''Counterparty'' NoAction],
    Col ''status'' (VARCHAR 50) [NotNull, Default ''SAVED''], Col ''comment'' TEXT [],
    Col ''createdAt'' TIMESTAMPTZ [Now], Col ''updatedAt'' TIMESTAMPTZ [Now],
    Col ''isDeleted'' BOOLEAN [Default ''false''], Col ''createdBy'' TEXT []]"

definition goods_receipt_item_table :: ddl where
  "goods_receipt_item_table = CreateTable ''GoodsReceiptItem'' [
    Col ''id'' UUID [PrimaryKey, Generated],
    Col ''goodsReceiptId'' UUID [NotNull, References ''GoodsReceipt'' Cascade], Col ''productId'' TEXT [NotNull],
    Col ''quantity'' (DECIMAL 10 3) [NotNull], Col ''price'' (DECIMAL 10 2) [NotNull],
    Col ''total'' (DECIMAL 10 2) [NotNull], Col ''createdAt'' TIMESTAMPTZ [Now]]"

definition cashbox_table :: ddl where
  "cashbox_table = CreateTable ''Cashbox'' [
    Col ''id'' UUID [PrimaryKey, Generated], Col ''name'' (VARCHAR 255) [NotNull],
    Col ''type'' (VARCHAR 50) [NotNull, Default ''CASH''], Col ''currency'' (VARCHAR 10) [NotNull, Default ''UAH''],
    Col ''organizationId'' UUID [], Col ''createdAt'' (TIMESTAMP 3) [NotNull, Now],
    Col ''updatedAt'' (TIMESTAMP 3) [NotNull, Now]]"

definition transaction_category_table :: ddl where
  "transaction_category_table = CreateTable ''TransactionCategory'' [
    Col ''id'' UUID [PrimaryKey, Generated], Col ''name'' (VARCHAR 255) [NotNull],
    Col ''type'' (VARCHAR 50) [NotNull], Col ''createdAt'' (TIMESTAMP 3) [NotNull, Now],
    Col ''updatedAt'' (TIMESTAMP 3) [NotNull, Now]]"

definition cash_transaction_table :: ddl where
  "cash_transaction_table = CreateTable ''CashTransaction'' [
    Col ''id'' UUID [PrimaryKey, Generated], Col ''date'' (TIMESTAMP 3) [NotNull, Now],
    Col ''number'' (VARCHAR 50) [NotNull], Col ''type'' (VARCHAR 50) [NotNull],
    Col ''cashboxId'' UUID [NotNull, References ''Cashbox'' Restrict], Col ''amount'' (DECIMAL 10 2) [NotNull],
    Col ''categoryId'' UUID [References ''TransactionCategory'' SetNull],
    Col ''counterpartyId'' UUID [References ''Counterparty'' SetNull], Col ''comment'' TEXT [],
    Col ''createdBy'' INTEGER [References ''User'' SetNull], Col ''isDeleted'' BOOLEAN [NotNull, Default ''false''],
    Col ''createdAt'' (TIMESTAMP 3) [NotNull, Now], Col ''updatedAt'' (TIMESTAMP 3) [NotNull, Now]]"

definition payment_allocation_table :: ddl where
  "payment_allocation_table = CreateTable ''PaymentAllocation'' [
    Col ''id'' UUID [PrimaryKey, Generated],
    Col ''cashTransactionId'' UUID [NotNull, References ''CashTransaction'' Cascade],
    Col ''documentId'' UUID [NotNull], Col ''documentType'' (VARCHAR 50) [NotNull],
    Col ''amount'' (DECIMAL 10 2) [NotNull], Col ''createdAt'' (TIMESTAMP 3) [NotNull, Now]]"

definition realization_item_batch_table :: ddl where
  "realization_item_batch_table = CreateTable ''RealizationItemBatch'' [
    Col ''id'' UUID [PrimaryKey, Generated],
    Col ''realizationItemId'' UUID [NotNull, References ''RealizationItem'' Cascade],
    Col ''productBatchId'' UUID [NotNull, References ''ProductBatch'' Cascade],
    Col ''quantity'' (DECIMAL 10 3) [NotNull], Col ''enterPrice'' (DECIMAL 10 2) [NotNull],
    Col ''createdAt'' TIMESTAMPTZ [Now]]"

definition buyer_return_table :: ddl where
  "buyer_return_table = CreateTable ''BuyerReturn'' [
    Col ''id'' UUID [PrimaryKey, Generated], Col ''number'' (VARCHAR 255) [NotNull],
    Col ''date'' (TIMESTAMP 6) [NotNull], Col ''counterpartyId'' UUID [NotNull, References ''Counterparty'' NoAction],
    Col ''warehouseId'' UUID [NotNull, References ''Warehouse'' NoAction], Col ''comment'' TEXT [],
    Col ''status'' (VARCHAR 50) [NotNull, Default ''DRAFT''],
    Col ''totalAmount'' (DECIMAL 10 2) [NotNull, Default ''0''],
    Col ''profit'' (DECIMAL 10 2) [NotNull, Default ''0''], Col ''createdBy'' UUID [],
    Col ''createdAt'' (TIMESTAMP 6) [NotNull, Now], Col ''updatedAt'' (TIMESTAMP 6) [NotNull, Now]]"

definition buyer_return_item_table :: ddl where
  "buyer_return_item_table = CreateTable ''BuyerReturnItem'' [
    Col ''id'' UUID [PrimaryKey, Generated], Col ''buyerReturnId'' UUID [NotNull, References ''BuyerReturn'' Cascade],
    Col ''productId'' UUID [NotNull, References ''Product'' NoAction], Col ''quantity'' (DECIMAL 10 3) [NotNull],
    Col ''price'' (DECIMAL 10 2) [NotNull], Col ''total'' (DECIMAL 10 2) [NotNull],
    Col ''sortOrder'' INTEGER [NotNull, Default ''0''], Col ''createdAt'' (TIMESTAMP 6) [NotNull, Now],
    Col ''updatedAt'' (TIMESTAMP 6) [NotNull, Now]]"

definition buyer_return_item_batch_table :: ddl where
  "buyer_return_item_batch_table = CreateTable ''BuyerReturnItemBatch'' [
    Col ''id'' UUID [PrimaryKey, Generated],
    Col ''buyerReturnItemId'' UUID [NotNull, References ''BuyerReturnItem'' Cascade],
    Col ''productBatchId'' UUID [NotNull, References ''ProductBatch'' Cascade],
    Col ''quantity'' (DECIMAL 10 3) [NotNull], Col ''createdAt'' (TIMESTAMP 6) [NotNull, Now]]"

definition supplier_return_table :: ddl where
  "supplier_return_table = CreateTable ''SupplierReturn'' [
    Col ''id'' UUID [PrimaryKey, Generated], Col ''number'' (VARCHAR 50) [Unique, NotNull],
    Col ''date'' (TIMESTAMP 6) [NotNull, Now], Col ''supplierId'' UUID [References ''Counterparty'' Restrict],
    Col ''warehouseId'' UUID [References ''Warehouse'' Restrict],
    Col ''status'' (VARCHAR 20) [NotNull, Default ''DRAFT''], Col ''totalAmount'' (DECIMAL 10 2) [Default ''0''],
    Col ''comment'' TEXT [], Col ''createdBy'' TEXT [], Col ''createdAt'' (TIMESTAMP 6) [NotNull, Now],
    Col ''updatedAt'' (TIMESTAMP 6) [NotNull, Now]]"

definition supplier_return_item_table :: ddl where
  "supplier_return_item_table = CreateTable ''SupplierReturnItem'' [
    Col ''id'' UUID [PrimaryKey, Generated],
    Col ''supplierReturnId'' UUID [NotNull, References ''SupplierReturn'' Cascade],
    Col ''productId'' UUID [NotNull, References ''Product'' Restrict], Col ''quantity'' (DECIMAL 10 3) [NotNull],
    Col ''price'' (DECIMAL 10 2) [NotNull], Col ''total'' (DECIMAL 10 2) [NotNull],
    Col ''sortOrder'' INTEGER [Default ''0''], Col ''createdAt'' (TIMESTAMP 6) [NotNull, Now]]"

definition supplier_return_item_batch_table :: ddl where
  "supplier_return_item_batch_table = CreateTable ''SupplierReturnItemBatch'' [
    Col ''id'' UUID [PrimaryKey, Generated],
    Col ''supplierReturnItemId'' UUID [NotNull, References ''SupplierReturnItem'' Cascade],
    Col ''productBatchId'' UUID [NotNull, References ''ProductBatch'' Cascade],
    Col ''quantity'' (DECIMAL 10 3) [NotNull], Col ''enterPrice'' (DECIMAL 10 2) [NotNull],
    Col ''createdAt'' (TIMESTAMP 6) [NotNull, Now]]"

definition document_lock_table :: ddl where
  "document_lock_table = CreateTable ''DocumentLock'' [
    Col ''id'' (VARCHAR 50) [PrimaryKey], Col ''isLocked'' BOOLEAN [NotNull, Default ''false''],
    Col ''lockedBy'' (VARCHAR 255) [], Col ''lockedAt'' (TIMESTAMP 6) [], Col ''reason'' TEXT []]"

definition collection_schedule_table :: ddl where
  "collection_schedule_table = CreateTable ''collection_schedule'' [
    Col ''id'' SERIAL [PrimaryKey], Col ''client_id'' UUID [References ''Counterparty'' Cascade],
    Col ''status'' (VARCHAR 20) [Default ''planned''], Col ''created_at'' (TIMESTAMP 6) [Now]]"

section \<open>Scripts run by hand\<close>

definition seed_schema :: script where
  "seed_schema = Atomic [DropTable ''Product'', price_type_table, phone_user_table, product_table, product_batch_table,
     order_item_table, order_item_batch_table, CreateIndex ''Product'' [''name''],
     Uses ''Product'' [''name'', ''prices'', ''unit'', ''category'', ''photos'', ''deleted'', ''updatedAt'']]"

definition init_orders_schema :: script where
  "init_orders_schema = Caught (Atomic [sync_log_table, order_table, text_order_item_table, text_order_item_batch_table])"

definition migrate_users_schema :: script where
  "migrate_users_schema = Atomic [DropTable ''User'', user_table, Uses ''User'' [''email'', ''password'', ''role'', ''warehouseId'']]"

definition migrate_counterparties :: script where
  "migrate_counterparties = Caught (Atomic [counterparty_group_table, counterparty_table])"

definition migrateV3 :: script where
  "migrateV3 = Caught (Atomic [product_batch_table, order_item_table, order_item_batch_table,
     CreateIndex ''ProductBatch'' [''productId''], CreateIndex ''ProductBatch'' [''createdAt''], CreateIndex ''OrderItem'' [''orderId'']])"

definition migrateV4 :: script where
  "migrateV4 = Atomic [price_journal_table, CreateIndex ''PriceJournal'' [''productId''], CreateIndex ''PriceJournal'' [''effectiveDate'']]"

definition migrateV5 :: script where
  "migrateV5 = Atomic [price_document_table, price_document_item_table,
     CreateIndex ''PriceDocument'' [''date''], CreateIndex ''PriceDocumentItem'' [''documentId'']]"

definition migrateV6 :: script where
  "migrateV6 = Caught (Each [AddColumn ''Order'' (Col ''isDeleted'' BOOLEAN [Default ''false'']), CreateIndex ''Order'' [''isDeleted'']])"

definition migrateV7 :: script where
  "migrateV7 = Atomic [organization_table, warehouse_table,
     AddColumn ''Counterparty'' (Col ''warehouseId'' UUID [References ''Warehouse'' NoAction]),
     realization_table, realization_item_table, CreateIndex ''Realization'' [''counterpartyId''],
     CreateIndex ''Realization'' [''date''], CreateIndex ''RealizationItem'' [''realizationId''],
     Uses ''Organization'' [''id'', ''name''], Uses ''Warehouse'' [''id'', ''name'', ''organizationId'']]"

definition migrateV8 :: script where
  "migrateV8 = Atomic [goods_receipt_table, goods_receipt_item_table,
     AddColumn ''ProductBatch'' (Col ''goodsReceiptId'' UUID [References ''GoodsReceipt'' SetNull]),
     CreateIndex ''GoodsReceipt'' [''warehouseId''], CreateIndex ''GoodsReceipt'' [''providerId''], CreateIndex ''GoodsReceipt'' [''date''],
     CreateIndex ''GoodsReceiptItem'' [''goodsReceiptId''], CreateIndex ''ProductBatch'' [''goodsReceiptId'']]"

text \<open>Two scripts are called V9.\<close>

definition migrateV9_price_type :: script where
  "migrateV9_price_type = Atomic [AddColumn ''GoodsReceipt'' (Col ''priceTypeId'' UUID [References ''PriceType'' NoAction]),
     CreateIndex ''GoodsReceipt'' [''priceTypeId'']]"

definition migrateV9_sort_order :: script where
  "migrateV9_sort_order = Atomic [AddColumn ''GoodsReceiptItem'' (Col ''sortOrder'' INTEGER [Default ''0'']),
     Uses ''GoodsReceiptItem'' [''id'', ''goodsReceiptId'', ''createdAt'', ''sortOrder'']]"

definition manualMigrateInventory :: script where
  "manualMigrateInventory = Caught (Atomic [product_batch_table, order_item_table, order_item_batch_table,
     CreateIndex ''ProductBatch'' [''productId''], CreateIndex ''ProductBatch'' [''createdAt''], CreateIndex ''OrderItem'' [''orderId''],
     price_journal_table, CreateIndex ''PriceJournal'' [''productId''], CreateIndex ''PriceJournal'' [''effectiveDate''],
     price_document_table, price_document_item_table,
     CreateIndex ''PriceDocument'' [''date''], CreateIndex ''PriceDocumentItem'' [''documentId'']])"

definition migrateV10 :: script where
  "migrateV10 = Atomic [AddColumn ''Realization'' (Col ''profit'' (DECIMAL 10 2) [NotNull, Default ''0'']),
     realization_item_batch_table, CreateIndex ''RealizationItemBatch'' [''realizationItemId''],
     CreateIndex ''RealizationItemBatch'' [''productBatchId'']]"

definition add_finance_tables :: script where
  "add_finance_tables = Atomic [cashbox_table, transaction_category_table, Uses ''TransactionCategory'' [''name'', ''type''],
     cash_transaction_table, AddColumn ''Realization'' (Col ''paidAmount'' (DECIMAL 10 2) [NotNull, Default ''0'']),
     AddColumn ''GoodsReceipt'' (Col ''paidAmount'' (DECIMAL 10 2) [NotNull, Default ''0'']), payment_allocation_table]"

definition add_order_id_to_realization :: script where
  "add_order_id_to_realization = Atomic [AddColumn ''Realization'' (Col ''orderId'' TEXT [References ''Order'' SetNull]),
     CreateIndex ''Realization'' [''orderId'']]"

definition add_sales_types :: script where
  "add_sales_types = Atomic [AddColumn ''Organization'' (Col ''salesTypes'' JSONB [DefaultArray default_sales_types]),
     AddColumn ''Counterparty'' (Col ''defaultSalesType'' (VARCHAR 255) [Default cash_sales_type]),
     AddColumn ''Realization'' (Col ''salesType'' (VARCHAR 255) [Default cash_sales_type]),
     Uses ''Counterparty'' [''defaultSalesType''], Uses ''Realization'' [''salesType'']]"

definition add_user_preferences :: script where
  "add_user_preferences = Each [AddColumn ''User'' (Col ''preferences'' JSONB [Default ''{}''])]"

definition add_buyer_return_to_batch :: script where
  "add_buyer_return_to_batch = Atomic [AddColumn ''ProductBatch'' (Col ''buyerReturnId'' UUID [References ''BuyerReturn'' SetNull]),
     CreateIndex ''ProductBatch'' [''buyerReturnId'']]"

definition add_org_to_counterparty :: script where
  "add_org_to_counterparty = Atomic [AddColumn ''Counterparty'' (Col ''organizationId'' UUID [References ''Organization'' SetNull]),
     CreateIndex ''Counterparty'' [''organizationId'']]"

definition price_list_fields_up :: script where
  "price_list_fields_up = Atomic [AddColumn ''Product'' (Col ''barcode'' TEXT []), AddColumn ''Product'' (Col ''packing'' TEXT []),
     AddColumn ''Product'' (Col ''tara'' TEXT [])]"

definition price_list_fields_down :: script where
  "price_list_fields_down = Atomic [DropColumn ''Product'' ''barcode'', DropColumn ''Product'' ''packing'', DropColumn ''Product'' ''tara'']"

definition add_rounding_method :: script where
  "add_rounding_method = Caught (Each [AddNewColumn ''PriceDocument'' (Col ''roundingMethod'' (VARCHAR 20) [Default ''NONE''])])"

definition add_rounding_value :: script where
  "add_rounding_value = Caught (Unless (HasColumn ''PriceDocument'' ''roundingValue'')
     (Each [AddNewColumn ''PriceDocument'' (Col ''roundingValue'' FLOAT [])]))"

definition add_counterparty_id :: script where
  "add_counterparty_id = Caught (Atomic [AddColumn ''Order'' (Col ''counterpartyId'' UUID [])])"

section \<open>The migrations of the start-up\<close>

definition add_comment_to_order :: script where
  "add_comment_to_order = Caught (Each [AddColumn ''Order'' (Col ''comment'' TEXT [])])"

definition add_doc_number :: script where
  "add_doc_number = Caught (Then (Each [AddColumn ''Order'' (Col ''docNumber'' TEXT [])])
     (Then (Caught (Each [AddColumn ''Realization'' (Col ''docNumber'' TEXT [])]))
        (Caught (Each [AddColumn ''GoodsReceipt'' (Col ''docNumber'' TEXT [])]))))"

definition add_user_counterparty :: script where
  "add_user_counterparty = Each [AddColumn ''User'' (Col ''counterpartyId'' (VARCHAR 255) []),
     AddColumn ''User'' (Col ''organizationId'' INTEGER [])]"

definition alter_quantity_decimals :: script where
  "alter_quantity_decimals = Caught (Unless (IsNumeric ''OrderItem'' ''quantity'')
     (Atomic [AlterType ''ProductBatch'' ''quantityTotal'' (DECIMAL 10 3), AlterType ''ProductBatch'' ''quantityLeft'' (DECIMAL 10 3),
        AlterType ''OrderItem'' ''quantity'' (DECIMAL 10 3), AlterType ''OrderItemBatch'' ''quantity'' (DECIMAL 10 3),
        AlterTypeIfPresent ''RealizationItemBatch'' ''quantity'' (DECIMAL 10 3)]))"

definition add_counterparty_subgroups :: script where
  "add_counterparty_subgroups =
     Caught (Each [AddColumn ''CounterpartyGroup'' (Col ''parentId'' UUID [References ''CounterpartyGroup'' Cascade])])"

definition create_collection_schedule :: script where
  "create_collection_schedule = Atomic [collection_schedule_table,
     AddColumn ''collection_schedule'' (Col ''day_of_week'' SMALLINT [Check ''day_of_week BETWEEN 1 AND 7'']),
     CreateIndex ''collection_schedule'' [''day_of_week''], CreateIndex ''collection_schedule'' [''client_id'', ''day_of_week'']]"

definition collection_schedule_cyclical :: script where
  "collection_schedule_cyclical = Atomic [DropColumn ''collection_schedule'' ''date'',
     AddColumn ''collection_schedule'' (Col ''day_of_week'' SMALLINT [Check ''day_of_week BETWEEN 1 AND 7'']),
     CreateIndex ''collection_schedule'' [''day_of_week''], CreateIndex ''collection_schedule'' [''client_id'', ''day_of_week'']]"

definition add_buyer_returns :: script where
  "add_buyer_returns = Caught (Atomic [buyer_return_table, buyer_return_item_table, buyer_return_item_batch_table])"

definition fix_buyerreturn_createdby :: script where
  "fix_buyerreturn_createdby = Caught (Each [AlterType ''BuyerReturn'' ''createdBy'' (VARCHAR 255)])"

definition add_supplier_returns :: script where
  "add_supplier_returns = Atomic [supplier_return_table, supplier_return_item_table, supplier_return_item_batch_table]"

definition create_document_lock :: script where
  "create_document_lock = Caught (Atomic [document_lock_table, Uses ''DocumentLock'' [''id'', ''isLocked'']])"

definition backfill_buyer_return_batch :: script where
  "backfill_buyer_return_batch = Atomic [Uses ''ProductBatch'' [''id'', ''buyerReturnId''],
     Uses ''BuyerReturnItemBatch'' [''buyerReturnItemId'', ''productBatchId''], Uses ''BuyerReturnItem'' [''id'', ''buyerReturnId'']]"

definition add_warehouse_to_documents :: script where
  "add_warehouse_to_documents = Caught (Each (map (\<lambda>t. AddColumn t (Col ''warehouseId'' UUID []))
     [''Order'', ''GoodsReceipt'', ''BuyerReturn'', ''SupplierReturn'']))"

definition backfill_warehouses :: script where
  "backfill_warehouses = Caught (Each (Uses ''Warehouse'' [''id'', ''createdAt''] # map (\<lambda>t. Uses t [''warehouseId''])
     [''Order'', ''GoodsReceipt'', ''BuyerReturn'', ''SupplierReturn'', ''Realization'']))"

definition add_user_permissions :: script where
  "add_user_permissions = Atomic [AddColumn ''User'' (Col ''permissions'' JSONB [Default default_permissions]),
     Uses ''User'' [''permissions'']]"

definition add_sort_order :: script where
  "add_sort_order = Caught (Unless (HasColumn ''OrderItem'' ''sortOrder'')
     (Atomic [AddColumn ''OrderItem'' (Col ''sortOrder'' INTEGER [Default ''0'']),
        AddColumn ''RealizationItem'' (Col ''sortOrder'' INTEGER [Default ''0''])]))"

definition add_in_box_to_product :: script where
  "add_in_box_to_product = Atomic [AddColumn ''Product'' (Col ''inBox'' (DECIMAL 10 3) [])]"

text \<open>The first migration that throws ends the start: the server exits.\<close>

definition in_turn :: "script list \<Rightarrow> script" where
  "in_turn ms = foldr Then ms (Each [])"

definition start_scripts :: "script list" where
  "start_scripts = [add_comment_to_order, add_doc_number, add_user_counterparty, alter_quantity_decimals,
     add_counterparty_subgroups, create_collection_schedule, collection_schedule_cyclical, add_buyer_returns,
     fix_buyerreturn_createdby, add_supplier_returns, create_document_lock, backfill_buyer_return_batch,
     add_warehouse_to_documents, backfill_warehouses, add_user_permissions, add_sort_order, add_in_box_to_product]"

definition start_schema :: "(string \<Rightarrow> string \<Rightarrow> column_type \<Rightarrow> bool) \<Rightarrow> schema \<Rightarrow> bool \<times> schema" where
  "start_schema casts = play casts (in_turn start_scripts)"

section \<open>What the start-up does to the schema\<close>

lemmas table_defs =
  collection_schedule_table_def buyer_return_table_def buyer_return_item_table_def buyer_return_item_batch_table_def
  supplier_return_table_def supplier_return_item_table_def supplier_return_item_batch_table_def document_lock_table_def

lemmas start_script_defs =
  start_scripts_def in_turn_def add_comment_to_order_def add_doc_number_def add_user_counterparty_def alter_quantity_decimals_def
  add_counterparty_subgroups_def create_collection_schedule_def collection_schedule_cyclical_def add_buyer_returns_def
  fix_buyerreturn_createdby_def add_supplier_returns_def create_document_lock_def backfill_buyer_return_batch_def
  add_warehouse_to_documents_def backfill_warehouses_def add_user_permissions_def add_sort_order_def add_in_box_to_product_def

lemmas start_statements = start_script_defs table_defs

definition altered_columns :: "(string \<times> string) list" where
  "altered_columns = [(''ProductBatch'', ''quantityTotal''), (''ProductBatch'', ''quantityLeft''), (''OrderItem'', ''quantity''),
     (''OrderItemBatch'', ''quantity''), (''RealizationItemBatch'', ''quantity''), (''BuyerReturn'', ''createdBy''),
     (''collection_schedule'', ''date'')]"

theorem start_keeps_columns:
  assumes "column_of t n s = Some c" and "(t, n) \<notin> set altered_columns"
  shows "column_of t n (snd (start_schema casts s)) = Some c"
proof -
  have "list_all (\<lambda>x. \<not> touches t n x) (statements_of (in_turn start_scripts))"
    using assms(2) by (auto simp: start_statements altered_columns_def)
  from column_stays.play_keeps[OF this assms(1)] show ?thesis by (simp add: start_schema_def)
qed

definition started_columns :: "(string \<times> string) list" where
  "started_columns = [(''User'', ''counterpartyId''), (''User'', ''organizationId''), (''User'', ''permissions''),
     (''collection_schedule'', ''client_id''), (''collection_schedule'', ''day_of_week''), (''ProductBatch'', ''buyerReturnId''),
     (''BuyerReturnItemBatch'', ''productBatchId''), (''BuyerReturnItem'', ''buyerReturnId''), (''Product'', ''inBox'')]"

lemma start_loses: "list_all (\<lambda>x. \<not> loses t n x) (statements_of (in_turn start_scripts)) \<longleftrightarrow> (t, n) \<noteq> (''collection_schedule'', ''date'')"
  by (auto simp add: start_statements)

lemma start_demands: "set started_columns \<subseteq> (\<Union>x \<in> set (executed_by (in_turn start_scripts)). set (demands x))"
  by (simp add: start_statements started_columns_def)

lemma start_adds: "list_all (\<lambda>x. \<not> adds ''ProductBatch'' ''buyerReturnId'' x) (statements_of (in_turn start_scripts))"
  by (simp add: start_statements)

text \<open>
  C39: the server starts only on a database that already has a column no migration of its start adds,
  \<open>ProductBatch.buyerReturnId\<close>, whatever else the database holds. When the migrations have returned, every
  column below exists.
\<close>

theorem started_schema_complete:
  assumes "start_schema casts s = (True, s')"
  shows "list_all (\<lambda>(t, n). has_column t n s') started_columns \<and> has_column ''ProductBatch'' ''buyerReturnId'' s"
proof -
  have run: "play casts (in_turn start_scripts) s = (True, s')" using assms by (simp add: start_schema_def)
  have there: "has_column t n s'" if "(t, n) \<in> set started_columns" for t n
  proof -
    from that start_demands obtain x where "x \<in> set (executed_by (in_turn start_scripts))" "(t, n) \<in> set (demands x)" by blast
    moreover have "(t, n) \<noteq> (''collection_schedule'', ''date'')" using that by (auto simp: started_columns_def)
    ultimately show ?thesis using played_there[OF run] start_loses by blast
  qed
  have "has_column ''ProductBatch'' ''buyerReturnId'' s'" by (rule there) (simp add: started_columns_def)
  then have "has_column ''ProductBatch'' ''buyerReturnId'' s"
    using column_absent.play_keeps[OF start_adds, of s casts] run by auto
  with there show ?thesis by (auto simp: list_all_iff)
qed

text \<open>A database on which all migrations but the last have run, with the column of the batches added by hand.\<close>

definition shop_schema :: schema where
  "shop_schema = [(''User'', [Col ''id'' SERIAL [PrimaryKey], Col ''counterpartyId'' (VARCHAR 255) [], Col ''organizationId'' INTEGER [],
       Col ''permissions'' JSONB []]),
     (''collection_schedule'', [Col ''client_id'' UUID [], Col ''day_of_week'' SMALLINT []]),
     (''Product'', [Col ''id'' UUID [PrimaryKey]]), (''ProductBatch'', [Col ''id'' UUID [PrimaryKey], Col ''buyerReturnId'' UUID []]),
     (''BuyerReturnItem'', [Col ''id'' UUID [PrimaryKey], Col ''buyerReturnId'' UUID []]),
     (''BuyerReturnItemBatch'', [Col ''buyerReturnItemId'' UUID [], Col ''productBatchId'' UUID []]),
     (''SupplierReturn'', [Col ''warehouseId'' UUID []]), (''SupplierReturnItem'', []), (''SupplierReturnItemBatch'', []),
     (''DocumentLock'', [Col ''id'' (VARCHAR 50) [PrimaryKey], Col ''isLocked'' BOOLEAN []])]"

lemma in_turn_idle:
  "\<forall>m \<in> set ms. play casts m s = (True, s) \<Longrightarrow> play casts (in_turn (ms @ ms')) s = play casts (in_turn ms') s"
  by (induction ms) (auto simp: in_turn_def)

lemmas schema_eval = references_ok_def has_column_def column_of_def without_references_def alter_type_def

abbreviation any_cast :: "string \<Rightarrow> string \<Rightarrow> column_type \<Rightarrow> bool" where
  "any_cast \<equiv> \<lambda>_ _ _. True"

lemma shop_starts: "fst (start_schema casts shop_schema)"
proof -
  have "\<forall>m \<in> set (butlast start_scripts). play casts m shop_schema = (True, shop_schema)"
    by (simp add: start_statements shop_schema_def schema_eval)
  from in_turn_idle[OF this, of "[last start_scripts]"]
  have "start_schema casts shop_schema = play casts (in_turn [last start_scripts]) shop_schema"
    by (simp add: start_schema_def start_scripts_def)
  then show ?thesis by (simp add: start_statements shop_schema_def schema_eval)
qed

theorem started_schema_complete_witness:
  "has_column ''Product'' ''inBox'' (snd (start_schema any_cast shop_schema)) \<and> \<not> has_column ''Product'' ''inBox'' shop_schema"
proof -
  have "start_schema any_cast shop_schema = (True, snd (start_schema any_cast shop_schema))"
    using shop_starts by (simp add: prod_eq_iff)
  from started_schema_complete[OF this] show ?thesis
    by (simp add: started_columns_def shop_schema_def has_column_def column_of_def)
qed

theorem start_keeps_columns_witness:
  "column_of ''ProductBatch'' ''id'' (snd (start_schema any_cast shop_schema)) = Some (Col ''id'' UUID [PrimaryKey])"
  by (rule start_keeps_columns) (simp_all add: shop_schema_def column_of_def altered_columns_def)

text \<open>An empty database, as the deployment guide leaves it, is never started on.\<close>

lemma empty_database_never_starts: "\<not> fst (start_schema casts [])"
  using started_schema_complete[of casts "[]"] by (cases "start_schema casts []") (auto simp: has_column_def column_of_def)

lemma in_turn_keeps:
  assumes "\<And>m s. m \<in> set ms \<Longrightarrow> P s \<Longrightarrow> P (snd (play casts m s))" and "P s"
  shows "P (snd (play casts (in_turn ms) s))"
  using assms
proof (induction ms arbitrary: s)
  case (Cons m ms)
  then have "P (snd (play casts m s))" by simp
  moreover have "P (snd (play casts (in_turn ms) s'))" if "P s'" for s' using Cons.IH[OF _ that] Cons.prems(1) by simp
  ultimately show ?case by (cases "play casts m s") (auto simp: in_turn_def split: bool.split)
qed (simp add: in_turn_def)

text \<open>
  The migration of the quantities looks at one column for all: once \<open>OrderItem.quantity\<close> is a DECIMAL, no start
  turns a quantity of the batches that is still an INTEGER into one.
\<close>

theorem integer_quantities_stay:
  assumes "holds (IsNumeric ''OrderItem'' ''quantity'') s"
    and "n \<in> {''quantityTotal'', ''quantityLeft''}" and "column_of ''ProductBatch'' n s = Some c"
  shows "column_of ''ProductBatch'' n (snd (start_schema casts s)) = Some c"
proof -
  obtain q where q: "column_of ''OrderItem'' ''quantity'' s = Some q" "holds (IsNumeric ''OrderItem'' ''quantity'') s"
    using assms(1) by (auto split: option.splits)
  define P where "P s' \<longleftrightarrow> column_of ''ProductBatch'' n s' = Some c \<and> column_of ''OrderItem'' ''quantity'' s' = Some q" for s'
  have "P (snd (play casts m s'))" if "m \<in> set start_scripts" "P s'" for m s'
  proof (cases "m = alter_quantity_decimals")
    case True
    have "holds (IsNumeric ''OrderItem'' ''quantity'') s'" using that(2) q by (simp add: P_def)
    with True that(2) show ?thesis by (simp add: alter_quantity_decimals_def)
  next
    case False
    then have "list_all (\<lambda>x. \<not> touches ''ProductBatch'' n x) (statements_of m)"
      "list_all (\<lambda>x. \<not> touches ''OrderItem'' ''quantity'' x) (statements_of m)"
      using that(1) assms(2) by (auto simp: start_statements)
    with that(2) column_stays.play_keeps show ?thesis by (simp add: P_def)
  qed
  from in_turn_keeps[of start_scripts P, OF this] assms(3) q(1) show ?thesis by (simp add: P_def start_schema_def)
qed

definition half_migrated :: schema where
  "half_migrated = [(''OrderItem'', [Col ''quantity'' (DECIMAL 10 3) []]), (''ProductBatch'', [Col ''quantityLeft'' INTEGER [NotNull]])]"

theorem integer_quantities_stay_witness:
  "column_of ''ProductBatch'' ''quantityLeft'' (snd (start_schema any_cast half_migrated)) = Some (Col ''quantityLeft'' INTEGER [NotNull])"
  by (rule integer_quantities_stay) (simp_all add: half_migrated_def column_of_def)

section \<open>The order of the scripts\<close>

lemmas first_tables =
  price_type_table_def phone_user_table_def product_table_def product_batch_table_def order_item_table_def order_item_batch_table_def
  sync_log_table_def order_table_def text_order_item_table_def text_order_item_batch_table_def

text \<open>
  The first script that creates the items of the orders decides their columns. After \<open>seed.ts\<close> they refer to no
  order, and to a key of another type; after \<open>init_orders_schema.mjs\<close> they are deleted with their order.
\<close>

theorem first_script_decides_order_items:
  "column_of ''OrderItem'' ''orderId'' (snd (play casts (in_turn [seed_schema, init_orders_schema]) [])) = Some (Col ''orderId'' UUID [NotNull])"
  "column_of ''OrderItem'' ''orderId'' (snd (play casts (in_turn [init_orders_schema, seed_schema]) [])) =
     Some (Col ''orderId'' TEXT [NotNull, References ''Order'' Cascade])"
  "column_of ''Order'' ''id'' (snd (play casts (in_turn [seed_schema, init_orders_schema]) [])) = Some (Col ''id'' TEXT [PrimaryKey])"
  by (simp_all add: in_turn_def seed_schema_def init_orders_schema_def first_tables schema_eval)

text \<open>
  Seeding a filled database drops the products with CASCADE: every table that refers to them keeps its rows and loses the
  reference.
\<close>

theorem seeding_drops_references:
  assumes "play casts seed_schema s = (True, s')" and "column_of t n s = Some c" and "t \<noteq> ''Product''"
  shows "column_of t n s' = Some (without_references ''Product'' c)"
proof -
  let ?tables = "[price_type_table, phone_user_table, product_table, product_batch_table, order_item_table, order_item_batch_table,
    CreateIndex ''Product'' [''name''],
    Uses ''Product'' [''name'', ''prices'', ''unit'', ''category'', ''photos'', ''deleted'', ''updatedAt'']]"
  obtain s1 where s1: "execute casts (DropTable ''Product'') s = Some s1" "execute_all casts ?tables s1 = Some s'"
    using assms(1) by (auto simp: seed_schema_def simp del: execute.simps(3-) split: option.splits)
  have "column_of t n s1 = Some (without_references ''Product'' c)"
    using s1(1) assms(2,3) by (auto simp: drop_table_column)
  moreover have "list_all (\<lambda>x. \<not> touches t n x) ?tables" by (simp add: first_tables)
  ultimately show ?thesis using column_stays.execute_all_keeps s1(2) by blast
qed

definition returned_goods :: schema where
  "returned_goods = [(''Product'', [Col ''id'' UUID [PrimaryKey]]),
     (''BuyerReturnItem'', [Col ''productId'' UUID [NotNull, References ''Product'' NoAction]])]"

theorem seeding_drops_references_witness:
  "column_of ''BuyerReturnItem'' ''productId'' (snd (play any_cast seed_schema returned_goods)) = Some (Col ''productId'' UUID [NotNull])"
proof -
  have "play any_cast seed_schema returned_goods = (True, snd (play any_cast seed_schema returned_goods))"
    by (simp add: returned_goods_def seed_schema_def first_tables schema_eval)
  from seeding_drops_references[OF this, of "''BuyerReturnItem''" "''productId''"] show ?thesis
    by (simp add: returned_goods_def column_of_def without_references_def)
qed

end
