(* ===== verification/Restart.thy ===== *)
theory Restart
  imports Migrations
begin

text \<open>
  Running the schema scripts again: when a statement changes nothing, what another statement can undo of it, and that the
  migrations of the start-up, once all have succeeded, leave a schema the next start does not touch.
\<close>

section \<open>Statements that change nothing\<close>

definition typed :: "string \<Rightarrow> string \<Rightarrow> column_type \<Rightarrow> schema \<Rightarrow> bool" where
  "typed t n ty s \<longleftrightarrow> has_column t n s \<and> list_all (\<lambda>c. col_name c = n \<longrightarrow> col_type c = ty) (the (map_of s t))"

text \<open>A statement is settled when it succeeds and changes nothing.\<close>

fun settled :: "(string \<Rightarrow> string \<Rightarrow> column_type \<Rightarrow> bool) \<Rightarrow> ddl \<Rightarrow> schema \<Rightarrow> bool" where
  "settled casts (CreateTable t cs) s \<longleftrightarrow> map_of s t \<noteq> None"
| "settled casts (AddColumn t c) s \<longleftrightarrow> has_column t (col_name c) s"
| "settled casts (DropColumn t n) s \<longleftrightarrow> map_of s t \<noteq> None \<and> \<not> has_column t n s"
| "settled casts (AlterType t n ty) s \<longleftrightarrow> casts t n ty \<and> typed t n ty s"
| "settled casts (AlterTypeIfPresent t n ty) s \<longleftrightarrow> has_column t n s \<longrightarrow> casts t n ty \<and> typed t n ty s"
| "settled casts (CreateIndex t ns) s \<longleftrightarrow> map_of s t \<noteq> None \<and> list_all (\<lambda>n. has_column t n s) ns"
| "settled casts (Uses t ns) s \<longleftrightarrow> map_of s t \<noteq> None \<and> list_all (\<lambda>n. has_column t n s) ns"
| "settled casts _ s \<longleftrightarrow> False"

lemma has_column_table: "has_column t n s \<Longrightarrow> \<exists>cs. map_of s t = Some cs \<and> n \<in> col_name ` set cs"
  by (auto simp: has_column_def column_of_def find_None_iff bind_eq_Some_conv find_Some_iff split: option.splits)

lemma has_column_iff: "map_of s t = Some cs \<Longrightarrow> has_column t n s \<longleftrightarrow> n \<in> col_name ` set cs"
  by (auto simp: has_column_def column_of_def find_None_iff)

lemma typed_iff: "map_of s t = Some cs \<Longrightarrow>
    typed t n ty s \<longleftrightarrow> n \<in> col_name ` set cs \<and> (\<forall>c \<in> set cs. col_name c = n \<longrightarrow> col_type c = ty)"
  by (simp add: typed_def has_column_iff list_all_iff)

lemma update_same: "map_of s t = Some cs \<Longrightarrow> AList.update t cs s = s"
  by (induction s) auto

lemma retyped_names [simp]: "col_name ` set (retyped n ty cs) = col_name ` set cs"
proof -
  have "map col_name (retyped n ty cs) = map col_name cs" by (simp add: retyped_def)
  then show ?thesis by (metis list.set_map)
qed

lemma retyped_type: "c \<in> set (retyped m ty cs) \<Longrightarrow>
    (col_name c = m \<and> col_type c = ty) \<or> (col_name c \<noteq> m \<and> c \<in> set cs)"
  by (auto simp: retyped_def split: if_splits)

lemma alter_type_settled:
  assumes "casts t n ty" and "typed t n ty s"
  shows "alter_type casts t n ty s = Some s"
proof -
  from assms(2) have "has_column t n s" by (simp add: typed_def)
  then obtain cs where cs: "map_of s t = Some cs" using has_column_table by blast
  have "retyped n ty cs = cs"
    using assms(2) cs unfolding retyped_def by (intro map_idI) (auto simp: typed_iff intro!: column.expand)
  with cs assms show ?thesis by (simp add: alter_type_def typed_def update_same)
qed

lemma settled_execute: "settled casts x s \<Longrightarrow> execute casts x s = Some s"
proof (cases x)
  case (DropColumn t n)
  assume "settled casts x s"
  with DropColumn obtain cs where "map_of s t = Some cs" "\<not> has_column t n s" by auto
  moreover from this have "filter (\<lambda>c. col_name c \<noteq> n) cs = cs" by (auto simp: has_column_iff filter_id_conv)
  ultimately show ?thesis using DropColumn by (simp add: update_same)
next
  case (AddColumn t c)
  assume "settled casts x s"
  with AddColumn show ?thesis using has_column_table by fastforce
qed (auto simp: alter_type_settled)

lemma alter_type_typed:
  assumes "alter_type casts t n ty s = Some s'"
  shows "casts t n ty \<and> typed t n ty s'"
proof -
  from assms obtain cs where cs: "map_of s t = Some cs" "has_column t n s" "casts t n ty"
    and s': "s' = AList.update t (retyped n ty cs) s"
    by (auto simp: alter_type_def split: option.splits if_splits)
  moreover have "map_of s' t = Some (retyped n ty cs)" by (simp add: s' update_conv')
  ultimately show ?thesis by (auto simp: typed_iff has_column_iff dest!: retyped_type)
qed

fun repeatable :: "ddl \<Rightarrow> bool" where
  "repeatable (DropTable t) \<longleftrightarrow> False"
| "repeatable (AddNewColumn t c) \<longleftrightarrow> False"
| "repeatable _ \<longleftrightarrow> True"

lemma execute_settles:
  assumes "execute casts x s = Some s'" and "repeatable x"
  shows "settled casts x s'"
proof (cases x)
  case (AddColumn t c)
  then show ?thesis using executed_there[OF assms(1)] by simp
next
  case (DropColumn t n)
  with assms(1) obtain cs where "s' = AList.update t (filter (\<lambda>c. col_name c \<noteq> n) cs) s" by (auto split: option.splits)
  then have "map_of s' t = Some (filter (\<lambda>c. col_name c \<noteq> n) cs)" by (simp add: update_conv')
  then show ?thesis using DropColumn by (auto simp: has_column_iff)
qed (use assms in \<open>auto simp: Let_def update_conv' dest: alter_type_typed split: if_splits\<close>)

text \<open>What a statement can undo of another.\<close>

fun disturbs :: "ddl \<Rightarrow> ddl \<Rightarrow> bool" where
  "disturbs y (DropColumn t n) \<longleftrightarrow> adds t n y"
| "disturbs (DropColumn t n) x \<longleftrightarrow> List.member (demands x) (t, n)"
| "disturbs (AlterType t n ty) (AlterType u m ty') \<longleftrightarrow> t = u \<and> n = m \<and> ty \<noteq> ty'"
| "disturbs (AlterType t n ty) (AlterTypeIfPresent u m ty') \<longleftrightarrow> t = u \<and> n = m \<and> ty \<noteq> ty'"
| "disturbs (AlterTypeIfPresent t n ty) (AlterType u m ty') \<longleftrightarrow> t = u \<and> n = m \<and> ty \<noteq> ty'"
| "disturbs (AlterTypeIfPresent t n ty) (AlterTypeIfPresent u m ty') \<longleftrightarrow> t = u \<and> n = m \<and> ty \<noteq> ty'"
| "disturbs y (AlterTypeIfPresent t n ty) \<longleftrightarrow> adds t n y"
| "disturbs y x \<longleftrightarrow> False"

lemma table_stays: "execute casts y s = Some s' \<Longrightarrow> repeatable y \<Longrightarrow> map_of s t \<noteq> None \<Longrightarrow> map_of s' t \<noteq> None"
  by (cases y) (auto simp: Let_def update_conv' alter_type_def split: option.splits if_splits)

lemma typed_stays:
  assumes "typed t n ty s" and "execute casts y s = Some s'" and "repeatable y" and "\<not> loses t n y"
    and "\<not> disturbs y (AlterType t n ty)"
  shows "typed t n ty s'"
proof -
  from assms(1) have "has_column t n s" by (simp add: typed_def)
  then obtain cs where cs: "map_of s t = Some cs" "n \<in> col_name ` set cs" using has_column_table by blast
  with assms(1) have ty: "\<forall>c \<in> set cs. col_name c = n \<longrightarrow> col_type c = ty" by (simp add: typed_iff)
  have "\<exists>cs'. map_of s' t = Some cs' \<and> n \<in> col_name ` set cs' \<and> (\<forall>c \<in> set cs'. col_name c = n \<longrightarrow> col_type c = ty)"
    using assms(2-5) cs ty
    by (cases y) (auto simp: Let_def update_conv' alter_type_def has_column_iff dest!: retyped_type split: option.splits if_splits)
  then show ?thesis by (auto simp: typed_iff)
qed

lemma loses_repeatable: "loses t n y \<Longrightarrow> repeatable y \<Longrightarrow> y = DropColumn t n"
  by (cases y) auto

lemma settled_stays:
  assumes "settled casts x s" and "execute casts y s = Some s'" and "repeatable y" and "\<not> disturbs y x"
  shows "settled casts x s'"
proof -
  have there: "has_column t n s'" if "has_column t n s" "(t, n) \<in> set (demands x)" for t n
  proof -
    have "\<not> loses t n y" using assms(3,4) that(2) loses_repeatable by (cases x) fastforce+
    from column_there.step[OF this that(1) assms(2)] show ?thesis .
  qed
  note table = table_stays[OF assms(2,3)]
  show ?thesis
  proof (cases x)
    case (DropColumn t n)
    with assms table[of t] column_absent.step[OF _ _ assms(2), of t n] show ?thesis by simp
  next
    case (AlterType t n ty)
    with assms(4) have "\<not> loses t n y" using loses_repeatable[OF _ assms(3), of t n] by auto
    with AlterType assms typed_stays[OF _ assms(2,3), of t n ty] show ?thesis by simp
  next
    case (AlterTypeIfPresent t n ty)
    show ?thesis
    proof (cases "has_column t n s \<and> \<not> loses t n y")
      case True
      have "\<not> disturbs y (AlterType t n ty)" using assms(4) AlterTypeIfPresent True by (cases y) auto
      with True AlterTypeIfPresent assms(1) typed_stays[OF _ assms(2,3), of t n ty] show ?thesis by simp
    next
      case False
      have "\<not> has_column t n s'"
      proof (cases "has_column t n s")
        case True
        with False have "y = DropColumn t n" using loses_repeatable assms(3) by blast
        with execute_settles[OF assms(2,3)] show ?thesis by simp
      next
        case False
        have "\<not> adds t n y" using assms(4) AlterTypeIfPresent by (cases y) auto
        from column_absent.step[OF this False assms(2)] show ?thesis .
      qed
      with AlterTypeIfPresent show ?thesis by simp
    qed
  qed (use assms(1) there table in \<open>auto simp: list_all_iff\<close>)
qed

section \<open>Scripts that change nothing\<close>

text \<open>What a statement can undo of a check of the catalogue.\<close>

fun upsets :: "ddl \<Rightarrow> catalogue_check \<Rightarrow> bool" where
  "upsets y (HasColumn t n) \<longleftrightarrow> loses t n y"
| "upsets (AlterType u m (DECIMAL a b)) (IsNumeric t n) \<longleftrightarrow> False"
| "upsets y (IsNumeric t n) \<longleftrightarrow> touches t n y"

lemma holds_stays:
  assumes "holds q s" and "execute casts y s = Some s'" and "\<not> upsets y q"
  shows "holds q s'"
proof (cases q)
  case (HasColumn t n)
  with assms column_there.step[of t n y s casts s'] show ?thesis by simp
next
  case (IsNumeric t n)
  with assms(1) obtain c where c: "column_of t n s = Some c" "holds q s" by (auto split: option.splits)
  show ?thesis
  proof (cases "touches t n y")
    case True
    with assms(3) IsNumeric obtain a b where "y = AlterType t n (DECIMAL a b)" by (cases "(y, q)" rule: upsets.cases) auto
    with assms(2) c IsNumeric alter_type_column[of casts t n "DECIMAL a b" s s' t n] show ?thesis by simp
  next
    case False
    from column_stays.step[OF this c(1) assms(2)] c IsNumeric show ?thesis by simp
  qed
qed

text \<open>A script is calm when running it does nothing, and smooth when none of its statements fails, caught or not.\<close>

fun checks_of :: "script \<Rightarrow> catalogue_check list" where
  "checks_of (Caught m) = checks_of m"
| "checks_of (Then m m') = checks_of m @ checks_of m'"
| "checks_of (Unless q m) = q # checks_of m"
| "checks_of _ = []"

fun calm :: "(string \<Rightarrow> string \<Rightarrow> column_type \<Rightarrow> bool) \<Rightarrow> script \<Rightarrow> schema \<Rightarrow> bool" where
  "calm casts (Atomic xs) s \<longleftrightarrow> list_all (\<lambda>x. settled casts x s) xs"
| "calm casts (Each xs) s \<longleftrightarrow> list_all (\<lambda>x. settled casts x s) xs"
| "calm casts (Caught m) s \<longleftrightarrow> calm casts m s"
| "calm casts (Then m m') s \<longleftrightarrow> calm casts m s \<and> calm casts m' s"
| "calm casts (Unless q m) s \<longleftrightarrow> holds q s \<or> calm casts m s"

fun smooth :: "(string \<Rightarrow> string \<Rightarrow> column_type \<Rightarrow> bool) \<Rightarrow> script \<Rightarrow> schema \<Rightarrow> bool" where
  "smooth casts (Atomic xs) s \<longleftrightarrow> execute_all casts xs s \<noteq> None"
| "smooth casts (Each xs) s \<longleftrightarrow> execute_all casts xs s \<noteq> None"
| "smooth casts (Caught m) s \<longleftrightarrow> smooth casts m s"
| "smooth casts (Then m m') s \<longleftrightarrow> smooth casts m s \<and> smooth casts m' (snd (play casts m s))"
| "smooth casts (Unless q m) s \<longleftrightarrow> holds q s \<or> smooth casts m s"

definition tolerates :: "script \<Rightarrow> ddl \<Rightarrow> bool" where
  "tolerates m y \<longleftrightarrow> repeatable y \<and> list_all (\<lambda>x. \<not> disturbs y x) (statements_of m) \<and> list_all (\<lambda>q. \<not> upsets y q) (checks_of m)"

lemma settled_execute_all: "list_all (\<lambda>x. settled casts x s) xs \<Longrightarrow> execute_all casts xs s = Some s"
  by (induction xs) (auto simp: settled_execute)

lemma calm_play: "calm casts m s \<Longrightarrow> play casts m s = (True, s)"
proof (induction m)
  case (Each xs)
  then show ?case using settled_execute_all[of casts s xs] by (simp add: execute_each_all)
qed (auto simp: settled_execute_all)

interpretation calm_stays: script_invariant casts "calm casts m" "tolerates m" for casts m
proof
  fix y s s'
  assume "tolerates m y" "calm casts m s" and run: "execute casts y s = Some s'"
  then show "calm casts m s'"
  proof (induction m)
    case (Unless q m)
    then show ?case using holds_stays[OF _ run, of q] by (auto simp: tolerates_def)
  qed (use settled_stays[OF _ run] in \<open>auto simp: tolerates_def list_all_iff\<close>)
qed

lemma all_settle:
  assumes "execute_all casts xs s = Some s'" and "list_all (\<lambda>y. repeatable y \<and> list_all (\<lambda>x. \<not> disturbs y x) xs) xs"
  shows "list_all (\<lambda>x. settled casts x s') xs"
  using assms
proof (induction xs arbitrary: s)
  case (Cons x xs)
  then obtain s1 where s1: "execute casts x s = Some s1" "execute_all casts xs s1 = Some s'" by (auto simp: bind_eq_Some_conv)
  have "calm casts (Atomic [x]) s1" using execute_settles[OF s1(1)] Cons.prems(2) by simp
  moreover have "list_all (tolerates (Atomic [x])) xs" using Cons.prems(2) by (auto simp: list_all_iff tolerates_def)
  ultimately have "calm casts (Atomic [x]) s'" using calm_stays.execute_all_keeps s1(2) by blast
  moreover have "list_all (\<lambda>x. settled casts x s') xs"
    using Cons.IH[OF s1(2)] Cons.prems(2) by (auto simp: list_all_iff)
  ultimately show ?case by simp
qed simp

lemma smooth_calm:
  assumes "smooth casts m s" and "list_all (tolerates m) (statements_of m)"
  shows "calm casts m (snd (play casts m s)) \<and> fst (play casts m s)"
  using assms
proof (induction m arbitrary: s)
  case (Atomic xs)
  then obtain s' where s': "execute_all casts xs s = Some s'" by auto
  moreover have "list_all (\<lambda>x. settled casts x s') xs"
    by (rule all_settle[OF s']) (use Atomic.prems(2) in \<open>auto simp: tolerates_def list_all_iff\<close>)
  ultimately show ?case by simp
next
  case (Each xs)
  then obtain s' where s': "execute_all casts xs s = Some s'" by auto
  moreover have "list_all (\<lambda>x. settled casts x s') xs"
    by (rule all_settle[OF s']) (use Each.prems(2) in \<open>auto simp: tolerates_def list_all_iff\<close>)
  ultimately show ?case using execute_each_all[of casts xs s s'] by simp
next
  case (Caught m)
  then show ?case by (auto simp: tolerates_def list_all_iff)
next
  case (Then m m')
  have own: "list_all (tolerates m) (statements_of m)" "list_all (tolerates m') (statements_of m')"
    "list_all (tolerates m) (statements_of m')"
    using Then.prems(2) by (auto simp: tolerates_def list_all_iff)
  obtain s1 where s1: "play casts m s = (True, s1)" "calm casts m s1"
    using Then.IH(1)[OF _ own(1), of s] Then.prems(1) by (cases "play casts m s") auto
  have "calm casts m (snd (play casts m' s1))" by (rule calm_stays.play_keeps[OF own(3) s1(2)])
  with s1(1) Then.IH(2)[OF _ own(2), of s1] Then.prems(1) show ?case by simp
next
  case (Unless q m)
  then show ?case by (auto simp: tolerates_def list_all_iff)
qed

lemma start_tolerates: "list_all (tolerates (in_turn start_scripts)) (statements_of (in_turn start_scripts))"
  by (simp add: tolerates_def start_statements)

text \<open>C34: starting again on the schema that a start without a failing statement leaves changes nothing.\<close>

theorem restart_keeps_schema:
  assumes "smooth casts (in_turn start_scripts) s" and "start_schema casts s = (v, s')"
  shows "start_schema casts s' = (True, s')"
  using calm_play smooth_calm[OF assms(1) start_tolerates] assms(2) by (simp add: start_schema_def)

lemma calm_smooth: "calm casts m s \<Longrightarrow> smooth casts m s"
  by (induction m) (auto simp: settled_execute_all calm_play)

lemma smooth_in_turn:
  "\<forall>m \<in> set ms. calm casts m s \<Longrightarrow> smooth casts (in_turn ms') s \<Longrightarrow> smooth casts (in_turn (ms @ ms')) s"
  by (induction ms) (auto simp: in_turn_def calm_smooth calm_play)

definition busy_shop :: schema where
  "busy_shop = shop_schema @
     [(''Order'', [Col ''comment'' TEXT [], Col ''docNumber'' TEXT [], Col ''warehouseId'' UUID []]),
      (''Realization'', [Col ''docNumber'' TEXT [], Col ''warehouseId'' UUID []]),
      (''GoodsReceipt'', [Col ''docNumber'' TEXT [], Col ''warehouseId'' UUID []]),
      (''BuyerReturn'', [Col ''createdBy'' (VARCHAR 255) [], Col ''warehouseId'' UUID []]),
      (''OrderItem'', [Col ''quantity'' (DECIMAL 10 3) [], Col ''sortOrder'' INTEGER []]),
      (''CounterpartyGroup'', [Col ''parentId'' UUID []]), (''Warehouse'', [Col ''id'' UUID [PrimaryKey], Col ''createdAt'' TIMESTAMPTZ []])]"

lemma busy_shop_smooth: "smooth any_cast (in_turn start_scripts) busy_shop"
proof -
  have "\<forall>m \<in> set (butlast start_scripts). calm any_cast m busy_shop"
    by (simp add: start_statements busy_shop_def shop_schema_def typed_def has_column_def column_of_def)
  moreover have "smooth any_cast (in_turn [last start_scripts]) busy_shop"
    by (simp add: start_statements busy_shop_def shop_schema_def schema_eval)
  ultimately have "smooth any_cast (in_turn (butlast start_scripts @ [last start_scripts])) busy_shop" by (rule smooth_in_turn)
  then show ?thesis by (simp add: start_scripts_def)
qed

theorem restart_keeps_schema_witness:
  "start_schema any_cast (snd (start_schema any_cast busy_shop)) = (True, snd (start_schema any_cast busy_shop))"
  by (rule restart_keeps_schema[OF busy_shop_smooth surjective_pairing])

end
