(* ===== verification/SalesReports.thy ===== *)
theory SalesReports
  imports Auth Queries
begin

text \<open>
  The sales reports of \<open>src/routes/reports.ts\<close>: by client, the items of one client, and by product. Realizations
  count as sales, buyer returns as negative ones. \<open>found\<close> is the pattern \<open>ILIKE '%counterparty%'\<close> and \<open>divide_numeric\<close>
  the division of NUMERIC values, which rounds; \<open>tz\<close> and \<open>pg_date\<close> are those of the stock reports.
\<close>

section \<open>Filters\<close>

text \<open>The labels of the sales type column, in UTF-8: a return, and a realization without a sales type.\<close>

definition return_label :: string where
  "return_label = map char_of [208, 159, 208, 190, 208, 178, 208, 181, 209, 128, 208, 189, 208, 181, 208, 189, 208, 189, 209, 143 :: nat]"

definition undefined_label :: string where
  "undefined_label = map char_of [208, 157, 208, 181, 32, 208, 178, 208, 184, 208, 183, 208, 189, 208, 176, 209, 135, 208, 181, 208, 189, 208, 190 :: nat]"

record sales_filter =
  sf_user :: "req_user option"
  sf_from :: "int option"
  sf_to :: "int option"
  sf_counterparty :: "string option"
  sf_client :: "ident option"
  sf_salesType :: "string option"

definition in_own_warehouse :: "sales_filter \<Rightarrow> ident option \<Rightarrow> bool" where
  "in_own_warehouse f w = (case restricted_to (sf_user f) of None \<Rightarrow> True | Some own \<Rightarrow> w = Some own)"

text \<open>\<open>c.name\<close> comes from a LEFT JOIN: without a counterparty it is NULL and matches no pattern.\<close>

definition client_named :: "(string \<Rightarrow> string \<Rightarrow> bool) \<Rightarrow> sales_filter \<Rightarrow> db \<Rightarrow> ident option \<Rightarrow> bool" where
  "client_named found f d c = (case sf_counterparty f of None \<Rightarrow> True
     | Some s \<Rightarrow> (case join_name cp_id cp_name (Counterparty d) c of None \<Rightarrow> False | Some n \<Rightarrow> found s n))"

definition is_client :: "sales_filter \<Rightarrow> ident option \<Rightarrow> bool" where
  "is_client f c = (case sf_client f of None \<Rightarrow> True | Some i \<Rightarrow> c = Some i)"

definition sold_as :: "sales_filter \<Rightarrow> string option \<Rightarrow> bool" where
  "sold_as f t = (case sf_salesType f of None \<Rightarrow> True
     | Some s \<Rightarrow> if s = return_label then False else if s = undefined_label then t = None \<or> t = Some [] else t = Some s)"

definition returns_shown :: "sales_filter \<Rightarrow> bool" where
  "returns_shown f = (case sf_salesType f of None \<Rightarrow> True | Some s \<Rightarrow> s = return_label)"

definition sale_counts :: "int \<Rightarrow> (string \<Rightarrow> string \<Rightarrow> bool) \<Rightarrow> sales_filter \<Rightarrow> db \<Rightarrow> realization \<Rightarrow> bool" where
  "sale_counts tz found f d r \<longleftrightarrow> rl_status r = POSTED \<and> in_own_warehouse f (rl_warehouseId r) \<and>
     is_client f (rl_counterpartyId r) \<and> in_window (sf_from f) (sf_to f) (local_day tz (rl_date r)) \<and>
     client_named found f d (rl_counterpartyId r) \<and> sold_as f (rl_salesType r)"

definition return_counts :: "(string \<Rightarrow> string \<Rightarrow> bool) \<Rightarrow> sales_filter \<Rightarrow> db \<Rightarrow> buyer_return \<Rightarrow> bool" where
  "return_counts found f d r \<longleftrightarrow> br_status r = POSTED \<and> in_own_warehouse f (Some (br_warehouseId r)) \<and>
     is_client f (Some (br_counterpartyId r)) \<and> in_window (sf_from f) (sf_to f) (local_day (tz_offset d) (br_date r)) \<and>
     client_named found f d (Some (br_counterpartyId r)) \<and> returns_shown f"

text \<open>\<open>COALESCE(NULLIF(r."salesType", ''), ...)\<close> when the report groups by it, else the empty text.\<close>

definition sale_label :: "bool \<Rightarrow> realization \<Rightarrow> string" where
  "sale_label grouped r = (if grouped then (case non_empty (rl_salesType r) of None \<Rightarrow> undefined_label | Some s \<Rightarrow> s) else [])"

section \<open>Sales by client\<close>

record base_doc =
  bd_counterpartyId :: "ident option"
  bd_id :: ident
  bd_netAmount :: decimal
  bd_netProfit :: decimal
  bd_salesType :: string

definition base_docs :: "int \<Rightarrow> (string \<Rightarrow> string \<Rightarrow> bool) \<Rightarrow> bool \<Rightarrow> sales_filter \<Rightarrow> db \<Rightarrow> base_doc list" where
  "base_docs tz found grouped f d =
     map (\<lambda>r. \<lparr>bd_counterpartyId = rl_counterpartyId r, bd_id = rl_id r, bd_netAmount = rl_amount r,
         bd_netProfit = rl_profit r, bd_salesType = sale_label grouped r\<rparr>) (filter (sale_counts tz found f d) (Realization d)) @
     map (\<lambda>r. \<lparr>bd_counterpartyId = Some (br_counterpartyId r), bd_id = br_id r, bd_netAmount = - br_totalAmount r,
         bd_netProfit = br_profit r, bd_salesType = return_label\<rparr>) (filter (return_counts found f d) (BuyerReturn d))"

record client_row =
  cr_clientId :: "ident option"
  cr_clientName :: "string option"
  cr_salesType :: "string option"
  cr_documentsCount :: nat
  cr_totalAmount :: decimal
  cr_totalProfit :: decimal

text \<open>The client of a document: NULL also when the counterparty is not stored.\<close>

definition joined_client :: "db \<Rightarrow> ident option \<Rightarrow> ident option" where
  "joined_client d c = join_name cp_id cp_id (Counterparty d) c"

definition client_key :: "bool \<Rightarrow> db \<Rightarrow> base_doc \<Rightarrow> ident option \<times> string option" where
  "client_key grouped d x = (joined_client d (bd_counterpartyId x), if grouped then Some (bd_salesType x) else None)"

definition client_row_of :: "db \<Rightarrow> (ident option \<times> string option) \<times> base_doc list \<Rightarrow> client_row" where
  "client_row_of d = (\<lambda>((c, t), docs). \<lparr>cr_clientId = c, cr_clientName = join_name cp_id cp_name (Counterparty d) c,
     cr_salesType = t, cr_documentsCount = length docs, cr_totalAmount = sum_of bd_netAmount docs,
     cr_totalProfit = sum_of bd_netProfit docs\<rparr>)"

definition client_rows :: "int \<Rightarrow> (string \<Rightarrow> string \<Rightarrow> bool) \<Rightarrow> bool \<Rightarrow> sales_filter \<Rightarrow> db \<Rightarrow> client_row list" where
  "client_rows tz found grouped f d = sort_key (\<lambda>r. - cr_totalAmount r)
     (map (client_row_of d) (group_by (client_key grouped d) (base_docs tz found grouped f d)))"

text \<open>The query string; the last three are empty for the reports that do not read them.\<close>

record sales_query =
  sq_dateFrom :: "string option"
  sq_dateTo :: "string option"
  sq_counterparty :: "string option"
  sq_groupBySalesType :: "string option"
  sq_salesType :: "string option"

definition read_filter :: "(string \<Rightarrow> int option) \<Rightarrow> req_user option \<Rightarrow> ident option \<Rightarrow> sales_query \<Rightarrow> error + sales_filter" where
  "read_filter pg_date user client q =
     rbind (read_param pg_date (non_empty (sq_dateFrom q))) (\<lambda>from_day.
     rbind (read_param pg_date (non_empty (sq_dateTo q))) (\<lambda>to_day.
     Inr \<lparr>sf_user = user, sf_from = from_day, sf_to = to_day, sf_counterparty = non_empty (sq_counterparty q),
       sf_client = client, sf_salesType = non_empty (sq_salesType q)\<rparr>))"

definition sales_by_client ::
  "int \<Rightarrow> (string \<Rightarrow> int option) \<Rightarrow> (string \<Rightarrow> string \<Rightarrow> bool) \<Rightarrow> req_user option \<Rightarrow> sales_query \<Rightarrow> db \<Rightarrow> client_row list reply" where
  "sales_by_client tz pg_date found user q d = catch_reply 200 (\<lambda>_. (500, Text ''Failed to fetch sales by client''))
     (rbind (read_filter pg_date user None q) (\<lambda>f.
      Inr (client_rows tz found (sq_groupBySalesType q = Some ''true'') f d)))"

section \<open>Items\<close>

record base_item =
  bi_productId :: ident
  bi_netQty :: decimal
  bi_netAmount :: decimal
  bi_netPurchaseCost :: decimal
  bi_netProfit :: decimal
  bi_salesType :: string

definition sold_cost :: "db \<Rightarrow> realization_item \<Rightarrow> decimal" where
  "sold_cost d ri = sum_of (\<lambda>rib. rib_quantity rib * rib_enterPrice rib)
     (filter (\<lambda>rib. rib_realizationItemId rib = ri_id ri) (RealizationItemBatch d))"

definition returned_batches :: "db \<Rightarrow> buyer_return_item \<Rightarrow> (buyer_return_item_batch \<times> product_batch) list" where
  "returned_batches d bri = join (\<lambda>l b. pb_id b = brib_productBatchId l)
     (filter (\<lambda>l. brib_buyerReturnItemId l = bri_id bri) (BuyerReturnItemBatch d)) (ProductBatch d)"

text \<open>What the returned goods cost: in the details every link counts, by product the price of one batch.\<close>

definition returned_cost :: "db \<Rightarrow> buyer_return_item \<Rightarrow> decimal" where
  "returned_cost d bri = sum_of (\<lambda>(l, b). brib_quantity l * pb_enterPrice b) (returned_batches d bri)"

definition returned_price :: "db \<Rightarrow> buyer_return_item \<Rightarrow> decimal" where
  "returned_price d bri = (case returned_batches d bri of [] \<Rightarrow> 0 | (l, b) # _ \<Rightarrow> pb_enterPrice b)"

definition sale_items :: "int \<Rightarrow> (string \<Rightarrow> string \<Rightarrow> bool) \<Rightarrow> sales_filter \<Rightarrow> db \<Rightarrow> (realization_item \<times> realization) list" where
  "sale_items tz found f d =
     join (\<lambda>ri r. rl_id r = ri_realizationId ri) (RealizationItem d) (filter (sale_counts tz found f d) (Realization d))"

definition return_items :: "(string \<Rightarrow> string \<Rightarrow> bool) \<Rightarrow> sales_filter \<Rightarrow> db \<Rightarrow> (buyer_return_item \<times> buyer_return) list" where
  "return_items found f d =
     join (\<lambda>bri r. br_id r = bri_buyerReturnId bri) (BuyerReturnItem d) (filter (return_counts found f d) (BuyerReturn d))"

definition sale_base_item :: "bool \<Rightarrow> db \<Rightarrow> realization_item \<times> realization \<Rightarrow> base_item" where
  "sale_base_item grouped d = (\<lambda>(ri, r). \<lparr>bi_productId = ri_productId ri, bi_netQty = ri_quantity ri, bi_netAmount = ri_total ri,
     bi_netPurchaseCost = sold_cost d ri, bi_netProfit = ri_total ri - sold_cost d ri, bi_salesType = sale_label grouped r\<rparr>)"

definition return_base_item :: "db \<Rightarrow> buyer_return_item \<times> buyer_return \<Rightarrow> base_item" where
  "return_base_item d = (\<lambda>(bri, r). \<lparr>bi_productId = bri_productId bri, bi_netQty = - bri_quantity bri, bi_netAmount = - bri_total bri,
     bi_netPurchaseCost = - (returned_price d bri * bri_quantity bri),
     bi_netProfit = returned_price d bri * bri_quantity bri - bri_total bri, bi_salesType = return_label\<rparr>)"

definition base_items :: "int \<Rightarrow> (string \<Rightarrow> string \<Rightarrow> bool) \<Rightarrow> bool \<Rightarrow> sales_filter \<Rightarrow> db \<Rightarrow> base_item list" where
  "base_items tz found grouped f d =
     map (sale_base_item grouped d) (sale_items tz found f d) @ map (return_base_item d) (return_items found f d)"

section \<open>Sales by product\<close>

record product_row =
  pr_productId :: "ident option"
  pr_productName :: "string option"
  pr_productCategory :: "string option"
  pr_salesType :: "string option"
  pr_totalQuantity :: decimal
  pr_totalAmount :: decimal
  pr_totalPurchaseCost :: decimal
  pr_totalProfit :: decimal

definition product_key :: "bool \<Rightarrow> db \<Rightarrow> base_item \<Rightarrow> ident option \<times> string option" where
  "product_key grouped d x =
     (map_option prod_id (find_row prod_id (bi_productId x) (Product d)), if grouped then Some (bi_salesType x) else None)"

definition product_row_of :: "db \<Rightarrow> (ident option \<times> string option) \<times> base_item list \<Rightarrow> product_row" where
  "product_row_of d = (\<lambda>((p, t), items). let product = Option.bind p (\<lambda>i. find_row prod_id i (Product d))
     in \<lparr>pr_productId = p, pr_productName = map_option prod_name product, pr_productCategory = Option.bind product prod_category,
        pr_salesType = t, pr_totalQuantity = sum_of bi_netQty items, pr_totalAmount = sum_of bi_netAmount items,
        pr_totalPurchaseCost = sum_of bi_netPurchaseCost items, pr_totalProfit = sum_of bi_netProfit items\<rparr>)"

definition product_rows :: "int \<Rightarrow> (string \<Rightarrow> string \<Rightarrow> bool) \<Rightarrow> bool \<Rightarrow> sales_filter \<Rightarrow> db \<Rightarrow> product_row list" where
  "product_rows tz found grouped f d = sort_key (\<lambda>r. - pr_totalAmount r)
     (map (product_row_of d) (group_by (product_key grouped d) (base_items tz found grouped f d)))"

definition sales_by_product ::
  "int \<Rightarrow> (string \<Rightarrow> int option) \<Rightarrow> (string \<Rightarrow> string \<Rightarrow> bool) \<Rightarrow> req_user option \<Rightarrow> sales_query \<Rightarrow> db \<Rightarrow> product_row list reply" where
  "sales_by_product tz pg_date found user q d = catch_reply 200 (\<lambda>_. (500, Text ''Failed to fetch sales by product''))
     (rbind (read_filter pg_date user None q) (\<lambda>f.
      Inr (product_rows tz found (sq_groupBySalesType q = Some ''true'') f d)))"

section \<open>The items of a client\<close>

record detail_row =
  de_productName :: "string option"
  de_unit :: "string option"
  de_quantity :: decimal
  de_amount :: decimal
  de_profit :: decimal
  de_averagePrice :: decimal

text \<open>The base items of this report have the cost of every returned batch.\<close>

definition detail_items :: "int \<Rightarrow> sales_filter \<Rightarrow> db \<Rightarrow> base_item list" where
  "detail_items tz f d =
     map (sale_base_item False d) (sale_items tz (\<lambda>_ _. True) f d) @
     map (\<lambda>x. (return_base_item d x)\<lparr>bi_netPurchaseCost := - returned_cost d (fst x)\<rparr>) (return_items (\<lambda>_ _. True) f d)"

definition detail_key :: "db \<Rightarrow> base_item \<Rightarrow> string option \<times> string option" where
  "detail_key d x = (let p = find_row prod_id (bi_productId x) (Product d) in (map_option prod_name p, map_option prod_unit p))"

definition detail_row_of :: "(decimal \<Rightarrow> decimal \<Rightarrow> decimal) \<Rightarrow> (string option \<times> string option) \<times> base_item list \<Rightarrow> detail_row" where
  "detail_row_of divide_numeric = (\<lambda>((n, u), items). let quantity = sum_of bi_netQty items; amount = sum_of bi_netAmount items
     in \<lparr>de_productName = n, de_unit = u, de_quantity = quantity, de_amount = amount,
        de_profit = sum_of (\<lambda>x. bi_netAmount x - bi_netPurchaseCost x) items,
        de_averagePrice = (if 0 < quantity then divide_numeric amount quantity else 0)\<rparr>)"

definition detail_rows :: "int \<Rightarrow> (decimal \<Rightarrow> decimal \<Rightarrow> decimal) \<Rightarrow> sales_filter \<Rightarrow> db \<Rightarrow> detail_row list" where
  "detail_rows tz divide_numeric f d = sort_key (\<lambda>r. - de_quantity r)
     (map (detail_row_of divide_numeric) (group_by (detail_key d) (detail_items tz f d)))"

definition sales_details ::
  "int \<Rightarrow> (string \<Rightarrow> int option) \<Rightarrow> (decimal \<Rightarrow> decimal \<Rightarrow> decimal) \<Rightarrow> req_user option \<Rightarrow> ident option \<Rightarrow> sales_query \<Rightarrow> db \<Rightarrow>
   detail_row list reply" where
  "sales_details tz pg_date divide_numeric user clientId q d = (case clientId of
     None \<Rightarrow> reply_error 400 (Text ''clientId is required'')
   | Some c \<Rightarrow> catch_reply 200 (\<lambda>_. (500, Text ''Failed to fetch sales by client details''))
       (rbind (read_filter pg_date user (Some c) (q\<lparr>sq_counterparty := None\<rparr>)) (\<lambda>f.
        Inr (detail_rows tz divide_numeric f d))))"

section \<open>What the rows add up to\<close>

lemma client_rows_where:
  assumes "\<And>k g. h (client_row_of d (k, g)) = sum_of f g"
  shows "sum_of h (filter (\<lambda>r. cr_clientId r = c) (client_rows tz found grouped x d)) =
    sum_of f (filter (\<lambda>b. joined_client d (bd_counterpartyId b) = c) (base_docs tz found grouped x d))"
proof -
  have "sum_of h (filter (\<lambda>r. cr_clientId r = c) (client_rows tz found grouped x d)) =
      sum_of (\<lambda>(k, g). if fst k = c then sum_of f g else 0) (group_by (client_key grouped d) (base_docs tz found grouped x d))"
    unfolding client_rows_def sum_of_filter sum_of_sort_key sum_of_map
    by (rule sum_of_cong) (use assms in \<open>auto simp: client_row_of_def split: prod.splits\<close>)
  also have "\<dots> = sum_of f (filter (\<lambda>b. fst (client_key grouped d b) = c) (base_docs tz found grouped x d))"
    by (rule sum_of_groups_where[of "\<lambda>k. fst k = c"])
  finally show ?thesis by (simp add: client_key_def)
qed

lemma product_rows_sum:
  assumes "\<And>x. h (product_row_of d x) = sum_of f (snd x)"
  shows "sum_of h (product_rows tz found grouped x d) = sum_of f (base_items tz found grouped x d)"
  using sum_of_group_by[of f "product_key grouped d" "base_items tz found grouped x d"] assms
  by (simp add: product_rows_def case_prod_unfold)

lemma detail_rows_sum:
  assumes "\<And>x. h (detail_row_of divide_numeric x) = sum_of f (snd x)"
  shows "sum_of h (detail_rows tz divide_numeric x d) = sum_of f (detail_items tz x d)"
  using sum_of_group_by[of f "detail_key d" "detail_items tz x d"] assms
  by (simp add: detail_rows_def case_prod_unfold)

text \<open>
  Grouping by sales type splits the rows and loses nothing: for every client the amounts, the profits and the
  numbers of documents of the grouped report add up to those of the report without groups.
\<close>

theorem sales_types_split_clients:
  "sum_of cr_totalAmount (filter (\<lambda>r. cr_clientId r = c) (client_rows tz found True f d)) =
     sum_of cr_totalAmount (filter (\<lambda>r. cr_clientId r = c) (client_rows tz found False f d)) \<and>
   sum_of cr_totalProfit (filter (\<lambda>r. cr_clientId r = c) (client_rows tz found True f d)) =
     sum_of cr_totalProfit (filter (\<lambda>r. cr_clientId r = c) (client_rows tz found False f d)) \<and>
   sum_of (\<lambda>r. of_nat (cr_documentsCount r)) (filter (\<lambda>r. cr_clientId r = c) (client_rows tz found True f d)) =
     sum_of (\<lambda>r. of_nat (cr_documentsCount r)) (filter (\<lambda>r. cr_clientId r = c) (client_rows tz found False f d))"
proof -
  have same: "sum_of g (filter (\<lambda>b. joined_client d (bd_counterpartyId b) = c) (base_docs tz found True f d)) =
      sum_of g (filter (\<lambda>b. joined_client d (bd_counterpartyId b) = c) (base_docs tz found False f d))"
    if "\<And>b t. g (b\<lparr>bd_salesType := t\<rparr>) = g b" for g :: "base_doc \<Rightarrow> rat"
  proof -
    have "map (\<lambda>b. b\<lparr>bd_salesType := []\<rparr>) (base_docs tz found True f d) = map (\<lambda>b. b\<lparr>bd_salesType := []\<rparr>) (base_docs tz found False f d)"
      by (simp add: base_docs_def)
    then have "sum_of (\<lambda>b. if joined_client d (bd_counterpartyId b) = c then g b else 0) (map (\<lambda>b. b\<lparr>bd_salesType := []\<rparr>) (base_docs tz found True f d)) =
      sum_of (\<lambda>b. if joined_client d (bd_counterpartyId b) = c then g b else 0) (map (\<lambda>b. b\<lparr>bd_salesType := []\<rparr>) (base_docs tz found False f d))"
      by (rule arg_cong)
    then show ?thesis by (simp add: that sum_of_filter cong: if_cong)
  qed
  note rows = client_rows_where[of cr_totalAmount d bd_netAmount] client_rows_where[of cr_totalProfit d bd_netProfit]
    client_rows_where[of "\<lambda>r. of_nat (cr_documentsCount r)" d "\<lambda>_. 1"]
  have "length (filter (\<lambda>b. joined_client d (bd_counterpartyId b) = c) (base_docs tz found True f d)) =
      length (filter (\<lambda>b. joined_client d (bd_counterpartyId b) = c) (base_docs tz found False f d))"
    using same[of "\<lambda>_. 1"] by (simp add: sum_of_1)
  then show ?thesis by (simp add: rows client_row_of_def sum_of_1 split_beta same)
qed

section \<open>The reports agree\<close>

text \<open>The amount of a document is what its items come to. (The amount of a realization is sent by the client.)\<close>

definition amounts_match :: "db \<Rightarrow> bool" where
  "amounts_match d \<longleftrightarrow>
     list_all (\<lambda>r. rl_amount r = sum_of ri_total (filter (\<lambda>i. ri_realizationId i = rl_id r) (RealizationItem d))) (Realization d) \<and>
     list_all (\<lambda>r. br_totalAmount r = sum_of bri_total (filter (\<lambda>i. bri_buyerReturnId i = br_id r) (BuyerReturnItem d))) (BuyerReturn d)"

lemma base_items_amount:
  assumes "amounts_match d"
  shows "sum_of bi_netAmount (base_items tz found grouped f d) = sum_of bd_netAmount (base_docs tz found grouped' f d)"
proof -
  have "sum_of (\<lambda>x. ri_total (fst x)) (sale_items tz found f d) = sum_of rl_amount (filter (sale_counts tz found f d) (Realization d))"
    unfolding sale_items_def sum_of_join_swap
    by (rule sum_of_cong) (use assms in \<open>simp add: amounts_match_def list_all_iff eq_commute[of "rl_id _"]\<close>)
  moreover have "sum_of (\<lambda>x. bri_total (fst x)) (return_items found f d) = sum_of br_totalAmount (filter (return_counts found f d) (BuyerReturn d))"
    unfolding return_items_def sum_of_join_swap
    by (rule sum_of_cong) (use assms in \<open>simp add: amounts_match_def list_all_iff eq_commute[of "br_id _"]\<close>)
  ultimately show ?thesis
    by (simp add: base_items_def base_docs_def sale_base_item_def return_base_item_def case_prod_unfold sum_of_minus)
qed

text \<open>The stored profit of a posted document is what its items earn.\<close>

definition profits_match :: "db \<Rightarrow> bool" where
  "profits_match d \<longleftrightarrow>
     list_all (\<lambda>r. rl_status r = POSTED \<longrightarrow>
       rl_profit r = sum_of (\<lambda>i. ri_total i - sold_cost d i) (filter (\<lambda>i. ri_realizationId i = rl_id r) (RealizationItem d))) (Realization d) \<and>
     list_all (\<lambda>r. br_status r = POSTED \<longrightarrow> br_profit r = sum_of (\<lambda>i. returned_price d i * bri_quantity i - bri_total i)
       (filter (\<lambda>i. bri_buyerReturnId i = br_id r) (BuyerReturnItem d))) (BuyerReturn d)"

lemma base_items_profit:
  assumes "profits_match d"
  shows "sum_of bi_netProfit (base_items tz found grouped f d) = sum_of bd_netProfit (base_docs tz found grouped' f d)"
proof -
  have "sum_of (\<lambda>x. ri_total (fst x) - sold_cost d (fst x)) (sale_items tz found f d) =
      sum_of rl_profit (filter (sale_counts tz found f d) (Realization d))"
    unfolding sale_items_def sum_of_join_swap[of "\<lambda>i. ri_total i - sold_cost d i"]
    by (rule sum_of_cong) (use assms in \<open>simp add: profits_match_def sale_counts_def list_all_iff eq_commute[of "rl_id _"]\<close>)
  moreover have "sum_of (\<lambda>x. returned_price d (fst x) * bri_quantity (fst x) - bri_total (fst x)) (return_items found f d) =
      sum_of br_profit (filter (return_counts found f d) (BuyerReturn d))"
    unfolding return_items_def sum_of_join_swap[of "\<lambda>i. returned_price d i * bri_quantity i - bri_total i"]
    by (rule sum_of_cong) (use assms in \<open>simp add: profits_match_def return_counts_def list_all_iff eq_commute[of "br_id _"]\<close>)
  ultimately show ?thesis
    by (simp add: base_items_def base_docs_def sale_base_item_def return_base_item_def case_prod_unfold)
qed

text \<open>Every returned item came back as one batch.\<close>

definition single_batches :: "db \<Rightarrow> bool" where
  "single_batches d \<longleftrightarrow> list_all (\<lambda>i. map (\<lambda>x. brib_quantity (fst x)) (returned_batches d i) = [bri_quantity i]) (BuyerReturnItem d)"

lemma single_batch_cost:
  assumes "single_batches d" and "i \<in> set (BuyerReturnItem d)"
  shows "returned_cost d i = returned_price d i * bri_quantity i"
  using assms by (auto simp: single_batches_def list_all_iff returned_cost_def returned_price_def split: list.splits)

lemma detail_items_profit:
  assumes "single_batches d"
  shows "sum_of (\<lambda>x. bi_netAmount x - bi_netPurchaseCost x) (detail_items tz f d) =
    sum_of bi_netProfit (base_items tz (\<lambda>_ _. True) grouped f d)"
proof -
  have "sum_of (\<lambda>x. bi_netAmount (return_base_item d x) + returned_cost d (fst x)) (return_items (\<lambda>_ _. True) f d) =
      sum_of (\<lambda>x. bi_netProfit (return_base_item d x)) (return_items (\<lambda>_ _. True) f d)"
    by (rule sum_of_cong) (auto simp: return_base_item_def return_items_def set_join single_batch_cost[OF assms])
  moreover have "sum_of (\<lambda>x. bi_netAmount (sale_base_item False d x) - bi_netPurchaseCost (sale_base_item False d x)) xs =
      sum_of (\<lambda>x. bi_netProfit (sale_base_item grouped d x)) xs" for xs
    by (rule sum_of_cong) (auto simp: sale_base_item_def)
  ultimately show ?thesis by (simp add: detail_items_def base_items_def)
qed

text \<open>
  C30: the three sales reports show the same turnover and the same profit. Let the amount of every document be what its
  items come to (\<open>amounts_match\<close>; the amount of a realization is sent by the client). Then the items of a client add up
  to the amounts of the client in the report by client, and the rows of the products to the rows of all clients. If
  the stored profit of every posted document is what its items earn (\<open>profits_match\<close>), the profits of a client in the
  report by client add up to those of the report by product over the client's documents; and if every returned item came back as
  one batch (\<open>single_batches\<close>), these are the profits of the client's items.
\<close>

theorem sales_reports_agree:
  assumes "amounts_match d" and "distinct (map cp_id (Counterparty d))" and "c \<in> cp_id ` set (Counterparty d)"
    and "sf_counterparty f = None" and "sf_client f = None"
  shows "sum_of cr_totalAmount (filter (\<lambda>r. cr_clientId r = Some c) (client_rows tz found grouped f d)) =
      sum_of de_amount (detail_rows tz divide_numeric (f\<lparr>sf_client := Some c\<rparr>) d) \<and>
    sum_of pr_totalAmount (product_rows tz found grouped f d) = sum_of cr_totalAmount (client_rows tz found grouped f d) \<and>
    (profits_match d \<longrightarrow> sum_of cr_totalProfit (filter (\<lambda>r. cr_clientId r = Some c) (client_rows tz found grouped f d)) =
      sum_of pr_totalProfit (product_rows tz found grouped (f\<lparr>sf_client := Some c\<rparr>) d)) \<and>
    (single_batches d \<longrightarrow> sum_of de_profit (detail_rows tz divide_numeric (f\<lparr>sf_client := Some c\<rparr>) d) =
      sum_of pr_totalProfit (product_rows tz found grouped (f\<lparr>sf_client := Some c\<rparr>) d))"
proof -
  let ?f = "f\<lparr>sf_client := Some c\<rparr>"
  have joined: "joined_client d k = Some c \<longleftrightarrow> k = Some c" for k
  proof (cases k)
    case (Some i)
    then show ?thesis using assms(3) find_row_None_iff[of cp_id c "Counterparty d"]
      by (auto simp: joined_client_def join_name_def dest: find_row_Some)
  qed (simp add: joined_client_def join_name_def)
  have "sale_counts tz (\<lambda>_ _. True) ?f d r \<longleftrightarrow> sale_counts tz found f d r \<and> rl_counterpartyId r = Some c"
    "return_counts (\<lambda>_ _. True) ?f d b \<longleftrightarrow> return_counts found f d b \<and> br_counterpartyId b = c" for r b
    using assms(4,5) by (auto simp: sale_counts_def return_counts_def is_client_def client_named_def in_own_warehouse_def
        sold_as_def returns_shown_def)
  then have "sale_counts tz (\<lambda>_ _. True) ?f d = (\<lambda>r. sale_counts tz found f d r \<and> rl_counterpartyId r = Some c)"
    "return_counts (\<lambda>_ _. True) ?f d = (\<lambda>b. return_counts found f d b \<and> br_counterpartyId b = c)" by blast+
  then have docs: "base_docs tz (\<lambda>_ _. True) grouped ?f d =
      filter (\<lambda>b. joined_client d (bd_counterpartyId b) = Some c) (base_docs tz found grouped f d)"
    by (simp add: base_docs_def joined filter_map o_def conj_commute)
  have "sum_of de_amount (detail_rows tz divide_numeric ?f d) = sum_of bi_netAmount (detail_items tz ?f d)"
    by (rule detail_rows_sum) (simp add: detail_row_of_def case_prod_unfold Let_def)
  also have "\<dots> = sum_of bi_netAmount (base_items tz (\<lambda>_ _. True) False ?f d)"
    by (simp add: detail_items_def base_items_def)
  finally have "sum_of cr_totalAmount (filter (\<lambda>r. cr_clientId r = Some c) (client_rows tz found grouped f d)) =
      sum_of de_amount (detail_rows tz divide_numeric ?f d)"
    unfolding base_items_amount[OF assms(1), of _ _ _ _ grouped] docs
    by (subst client_rows_where[of cr_totalAmount d bd_netAmount]) (simp_all add: client_row_of_def case_prod_unfold)
  moreover have "sum_of cr_totalProfit (filter (\<lambda>r. cr_clientId r = Some c) (client_rows tz found grouped f d)) =
      sum_of bd_netProfit (base_docs tz (\<lambda>_ _. True) grouped ?f d)"
    unfolding docs by (subst client_rows_where[of cr_totalProfit d bd_netProfit]) (simp_all add: client_row_of_def case_prod_unfold)
  moreover have "sum_of pr_totalAmount (product_rows tz found grouped f d) = sum_of bi_netAmount (base_items tz found grouped f d)"
    by (rule product_rows_sum) (simp add: product_row_of_def case_prod_unfold Let_def)
  moreover have "sum_of cr_totalAmount (client_rows tz found grouped f d) = sum_of bd_netAmount (base_docs tz found grouped f d)"
    using sum_of_group_by[of bd_netAmount "client_key grouped d" "base_docs tz found grouped f d"]
    by (simp add: client_rows_def client_row_of_def case_prod_unfold)
  moreover have "sum_of de_profit (detail_rows tz divide_numeric ?f d) = sum_of (\<lambda>x. bi_netAmount x - bi_netPurchaseCost x) (detail_items tz ?f d)"
    by (rule detail_rows_sum) (simp add: detail_row_of_def case_prod_unfold Let_def)
  moreover have "sum_of pr_totalProfit (product_rows tz found grouped ?f d) = sum_of bi_netProfit (base_items tz found grouped ?f d)"
    by (rule product_rows_sum) (simp add: product_row_of_def case_prod_unfold Let_def)
  moreover have "sale_counts tz found ?f d = sale_counts tz (\<lambda>_ _. True) ?f d" "return_counts found ?f d = return_counts (\<lambda>_ _. True) ?f d"
    using assms(4) by (auto simp: sale_counts_def return_counts_def client_named_def fun_eq_iff)
  ultimately show ?thesis
    using base_items_amount[OF assms(1)] detail_items_profit[of d tz ?f grouped]
      base_items_profit[of d tz "\<lambda>_ _. True" grouped ?f grouped]
    by (auto simp: base_items_def sale_items_def return_items_def)
qed

section \<open>The sales type filter\<close>

lemma labels_differ: "return_label \<noteq> undefined_label" "return_label \<noteq> []" "undefined_label \<noteq> []"
  by (simp_all add: return_label_def undefined_label_def)

definition labels_free :: "db \<Rightarrow> bool" where
  "labels_free d \<longleftrightarrow> list_all (\<lambda>r. rl_salesType r \<noteq> Some return_label \<and> rl_salesType r \<noteq> Some undefined_label) (Realization d)"

text \<open>
  Asking for one sales type shows exactly the rows that the grouped report has for it, returns and
  realizations without a type included, as long as no realization bears one of the two labels as its own type.
\<close>

theorem sales_type_filter_selects_rows:
  assumes "labels_free d" and "s \<noteq> []"
  shows "client_rows tz found True (f\<lparr>sf_salesType := Some s\<rparr>) d =
    filter (\<lambda>r. cr_salesType r = Some s) (client_rows tz found True (f\<lparr>sf_salesType := None\<rparr>) d)"
proof -
  let ?f = "f\<lparr>sf_salesType := Some s\<rparr>" and ?g = "f\<lparr>sf_salesType := None\<rparr>"
  have sale: "sale_counts tz found ?f d r \<longleftrightarrow> sale_label True r = s \<and> sale_counts tz found ?g d r" if "r \<in> set (Realization d)" for r
  proof -
    have free: "rl_salesType r \<noteq> Some return_label" "rl_salesType r \<noteq> Some undefined_label"
      using assms(1) that by (auto simp: labels_free_def list_all_iff)
    have "sold_as ?f (rl_salesType r) \<longleftrightarrow> sale_label True r = s"
      using free assms(2) labels_differ
      by (auto simp: sold_as_def sale_label_def non_empty_def split: option.splits list.splits)
    then show ?thesis
      by (auto simp: sale_counts_def client_named_def is_client_def in_own_warehouse_def sold_as_def[of ?g])
  qed
  have return: "return_counts found ?f d r \<longleftrightarrow> return_label = s \<and> return_counts found ?g d r" for r
    by (auto simp: return_counts_def client_named_def is_client_def in_own_warehouse_def returns_shown_def)
  have "filter (sale_counts tz found ?f d) (Realization d) = filter (\<lambda>r. sale_label True r = s) (filter (sale_counts tz found ?g d) (Realization d))"
    unfolding filter_filter by (rule filter_cong) (auto simp: sale)
  moreover have "filter (return_counts found ?f d) (BuyerReturn d) = filter (\<lambda>r. return_label = s) (filter (return_counts found ?g d) (BuyerReturn d))"
    unfolding filter_filter by (rule filter_cong) (auto simp: return)
  ultimately have docs: "base_docs tz found True ?f d = filter (\<lambda>x. snd (client_key True d x) = Some s) (base_docs tz found True ?g d)"
    by (simp add: base_docs_def client_key_def filter_map o_def)
  have "(\<lambda>x. cr_salesType (client_row_of d x) = Some s) = (\<lambda>x. snd (fst x) = Some s)"
    by (auto simp: client_row_of_def split: prod.split)
  then show ?thesis
    unfolding client_rows_def docs
    by (simp add: group_by_filter[of "client_key True d" "\<lambda>k. snd k = Some s"] filter_sort filter_map o_def)
qed

section \<open>A month of sales\<close>

definition month_db :: db where
  "month_db = empty_db\<lparr>Counterparty := [named_counterparty 3 ''Shop''], Product := [named_product 5 ''Tea'' ''kg''],
     Realization := [\<lparr>rl_id = 4, rl_number = ''S1'', rl_date = 30, rl_counterpartyId = Some 3,
        rl_warehouseId = Some 7, rl_status = POSTED, rl_amount = 8, rl_currency = ''UAH'', rl_comment = None,
        rl_salesType = Some ''cash'', rl_orderId = None, rl_profit = 4, rl_paidAmount = 0, rl_createdBy = None,
        rl_isDeleted = False, rl_createdAt = 30, rl_updatedAt = 30\<rparr>],
     RealizationItem := [\<lparr>ri_id = 2, ri_realizationId = 4, ri_productId = 5, ri_quantity = 2, ri_price = 4, ri_total = 8,
        ri_sortOrder = 0, ri_createdAt = 30\<rparr>],
     RealizationItemBatch := [\<lparr>rib_id = 8, rib_realizationItemId = 2, rib_productBatchId = 1, rib_quantity = 2, rib_enterPrice = 2\<rparr>],
     BuyerReturn := [\<lparr>br_id = 9, br_number = ''B1'', br_date = 40, br_counterpartyId = 3, br_warehouseId = 7,
        br_status = POSTED, br_comment = None, br_totalAmount = 4, br_profit = - 2, br_createdBy = None, br_createdAt = 40, br_updatedAt = 40\<rparr>],
     BuyerReturnItem := [\<lparr>bri_id = 10, bri_buyerReturnId = 9, bri_productId = 5, bri_quantity = 1, bri_price = 4, bri_total = 4,
        bri_sortOrder = 0, bri_createdAt = 40\<rparr>],
     ProductBatch := [\<lparr>pb_id = 11, pb_productId = 5, pb_quantityTotal = 1, pb_quantityLeft = 1, pb_enterPrice = 2,
        pb_goodsReceiptId = None, pb_buyerReturnId = Some 9, pb_createdAt = 40, pb_updatedAt = 40\<rparr>],
     BuyerReturnItemBatch := [\<lparr>brib_id = 12, brib_buyerReturnItemId = 10, brib_productBatchId = 11, brib_quantity = 1\<rparr>]\<rparr>"

definition all_sales :: sales_filter where
  "all_sales = \<lparr>sf_user = None, sf_from = None, sf_to = None, sf_counterparty = None, sf_client = None, sf_salesType = None\<rparr>"

theorem sales_reports_agree_witness:
  "sum_of de_profit (detail_rows 0 (/) (all_sales\<lparr>sf_client := Some 3\<rparr>) month_db) =
     sum_of pr_totalProfit (product_rows 0 (\<lambda>_ _. True) False (all_sales\<lparr>sf_client := Some 3\<rparr>) month_db) \<and>
   sum_of de_amount (detail_rows 0 (/) (all_sales\<lparr>sf_client := Some 3\<rparr>) month_db) = 4 \<and>
   sum_of cr_totalProfit (filter (\<lambda>r. cr_clientId r = Some 3) (client_rows 0 (\<lambda>_ _. True) False all_sales month_db)) =
     sum_of de_profit (detail_rows 0 (/) (all_sales\<lparr>sf_client := Some 3\<rparr>) month_db)"
proof -
  have m: "amounts_match month_db" "distinct (map cp_id (Counterparty month_db))" "3 \<in> cp_id ` set (Counterparty month_db)"
    "sf_counterparty all_sales = None" "sf_client all_sales = None"
    by (simp_all add: amounts_match_def month_db_def all_sales_def empty_db_def)
  have "single_batches month_db" by (simp add: single_batches_def returned_batches_def month_db_def)
  moreover have "profits_match month_db"
    by (simp add: profits_match_def returned_price_def returned_batches_def sold_cost_def month_db_def)
  moreover have "sum_of cr_totalAmount (filter (\<lambda>r. cr_clientId r = Some 3) (client_rows 0 (\<lambda>_ _. True) False all_sales month_db)) = 4"
    by (simp add: client_rows_where[of cr_totalAmount month_db bd_netAmount] client_row_of_def case_prod_unfold)
      (simp add: base_docs_def sale_counts_def return_counts_def all_sales_def month_db_def in_own_warehouse_def restricted_to_def
        is_client_def in_window_def client_named_def sold_as_def returns_shown_def joined_client_def join_name_def)
  ultimately show ?thesis using sales_reports_agree[OF m, of 0 "\<lambda>_ _. True" False "(/)"] by simp
qed

theorem sales_type_filter_selects_rows_witness:
  "client_rows 0 (\<lambda>_ _. True) True (all_sales\<lparr>sf_salesType := Some return_label\<rparr>) month_db =
     filter (\<lambda>r. cr_salesType r = Some return_label) (client_rows 0 (\<lambda>_ _. True) True (all_sales\<lparr>sf_salesType := None\<rparr>) month_db)"
proof -
  have "labels_free month_db" by (simp add: labels_free_def month_db_def return_label_def undefined_label_def)
  then show ?thesis by (rule sales_type_filter_selects_rows) (rule labels_differ)
qed

end
