(* ===== verification/Accounts.thy ===== *)
theory Accounts
  imports Inventory Queries
begin

text \<open>
  Statements of account: an opening balance from the database, and a running balance that JavaScript adds up in
  binary64 over the rows of a period. The locale \<open>account\<close> is what a report relies on; its lemmas show that the
  closing balance is exact to the cent and is the opening balance of the next period.
\<close>

section \<open>Running balances\<close>

text \<open>\<open>balance += parseFloat(row.change)\<close>\<close>

definition run_balance :: "jsnum \<Rightarrow> decimal list \<Rightarrow> jsnum" where
  "run_balance start xs = foldl (\<lambda>r x. js_add r (js_number x)) start xs"

lemma run_balance_simps [simp]:
  "run_balance r [] = r" "run_balance r (x # xs) = run_balance (js_add r (js_number x)) xs"
  "run_balance r (xs @ ys) = run_balance (run_balance r xs) ys"
  by (simp_all add: run_balance_def)

lemma js_sub_number: "js_sub r (js_number x) = js_add r (js_number (- x))"
  by (simp add: js_sub_def js_add_def js_number_def fl_minus)

definition size_of :: "decimal list \<Rightarrow> rat" where
  "size_of xs = sum_list (map abs xs)"

lemma size_of_simps [simp]: "size_of [] = 0" "size_of (x # xs) = \<bar>x\<bar> + size_of xs"
  by (simp_all add: size_of_def)

lemma size_of_nonneg: "0 \<le> size_of xs"
  by (induction xs) auto

lemma sum_list_size: "\<bar>sum_list xs\<bar> \<le> size_of xs"
  by (induction xs) auto

lemma js_add_step:
  assumes "\<bar>r - s\<bar> \<le> e" and "e \<le> 1 / 2" and "\<bar>s + x\<bar> \<le> m" and "\<bar>x\<bar> \<le> m" and "m / 2 ^ 53 \<le> 1 / 2"
  shows "\<bar>js_add r (js_number x) - (s + x)\<bar> \<le> e + 2 * (m + 1) / 2 ^ 53"
proof -
  have x: "\<bar>js_number x - x\<bar> \<le> m / 2 ^ 53" unfolding js_number_def by (rule fl_error_le[OF assms(4)])
  have "\<bar>r + js_number x\<bar> \<le> m + 1" using x assms by linarith
  then have "\<bar>js_add r (js_number x) - (r + js_number x)\<bar> \<le> (m + 1) / 2 ^ 53" unfolding js_add_def by (rule fl_error_le)
  moreover have "m / 2 ^ 53 \<le> (m + 1) / 2 ^ 53" by (simp add: divide_right_mono)
  ultimately have "\<bar>js_add r (js_number x) - (s + x)\<bar> \<le> e + (m + 1) / 2 ^ 53 + (m + 1) / 2 ^ 53"
    using x assms(1) by linarith
  then show ?thesis by (simp add: field_simps)
qed

lemma run_balance_error:
  assumes "\<bar>r - s\<bar> \<le> e" and "\<bar>s\<bar> + size_of xs \<le> m" and "e + of_nat (length xs) * (2 * (m + 1) / 2 ^ 53) \<le> 1 / 2"
    and "m / 2 ^ 53 \<le> 1 / 2"
  shows "\<bar>run_balance r xs - (s + sum_list xs)\<bar> \<le> e + of_nat (length xs) * (2 * (m + 1) / 2 ^ 53)"
  using assms
proof (induction xs arbitrary: r s e)
  case (Cons x xs)
  let ?u = "2 * (m + 1) / 2 ^ 53"
  have pos: "0 \<le> size_of xs" "0 \<le> m" using size_of_nonneg[of xs] Cons.prems(2) by auto
  then have u: "0 \<le> ?u" "0 \<le> of_nat (length xs) * ?u" by simp_all
  have len: "of_nat (length (x # xs)) * ?u = ?u + of_nat (length xs) * ?u" by (simp add: distrib_right)
  from len Cons.prems(3) u have small: "e \<le> 1 / 2" and rest: "e + ?u + of_nat (length xs) * ?u \<le> 1 / 2" by linarith+
  have step: "\<bar>js_add r (js_number x) - (s + x)\<bar> \<le> e + ?u"
    by (rule js_add_step[OF Cons.prems(1) small]) (use Cons.prems(2,4) pos in auto)
  have "\<bar>s + x\<bar> + size_of xs \<le> m" using Cons.prems(2) by simp
  from Cons.IH[OF step this rest Cons.prems(4)] show ?case
    unfolding len by (simp only: run_balance_simps sum_list.Cons add.assoc)
qed simp

text \<open>
  A balance is exact to the cent when the number of rows times the sum of their absolute values stays below
  \<open>2^45\<close>: some fifty thousand rows of a turnover of three hundred million.
\<close>

definition cents_safe :: "nat \<Rightarrow> rat \<Rightarrow> bool" where
  "cents_safe n m \<longleftrightarrow> of_nat (2 * n + 1) * (m + 1) \<le> 2 ^ 45"

lemma run_balance_cents:
  assumes "cents_safe (length xs) (\<bar>s\<bar> + size_of xs)" and "on_grid 2 s" and "\<forall>x \<in> set xs. on_grid 2 x"
  shows "round_dec 2 (run_balance (js_number s) xs) = s + sum_list xs"
proof (rule round_dec_close)
  let ?m = "\<bar>s\<bar> + size_of xs" and ?n = "of_nat (length xs) :: rat"
  have pos: "0 \<le> size_of xs" by (rule size_of_nonneg)
  have safe: "(2 * ?n + 1) * (?m + 1) \<le> 2 ^ 45" using assms(1)
    by (simp only: cents_safe_def of_nat_add of_nat_mult of_nat_numeral of_nat_1)
  have "(2 * ?n + 1) * (?m + 1) / 2 ^ 53 \<le> 2 ^ 45 / 2 ^ 53" by (rule divide_right_mono[OF safe]) simp
  also have "2 ^ 45 / 2 ^ 53 = (1 / 256 :: rat)" by simp
  finally have total: "(2 * ?n + 1) * (?m + 1) / 2 ^ 53 \<le> 1 / 256" .
  have "?m / 2 ^ 53 + ?n * (2 * (?m + 1) / 2 ^ 53) \<le> (2 * ?n + 1) * (?m + 1) / 2 ^ 53"
    by (simp add: field_simps)
  with total have bound: "?m / 2 ^ 53 + ?n * (2 * (?m + 1) / 2 ^ 53) \<le> 1 / 256" by linarith
  have "\<bar>js_number s - s\<bar> \<le> ?m / 2 ^ 53" unfolding js_number_def by (rule fl_error_le) (use pos in simp)
  moreover have n: "0 \<le> ?n * (2 * (?m + 1) / 2 ^ 53)" using pos by simp
  moreover have "0 \<le> ?m / 2 ^ 53" using pos by simp
  with n bound have "?m / 2 ^ 53 + ?n * (2 * (?m + 1) / 2 ^ 53) \<le> 1 / 2" "?m / 2 ^ 53 \<le> 1 / 2" by linarith+
  ultimately have "\<bar>run_balance (js_number s) xs - (s + sum_list xs)\<bar> \<le> ?m / 2 ^ 53 + ?n * (2 * (?m + 1) / 2 ^ 53)"
    by (intro run_balance_error) simp_all
  from order.trans[OF this bound] show "\<bar>run_balance (js_number s) xs - (s + sum_list xs)\<bar> < 1 / 2 / 10 ^ 2" by simp
  have "on_grid 2 (sum_list xs)" using on_grid_sum_list[of xs 2 "\<lambda>x. x"] assms(3) by simp
  with assms(2) show "on_grid 2 (s + sum_list xs)" by blast
qed

section \<open>Accounts\<close>

lemma cents_safe_mono: "cents_safe n m \<Longrightarrow> n' \<le> n \<Longrightarrow> m' \<le> m \<Longrightarrow> 0 \<le> m' \<Longrightarrow> cents_safe n' m'"
  unfolding cents_safe_def by (erule order_trans[rotated]) (intro mult_mono, auto)

lemma size_of_mset: "mset xs = mset ys \<Longrightarrow> size_of xs = size_of ys"
  unfolding size_of_def by (metis mset_map sum_mset_sum_list)

lemma size_of_disjoint:
  assumes "\<And>r. \<not> (P r \<and> Q r)"
  shows "size_of (map f (filter Q rs)) + size_of (map f (filter P rs)) \<le> size_of (map f rs)"
  using assms by (induction rs) (auto simp: add.assoc)

text \<open>
  The changes of an account in a database: \<open>docs\<close> are its documents for the parameters of a report, \<open>ok\<close> the databases
  in which their amounts fit their columns and are few enough.
\<close>

locale account =
  fixes docs :: "'p \<Rightarrow> db \<Rightarrow> 'r list" and change :: "'r \<Rightarrow> decimal" and ok :: "'p \<Rightarrow> db \<Rightarrow> bool"
  assumes cents: "ok p d \<Longrightarrow> r \<in> set (docs p d) \<Longrightarrow> on_grid 2 (change r)"
    and safe: "ok p d \<Longrightarrow> cents_safe (length (docs p d)) (size_of (map change (docs p d)))"
begin

text \<open>The running balance over the rows of a period, in any order, rounds to the exact balance.\<close>

lemma closing_exact:
  assumes "ok p d" and "\<And>r. \<not> (P r \<and> Q r)" and "mset rows = mset (filter P (docs p d))"
  shows "round_dec 2 (run_balance (js_number (sum_of change (filter Q (docs p d)))) (map change rows)) =
    sum_of change (filter (\<lambda>r. Q r \<or> P r) (docs p d))"
proof -
  let ?s = "sum_of change (filter Q (docs p d))"
  have subset: "r \<in> set (docs p d)" if "r \<in> set rows" for r
    using that mset_eq_setD[OF assms(3)] by auto
  have "size_of (map change rows) = size_of (map change (filter P (docs p d)))"
    by (rule size_of_mset) (simp add: assms(3))
  moreover have "\<bar>?s\<bar> \<le> size_of (map change (filter Q (docs p d)))" unfolding sum_of_def by (rule sum_list_size)
  ultimately have "\<bar>?s\<bar> + size_of (map change rows) \<le> size_of (map change (docs p d))"
    using size_of_disjoint[of P Q change "docs p d", OF assms(2)] by linarith
  moreover have "length rows \<le> length (docs p d)" using mset_eq_length[OF assms(3)] by simp
  ultimately have "cents_safe (length (map change rows)) (\<bar>?s\<bar> + size_of (map change rows))"
    using safe[OF assms(1)] size_of_nonneg by (auto elim: cents_safe_mono)
  then have "round_dec 2 (run_balance (js_number ?s) (map change rows)) = ?s + sum_list (map change rows)"
    by (rule run_balance_cents) (use cents[OF assms(1)] subset in \<open>auto intro!: on_grid_sum_of\<close>)
  also have "sum_list (map change rows) = sum_of change (filter P (docs p d))"
    using sum_of_mset[OF assms(3), of change] by (simp add: sum_of_def)
  also have "?s + \<dots> = sum_of change (filter (\<lambda>r. Q r \<or> P r) (docs p d))"
    by (rule sum_of_disjoint[symmetric]) (use assms(2) in auto)
  finally show ?thesis .
qed

text \<open>The opening balance of the report for the days after a period is the exact balance, too.\<close>

lemma opening_exact:
  assumes "ok p d"
  shows "round_dec 2 (js_number (sum_of change (filter Q (docs p d)))) = sum_of change (filter Q (docs p d))"
  using closing_exact[OF assms, of "\<lambda>_. False" Q "[]"] by simp

end

end
