(* ===== verification/FinanceReports.thy ===== *)
theory FinanceReports
  imports Accounts Directory "HOL-Library.Monad_Syntax"
begin

text \<open>
  The finance reports of \<open>src/routes/reports.ts\<close>: the reconciliation of the documents and payments of one
  counterparty or of a group with its subgroups, and the cash flow of a cashbox.
\<close>

section \<open>Groups of counterparties\<close>

definition subgroups :: "counterparty_group list \<Rightarrow> ident list \<Rightarrow> ident list" where
  "subgroups gs level = map (\<lambda>x. cg_id (fst x)) (join (\<lambda>g i. cg_parentId g = Some i) gs level)"

text \<open>
  WITH RECURSIVE: each round joins the groups with the rows of the round before, until a round is empty. UNION ALL
  drops no duplicates, so a cycle of parents would never end.
\<close>

partial_function (option) group_hierarchy :: "counterparty_group list \<Rightarrow> ident list \<Rightarrow> ident list option" where
  "group_hierarchy gs level = (if level = [] then Some []
     else do { rest \<leftarrow> group_hierarchy gs (subgroups gs level); Some (level @ rest) })"

definition group_members :: "ident \<Rightarrow> db \<Rightarrow> ident list option" where
  "group_members i d = map_option
     (\<lambda>ids. map cp_id (filter (\<lambda>c. case cp_groupId c of None \<Rightarrow> False | Some g \<Rightarrow> List.member ids g) (Counterparty d)))
     (group_hierarchy (CounterpartyGroup d) (filter (\<lambda>k. k = i) (map cg_id (CounterpartyGroup d))))"

section \<open>The documents of a counterparty\<close>

datatype account_kind = ARealization | ABuyerReturn | AGoodsReceipt | ASupplierReturn | ACash string

record account_doc =
  ad_id :: ident
  ad_date :: timestamp
  ad_kind :: account_kind
  ad_docNumber :: "string option"
  ad_amount :: decimal
  ad_comment :: "string option"
  ad_counterpartyId :: "ident option"

definition receipt_total :: "db \<Rightarrow> goods_receipt \<Rightarrow> decimal" where
  "receipt_total d r = sum_of gri_total (filter (\<lambda>i. gri_goodsReceiptId i = gr_id r) (GoodsReceiptItem d))"

text \<open>The five SELECTs of both queries; \<open>ad_date\<close> is the instant the UNION gives the column.\<close>

definition account_docs :: "int \<Rightarrow> db \<Rightarrow> account_doc list" where
  "account_docs tz d =
     map (\<lambda>r. \<lparr>ad_id = rl_id r, ad_date = rl_date r, ad_kind = ARealization, ad_docNumber = Some (rl_number r),
         ad_amount = rl_amount r, ad_comment = None, ad_counterpartyId = rl_counterpartyId r\<rparr>)
       (filter (\<lambda>r. rl_status r = POSTED) (Realization d)) @
     map (\<lambda>r. \<lparr>ad_id = br_id r, ad_date = wall_instant tz d (br_date r), ad_kind = ABuyerReturn, ad_docNumber = Some (br_number r),
         ad_amount = br_totalAmount r, ad_comment = br_comment r, ad_counterpartyId = Some (br_counterpartyId r)\<rparr>)
       (filter (\<lambda>r. br_status r = POSTED) (BuyerReturn d)) @
     map (\<lambda>r. \<lparr>ad_id = gr_id r, ad_date = gr_date r, ad_kind = AGoodsReceipt, ad_docNumber = gr_docNumber r,
         ad_amount = receipt_total d r, ad_comment = gr_comment r, ad_counterpartyId = gr_providerId r\<rparr>)
       (filter (\<lambda>r. gr_status r = POSTED) (GoodsReceipt d)) @
     map (\<lambda>r. \<lparr>ad_id = sr_id r, ad_date = wall_instant tz d (sr_date r), ad_kind = ASupplierReturn, ad_docNumber = Some (sr_number r),
         ad_amount = sr_totalAmount r, ad_comment = sr_comment r, ad_counterpartyId = sr_supplierId r\<rparr>)
       (filter (\<lambda>r. sr_status r = POSTED) (SupplierReturn d)) @
     map (\<lambda>r. \<lparr>ad_id = ct_id r, ad_date = wall_instant tz d (ct_date r), ad_kind = ACash (ct_type r), ad_docNumber = Some (ct_number r),
         ad_amount = ct_amount r, ad_comment = ct_comment r, ad_counterpartyId = ct_counterpartyId r\<rparr>)
       (filter (\<lambda>r. \<not> ct_isDeleted r) (CashTransaction d))"

definition wanted_doc :: "ident list \<Rightarrow> account_doc \<Rightarrow> bool" where
  "wanted_doc ids x = (case ad_counterpartyId x of None \<Rightarrow> False | Some c \<Rightarrow> List.member ids c)"

text \<open>What a kind adds to the opening balance, and the change, debit and credit of a row of the ledger.\<close>

definition opening_change :: "account_doc \<Rightarrow> decimal" where
  "opening_change x = (case ad_kind x of
     ARealization \<Rightarrow> ad_amount x | ABuyerReturn \<Rightarrow> - ad_amount x | AGoodsReceipt \<Rightarrow> - ad_amount x
   | ASupplierReturn \<Rightarrow> ad_amount x
   | ACash t \<Rightarrow> (if t = ''OUTCOME'' then ad_amount x else if t = ''INCOME'' then - ad_amount x else 0))"

definition balance_change :: "account_doc \<Rightarrow> decimal" where
  "balance_change x = (case ad_kind x of
     ARealization \<Rightarrow> ad_amount x | ABuyerReturn \<Rightarrow> - ad_amount x | AGoodsReceipt \<Rightarrow> - ad_amount x
   | ASupplierReturn \<Rightarrow> ad_amount x
   | ACash t \<Rightarrow> (if t = ''INCOME'' then - ad_amount x else ad_amount x))"

definition doc_debit :: "account_doc \<Rightarrow> decimal" where
  "doc_debit x = (case ad_kind x of
     ARealization \<Rightarrow> ad_amount x | ASupplierReturn \<Rightarrow> ad_amount x
   | ACash t \<Rightarrow> (if t = ''OUTCOME'' then ad_amount x else 0) | _ \<Rightarrow> 0)"

definition doc_credit :: "account_doc \<Rightarrow> decimal" where
  "doc_credit x = (case ad_kind x of
     ABuyerReturn \<Rightarrow> ad_amount x | AGoodsReceipt \<Rightarrow> ad_amount x
   | ACash t \<Rightarrow> (if t = ''INCOME'' then ad_amount x else 0) | _ \<Rightarrow> 0)"

section \<open>Reconciliation\<close>

record ledger_entry =
  le_doc :: account_doc
  le_balanceChange :: jsnum
  le_debit :: jsnum
  le_credit :: jsnum
  le_runningBalance :: jsnum

record statement =
  as_counterpartyId :: ident
  as_startBalance :: jsnum
  as_endBalance :: jsnum
  as_ledger :: "ledger_entry list"

definition start_balances :: "int \<Rightarrow> ident list \<Rightarrow> int option \<Rightarrow> db \<Rightarrow> (ident \<times> jsnum) list" where
  "start_balances tz ids from_day d = (case from_day of None \<Rightarrow> []
     | Some a \<Rightarrow> map (\<lambda>(c, docs). (the c, js_number (sum_of opening_change docs)))
         (group_by ad_counterpartyId
           (filter (\<lambda>x. wanted_doc ids x \<and> before_day a (local_day tz (ad_date x))) (account_docs tz d))))"

definition ledger_rows :: "int \<Rightarrow> ident list \<Rightarrow> int option \<Rightarrow> int option \<Rightarrow> db \<Rightarrow> account_doc list" where
  "ledger_rows tz ids from_day to_day d = sort_key ad_date
     (filter (\<lambda>x. wanted_doc ids x \<and> in_window from_day to_day (local_day tz (ad_date x))) (account_docs tz d))"

text \<open>The keys of a Set, in the order they were added.\<close>

definition set_order :: "'a list \<Rightarrow> 'a list" where
  "set_order xs = rev (remdups (rev xs))"

definition new_statement :: "(ident \<times> jsnum) list \<Rightarrow> ident \<Rightarrow> statement" where
  "new_statement starts i = (let s = coalesce (map_of starts i) 0
     in \<lparr>as_counterpartyId = i, as_startBalance = s, as_endBalance = s, as_ledger = []\<rparr>)"

definition enter_row :: "account_doc \<Rightarrow> statement \<Rightarrow> statement" where
  "enter_row x s = (let change = js_number (balance_change x); balance = js_add (as_endBalance s) change
     in s\<lparr>as_endBalance := balance, as_ledger := as_ledger s @
       [\<lparr>le_doc = x, le_balanceChange = change, le_debit = js_number (doc_debit x), le_credit = js_number (doc_credit x),
         le_runningBalance = balance\<rparr>]\<rparr>)"

definition statements :: "int \<Rightarrow> ident list \<Rightarrow> int option \<Rightarrow> int option \<Rightarrow> db \<Rightarrow> statement list" where
  "statements tz ids from_day to_day d =
     (let starts = start_balances tz ids from_day d; rows = ledger_rows tz ids from_day to_day d;
          keys = set_order (map fst starts @ map (\<lambda>x. the (ad_counterpartyId x)) rows)
      in fold (\<lambda>x. map_where (\<lambda>s. ad_counterpartyId x = Some (as_counterpartyId s)) (enter_row x)) rows
           (map (new_statement starts) keys))"

text \<open>An empty group is answered with an object of another shape.\<close>

datatype reconciliation_reply = EmptyGroup | Grouped "statement list"

definition reconciliation ::
  "int \<Rightarrow> (string \<Rightarrow> int option) \<Rightarrow> ident option \<Rightarrow> ident option \<Rightarrow> string option \<Rightarrow> string option \<Rightarrow> db \<Rightarrow>
   reconciliation_reply reply option" where
  "reconciliation tz pg_date counterpartyId groupId dateFrom dateTo d =
     (let report = (\<lambda>ids. catch_reply 200 (\<lambda>_. (500, Text ''Failed to generate reconciliation report''))
            (rbind (read_param pg_date (non_empty dateFrom)) (\<lambda>a.
             rbind (read_param pg_date (non_empty dateTo)) (\<lambda>b. Inr (Grouped (statements tz ids a b d))))))
      in case (groupId, counterpartyId) of
        (Some g, _) \<Rightarrow> map_option (\<lambda>ids. if ids = [] then reply_ok 200 EmptyGroup else report ids) (group_members g d)
      | (None, Some c) \<Rightarrow> Some (report [c])
      | (None, None) \<Rightarrow> Some (reply_error 400 (Text ''counterpartyId or groupId is required'')))"

section \<open>Cash flow\<close>

definition no_category_label :: string where
  "no_category_label = map char_of [208, 145, 208, 181, 208, 183, 32, 209, 129, 209, 130, 208, 176, 209, 130, 209, 130, 209, 150 :: nat]"

record cash_row =
  cw_row :: cash_transaction
  cw_cashboxName :: string
  cw_categoryName :: "string option"
  cw_counterpartyName :: "string option"
  cw_runningBalance :: jsnum

record category_total =
  ca_id :: "ident option"
  ca_name :: string
  ca_amount :: jsnum

record cashflow =
  cf_ledger :: "cash_row list"
  cf_endBalance :: jsnum
  cf_startBalance :: jsnum
  cf_totalIncome :: jsnum
  cf_totalOutcome :: jsnum
  cf_incomesByCategory :: "category_total list"
  cf_outcomesByCategory :: "category_total list"

definition of_cashbox :: "ident option \<Rightarrow> cash_transaction \<Rightarrow> bool" where
  "of_cashbox box t \<longleftrightarrow> \<not> ct_isDeleted t \<and> (box = None \<or> box = Some (ct_cashboxId t))"

definition cash_docs :: "ident option \<Rightarrow> db \<Rightarrow> cash_transaction list" where
  "cash_docs box d = filter (of_cashbox box) (CashTransaction d)"

definition cash_day :: "db \<Rightarrow> cash_transaction \<Rightarrow> int" where
  "cash_day d t = local_day (tz_offset d) (ct_date t)"

definition cash_opening :: "cash_transaction \<Rightarrow> decimal" where
  "cash_opening t = (if ct_type t = ''INCOME'' then ct_amount t else if ct_type t = ''OUTCOME'' then - ct_amount t else 0)"

definition cash_rows :: "ident option \<Rightarrow> int option \<Rightarrow> int option \<Rightarrow> db \<Rightarrow> (cash_transaction \<times> cashbox) list" where
  "cash_rows box from_day to_day d = sort_key (\<lambda>x. ct_date (fst x))
     (join (\<lambda>t c. ct_cashboxId t = cb_id c) (filter (\<lambda>t. in_window from_day to_day (cash_day d t)) (cash_docs box d)) (Cashbox d))"

text \<open>\<open>catId = row.categoryId || 'uncategorized'\<close>, \<open>catName = row.categoryName || '...'\<close>\<close>

fun add_to_category :: "ident option \<Rightarrow> string \<Rightarrow> jsnum \<Rightarrow> category_total list \<Rightarrow> category_total list" where
  "add_to_category k name amt [] = [\<lparr>ca_id = k, ca_name = name, ca_amount = js_add 0 amt\<rparr>]"
| "add_to_category k name amt (c # cs) =
     (if ca_id c = k then c\<lparr>ca_amount := js_add (ca_amount c) amt\<rparr> # cs else c # add_to_category k name amt cs)"

definition enter_cash :: "db \<Rightarrow> cash_transaction \<times> cashbox \<Rightarrow> cashflow \<Rightarrow> cashflow" where
  "enter_cash d = (\<lambda>(t, box) f.
     let amt = js_number (ct_amount t);
         category = join_name tc_id tc_name (TransactionCategory d) (ct_categoryId t);
         name = (case non_empty category of None \<Rightarrow> no_category_label | Some n \<Rightarrow> n);
         income = (ct_type t = ''INCOME'');
         balance = (if income then js_add (cf_endBalance f) amt else js_sub (cf_endBalance f) amt)
     in f\<lparr>cf_endBalance := balance,
          cf_totalIncome := (if income then js_add (cf_totalIncome f) amt else cf_totalIncome f),
          cf_totalOutcome := (if income then cf_totalOutcome f else js_add (cf_totalOutcome f) amt),
          cf_incomesByCategory := (if income then add_to_category (ct_categoryId t) name amt (cf_incomesByCategory f)
            else cf_incomesByCategory f),
          cf_outcomesByCategory := (if income then cf_outcomesByCategory f
            else add_to_category (ct_categoryId t) name amt (cf_outcomesByCategory f)),
          cf_ledger := cf_ledger f @ [\<lparr>cw_row = t, cw_cashboxName = cb_name box, cw_categoryName = category,
            cw_counterpartyName = join_name cp_id cp_name (Counterparty d) (ct_counterpartyId t), cw_runningBalance = balance\<rparr>]\<rparr>)"

definition cashflow_report :: "ident option \<Rightarrow> int option \<Rightarrow> int option \<Rightarrow> db \<Rightarrow> cashflow" where
  "cashflow_report box from_day to_day d =
     (let start = (case from_day of None \<Rightarrow> 0
            | Some a \<Rightarrow> js_number (sum_of cash_opening (filter (\<lambda>t. before_day a (cash_day d t)) (cash_docs box d))));
          f = fold (enter_cash d) (cash_rows box from_day to_day d)
            \<lparr>cf_ledger = [], cf_endBalance = start, cf_startBalance = start, cf_totalIncome = 0, cf_totalOutcome = 0,
             cf_incomesByCategory = [], cf_outcomesByCategory = []\<rparr>
      in f\<lparr>cf_incomesByCategory := sort_key (\<lambda>c. - ca_amount c) (cf_incomesByCategory f),
           cf_outcomesByCategory := sort_key (\<lambda>c. - ca_amount c) (cf_outcomesByCategory f)\<rparr>)"

definition cashflow_route ::
  "(string \<Rightarrow> int option) \<Rightarrow> ident option \<Rightarrow> string option \<Rightarrow> string option \<Rightarrow> db \<Rightarrow> cashflow reply" where
  "cashflow_route pg_date cashboxId dateFrom dateTo d =
     catch_reply 200 (\<lambda>_. (500, Text ''Failed to generate cashflow report''))
       (rbind (read_param pg_date (non_empty dateFrom)) (\<lambda>a.
        rbind (read_param pg_date (non_empty dateTo)) (\<lambda>b. Inr (cashflow_report cashboxId a b d))))"

section \<open>The hierarchy of groups\<close>

definition parent_edges :: "counterparty_group list \<Rightarrow> (ident \<times> ident) set" where
  "parent_edges gs = {(p, cg_id g) | p g. g \<in> set gs \<and> cg_parentId g = Some p}"

lemma set_subgroups: "set (subgroups gs level) = parent_edges gs `` set level"
proof -
  have "k \<in> set (subgroups gs level) \<longleftrightarrow> (\<exists>g \<in> set gs. \<exists>p \<in> set level. cg_parentId g = Some p \<and> k = cg_id g)" for k
    by (auto simp: subgroups_def set_join image_iff)
  then show ?thesis unfolding parent_edges_def by blast
qed

lemma group_hierarchy_Nil: "group_hierarchy gs [] = Some []"
  by (subst group_hierarchy.simps) simp

lemma group_hierarchy_step:
  "level \<noteq> [] \<Longrightarrow> group_hierarchy gs level =
     Option.bind (group_hierarchy gs (subgroups gs level)) (\<lambda>rest. Some (level @ rest))"
  by (subst group_hierarchy.simps) simp

text \<open>Children are younger than their parents, so after as many rounds as there are keys no group is left.\<close>

lemma group_hierarchy_returns:
  assumes "\<forall>g \<in> set gs. cg_id g < m \<and> pred_option (\<lambda>p. p < cg_id g) (cg_parentId g)"
    and "\<forall>i \<in> set level. m \<le> i + n \<and> i < m"
  shows "\<exists>ids. group_hierarchy gs level = Some ids \<and> set ids = (parent_edges gs)\<^sup>* `` set level"
  using assms(2)
proof (induction n arbitrary: level)
  case 0
  then have "level = []" by (cases level) auto
  then show ?case by (simp add: group_hierarchy_Nil)
next
  case (Suc n)
  show ?case
  proof (cases "level = []")
    case False
    have "\<forall>i \<in> set (subgroups gs level). m \<le> i + n \<and> i < m"
    proof
      fix i assume "i \<in> set (subgroups gs level)"
      then obtain p g where g: "p \<in> set level" "g \<in> set gs" "cg_parentId g = Some p" "i = cg_id g"
        by (auto simp: set_subgroups parent_edges_def)
      then have "p < i" "i < m" using assms(1) by auto
      with Suc.prems g(1) show "m \<le> i + n \<and> i < m" by fastforce
    qed
    from Suc.IH[OF this] obtain rest where rest: "group_hierarchy gs (subgroups gs level) = Some rest"
      "set rest = (parent_edges gs)\<^sup>* `` (parent_edges gs `` set level)" by (auto simp: set_subgroups)
    have "(parent_edges gs)\<^sup>* `` set level = set level \<union> (parent_edges gs)\<^sup>* `` (parent_edges gs `` set level)"
      by (auto elim: converse_rtranclE intro: converse_rtrancl_into_rtrancl)
    with rest show ?thesis by (simp add: group_hierarchy_step[OF False])
  qed (simp add: group_hierarchy_Nil)
qed

text \<open>
  C29: the reconciliation of a group ends: in every database the reference-data requests lead to, the recursive
  query returns, and the members are exactly the counterparties of the group and of all groups below it.
\<close>

theorem group_report_returns:
  assumes "directory_ok d"
  shows "(\<exists>r. reconciliation tz pg_date c (Some i) from_day to_day d = Some r) \<and>
    (\<exists>ids. group_members i d = Some ids \<and> set ids = {cp_id c | c g. c \<in> set (Counterparty d) \<and> cp_groupId c = Some g \<and>
       i \<in> cg_id ` set (CounterpartyGroup d) \<and> (i, g) \<in> (parent_edges (CounterpartyGroup d))\<^sup>*})"
proof -
  let ?gs = "CounterpartyGroup d" and ?level = "filter (\<lambda>k. k = i) (map cg_id (CounterpartyGroup d))"
  have "\<forall>g \<in> set ?gs. cg_id g < next_uuid d \<and> pred_option (\<lambda>p. p < cg_id g) (cg_parentId g)"
    using assms by (force simp: directory_ok_def group_ok_def elim!: option.pred_mono_strong)
  moreover from this have "\<forall>k \<in> set ?level. next_uuid d \<le> k + next_uuid d \<and> k < next_uuid d" by auto
  ultimately obtain gs where gs: "group_hierarchy ?gs ?level = Some gs" "set gs = (parent_edges ?gs)\<^sup>* `` set ?level"
    using group_hierarchy_returns by blast
  let ?ids = "map cp_id (filter (\<lambda>c. case cp_groupId c of None \<Rightarrow> False | Some g \<Rightarrow> List.member gs g) (Counterparty d))"
  have members: "group_members i d = Some ?ids" by (simp add: group_members_def gs(1))
  moreover have "set ?ids = {cp_id c | c g. c \<in> set (Counterparty d) \<and> cp_groupId c = Some g \<and>
       i \<in> cg_id ` set ?gs \<and> (i, g) \<in> (parent_edges ?gs)\<^sup>*}"
  proof -
    have "g \<in> set gs \<longleftrightarrow> i \<in> cg_id ` set ?gs \<and> (i, g) \<in> (parent_edges ?gs)\<^sup>*" for g by (auto simp: gs(2))
    then have case_group: "(case cp_groupId c of None \<Rightarrow> False | Some g \<Rightarrow> List.member gs g) \<longleftrightarrow>
        (\<exists>g. cp_groupId c = Some g \<and> i \<in> cg_id ` set ?gs \<and> (i, g) \<in> (parent_edges ?gs)\<^sup>*)" for c
      by (cases "cp_groupId c") simp_all
    then have "set ?ids = cp_id ` {c \<in> set (Counterparty d). \<exists>g. cp_groupId c = Some g \<and> i \<in> cg_id ` set ?gs \<and>
        (i, g) \<in> (parent_edges ?gs)\<^sup>*}" by (simp only: set_map set_filter case_group)
    then show ?thesis by blast
  qed
  ultimately show ?thesis by (simp add: reconciliation_def Let_def)
qed

lemma empty_directory_ok: "directory_ok empty_db"
  by (simp add: directory_ok_def empty_db_def)

theorem group_report_returns_witness:
  "\<exists>ids. group_members 1000 (fold handle_directory [NewGroup (Some ''shops'') None, NewGroup (Some ''north'') (Some 1000)] empty_db) = Some ids"
proof -
  have "directory_ok (fold handle_directory [NewGroup (Some ''shops'') None, NewGroup (Some ''north'') (Some 1000)] empty_db)"
    using create_group_keeps[OF create_group_keeps[OF empty_directory_ok]] by simp
  from group_report_returns[OF this, of 0 "\<lambda>_. None" None 1000 None None] show ?thesis by blast
qed

section \<open>The statement of a counterparty\<close>

lemma enter_row_simps [simp]:
  "as_counterpartyId (enter_row x s) = as_counterpartyId s" "as_startBalance (enter_row x s) = as_startBalance s"
  "as_endBalance (enter_row x s) = js_add (as_endBalance s) (js_number (balance_change x))"
  by (simp_all add: enter_row_def Let_def)

text \<open>The loop over all rows treats every statement as a loop over its own rows.\<close>

lemma fold_enter_rows:
  "fold (\<lambda>x. map_where (\<lambda>s. ad_counterpartyId x = Some (as_counterpartyId s)) (enter_row x)) rows ss =
     map (\<lambda>s. fold enter_row (filter (\<lambda>x. ad_counterpartyId x = Some (as_counterpartyId s)) rows) s) ss"
  by (induction rows arbitrary: ss) (auto simp: map_where_def)

lemma fold_enter_row:
  "as_counterpartyId (fold enter_row rows s) = as_counterpartyId s \<and> as_startBalance (fold enter_row rows s) = as_startBalance s \<and>
   as_endBalance (fold enter_row rows s) = run_balance (as_endBalance s) (map balance_change rows) \<and>
   map le_doc (as_ledger (fold enter_row rows s)) = map le_doc (as_ledger s) @ rows"
  by (induction rows arbitrary: s) (simp_all add: enter_row_def Let_def)

definition docs_of :: "int \<times> ident \<Rightarrow> db \<Rightarrow> account_doc list" where
  "docs_of p d = filter (\<lambda>x. ad_counterpartyId x = Some (snd p)) (account_docs (fst p) d)"

lemma docs_of_wanted:
  assumes "c \<in> set ids"
  shows "filter (\<lambda>x. ad_counterpartyId x = Some c) (filter (\<lambda>x. wanted_doc ids x \<and> P x) (account_docs tz d)) = filter P (docs_of (tz, c) d)"
  using assms by (auto simp: docs_of_def wanted_doc_def intro!: filter_cong)

lemma inj_on_the: "None \<notin> A \<Longrightarrow> inj_on the A"
proof (rule inj_onI)
  fix x y assume "None \<notin> A" "x \<in> A" "y \<in> A" "the x = the y"
  then show "x = y" by (cases x; cases y) auto
qed

lemma start_balance_of:
  assumes "c \<in> set ids"
  shows "coalesce (map_of (start_balances tz ids (Some a) d) c) 0 =
    js_number (sum_of opening_change (filter (\<lambda>x. before_day a (local_day tz (ad_date x))) (docs_of (tz, c) d)))"
proof -
  let ?xs = "filter (\<lambda>x. wanted_doc ids x \<and> before_day a (local_day tz (ad_date x))) (account_docs tz d)"
  let ?g = "\<lambda>(k, docs). (the k, js_number (sum_of opening_change docs))"
  have mine: "filter (\<lambda>x. ad_counterpartyId x = Some c) ?xs = filter (\<lambda>x. before_day a (local_day tz (ad_date x))) (docs_of (tz, c) d)"
    by (rule docs_of_wanted[OF assms])
  have some: "\<exists>k. ad_counterpartyId x = Some k" if "x \<in> set ?xs" for x
    using that by (auto simp: wanted_doc_def split: option.splits)
  have keys: "set (map fst (group_by ad_counterpartyId ?xs)) = ad_counterpartyId ` set ?xs" by (simp add: group_by_def o_def)
  have none: "None \<notin> ad_counterpartyId ` set ?xs"
    by (auto simp: wanted_doc_def image_iff split: option.splits)
  have inj: "inj_on the (set (map fst (group_by ad_counterpartyId ?xs)))"
    unfolding keys by (rule inj_on_the[OF none])
  have "distinct (map fst (map ?g (group_by ad_counterpartyId ?xs)))"
  proof -
    have "map fst (map ?g (group_by ad_counterpartyId ?xs)) = map the (map fst (group_by ad_counterpartyId ?xs))"
      by (simp add: case_prod_unfold)
    then show ?thesis using inj distinct_group_by[of ad_counterpartyId ?xs] by (simp only: distinct_map)
  qed
  note unique = this
  show ?thesis
  proof (cases "Some c \<in> ad_counterpartyId ` set ?xs")
    case True
    then have "(Some c, filter (\<lambda>x. ad_counterpartyId x = Some c) ?xs) \<in> set (group_by ad_counterpartyId ?xs)"
      by (simp only: group_by_member)
    then have "(c, js_number (sum_of opening_change (filter (\<lambda>x. ad_counterpartyId x = Some c) ?xs))) \<in> set (map ?g (group_by ad_counterpartyId ?xs))"
      by force
    from map_of_is_SomeI[OF unique this] show ?thesis
      unfolding mine start_balances_def by (simp add: coalesce_def)
  next
    case False
    have "c \<notin> fst ` set (map ?g (group_by ad_counterpartyId ?xs))"
    proof
      assume "c \<in> fst ` set (map ?g (group_by ad_counterpartyId ?xs))"
      then obtain k docs where "(k, docs) \<in> set (group_by ad_counterpartyId ?xs)" "c = the k" by auto
      then obtain x where "x \<in> set ?xs" "ad_counterpartyId x = k" "c = the k" by (auto simp: group_by_member)
      with some[of x] False show False by force
    qed
    then have "map_of (map ?g (group_by ad_counterpartyId ?xs)) c = None" by (simp add: map_of_eq_None_iff)
    moreover have "filter (\<lambda>x. ad_counterpartyId x = Some c) ?xs = []" using False by (force simp: filter_empty_conv)
    ultimately show ?thesis unfolding mine[symmetric] start_balances_def by (simp add: coalesce_def js_number_def)
  qed
qed

section \<open>Reconciliation is exact to the cent\<close>

definition recon_ok :: "int \<times> ident \<Rightarrow> db \<Rightarrow> bool" where
  "recon_ok p d \<longleftrightarrow> list_all (\<lambda>x. on_grid 2 (ad_amount x)) (docs_of p d) \<and>
     cents_safe (length (docs_of p d)) (size_of (map balance_change (docs_of p d)))"

interpretation recon: account docs_of balance_change recon_ok
  by unfold_locales (auto simp: recon_ok_def list_all_iff balance_change_def split: account_kind.split)

text \<open>Every payment is an income or an outcome; the type is stored as it is sent.\<close>

definition kinds_known :: "account_doc list \<Rightarrow> bool" where
  "kinds_known = list_all (\<lambda>x. case ad_kind x of ACash t \<Rightarrow> t = ''INCOME'' \<or> t = ''OUTCOME'' | _ \<Rightarrow> True)"

lemma opening_is_balance:
  assumes "kinds_known xs"
  shows "sum_of opening_change (filter P xs) = sum_of balance_change (filter P xs)"
  by (rule sum_of_cong) (use assms in \<open>auto simp: kinds_known_def list_all_iff opening_change_def balance_change_def
      split: account_kind.splits\<close>)

lemma set_set_order [simp]: "set (set_order xs) = set xs" and distinct_set_order [simp]: "distinct (set_order xs)"
  by (simp_all add: set_order_def)

lemma statement_member:
  assumes "s \<in> set (statements tz ids a b d)"
  shows "as_counterpartyId s \<in> set ids" and
    "s = fold enter_row (filter (\<lambda>x. ad_counterpartyId x = Some (as_counterpartyId s)) (ledger_rows tz ids a b d))
       (new_statement (start_balances tz ids a d) (as_counterpartyId s))"
proof -
  obtain c where c: "c \<in> fst ` set (start_balances tz ids a d) \<or> c \<in> (\<lambda>x. the (ad_counterpartyId x)) ` set (ledger_rows tz ids a b d)"
    and s: "s = fold enter_row (filter (\<lambda>x. ad_counterpartyId x = Some (as_counterpartyId (new_statement (start_balances tz ids a d) c)))
       (ledger_rows tz ids a b d)) (new_statement (start_balances tz ids a d) c)"
    using assms by (auto simp: statements_def Let_def fold_enter_rows)
  have id: "as_counterpartyId (new_statement starts c) = c" for starts by (simp add: new_statement_def Let_def)
  then have "as_counterpartyId s = c" using s by (simp add: fold_enter_row)
  with s id show "s = fold enter_row (filter (\<lambda>x. ad_counterpartyId x = Some (as_counterpartyId s)) (ledger_rows tz ids a b d))
       (new_statement (start_balances tz ids a d) (as_counterpartyId s))" by simp
  have "c \<in> set ids"
    using c by (auto simp: start_balances_def ledger_rows_def wanted_doc_def group_by_def split: option.splits)
  with \<open>as_counterpartyId s = c\<close> show "as_counterpartyId s \<in> set ids" by simp
qed

text \<open>
  C10: the reconciliation is exact to the cent although JavaScript adds it up in binary64: the closing balance of a
  counterparty rounds to the sum of its documents up to the last day, whichever group it is reported with, and is
  the opening balance of the report that starts on the next day; the rows are the documents of the period.
\<close>

theorem reconciliation_closes_to_the_cent:
  assumes "s \<in> set (statements tz ids (Some a) (Some b) d)" and "a \<le> b + 1"
    and "recon_ok (tz, as_counterpartyId s) d" and "kinds_known (docs_of (tz, as_counterpartyId s) d)"
  shows "round_dec 2 (as_endBalance s) =
      sum_of balance_change (filter (\<lambda>x. before_day (b + 1) (local_day tz (ad_date x))) (docs_of (tz, as_counterpartyId s) d)) \<and>
    (\<forall>s' \<in> set (statements tz ids' (Some (b + 1)) z d). as_counterpartyId s' = as_counterpartyId s \<longrightarrow>
      round_dec 2 (as_startBalance s') = round_dec 2 (as_endBalance s)) \<and>
    map le_doc (as_ledger s) =
      sort_key ad_date (filter (\<lambda>x. in_days a b (local_day tz (ad_date x))) (docs_of (tz, as_counterpartyId s) d))"
proof -
  let ?c = "as_counterpartyId s" and ?day = "\<lambda>x. local_day tz (ad_date x)"
  let ?docs = "docs_of (tz, ?c) d"
  let ?rows = "filter (\<lambda>x. ad_counterpartyId x = Some ?c) (ledger_rows tz ids (Some a) (Some b) d)"
  note member = statement_member(1)[OF assms(1)] and s = statement_member(2)[OF assms(1)]
  have window: "in_window (Some a) (Some b) = in_days a b" by (rule ext) (simp add: in_window_def in_days_def)
  have rows: "?rows = sort_key ad_date (filter (\<lambda>x. in_days a b (?day x)) ?docs)"
    unfolding ledger_rows_def filter_sort docs_of_wanted[OF member] by (simp add: window)
  have start: "as_endBalance (new_statement (start_balances tz i (Some n) d) ?c) = js_number (sum_of balance_change (filter (\<lambda>x. before_day n (?day x)) ?docs)) \<and>
      as_startBalance (new_statement (start_balances tz i (Some n) d) ?c) = js_number (sum_of balance_change (filter (\<lambda>x. before_day n (?day x)) ?docs))"
    if "?c \<in> set i" for i n
    using start_balance_of[OF that, of tz n d] opening_is_balance[OF assms(4)] by (simp add: new_statement_def Let_def)
  have "as_endBalance s = run_balance (as_endBalance (new_statement (start_balances tz ids (Some a) d) ?c)) (map balance_change ?rows)"
    and ledger: "map le_doc (as_ledger s) = ?rows"
    by (subst s, simp add: fold_enter_row new_statement_def Let_def)+
  then have "as_endBalance s = run_balance (js_number (sum_of balance_change (filter (\<lambda>x. before_day a (?day x)) ?docs)))
      (map balance_change ?rows)" by (simp only: conjunct1[OF start[OF member]])
  moreover have "mset ?rows = mset (filter (\<lambda>x. in_days a b (?day x)) ?docs)" by (simp add: rows)
  then have "round_dec 2 (run_balance (js_number (sum_of balance_change (filter (\<lambda>x. before_day a (?day x)) ?docs)))
      (map balance_change ?rows)) = sum_of balance_change (filter (\<lambda>x. before_day a (?day x) \<or> in_days a b (?day x)) ?docs)"
    by (intro recon.closing_exact[OF assms(3)]) (auto simp: before_day_def in_days_def)
  moreover have "filter (\<lambda>x. before_day a (?day x) \<or> in_days a b (?day x)) ?docs = filter (\<lambda>x. before_day (b + 1) (?day x)) ?docs"
    by (rule filter_cong) (use assms(2) in \<open>auto simp: before_day_def in_days_def\<close>)
  ultimately have close: "round_dec 2 (as_endBalance s) = sum_of balance_change (filter (\<lambda>x. before_day (b + 1) (?day x)) ?docs)"
    by simp
  have "round_dec 2 (as_startBalance s') = round_dec 2 (as_endBalance s)"
    if s': "s' \<in> set (statements tz ids' (Some (b + 1)) z d)" "as_counterpartyId s' = ?c" for s'
  proof -
    have "as_startBalance s' = as_startBalance (new_statement (start_balances tz ids' (Some (b + 1)) d) ?c)"
      using statement_member(2)[OF s'(1)] s'(2) by (metis fold_enter_row)
    then show ?thesis using start[of ids'] statement_member(1)[OF s'(1)] s'(2) recon.opening_exact[OF assms(3)] close by simp
  qed
  with close ledger rows show ?thesis by simp
qed


definition account_db :: db where
  "account_db = empty_db\<lparr>
     Realization := [\<lparr>rl_id = 4, rl_number = ''S1'', rl_date = 30, rl_counterpartyId = Some 3,
        rl_warehouseId = Some 7, rl_status = POSTED, rl_amount = 100, rl_currency = ''UAH'', rl_comment = None,
        rl_salesType = None, rl_orderId = None, rl_profit = 4, rl_paidAmount = 40, rl_createdBy = None,
        rl_isDeleted = False, rl_createdAt = 30, rl_updatedAt = 30\<rparr>],
     Cashbox := [\<lparr>cb_id = 8, cb_name = ''main'', cb_type = ''CASH'', cb_currency = ''UAH'', cb_organizationId = None\<rparr>],
     CashTransaction := [\<lparr>ct_id = 5, ct_date = 40, ct_number = ''T1'', ct_type = ''INCOME'', ct_cashboxId = 8, ct_amount = 40,
        ct_categoryId = None, ct_counterpartyId = Some 3, ct_comment = None, ct_createdBy = None, ct_isDeleted = False\<rparr>,
       \<lparr>ct_id = 6, ct_date = 50, ct_number = ''T2'', ct_type = ''OUTCOME'', ct_cashboxId = 8, ct_amount = 15,
        ct_categoryId = None, ct_counterpartyId = None, ct_comment = None, ct_createdBy = None, ct_isDeleted = False\<rparr>]\<rparr>"

lemma statement_ids: "map as_counterpartyId (statements tz ids a b d) =
    set_order (map fst (start_balances tz ids a d) @ map (\<lambda>x. the (ad_counterpartyId x)) (ledger_rows tz ids a b d))"
  by (simp add: statements_def Let_def fold_enter_rows fold_enter_row new_statement_def o_def)

lemmas account_eval = account_docs_def account_db_def empty_db_def wanted_doc_def in_window_def in_days_def before_day_def
  local_day_def wall_instant_def ms_per_day_def balance_change_def

lemma account_db_docs:
  "map ad_id (docs_of (0, 3) account_db) = [4, 5]" "map ad_date (docs_of (0, 3) account_db) = [30, 40]"
  "map balance_change (docs_of (0, 3) account_db) = [100, - 40]"
  "recon_ok (0, 3) account_db" "kinds_known (docs_of (0, 3) account_db)"
  by (simp_all add: docs_of_def recon_ok_def cents_safe_def kinds_known_def account_eval)

theorem reconciliation_closes_to_the_cent_witness:
  "\<exists>s \<in> set (statements 0 [3] (Some 0) (Some 0) account_db). as_counterpartyId s = 3 \<and> round_dec 2 (as_endBalance s) = 60 \<and>
     map (\<lambda>e. ad_id (le_doc e)) (as_ledger s) = [4, 5]"
proof -
  have "map as_counterpartyId (statements 0 [3] (Some 0) (Some 0) account_db) = [3]"
    by (simp add: statement_ids start_balances_def ledger_rows_def group_by_def set_order_def account_eval)
  then obtain s where s: "s \<in> set (statements 0 [3] (Some 0) (Some 0) account_db)" "as_counterpartyId s = 3" by force
  obtain x y where docs: "docs_of (0, 3) account_db = [x, y]" "ad_id x = 4" "ad_id y = 5" "ad_date x = 30" "ad_date y = 40"
    "balance_change x = 100" "balance_change y = - 40"
    using account_db_docs(1-3) by (auto simp: map_eq_Cons_conv)
  from reconciliation_closes_to_the_cent[OF s(1), unfolded s(2), OF _ account_db_docs(4,5)]
  have "round_dec 2 (as_endBalance s) = 60" and "map le_doc (as_ledger s) = [x, y]"
    using docs by (simp_all add: before_day_def in_days_def local_day_def ms_per_day_def)
  then have "map ad_id (map le_doc (as_ledger s)) = [4, 5]" using docs by simp
  with s \<open>round_dec 2 (as_endBalance s) = 60\<close> show ?thesis by (auto simp: o_def)
qed

section \<open>The cash flow is exact to the cent\<close>

definition cash_change :: "cash_transaction \<Rightarrow> decimal" where
  "cash_change t = (if ct_type t = ''INCOME'' then ct_amount t else - ct_amount t)"

definition cash_ok :: "ident option \<Rightarrow> db \<Rightarrow> bool" where
  "cash_ok box d \<longleftrightarrow> list_all (\<lambda>t. on_grid 2 (ct_amount t)) (cash_docs box d) \<and>
     cents_safe (length (cash_docs box d)) (size_of (map cash_change (cash_docs box d)))"

definition incomes :: "ident option \<Rightarrow> db \<Rightarrow> cash_transaction list" where
  "incomes box d = filter (\<lambda>t. ct_type t = ''INCOME'') (cash_docs box d)"

definition outcomes :: "ident option \<Rightarrow> db \<Rightarrow> cash_transaction list" where
  "outcomes box d = filter (\<lambda>t. ct_type t \<noteq> ''INCOME'') (cash_docs box d)"

interpretation cash: account cash_docs cash_change cash_ok
  by unfold_locales (auto simp: cash_ok_def list_all_iff cash_change_def)

lemma size_of_part: "size_of (map ct_amount (filter P ts)) \<le> size_of (map cash_change ts)"
  by (induction ts) (auto simp: cash_change_def add_increasing)

lemma cents_safe_part:
  assumes "cents_safe (length ts) (size_of (map cash_change ts))"
  shows "cents_safe (length (filter P ts)) (size_of (map ct_amount (filter P ts)))"
  using assms size_of_part[of P ts] by (auto elim: cents_safe_mono simp: size_of_nonneg)

interpretation cash_in: account incomes ct_amount cash_ok
  by unfold_locales (auto simp: cash_ok_def list_all_iff incomes_def intro: cents_safe_part)

interpretation cash_out: account outcomes ct_amount cash_ok
  by unfold_locales (auto simp: cash_ok_def list_all_iff outcomes_def intro: cents_safe_part)

lemma enter_cash_simps [simp]:
  "cf_startBalance (enter_cash d x f) = cf_startBalance f"
  "cf_endBalance (enter_cash d x f) = js_add (cf_endBalance f) (js_number (cash_change (fst x)))"
  "cf_totalIncome (enter_cash d x f) =
     (if ct_type (fst x) = ''INCOME'' then js_add (cf_totalIncome f) (js_number (ct_amount (fst x))) else cf_totalIncome f)"
  "cf_totalOutcome (enter_cash d x f) =
     (if ct_type (fst x) = ''INCOME'' then cf_totalOutcome f else js_add (cf_totalOutcome f) (js_number (ct_amount (fst x))))"
  by (simp_all add: enter_cash_def Let_def case_prod_beta cash_change_def js_sub_number)

lemma fold_enter_cash:
  "cf_startBalance (fold (enter_cash d) xs f) = cf_startBalance f"
  "cf_endBalance (fold (enter_cash d) xs f) = run_balance (cf_endBalance f) (map cash_change (map fst xs))"
  "cf_totalIncome (fold (enter_cash d) xs f) =
     run_balance (cf_totalIncome f) (map ct_amount (filter (\<lambda>t. ct_type t = ''INCOME'') (map fst xs)))"
  "cf_totalOutcome (fold (enter_cash d) xs f) =
     run_balance (cf_totalOutcome f) (map ct_amount (filter (\<lambda>t. ct_type t \<noteq> ''INCOME'') (map fst xs)))"
  by (induction xs arbitrary: f) simp_all

definition cash_opening_of :: "ident option \<Rightarrow> int option \<Rightarrow> db \<Rightarrow> jsnum" where
  "cash_opening_of box from_day d = (case from_day of None \<Rightarrow> 0
     | Some a \<Rightarrow> js_number (sum_of cash_opening (filter (\<lambda>t. before_day a (cash_day d t)) (cash_docs box d))))"

lemma cashflow_report_eq:
  "cf_startBalance (cashflow_report box a b d) = cash_opening_of box a d"
  "cf_endBalance (cashflow_report box a b d) =
     run_balance (cash_opening_of box a d) (map cash_change (map fst (cash_rows box a b d)))"
  "cf_totalIncome (cashflow_report box a b d) =
     run_balance 0 (map ct_amount (filter (\<lambda>t. ct_type t = ''INCOME'') (map fst (cash_rows box a b d))))"
  "cf_totalOutcome (cashflow_report box a b d) =
     run_balance 0 (map ct_amount (filter (\<lambda>t. ct_type t \<noteq> ''INCOME'') (map fst (cash_rows box a b d))))"
  by (simp_all add: cashflow_report_def Let_def cash_opening_of_def fold_enter_cash)

text \<open>Every transaction names an existing cashbox, so the join keeps it.\<close>

definition cashboxes_known :: "db \<Rightarrow> bool" where
  "cashboxes_known d \<longleftrightarrow> distinct (map cb_id (Cashbox d)) \<and> list_all (\<lambda>t. List.member (map cb_id (Cashbox d)) (ct_cashboxId t)) (CashTransaction d)"

lemma mset_cash_rows:
  assumes "cashboxes_known d"
  shows "mset (map fst (cash_rows box a b d)) = mset (filter (\<lambda>t. in_window a b (cash_day d t)) (cash_docs box d))"
proof -
  have "map fst (join (\<lambda>t c. ct_cashboxId t = cb_id c) (filter (\<lambda>t. in_window a b (cash_day d t)) (cash_docs box d)) (Cashbox d)) =
      filter (\<lambda>t. in_window a b (cash_day d t)) (cash_docs box d)"
    using assms by (subst join_on_key) (auto simp: cashboxes_known_def list_all_iff cash_docs_def intro!: filter_cong)
  moreover have "mset (map fst (cash_rows box a b d)) =
      mset (map fst (join (\<lambda>t c. ct_cashboxId t = cb_id c) (filter (\<lambda>t. in_window a b (cash_day d t)) (cash_docs box d)) (Cashbox d)))"
    by (simp only: cash_rows_def mset_map mset_sort)
  ultimately show ?thesis by simp
qed


definition cash_kinds_known :: "db \<Rightarrow> bool" where
  "cash_kinds_known d \<longleftrightarrow> list_all (\<lambda>t. ct_type t = ''INCOME'' \<or> ct_type t = ''OUTCOME'') (CashTransaction d)"

lemma cash_opening_change:
  assumes "cash_kinds_known d"
  shows "sum_of cash_opening (filter P (cash_docs box d)) = sum_of cash_change (filter P (cash_docs box d))"
  by (rule sum_of_cong) (use assms in \<open>auto simp: cash_kinds_known_def cash_docs_def list_all_iff cash_opening_def cash_change_def\<close>)

lemma run_balance_total:
  assumes "round_dec 2 (run_balance (js_number (sum_of f (filter (\<lambda>_. False) xs))) ys) = sum_of f (filter (\<lambda>r. False \<or> P r) xs)"
  shows "round_dec 2 (run_balance 0 ys) = sum_of f (filter P xs)"
  using assms by (simp add: js_number_def)

definition cash_in_days :: "ident option \<Rightarrow> int \<Rightarrow> int \<Rightarrow> db \<Rightarrow> cash_transaction list" where
  "cash_in_days box a b d = filter (\<lambda>t. in_days a b (cash_day d t)) (cash_docs box d)"

text \<open>
  C22: the cash flow of a cashbox, or of all of them, is exact to the cent although JavaScript adds it up in binary64:
  the closing balance rounds to the incomes less the outcomes up to the last day, it is the opening balance of the
  report that starts on the next day, and the totals round to the incomes and to the outcomes of the period.
\<close>

theorem cashflow_closes_to_the_cent:
  assumes "a \<le> b + 1" and "cash_ok box d" and "cash_kinds_known d" and "cashboxes_known d"
  shows "round_dec 2 (cf_endBalance (cashflow_report box (Some a) (Some b) d)) =
      sum_of cash_change (filter (\<lambda>t. before_day (b + 1) (cash_day d t)) (cash_docs box d)) \<and>
    round_dec 2 (cf_startBalance (cashflow_report box (Some (b + 1)) z d)) =
      round_dec 2 (cf_endBalance (cashflow_report box (Some a) (Some b) d)) \<and>
    round_dec 2 (cf_totalIncome (cashflow_report box (Some a) (Some b) d)) =
      sum_of ct_amount (filter (\<lambda>t. ct_type t = ''INCOME'') (cash_in_days box a b d)) \<and>
    round_dec 2 (cf_totalOutcome (cashflow_report box (Some a) (Some b) d)) =
      sum_of ct_amount (filter (\<lambda>t. ct_type t \<noteq> ''INCOME'') (cash_in_days box a b d))"
proof -
  let ?rows = "map fst (cash_rows box (Some a) (Some b) d)" and ?day = "cash_day d"
  have window: "in_window (Some a) (Some b) = in_days a b" by (rule ext) (simp add: in_window_def in_days_def)
  have rows: "mset ?rows = mset (cash_in_days box a b d)" unfolding mset_cash_rows[OF assms(4)] window cash_in_days_def ..
  have start: "cash_opening_of box (Some n) d = js_number (sum_of cash_change (filter (\<lambda>t. before_day n (?day t)) (cash_docs box d)))" for n
    by (simp add: cash_opening_of_def cash_opening_change[OF assms(3)])
  have "round_dec 2 (run_balance (cash_opening_of box (Some a) d) (map cash_change ?rows)) =
      sum_of cash_change (filter (\<lambda>t. before_day a (?day t) \<or> in_days a b (?day t)) (cash_docs box d))"
    unfolding start
    by (intro cash.closing_exact[OF assms(2)]) (auto simp: rows cash_in_days_def before_day_def in_days_def simp del: mset_map)
  also have "filter (\<lambda>t. before_day a (?day t) \<or> in_days a b (?day t)) (cash_docs box d) =
      filter (\<lambda>t. before_day (b + 1) (?day t)) (cash_docs box d)"
    by (rule filter_cong) (use assms(1) in \<open>auto simp: before_day_def in_days_def\<close>)
  finally have close: "round_dec 2 (cf_endBalance (cashflow_report box (Some a) (Some b) d)) =
      sum_of cash_change (filter (\<lambda>t. before_day (b + 1) (?day t)) (cash_docs box d))" unfolding cashflow_report_eq .
  moreover have "round_dec 2 (cf_startBalance (cashflow_report box (Some (b + 1)) z d)) =
      sum_of cash_change (filter (\<lambda>t. before_day (b + 1) (?day t)) (cash_docs box d))"
    unfolding cashflow_report_eq start by (rule cash.opening_exact[OF assms(2)])
  moreover have "mset (filter P ?rows) = mset (filter P (cash_in_days box a b d))" for P by (metis mset_filter rows)
  then have "round_dec 2 (run_balance 0 (map ct_amount (filter (\<lambda>t. ct_type t = ''INCOME'') ?rows))) =
      sum_of ct_amount (filter (\<lambda>t. in_days a b (?day t)) (incomes box d))"
    and "round_dec 2 (run_balance 0 (map ct_amount (filter (\<lambda>t. ct_type t \<noteq> ''INCOME'') ?rows))) =
      sum_of ct_amount (filter (\<lambda>t. in_days a b (?day t)) (outcomes box d))"
    by (intro run_balance_total cash_in.closing_exact[OF assms(2)] cash_out.closing_exact[OF assms(2)];
        simp add: cash_in_days_def incomes_def outcomes_def conj_commute)+
  ultimately show ?thesis
    unfolding cashflow_report_eq(3,4) cash_in_days_def incomes_def outcomes_def by (simp add: conj_commute)
qed

theorem cashflow_closes_to_the_cent_witness:
  "round_dec 2 (cf_endBalance (cashflow_report (Some 8) (Some 0) (Some 0) account_db)) = 25 \<and>
   round_dec 2 (cf_startBalance (cashflow_report (Some 8) (Some 1) None account_db)) = 25 \<and>
   round_dec 2 (cf_totalIncome (cashflow_report (Some 8) (Some 0) (Some 0) account_db)) = 40"
proof -
  note eval = account_eval cash_docs_def of_cashbox_def cash_change_def cash_day_def cash_in_days_def
  have ok: "cash_ok (Some 8) account_db" "cash_kinds_known account_db" "cashboxes_known account_db"
    by (simp_all add: cash_ok_def cents_safe_def cash_kinds_known_def cashboxes_known_def eval)
  have "sum_of cash_change (filter (\<lambda>t. before_day (0 + 1) (cash_day account_db t)) (cash_docs (Some 8) account_db)) = 25"
    "sum_of ct_amount (filter (\<lambda>t. ct_type t = ''INCOME'')
       (cash_in_days (Some 8) 0 0 account_db)) = 40"
    by (simp_all add: eval)
  with cashflow_closes_to_the_cent[of 0 0, OF _ ok, of None] show ?thesis by simp
qed

end
