(* ===== verification/Spec2Isabelle.thy ===== *)
theory Spec2Isabelle
  imports DocumentControllers DocumentLife PaymentLedger Server Planning Maintenance SetupScripts Restart SalesReports FinanceReports
begin

text \<open>
  RemoteOrder-server: verification of the order, stock and payment server.

  The program. An Express server over one PostgreSQL database. Goods receipts, realizations (sales), supplier
  returns and buyer returns are documents that are drafted, posted and unposted; posting moves stock, which is
  kept as batches and sold first in, first out. Price documents set the prices of products, cash transactions
  pay documents, a bulk job unposts and posts documents again in the order of their dates, and mobile clients
  synchronise their orders, which the staff edit, plan for collection and turn into sales. Reports add up stock,
  sales, the accounts of the counterparties and the cash. Middleware decides who a request comes from and whether it passes the lock.

  Theories and sources.
  \<^item> Prelude: the error monad (\<open>rbind\<close>), loops that change a state or throw (\<open>for_each\<close>) with their invariant
    rules, and tables as lists of rows (\<open>find_row\<close>, \<open>map_where\<close>).
  \<^item> JsNumber: binary64 arithmetic as rounding of exact rationals (\<open>fl\<close>), \<open>Number.prototype.toString\<close>
    (\<open>js_text\<close>, 17 digits of fuel: a double is printed with at most 17), rounding of DECIMAL columns
    (\<open>round_dec\<close>), and the error bounds the loops need.
  \<^item> Database, Statements: the rows and the state (the tables of \<open>src/migrate_*.ts\<close>, \<open>src/seed.ts\<close>,
    \<open>src/migrations\<close>, \<open>init_orders_schema.mjs\<close>), errors, statement forms with their constraints and
    cascades, and \<open>transaction\<close> (BEGIN, COMMIT, ROLLBACK).
  \<^item> DocNumber: \<open>src/utils/docNumberGenerator.ts\<close>, with the calendar of \<open>Date\<close>.
  \<^item> Inventory: \<open>src/services/inventoryService.ts\<close>, addStock, deductStock, returnStock.
  \<^item> GoodsReceiptService: \<open>src/services/goodsReceiptService.ts\<close>.
  \<^item> Outgoing: the contract of the documents that issue stock (locale), interpreted in RealizationService and
    SupplierReturnService.
  \<^item> RealizationService, RealizationRoutes: \<open>src/services/realizationService.ts\<close>, \<open>src/routes/realization.ts\<close>.
  \<^item> SupplierReturnService, BuyerReturnService: \<open>src/services/supplierReturnService.ts\<close> and
    \<open>src/services/buyerReturnService.ts\<close>.
  \<^item> Http, DocumentControllers: replies, the warehouse rule, and \<open>src/controllers\<close> of receipts, returns and
    inventory.
  \<^item> Prices: \<open>src/services/priceService.ts\<close>, \<open>src/services/priceDocumentService.ts\<close>, and the controllers of
    prices and price documents.
  \<^item> Finance, PaymentLedger: \<open>src/routes/finance.ts\<close>, and the ledger it promises.
  \<^item> Reposting: \<open>src/services/documentRepostingService.ts\<close>, \<open>src/routes/repost.ts\<close>.
  \<^item> Auth: \<open>src/middleware/auth.ts\<close>, \<open>src/routes/auth.ts\<close>, \<open>src/routes/users.ts\<close>.
  \<^item> DocumentLedger, DocumentLife: the four kinds of documents and the bulk job together, as sequences of requests
    (\<open>document_op\<close>, \<open>apply_op\<close>) on one invariant of the stock, its links and its documents (\<open>ledger\<close>). The documents
    that bring goods in share a contract (locale \<open>incoming\<close>), interpreted on the receipts, on the buyer returns and on
    the edits of posted receipts.
  \<^item> Server: \<open>src/middleware/lockMiddleware.ts\<close> and the chain of \<open>src/index.ts\<close> from the static files to the
    catch-all route (\<open>serve\<close>).
  \<^item> Sync: \<open>src/routes/sync.ts\<close>, \<open>src/utils/productTransformer.ts\<close>.
  \<^item> OrderAdmin, ProductAdmin: the orders and the products of \<open>src/routes/admin.ts\<close>.
  \<^item> Directory: \<open>src/routes/counterparties.ts\<close>, \<open>organization.ts\<close> and \<open>priceTypes.ts\<close>.
  \<^item> Queries: the forms of the report queries (joins, GROUP BY, sums, windows of days), with the lemmas on sums
    over groups that the reports share.
  \<^item> Planning: \<open>src/routes/collection-schedule.ts\<close>, \<open>src/routes/picking-list.ts\<close>.
  \<^item> StockReports, SalesReports, FinanceReports: \<open>src/routes/reports.ts\<close>. StockLedger relates the stock report to the
    services that post documents; Accounts is the contract of a running balance (locale), interpreted on the
    ledger of a counterparty and on the transactions of a cashbox.
  \<^item> Maintenance: the rows that the migrations of the start-up (\<open>start\<close> in \<open>src/index.ts\<close>), the seeding scripts and
    the two repair scripts write. SetupScripts: \<open>src/seed.ts\<close>, \<open>src/migrate_users.ts\<close> and the flow test
    \<open>check_price_document_flow.ts\<close>.
  \<^item> Schema, Migrations, Restart: tables, columns and the statements that create and alter them (\<open>execute\<close>), scripts as values
    (\<open>script\<close>, \<open>play\<close>), a contract of what a script keeps (locale \<open>script_invariant\<close>), and the schema scripts and the
    seventeen migrations of \<open>start\<close>, statement by statement.

  How the state and the operations correspond. The state \<open>db\<close> has one list of rows per table, a supply of
  identifiers and the clock of the request. An operation is a function from its parameters and the state to
  \<open>error + result \<times> db\<close>; every \<open>throw\<close> and every failing statement is an error value, a service with a bracket of
  its own is \<open>transaction\<close> of its body, and a handler adds the status code and the body of the answer. Rows
  are kept in an order that ORDER BY sorts stably, so that the theorems hold for every order the server may
  return. Logging and connection handling are not part of the state.

  What the lemmas show.
  \<^item> Stock: the binary64 loop of deductStock is the exact first-in-first-out allocation (refinement), touches a
    batch only when the older ones are used up, refuses a short stock and accepts an ample one. With a stock
    exactly equal to the request it can fail.
  \<^item> Documents: what posting does to the stock, that unposting undoes it, that a receipt with sold goods cannot
    be unposted, that editing a posted receipt keeps what was sold and holds the new quantities. Over sequences of requests that
    create, edit, delete, post, unpost and repost documents no batch is oversold, and the stock report follows the
    documents. The sequences assume what no handler checks (\<open>op_ready\<close>): quantities that are not negative, posted
    receipts with one batch per product edited with each product named once, and at most \<open>max_batches\<close> batches; the
    report also that every document is dated by its day.
  \<^item> Prices: the prices after applying a document, and the journal as a chain.
  \<^item> Payments: every paid amount is the sum of its allocations, under all three handlers; an income pays the
    oldest debts, exactly; deleting a transaction takes it back.
  \<^item> Reposting: a successful run sets exactly the selected statuses, a REPOST keeps them all, a failing run changes
    nothing; a run that is alone is the function \<open>repost_run\<close> (refinement of the step relation), every run ends;
    the lock does not exclude a second run.
  \<^item> Access: the row of the user decides, and the handlers that ask for it hold the user to the warehouse of the row
    (in this theory, over the realizations, receipts and orders); the matcher is the UUID pattern; the order of the
    mounts puts adminAuth before most routers and before the answer that an endpoint under \<open>/api\<close> does not exist; the
    emergency reset opens the administrator's account.
  \<^item> Synchronisation: what a push does to orders, items and log, who may delete, and that one failing statement
    undoes a full synchronisation.
  \<^item> Orders and products: the two copies of the items of an order agree under every request of the staff (and
    not after an edit pushed by a mobile client); an edit without prices empties the prices; repeating an edit
    adds no journal row.
  \<^item> Reference data: what the routes of the counterparties store is what was sent, and deleting leaves the list as it was;
    slugs, column widths and references stay consistent under every request, and the groups stay a forest.
  \<^item> Planning: the week view, the summary of a day and the picking list add up to the same orders.
  \<^item> Reports: the stock report is what is left in the batches (refinement, over every sequence of postings), the
    two stock reports agree, the two sales reports agree, the recursive group query ends, and the balances of the
    reconciliation and of the cash flow are exact to the cent although they are added up in binary64.
  \<^item> Start-up: starting again changes nothing, all stock that came with a document becomes available (and no other), the ledger of the stock holds; the
    seedings run once; setting stock to zero by hand breaks the ledger. The seeding orphans the stock, the
    migration of the users leaves accounts with known passwords, the flow test keeps its test price.
  \<^item> Schema: a start keeps every column but a named few, needs a column it never adds, and leaves the columns that its
    migrations without a catch add; once no migration fails, the next start changes
    nothing (no statement of the start disturbs another); integer quantities of the batches stay once those of the
    orders are decimal; seeding drops the
    references to the products.

  Bounds. The refinement of deductStock assumes at most 100000 batches for one deduction (\<open>max_batches\<close>, with
  the rounding error \<open>js_eps\<close> per step below a thousandth in total), the one of the payments at most 50000
  unpaid documents (\<open>max_documents\<close>, \<open>pay_eps\<close>, below a hundredth), the running balances a number of rows times
  turnover below \<open>2^45\<close> (\<open>cents_safe\<close>). All are beyond what one product, counterparty or cashbox can have in this
  system. The group query is a partial function, and its termination a theorem.

  Parameters. \<open>verify\<close>, \<open>sign\<close>, \<open>hash\<close>, \<open>compare\<close> stand for jsonwebtoken and bcrypt (assumed where needed: a
  signed token verifies to its payload, a password compares with its hash), \<open>matches\<close> for the path matching of
  Express, \<open>collate\<close> for the collation of ORDER BY on names, \<open>found\<close> for ILIKE, \<open>pg_date\<close> for the dates PostgreSQL
  accepts, \<open>tz\<close> for the time zone of the session, \<open>divide_numeric\<close> for the scale of a NUMERIC quotient, \<open>locale_date\<close>
  for toLocaleDateString, \<open>has_require\<close> for whether the module system defines \<open>require\<close>, and
  \<open>casts\<close> for whether the values of a column can be cast to a new type.

  Not modelled. The schema (Schema, Migrations) and the rows (Database) are modelled side by side: the records name the
  columns that the handlers use, and what a statement of a script does to stored values is in Maintenance and
  SetupScripts. The source data of \<open>seed.ts\<close> (\<open>src/data/products.ts\<close>) is an argument; the debugging scripts print queries. File uploads, the
  contents of static files, the log stream of reposting and the connection pool with its shutdown are input and
  output; \<open>client_dist\<close> is a generated bundle. Time stamps have the resolution of a
  JavaScript Date.
\<close>

section \<open>Across components: a user is held to the warehouse of the row\<close>



end
